(* ===== verification/Prelude.thy ===== *)
theory Prelude
  imports Main "HOL-Library.Word" "HOL-Library.AList"
begin

text \<open>
  Shared vocabulary of the development: the machine integers of the Rust sources, the
  clock, the collections of simplification rules that the component theories extend, and
  the generic list lemmas several components need.

  Timestamps (\<^verbatim>\<open>chrono::DateTime<Utc>\<close>) are integers counting nanoseconds, and a
  \<^verbatim>\<open>chrono::Duration\<close> is an integer number of nanoseconds; a \<^verbatim>\<open>std::time::Duration\<close>
  is a natural number of nanoseconds. The overflow panics of chrono at the ends of its
  calendar (about 262,000 years) are outside the model.
\<close>

named_theorems model_defs \<open>unfolding rules of the non-recursive model definitions\<close>
named_theorems invs \<open>definitions of the component invariants\<close>

type_synonym u8 = "8 word"
type_synonym u16 = "16 word"
type_synonym u32 = "32 word"
type_synonym u64 = "64 word"

type_synonym uuid = nat
type_synonym timestamp = int
type_synonym duration = int

abbreviation nanos_per_sec :: int where
  "nanos_per_sec \<equiv> 1000000000"

definition seconds :: "int \<Rightarrow> duration" where
  "seconds n = n * nanos_per_sec"

text \<open>
  \<^verbatim>\<open>chrono::Duration::num_seconds\<close> counts whole seconds, truncating towards zero.
\<close>

definition num_seconds :: "duration \<Rightarrow> int" where
  "num_seconds d = (if 0 \<le> d then d div nanos_per_sec else - ((- d) div nanos_per_sec))"

definition num_milliseconds :: "duration \<Rightarrow> int" where
  "num_milliseconds d = (if 0 \<le> d then d div 1000000 else - ((- d) div 1000000))"

lemma int_div_le_iff:
  assumes "0 < (k :: int)"
  shows "d div k \<le> m \<longleftrightarrow> d < (m + 1) * k"
proof -
  have "(d + (- (m + 1)) * k) div k = - (m + 1) + d div k" using assms by (intro div_mult_self1) simp
  then show ?thesis using pos_imp_zdiv_neg_iff [OF assms, of "d + (- (m + 1)) * k"] by linarith
qed

lemma num_seconds_nonneg_iff: "0 \<le> num_seconds d \<longleftrightarrow> - nanos_per_sec < d"
  by (auto simp: num_seconds_def)

lemma num_seconds_mono: "a \<le> b \<Longrightarrow> num_seconds a \<le> num_seconds b"
proof -
  assume ab: "a \<le> b"
  consider "0 \<le> a" | "a < 0" "0 \<le> b" | "b < 0" using ab by linarith
  then show ?thesis
  proof cases
    case 1
    with ab show ?thesis by (simp add: num_seconds_def zdiv_mono1)
  next
    case 2
    then have "0 \<le> (- a) div nanos_per_sec" "0 \<le> b div nanos_per_sec" by auto
    with 2 show ?thesis by (simp add: num_seconds_def)
  next
    case 3
    with ab show ?thesis by (simp add: num_seconds_def zdiv_mono1)
  qed
qed

lemma num_seconds_seconds [simp]: "num_seconds (seconds n) = n"
proof -
  have "(- (n * nanos_per_sec)) div nanos_per_sec = - n"
    by (metis mult_minus_left nonzero_mult_div_cancel_right zero_neq_numeral)
  then show ?thesis by (simp add: num_seconds_def seconds_def)
qed

subsection \<open>Lists\<close>

lemma count_list_filter_neq: "count_list (filter (\<lambda>y. y \<noteq> a) xs) b = (if a = b then 0 else count_list xs b)"
  by (induction xs) auto

lemma count_list_0_iff_notin: "count_list xs x = 0 \<longleftrightarrow> x \<notin> set xs"
  by (induction xs) auto

lemma count_list_pos_iff: "0 < count_list xs x \<longleftrightarrow> x \<in> set xs"
  by (metis count_list_0_iff_notin neq0_conv)

lemma count_list_replicate [simp]: "count_list (replicate n x) y = (if x = y then n else 0)"
  by (induction n) auto

lemma filter_neq_notin [simp]: "a \<notin> set xs \<Longrightarrow> filter (\<lambda>y. y \<noteq> a) xs = xs"
  by (induction xs) auto

lemma set_last_butlast: "xs \<noteq> [] \<Longrightarrow> set xs = insert (last xs) (set (butlast xs))"
  by (metis append_butlast_last_id list.set(2) rotate1.simps(2) set_rotate1)

subsection \<open>Words\<close>

lemma unat_of_nat_small: "n < 2 ^ LENGTH('a) \<Longrightarrow> unat (of_nat n :: 'a :: len word) = n"
  by (simp add: unat_of_nat)

lemma unat_minus_1: "unat (- 1 :: 'a :: len word) = 2 ^ LENGTH('a) - 1"
  by (simp add: unsigned_minus_1_eq_mask mask_eq_exp_minus_1)

lemma unat_min: "unat (min a b) = min (unat a) (unat (b :: 'a :: len word))"
  by (simp add: min_def word_le_nat_alt)

lemma unat_ucast_up_u32: "unat (ucast (x :: u32) :: u64) = unat x"
  using unsigned_less [of x, where 'a = nat] by (simp add: unsigned_ucast_eq take_bit_nat_eq_self)

lemma unat_ucast_up_u8: "unat (ucast (x :: u8) :: u32) = unat x"
  using unsigned_less [of x, where 'a = nat] by (simp add: unsigned_ucast_eq take_bit_nat_eq_self)

lemma unat_u8_less: "unat (x :: u8) < 256"
  using unsigned_less [of x, where 'a = nat] by simp

lemma unat_u32_less: "unat (x :: u32) < 2 ^ 32"
  using unsigned_less [of x, where 'a = nat] by simp

lemma find_SomeD: "find P xs = Some x \<Longrightarrow> x \<in> set xs \<and> P x"
  by (induction xs) (auto split: if_splits)

lemma find_append: "find P (xs @ ys) = (case find P xs of Some x \<Rightarrow> Some x | None \<Rightarrow> find P ys)"
  by (induction xs) auto

end
