(* ===== verification/Rust_Strings.thy ===== *)
theory Rust_Strings
  imports Prelude
begin

text \<open>
  The operations of \<^verbatim>\<open>str\<close> the sources use, on ASCII strings: \<open>trim\<close>,
  \<open>to_lowercase\<close>, \<open>find\<close>, \<open>contains\<close>, \<open>strip_prefix\<close>, \<open>ends_with\<close>, \<open>split\<close>,
  \<open>split_whitespace\<close>, \<^verbatim>\<open>parse::<u32>\<close> and the decimal \<^verbatim>\<open>Display\<close> of unsigned
  integers.
\<close>

definition is_ws :: "char \<Rightarrow> bool" where
  "is_ws c \<longleftrightarrow> c \<in> {CHR 0x09, CHR 0x0A, CHR 0x0B, CHR 0x0C, CHR 0x0D, CHR 0x20}"

definition trim_start :: "string \<Rightarrow> string" where
  "trim_start s = dropWhile is_ws s"

definition str_trim :: "string \<Rightarrow> string" where
  "str_trim s = rev (dropWhile is_ws (rev (dropWhile is_ws s)))"

definition lower_char :: "char \<Rightarrow> char" where
  "lower_char c =
     (let n = of_char c :: nat in if 65 \<le> n \<and> n \<le> 90 then char_of (n + 32) else c)"

definition to_lowercase :: "string \<Rightarrow> string" where
  "to_lowercase s = map lower_char s"

definition starts_with_str :: "string \<Rightarrow> string \<Rightarrow> bool" where
  "starts_with_str pat s \<longleftrightarrow> take (length pat) s = pat"

definition ends_with_str :: "string \<Rightarrow> string \<Rightarrow> bool" where
  "ends_with_str s pat \<longleftrightarrow> (length pat \<le> length s \<and> drop (length s - length pat) s = pat)"

definition strip_prefix :: "string \<Rightarrow> string \<Rightarrow> string option" where
  "strip_prefix pat s = (if starts_with_str pat s then Some (drop (length pat) s) else None)"

text \<open>\<open>find\<close> gives the first split of the string around the pattern: the text before it and
  the text after it.\<close>

fun find_str :: "string \<Rightarrow> string \<Rightarrow> (string \<times> string) option" where
  "find_str pat [] = (if pat = [] then Some ([], []) else None)"
| "find_str pat (c # cs) =
     (if starts_with_str pat (c # cs) then Some ([], drop (length pat) (c # cs))
      else map_option (\<lambda>(l, r). (c # l, r)) (find_str pat cs))"

fun split_char :: "char \<Rightarrow> string \<Rightarrow> string list" where
  "split_char d [] = [[]]"
| "split_char d (c # cs) =
     (if c = d then [] # split_char d cs
      else (case split_char d cs of [] \<Rightarrow> [[c]] | p # ps \<Rightarrow> (c # p) # ps))"

text \<open>The first whitespace-separated token, or the empty string.\<close>

definition first_token :: "string \<Rightarrow> string" where
  "first_token s = takeWhile (\<lambda>c. \<not> is_ws c) (dropWhile is_ws s)"

subsection \<open>Decimal numbers\<close>

definition digit_val :: "char \<Rightarrow> nat option" where
  "digit_val c = (let n = of_char c :: nat in if 48 \<le> n \<and> n \<le> 57 then Some (n - 48) else None)"

fun parse_digits :: "nat \<Rightarrow> string \<Rightarrow> nat option" where
  "parse_digits acc [] = Some acc"
| "parse_digits acc (c # cs) =
     (case digit_val c of None \<Rightarrow> None | Some d \<Rightarrow> parse_digits (acc * 10 + d) cs)"

text \<open>\<^verbatim>\<open>str::parse::<u32>\<close>: an optional plus sign, at least one digit, no overflow.\<close>

definition parse_u32 :: "string \<Rightarrow> nat option" where
  "parse_u32 s =
     (let ds = (case s of c # cs \<Rightarrow> if c = CHR ''+'' then cs else s | [] \<Rightarrow> s)
      in if ds = [] then None
         else (case parse_digits 0 ds of
                 None \<Rightarrow> None
               | Some n \<Rightarrow> if n < 2 ^ 32 then Some n else None))"

text \<open>\<^verbatim>\<open>str::parse\<close> for an unsigned integer of \<open>bits\<close> bits.\<close>

definition parse_uint :: "nat \<Rightarrow> string \<Rightarrow> nat option" where
  "parse_uint bits s =
     (let ds = (case s of c # cs \<Rightarrow> if c = CHR ''+'' then cs else s | [] \<Rightarrow> s)
      in if ds = [] then None
         else (case parse_digits 0 ds of
                 None \<Rightarrow> None
               | Some n \<Rightarrow> if n < 2 ^ bits then Some n else None))"

definition digit_char :: "nat \<Rightarrow> char" where
  "digit_char d = char_of (48 + d)"

fun show_nat :: "nat \<Rightarrow> string" where
  "show_nat n = (if n < 10 then [digit_char n] else show_nat (n div 10) @ [digit_char (n mod 10)])"

declare show_nat.simps [simp del]

definition show_int :: "int \<Rightarrow> string" where
  "show_int i = (if i < 0 then CHR ''-'' # show_nat (nat (- i)) else show_nat (nat i))"

subsection \<open>Laws\<close>

lemma of_char_char_of_small [simp]: "n < 256 \<Longrightarrow> (of_char (char_of n) :: nat) = n"
  by simp

lemma digit_val_digit_char [simp]: "d < 10 \<Longrightarrow> digit_val (digit_char d) = Some d"
  by (simp add: digit_val_def digit_char_def Let_def)

lemma digit_val_less: "digit_val c = Some d \<Longrightarrow> d < 10"
  by (auto simp: digit_val_def Let_def split: if_splits)

lemma parse_digits_append:
  "parse_digits acc (xs @ ys) = (case parse_digits acc xs of None \<Rightarrow> None | Some n \<Rightarrow> parse_digits n ys)"
  by (induction xs arbitrary: acc) (auto split: option.splits)

lemma parse_digits_show_nat: "parse_digits 0 (show_nat n) = Some n"
proof (induction n rule: show_nat.induct)
  case (1 n)
  show ?case
  proof (cases "n < 10")
    case True
    then show ?thesis by (simp add: show_nat.simps [of n])
  next
    case False
    then show ?thesis using 1 by (simp add: show_nat.simps [of n] parse_digits_append)
  qed
qed

lemma show_nat_nonempty [simp]: "show_nat n \<noteq> []"
  by (simp add: show_nat.simps [of n])

definition is_digit_char :: "char \<Rightarrow> bool" where
  "is_digit_char c \<longleftrightarrow> digit_val c \<noteq> None"

lemma show_nat_digits: "list_all is_digit_char (show_nat n)"
proof (induction n rule: show_nat.induct)
  case (1 n)
  then show ?case
    by (cases "n < 10") (simp_all add: show_nat.simps [of n] is_digit_char_def)
qed

lemma digit_not_plus: "is_digit_char c \<Longrightarrow> c \<noteq> CHR ''+''"
  by (auto simp: is_digit_char_def digit_val_def Let_def)

lemma parse_u32_show_nat: "n < 2 ^ 32 \<Longrightarrow> parse_u32 (show_nat n) = Some n"
proof -
  assume n: "n < 2 ^ 32"
  obtain c cs where s: "show_nat n = c # cs" by (cases "show_nat n") auto
  have "c \<noteq> CHR ''+''" using show_nat_digits [of n] s digit_not_plus by simp
  then show ?thesis using n parse_digits_show_nat [of n] s by (simp add: parse_u32_def)
qed

lemma parse_uint_show_nat: "n < 2 ^ bits \<Longrightarrow> parse_uint bits (show_nat n) = Some n"
proof -
  assume n: "n < 2 ^ bits"
  obtain c cs where s: "show_nat n = c # cs" by (cases "show_nat n") auto
  have "c \<noteq> CHR ''+''" using show_nat_digits [of n] s digit_not_plus by simp
  then show ?thesis using n parse_digits_show_nat [of n] s by (simp add: parse_uint_def)
qed

text \<open>For evaluation, the bound is compared in binary.\<close>

lemma parse_uint_code [code]:
  "parse_uint bits s =
     (let ds = (case s of c # cs \<Rightarrow> if c = CHR ''+'' then cs else s | [] \<Rightarrow> s)
      in if ds = [] then None
         else (case parse_digits 0 ds of
                 None \<Rightarrow> None
               | Some n \<Rightarrow> if int n < 2 ^ bits then Some n else None))"
proof -
  have "(n < 2 ^ bits) = (int n < 2 ^ bits)" for n by (metis of_nat_less_iff of_nat_numeral of_nat_power)
  then show ?thesis unfolding parse_uint_def by presburger
qed

lemma parse_u32_less: "parse_u32 s = Some n \<Longrightarrow> n < 2 ^ 32"
  by (auto simp: parse_u32_def Let_def split: if_splits option.splits)

lemma find_str_Some: "find_str pat s = Some (l, r) \<Longrightarrow> s = l @ pat @ r"
proof (induction s arbitrary: l r)
  case (Cons c cs)
  then show ?case
    by (auto simp: starts_with_str_def split: if_splits) (metis append_take_drop_id)
qed (auto split: if_splits)

lemma find_str_shorter: "find_str pat s = Some (l, r) \<Longrightarrow> pat \<noteq> [] \<Longrightarrow> length r < length s"
  by (auto dest: find_str_Some)

text \<open>The first occurrence is found when the pattern does not begin earlier.\<close>

lemma find_str_at:
  "pat \<noteq> [] \<Longrightarrow> (\<And>i. i < length l \<Longrightarrow> \<not> starts_with_str pat (drop i (l @ pat @ r))) \<Longrightarrow>
     find_str pat (l @ pat @ r) = Some (l, r)"
proof (induction l)
  case Nil
  obtain c cs where "pat = c # cs" using Nil by (cases pat) auto
  then show ?case by (simp add: starts_with_str_def)
next
  case (Cons c l)
  have "\<not> starts_with_str pat (drop i (l @ pat @ r))" if "i < length l" for i
    using Cons.prems(2) [of "Suc i"] that by simp
  then have "find_str pat (l @ pat @ r) = Some (l, r)" using Cons by blast
  then show ?case using Cons.prems(2) [of 0] by simp
qed

lemma str_trim_length: "length (str_trim s) \<le> length s"
  unfolding str_trim_def by (metis length_dropWhile_le length_rev le_trans)

lemma str_trim_id:
  assumes "s \<noteq> []" and "\<not> is_ws (hd s)" and "\<not> is_ws (last s)"
  shows "str_trim s = s"
proof -
  have "dropWhile is_ws s = s" using assms by (cases s) auto
  moreover have "dropWhile is_ws (rev s) = rev s"
    using assms by (cases s rule: rev_cases) auto
  ultimately show ?thesis by (simp add: str_trim_def)
qed

lemma str_trim_pad:
  assumes "s \<noteq> []" and "\<not> is_ws (hd s)" and "\<not> is_ws (last s)"
    and "list_all is_ws l" and "list_all is_ws r"
  shows "str_trim (l @ s @ r) = s"
proof -
  have l: "dropWhile is_ws (l @ s @ r) = s @ r"
    using assms by (induction l) (cases s; auto)+
  have "dropWhile is_ws (rev r @ rev s) = rev s"
    using assms(1,3,5) by (induction r rule: rev_induct) (cases s rule: rev_cases; auto)+
  then show ?thesis by (simp add: str_trim_def l)
qed

lemma to_lowercase_append [simp]: "to_lowercase (a @ b) = to_lowercase a @ to_lowercase b"
  by (simp add: to_lowercase_def)

end
