(* ===== verification/Rust_Path.thy ===== *)
theory Rust_Path
  imports Rust_Strings
begin

text \<open>
  \<^verbatim>\<open>std::path\<close> on Unix: a \<^verbatim>\<open>Path\<close> is the list of its \<^verbatim>\<open>components()\<close>, since
  equality, \<open>starts_with\<close>, \<open>parent\<close> and \<open>file_name\<close> of the standard library work on
  components (repeated separators and inner \<^verbatim>\<open>.\<close> components are already dropped there).
\<close>

datatype component = RootDir | CurDir | ParentDir | Normal string

type_synonym path = "component list"

definition path_starts_with :: "path \<Rightarrow> path \<Rightarrow> bool" where
  "path_starts_with p base \<longleftrightarrow> take (length base) p = base"

definition path_ends_with :: "path \<Rightarrow> path \<Rightarrow> bool" where
  "path_ends_with p suffix \<longleftrightarrow> (length suffix \<le> length p \<and> drop (length p - length suffix) p = suffix)"

text \<open>\<open>parent\<close> drops a last \<open>Normal\<close>, \<open>CurDir\<close> or \<open>ParentDir\<close> component; the root and
  the empty path have no parent.\<close>

definition path_parent :: "path \<Rightarrow> path option" where
  "path_parent p = (if p = [] then None else if last p = RootDir then None else Some (butlast p))"

definition path_file_name :: "path \<Rightarrow> string option" where
  "path_file_name p = (if p = [] then None else (case last p of Normal n \<Rightarrow> Some n | _ \<Rightarrow> None))"

definition path_join :: "path \<Rightarrow> string \<Rightarrow> path" where
  "path_join p n = p @ [Normal n]"

text \<open>The textual form of a path (\<^verbatim>\<open>Path::display\<close>).\<close>

fun component_str :: "component \<Rightarrow> string" where
  "component_str RootDir = ''/''"
| "component_str CurDir = ''.''"
| "component_str ParentDir = ''..''"
| "component_str (Normal n) = n"

fun path_display :: "path \<Rightarrow> string" where
  "path_display [] = []"
| "path_display [c] = component_str c"
| "path_display (RootDir # cs) = ''/'' @ path_display cs"
| "path_display (c # cs) = component_str c @ ''/'' @ path_display cs"

text \<open>\<^verbatim>\<open>PathBuf::from(s)\<close>: the components of a string. Empty parts vanish, and a \<^verbatim>\<open>.\<close> is
  kept only at the start of a relative path.\<close>

definition component_of :: "string \<Rightarrow> component" where
  "component_of s = (if s = ''..'' then ParentDir else if s = ''.'' then CurDir else Normal s)"

definition path_from_str :: "string \<Rightarrow> path" where
  "path_from_str s =
     (let parts = split_char (CHR ''/'') s;
          absolute = starts_with_str ''/'' s;
          names = (\<lambda>ps. map component_of (filter (\<lambda>p. p \<noteq> [] \<and> p \<noteq> ''.'') ps))
      in if absolute then RootDir # names parts
         else if parts \<noteq> [] \<and> hd parts = ''.'' then CurDir # names (tl parts)
         else names parts)"

text \<open>\<^verbatim>\<open>Path::join\<close> with a text: an absolute one replaces the path.\<close>

definition join_str :: "path \<Rightarrow> string \<Rightarrow> path" where
  "join_str p s =
     (if starts_with_str ''/'' s then path_from_str s
      else p @ (case path_from_str s of CurDir # cs \<Rightarrow> if p = [] then CurDir # cs else cs | cs \<Rightarrow> cs))"

lemma path_starts_with_iff: "path_starts_with p base \<longleftrightarrow> (\<exists>rest. p = base @ rest)"
  by (metis append_eq_conv_conj append_take_drop_id path_starts_with_def)

lemma path_starts_with_refl [simp]: "path_starts_with p p"
  by (simp add: path_starts_with_def)

lemma path_starts_with_trans:
  "path_starts_with p q \<Longrightarrow> path_starts_with q r \<Longrightarrow> path_starts_with p r"
  by (auto simp: path_starts_with_iff)

lemma path_ends_with_single [simp]: "path_ends_with p [c] \<longleftrightarrow> p \<noteq> [] \<and> last p = c"
  by (cases p rule: rev_cases) (auto simp: path_ends_with_def)

end
