(* ===== verification/Std_Collections.thy ===== *)
theory Std_Collections
  imports Prelude
begin

text \<open>
  The standard library's \<^verbatim>\<open>HashMap\<close> as the sources use it: \<open>get\<close>, \<open>insert\<close>,
  \<open>remove\<close>, \<open>retain\<close>, \<open>values_mut\<close>, \<open>keys\<close> and \<open>len\<close>. The interface is the locale
  \<open>keyed_store\<close>; the model's maps are association lists with distinct keys, which
  interpret it, so every map operation of the components is executable. A
  \<^verbatim>\<open>HashMap\<close> iterates in an unspecified order; where a result depends on that order
  the operation takes it as an argument.
\<close>

type_synonym ('k, 'v) hashmap = "('k \<times> 'v) list"

abbreviation hm_get :: "('k, 'v) hashmap \<Rightarrow> 'k \<Rightarrow> 'v option" where
  "hm_get m k \<equiv> map_of m k"

definition hm_empty :: "('k, 'v) hashmap" where
  "hm_empty = []"

definition hm_insert :: "'k \<Rightarrow> 'v \<Rightarrow> ('k, 'v) hashmap \<Rightarrow> ('k, 'v) hashmap" where
  "hm_insert k v m = AList.update k v m"

definition hm_remove :: "'k \<Rightarrow> ('k, 'v) hashmap \<Rightarrow> ('k, 'v) hashmap" where
  "hm_remove k m = AList.delete k m"

definition hm_retain :: "('k \<Rightarrow> 'v \<Rightarrow> bool) \<Rightarrow> ('k, 'v) hashmap \<Rightarrow> ('k, 'v) hashmap" where
  "hm_retain P m = filter (\<lambda>(k, v). P k v) m"

definition hm_map_values :: "('v \<Rightarrow> 'v) \<Rightarrow> ('k, 'v) hashmap \<Rightarrow> ('k, 'v) hashmap" where
  "hm_map_values f m = map (\<lambda>(k, v). (k, f v)) m"

abbreviation hm_keys :: "('k, 'v) hashmap \<Rightarrow> 'k set" where
  "hm_keys m \<equiv> fst ` set m"

definition hm_contains :: "('k, 'v) hashmap \<Rightarrow> 'k \<Rightarrow> bool" where
  "hm_contains m k \<longleftrightarrow> map_of m k \<noteq> None"

abbreviation hm_len :: "('k, 'v) hashmap \<Rightarrow> nat" where
  "hm_len m \<equiv> length m"

definition hm_inv :: "('k, 'v) hashmap \<Rightarrow> bool" where
  "hm_inv m \<longleftrightarrow> distinct (map fst m)"

text \<open>\<^verbatim>\<open>get_mut\<close> followed by an update of the entry, when there is one.\<close>

definition hm_modify :: "'k \<Rightarrow> ('v \<Rightarrow> 'v) \<Rightarrow> ('k, 'v) hashmap \<Rightarrow> ('k, 'v) hashmap" where
  "hm_modify k f m = (case hm_get m k of None \<Rightarrow> m | Some v \<Rightarrow> hm_insert k (f v) m)"

subsection \<open>The interface\<close>

locale keyed_store =
  fixes lookup :: "'m \<Rightarrow> 'k \<Rightarrow> 'v option"
    and insert_kv :: "'k \<Rightarrow> 'v \<Rightarrow> 'm \<Rightarrow> 'm"
    and remove_k :: "'k \<Rightarrow> 'm \<Rightarrow> 'm"
    and keys_of :: "'m \<Rightarrow> 'k set"
    and invar :: "'m \<Rightarrow> bool"
  assumes lookup_insert: "lookup (insert_kv k v m) k' = (if k' = k then Some v else lookup m k')"
    and lookup_remove: "lookup (remove_k k m) k' = (if k' = k then None else lookup m k')"
    and keys_lookup: "k \<in> keys_of m \<longleftrightarrow> lookup m k \<noteq> None"
    and invar_insert: "invar m \<Longrightarrow> invar (insert_kv k v m)"
    and invar_remove: "invar m \<Longrightarrow> invar (remove_k k m)"
begin

lemma keys_insert: "keys_of (insert_kv k v m) = insert k (keys_of m)"
  by (auto simp: keys_lookup lookup_insert split: if_splits)

lemma keys_remove: "keys_of (remove_k k m) = keys_of m - {k}"
  by (auto simp: keys_lookup lookup_remove split: if_splits)

lemma lookup_insert_same: "lookup (insert_kv k v m) k = Some v"
  by (simp add: lookup_insert)

lemma lookup_insert_other: "k' \<noteq> k \<Longrightarrow> lookup (insert_kv k v m) k' = lookup m k'"
  by (simp add: lookup_insert)

lemma lookup_remove_insert: "k' \<noteq> k \<Longrightarrow> lookup (remove_k k (insert_kv k v m)) k' = lookup m k'"
  by (simp add: lookup_insert lookup_remove)

end

interpretation hm: keyed_store hm_get hm_insert hm_remove hm_keys hm_inv
proof unfold_locales
  fix k k' :: 'a and v :: 'b and m :: "('a, 'b) hashmap"
  show "hm_get (hm_insert k v m) k' = (if k' = k then Some v else hm_get m k')"
    by (simp add: hm_insert_def update_conv')
  show "hm_get (hm_remove k m) k' = (if k' = k then None else hm_get m k')"
    by (simp add: hm_remove_def delete_conv')
  show "k \<in> hm_keys m \<longleftrightarrow> hm_get m k \<noteq> None"
    by (metis map_of_eq_None_iff)
  show "hm_inv m \<Longrightarrow> hm_inv (hm_insert k v m)"
    by (simp add: hm_inv_def hm_insert_def distinct_update)
  show "hm_inv m \<Longrightarrow> hm_inv (hm_remove k m)"
    by (simp add: hm_inv_def hm_remove_def distinct_delete)
qed

declare hm.lookup_insert [simp] hm.lookup_remove [simp]
declare hm.keys_insert [simp] hm.keys_remove [simp]
declare hm.invar_insert [intro, simp] hm.invar_remove [intro, simp]

subsection \<open>The other operations\<close>

lemma hm_get_empty [simp]: "hm_get hm_empty k = None"
  by (simp add: hm_empty_def)

lemma hm_inv_empty [simp]: "hm_inv hm_empty"
  by (simp add: hm_empty_def hm_inv_def)

lemma hm_keys_empty [simp]: "hm_keys hm_empty = {}"
  by (simp add: hm_empty_def)

lemma hm_remove_absent: "hm_get m k = None \<Longrightarrow> hm_remove k m = m"
  using hm.keys_lookup [of k m] by (force simp: hm_remove_def filter_id_conv)

lemma hm_contains_iff: "hm_contains m k \<longleftrightarrow> k \<in> hm_keys m"
  by (simp add: hm_contains_def hm.keys_lookup del: map_of_eq_None_iff)

lemma hm_get_retain:
  assumes "hm_inv m"
  shows "hm_get (hm_retain P m) k =
    (case hm_get m k of None \<Rightarrow> None | Some v \<Rightarrow> if P k v then Some v else None)"
  using assms
proof (induction m)
  case Nil
  then show ?case by (simp add: hm_retain_def)
next
  case (Cons x m)
  obtain a b where x: "x = (a, b)" by (cases x)
  from Cons.prems x have inv: "hm_inv m" and notin: "a \<notin> fst ` set m"
    by (auto simp: hm_inv_def)
  have "hm_get m a = None" using notin by (simp add: map_of_eq_None_iff)
  then show ?case using Cons.IH [OF inv] x by (auto simp: hm_retain_def)
qed

lemma hm_inv_retain [intro, simp]: "hm_inv m \<Longrightarrow> hm_inv (hm_retain P m)"
  by (induction m) (auto simp: hm_inv_def hm_retain_def)

lemma hm_get_map_values [simp]: "hm_get (hm_map_values f m) k = map_option f (hm_get m k)"
  by (induction m) (auto simp: hm_map_values_def)

lemma hm_inv_map_values [intro, simp]: "hm_inv m \<Longrightarrow> hm_inv (hm_map_values f m)"
  by (induction m) (auto simp: hm_inv_def hm_map_values_def rev_image_eqI)

lemma hm_get_modify [simp]:
  "hm_get (hm_modify k f m) k' = (if k' = k then map_option f (hm_get m k) else hm_get m k')"
  by (auto simp: hm_modify_def split: option.split)

lemma hm_inv_modify [intro, simp]: "hm_inv m \<Longrightarrow> hm_inv (hm_modify k f m)"
  by (auto simp: hm_modify_def split: option.split)

lemma hm_keys_modify [simp]: "hm_keys (hm_modify k f m) = hm_keys m"
  by (auto simp: hm.keys_lookup hm_modify_def split: option.split)

lemma hm_get_mem: "hm_inv m \<Longrightarrow> hm_get m k = Some v \<longleftrightarrow> (k, v) \<in> set m"
  by (simp add: hm_inv_def)

lemma hm_len_card: "hm_inv m \<Longrightarrow> hm_len m = card (hm_keys m)"
  by (metis distinct_card hm_inv_def length_map set_map)

lemma hm_get_SomeD: "hm_get m k = Some v \<Longrightarrow> k \<in> hm_keys m"
  by (simp add: hm.keys_lookup)

subsection \<open>Bounded histories\<close>

text \<open>A \<^verbatim>\<open>VecDeque\<close> used as a bounded history: when it is full the oldest entry is popped
  before the new one is pushed. With capacity 0 it holds one entry.\<close>

definition push_bounded :: "nat \<Rightarrow> 'a \<Rightarrow> 'a list \<Rightarrow> 'a list" where
  "push_bounded cap x xs = (if length xs \<ge> cap then tl xs else xs) @ [x]"

lemma length_push_bounded: "length xs \<le> max 1 cap \<Longrightarrow> length (push_bounded cap x xs) \<le> max 1 cap"
  by (auto simp: push_bounded_def)

text \<open>The history holds the newest entries.\<close>

lemma push_bounded_newest:
  assumes "0 < cap"
  shows "push_bounded cap x (drop (length xs - cap) xs) = drop (length (xs @ [x]) - cap) (xs @ [x])"
proof (cases "cap \<le> length xs")
  case True
  then have "tl (drop (length xs - cap) xs) = drop (Suc (length xs) - cap) xs"
    using assms by (simp add: drop_Suc tl_drop Suc_diff_le)
  then show ?thesis using True assms by (simp add: push_bounded_def)
next
  case False
  then show ?thesis by (simp add: push_bounded_def)
qed

lemma fold_push_bounded:
  assumes "0 < cap"
  shows "fold (push_bounded cap) xs [] = drop (length xs - cap) xs"
proof (induction xs rule: rev_induct)
  case (snoc x xs)
  then show ?case using push_bounded_newest [OF assms, of x xs] by simp
qed simp

end
