(* ===== verification/Json.thy ===== *)
theory Json
  imports Rust_Strings
begin

text \<open>
  \<^verbatim>\<open>serde_json::Value\<close> and the accessors the sources use. A number is kept as its literal
  text; no component computes with one. The parser \<^verbatim>\<open>serde_json::from_str\<close> is a parameter
  of the definitions that call it.
\<close>

datatype json =
    JNull
  | JBool bool
  | JNumber string
  | JString string
  | JArray "json list"
  | JObject "(string \<times> json) list"

type_synonym json_parser = "string \<Rightarrow> json option"

fun as_str :: "json \<Rightarrow> string option" where
  "as_str (JString s) = Some s"
| "as_str _ = None"

fun as_object :: "json \<Rightarrow> (string \<times> json) list option" where
  "as_object (JObject m) = Some m"
| "as_object _ = None"

fun as_array :: "json \<Rightarrow> json list option" where
  "as_array (JArray xs) = Some xs"
| "as_array _ = None"

fun as_u64 :: "json \<Rightarrow> nat option" where
  "as_u64 (JNumber n) = parse_uint 64 n"
| "as_u64 _ = None"

text \<open>\<^verbatim>\<open>Value::get\<close> with a string key.\<close>

definition json_get :: "json \<Rightarrow> string \<Rightarrow> json option" where
  "json_get v k = Option.bind (as_object v) (\<lambda>m. map_of m k)"

text \<open>\<^verbatim>\<open>v.get(k).and_then(|v| v.as_str())\<close>\<close>

definition get_str :: "json \<Rightarrow> string \<Rightarrow> string option" where
  "get_str v k = Option.bind (json_get v k) as_str"

lemma get_str_Object [simp]: "get_str (JObject m) k = Option.bind (map_of m k) as_str"
  by (simp add: get_str_def json_get_def)

end
