(* ===== verification/Models.thy ===== *)
theory Models
  imports Rust_Path Std_Collections Json
begin

text \<open>
  The shared data model of \<^verbatim>\<open>crates/common\<close>: identifiers (\<^verbatim>\<open>types.rs\<close>), the task,
  session and access-control models (\<^verbatim>\<open>models.rs\<close>) and the error enums
  (\<^verbatim>\<open>errors.rs\<close>), with the chat messages. Identifiers wrap a UUID and are only compared, so they are natural
  numbers; where the sources put an identifier's textual form into an error, the model's
  error carries the identifier. Strings are ASCII.
\<close>

type_synonym task_id = uuid
type_synonym session_id = uuid
type_synonym user_id = uuid
type_synonym api_key_id = uuid

type_synonym message_id = uuid

datatype message_role = User | Assistant | System | ToolRole

record tool_call =
  call_id :: string
  call_name :: string
  call_arguments :: json

record tool_result =
  res_call_id :: string
  res_output :: string
  res_is_error :: bool

record message =
  m_id :: message_id
  m_session_id :: session_id
  m_role :: message_role
  m_content :: string
  m_tool_calls :: "tool_call list option"
  m_tool_results :: "tool_result list option"
  m_timestamp :: timestamp
  m_token_count :: u32

datatype access_type = Read | Write | Execute
datatype role = Admin | Operator
datatype http_method = Get | Post | Put | Patch | Delete
datatype fs_event = Created | Modified | Deleted

datatype task_status = Active | Paused | Failed (last_error: string)
datatype task_run_status = RunRunning | RunSucceeded | RunFailed | RunTimedOut

datatype task_action =
    ActPrompt string "string list"
  | ActCommand string "string list"
  | ActWebhook string http_method "string option"

datatype task_trigger =
    Cron string
  | FileChange "path list" "fs_event list"
  | WebhookTrigger string http_method
  | TimeConditionTrigger string
  | TaskCompletion task_id

record retry_policy =
  max_retries :: u8
  base_interval_secs :: u32
  max_interval_secs :: u32

definition default_retry_policy :: retry_policy where
  "default_retry_policy = \<lparr>max_retries = 3, base_interval_secs = 10, max_interval_secs = 300\<rparr>"

record task =
  t_id :: task_id
  t_name :: string
  t_trigger :: task_trigger
  t_action :: task_action
  t_timeout_seconds :: u32
  t_dependencies :: "task_id list"
  t_retry_policy :: retry_policy
  t_status :: task_status
  t_created_at :: timestamp
  t_updated_at :: timestamp

record task_run =
  run_id :: uuid
  run_task_id :: task_id
  run_start_time :: timestamp
  run_end_time :: "timestamp option"
  run_duration_ms :: "u64 option"
  run_status :: task_run_status
  run_error :: "string option"
  run_attempt :: u8

datatype agent_mode = General | Coding path bool

definition default_agent_mode :: agent_mode where
  "default_agent_mode = General"

record session =
  s_id :: session_id
  s_user_id :: user_id
  s_created_at :: timestamp
  s_last_activity :: timestamp
  s_token :: string
  s_mode :: agent_mode

datatype task_error =
    TaskNotFound task_id
  | DependencyCycle "task_id list"
  | DependencyTooDeep nat nat
  | ExecutionTimeout u32
  | RetriesExhausted u8 string
  | InvalidCronExpression string
  | DependencyNotSatisfied task_id

datatype security_error =
    AuthenticationRequired
  | InvalidCredentials
  | IpBlocked timestamp
  | InsufficientPermissions role
  | SandboxViolation path access_type
  | NetworkBlocked string u16
  | RateLimitExceeded nat
  | SessionExpired

end
