(* ===== verification/Dependency_Graph.thy ===== *)
theory Dependency_Graph
  imports Models
begin

text \<open>
  The dependency graph of the task scheduler
  (\<^verbatim>\<open>crates/task-scheduler/src/dependency.rs\<close>): the state and every operation. The two
  recursive searches take a fuel argument bounding the recursion depth; \<open>None\<close> is the
  recursion exceeding it. The theory of the searches shows that \<open>dg_fuel\<close> is always
  enough for the cycle search, and for the depth search whenever no cycle is reachable.
\<close>

definition MAX_DEPENDENCY_DEPTH :: nat where
  "MAX_DEPENDENCY_DEPTH = 10"

type_synonym edge_map = "(task_id, task_id list) hashmap"

record dep_graph =
  edges :: edge_map
  reverse_edges :: edge_map
  completed :: "task_id set"

definition dg_new :: dep_graph where
  "dg_new = \<lparr>edges = hm_empty, reverse_edges = hm_empty, completed = {}\<rparr>"

text \<open>\<^verbatim>\<open>get(..).unwrap_or(&[])\<close>: the list stored under a key, or the empty one.\<close>

definition nexts :: "edge_map \<Rightarrow> task_id \<Rightarrow> task_id list" where
  "nexts E t = (case hm_get E t of Some ds \<Rightarrow> ds | None \<Rightarrow> [])"

subsection \<open>Cycle search\<close>

record dfs_state =
  visited :: "task_id set"
  in_stack :: "task_id set"
  dfs_path :: "task_id list"

definition dfs_enter :: "task_id \<Rightarrow> dfs_state \<Rightarrow> dfs_state" where
  "dfs_enter v st = \<lparr>visited = insert v (visited st), in_stack = insert v (in_stack st),
     dfs_path = dfs_path st @ [v]\<rparr>"

definition dfs_leave :: "task_id \<Rightarrow> dfs_state \<Rightarrow> dfs_state" where
  "dfs_leave v st = st\<lparr>dfs_path := butlast (dfs_path st), in_stack := in_stack st - {v}\<rparr>"

text \<open>\<^verbatim>\<open>if let Some(pos) = path.iter().position(|&id| id == dep) { path = path[pos..] }\<close>\<close>

definition trim_path :: "task_id \<Rightarrow> task_id list \<Rightarrow> task_id list" where
  "trim_path d p = (if d \<in> set p then dropWhile (\<lambda>x. x \<noteq> d) p else p)"

fun dfs_cycle :: "nat \<Rightarrow> edge_map \<Rightarrow> task_id \<Rightarrow> dfs_state \<Rightarrow> (bool \<times> dfs_state) option"
and dfs_deps :: "nat \<Rightarrow> edge_map \<Rightarrow> task_id list \<Rightarrow> dfs_state \<Rightarrow> (bool \<times> dfs_state) option" where
  "dfs_cycle 0 E v st = None"
| "dfs_cycle (Suc n) E v st =
     (case dfs_deps n E (nexts E v) (dfs_enter v st) of
        None \<Rightarrow> None
      | Some (True, st') \<Rightarrow> Some (True, st')
      | Some (False, st') \<Rightarrow> Some (False, dfs_leave v st'))"
| "dfs_deps n E [] st = Some (False, st)"
| "dfs_deps n E (d # ds) st =
     (if d \<notin> visited st then
        (case dfs_cycle n E d st of
           None \<Rightarrow> None
         | Some (True, st') \<Rightarrow> Some (True, st')
         | Some (False, st') \<Rightarrow> dfs_deps n E ds st')
      else if d \<in> in_stack st then Some (True, st\<lparr>dfs_path := trim_path d (dfs_path st)\<rparr>)
      else dfs_deps n E ds st)"

text \<open>The number of nodes the graph can mention, plus the start: a bound on any simple path.\<close>

definition dg_fuel :: "edge_map \<Rightarrow> nat" where
  "dg_fuel E = Suc (length E + sum_list (map (\<lambda>(k, ds). length ds) E))"

definition detect_cycle :: "dep_graph \<Rightarrow> task_id \<Rightarrow> task_id list option" where
  "detect_cycle g start =
     (case dfs_cycle (dg_fuel (edges g)) (edges g) start
             \<lparr>visited = {}, in_stack = {}, dfs_path = []\<rparr> of
        Some (True, st) \<Rightarrow> Some (dfs_path st)
      | _ \<Rightarrow> None)"

subsection \<open>Depth\<close>

type_synonym depth_memo = "(task_id, nat) hashmap"

text \<open>\<^verbatim>\<open>iter().max().unwrap_or(0)\<close>\<close>

definition max_or_0 :: "nat list \<Rightarrow> nat" where
  "max_or_0 xs = foldr max xs 0"

fun depth_dfs :: "nat \<Rightarrow> edge_map \<Rightarrow> task_id \<Rightarrow> depth_memo \<Rightarrow> (nat \<times> depth_memo) option"
and depth_deps :: "nat \<Rightarrow> edge_map \<Rightarrow> task_id list \<Rightarrow> depth_memo \<Rightarrow> (nat list \<times> depth_memo) option" where
  "depth_dfs 0 E t memo = None"
| "depth_dfs (Suc n) E t memo =
     (case hm_get memo t of
        Some cached \<Rightarrow> Some (cached, memo)
      | None \<Rightarrow>
          (if nexts E t = [] then Some (1, hm_insert t 1 memo)
           else (case depth_deps n E (nexts E t) memo of
                   None \<Rightarrow> None
                 | Some (depths, memo') \<Rightarrow>
                     let depth = max_or_0 depths + 1
                     in Some (depth, hm_insert t depth memo'))))"
| "depth_deps n E [] memo = Some ([], memo)"
| "depth_deps n E (d # ds) memo =
     (case depth_dfs n E d memo of
        None \<Rightarrow> None
      | Some (x, memo') \<Rightarrow>
          (case depth_deps n E ds memo' of
             None \<Rightarrow> None
           | Some (xs, memo'') \<Rightarrow> Some (x # xs, memo'')))"

definition calculate_depth :: "dep_graph \<Rightarrow> task_id \<Rightarrow> nat option" where
  "calculate_depth g t = map_option fst (depth_dfs (dg_fuel (edges g)) (edges g) t hm_empty)"

subsection \<open>Adding and removing tasks\<close>

text \<open>\<^verbatim>\<open>entry(*dep_id).or_default().push(task_id)\<close> for each dependency in turn.\<close>

definition push_reverse :: "task_id \<Rightarrow> task_id \<Rightarrow> edge_map \<Rightarrow> edge_map" where
  "push_reverse t d R = hm_insert d (nexts R d @ [t]) R"

definition link_task :: "task_id \<Rightarrow> task_id list \<Rightarrow> dep_graph \<Rightarrow> dep_graph" where
  "link_task t deps g = g\<lparr>edges := hm_insert t deps (edges g),
     reverse_edges := fold (push_reverse t) deps (reverse_edges g)\<rparr>"

text \<open>The removal of \<open>t\<close> from the dependents of each of \<open>deps\<close>.\<close>

definition drop_dependent :: "task_id \<Rightarrow> task_id \<Rightarrow> edge_map \<Rightarrow> edge_map" where
  "drop_dependent t d R = hm_modify d (filter (\<lambda>i. i \<noteq> t)) R"

definition rollback_task :: "task_id \<Rightarrow> task_id list \<Rightarrow> dep_graph \<Rightarrow> dep_graph" where
  "rollback_task t deps g = g\<lparr>edges := hm_remove t (edges g),
     reverse_edges := fold (drop_dependent t) deps (reverse_edges g)\<rparr>"

text \<open>
  \<open>add_task\<close> gives the new graph and the Rust result. The outer \<open>None\<close> is the depth
  recursion not returning.
\<close>

definition add_task ::
  "task_id \<Rightarrow> task_id list \<Rightarrow> task_id set \<Rightarrow> dep_graph \<Rightarrow> (dep_graph \<times> (task_error + unit)) option" where
  "add_task t deps known g =
     (case find (\<lambda>d. d \<notin> known \<and> \<not> hm_contains (edges g) d) deps of
        Some d \<Rightarrow> Some (g, Inl (TaskNotFound d))
      | None \<Rightarrow>
          let g1 = link_task t deps g in
          (case detect_cycle g1 t of
             Some cycle \<Rightarrow> Some (rollback_task t deps g1, Inl (DependencyCycle cycle))
           | None \<Rightarrow>
               (case calculate_depth g1 t of
                  None \<Rightarrow> None
                | Some depth \<Rightarrow>
                    if depth > MAX_DEPENDENCY_DEPTH
                    then Some (rollback_task t deps g1, Inl (DependencyTooDeep depth MAX_DEPENDENCY_DEPTH))
                    else Some (g1, Inr ()))))"

definition remove_forward :: "task_id \<Rightarrow> dep_graph \<Rightarrow> dep_graph" where
  "remove_forward t g =
     (case hm_get (edges g) t of
        None \<Rightarrow> g
      | Some deps \<Rightarrow> g\<lparr>edges := hm_remove t (edges g),
          reverse_edges := fold (drop_dependent t) deps (reverse_edges g)\<rparr>)"

definition remove_backward :: "task_id \<Rightarrow> dep_graph \<Rightarrow> dep_graph" where
  "remove_backward t g =
     (case hm_get (reverse_edges g) t of
        None \<Rightarrow> g
      | Some dependents \<Rightarrow> g\<lparr>reverse_edges := hm_remove t (reverse_edges g),
          edges := fold (drop_dependent t) dependents (edges g)\<rparr>)"

definition remove_task :: "task_id \<Rightarrow> dep_graph \<Rightarrow> dep_graph" where
  "remove_task t g =
     (let g' = remove_backward t (remove_forward t g)
      in g'\<lparr>completed := completed g' - {t}\<rparr>)"

subsection \<open>Completion\<close>

definition is_unblocked :: "dep_graph \<Rightarrow> task_id \<Rightarrow> bool" where
  "is_unblocked g t =
     (case hm_get (edges g) t of
        Some deps \<Rightarrow> list_all (\<lambda>d. d \<in> completed g) deps
      | None \<Rightarrow> True)"

definition has_dependencies :: "dep_graph \<Rightarrow> task_id \<Rightarrow> bool" where
  "has_dependencies g t = (case hm_get (edges g) t of Some deps \<Rightarrow> deps \<noteq> [] | None \<Rightarrow> False)"

definition dependencies_of :: "dep_graph \<Rightarrow> task_id \<Rightarrow> task_id list" where
  "dependencies_of g t = nexts (edges g) t"

definition dependents_of :: "dep_graph \<Rightarrow> task_id \<Rightarrow> task_id list" where
  "dependents_of g t = nexts (reverse_edges g) t"

definition mark_completed :: "task_id \<Rightarrow> dep_graph \<Rightarrow> dep_graph \<times> task_id list" where
  "mark_completed t g =
     (let g' = g\<lparr>completed := insert t (completed g)\<rparr>
      in (g', filter (is_unblocked g') (nexts (reverse_edges g') t)))"

subsection \<open>Topological order\<close>

text \<open>
  The in-degree table: every key of \<open>edges\<close> with the length of its dependency list, and
  every mentioned dependency that is not a key with 0. \<open>order\<close> is the order in which the
  \<^verbatim>\<open>HashMap\<close> of in-degrees happens to iterate.
\<close>

definition init_in_degree :: "edge_map \<Rightarrow> (task_id, nat) hashmap" where
  "init_in_degree E =
     (let zeros = fold (\<lambda>k m. if hm_contains m k then m else hm_insert k 0 m) (map fst E) hm_empty;
          zeros' = fold (\<lambda>k m. if hm_contains m k then m else hm_insert k 0 m) (concat (map snd E)) zeros
      in fold (\<lambda>(k, deps) m. hm_insert k (length deps) m) E zeros')"

text \<open>One pass over the dependents of a popped task: \<^verbatim>\<open>*deg -= 1\<close> underflows on 0, which
  panics (\<open>None\<close>).\<close>

fun relax_dependents ::
  "task_id list \<Rightarrow> (task_id, nat) hashmap \<Rightarrow> task_id list \<Rightarrow> ((task_id, nat) hashmap \<times> task_id list) option" where
  "relax_dependents [] deg queue = Some (deg, queue)"
| "relax_dependents (d # ds) deg queue =
     (case hm_get deg d of
        None \<Rightarrow> relax_dependents ds deg queue
      | Some 0 \<Rightarrow> None
      | Some (Suc k) \<Rightarrow>
          relax_dependents ds (hm_insert d k deg) (if k = 0 then queue @ [d] else queue))"

text \<open>The \<^verbatim>\<open>while let Some(task_id) = queue.pop_front()\<close> loop; fuel counts its rounds.\<close>

fun topo_loop ::
  "nat \<Rightarrow> edge_map \<Rightarrow> (task_id, nat) hashmap \<Rightarrow> task_id list \<Rightarrow> task_id list \<Rightarrow> task_id list option" where
  "topo_loop n R deg [] acc = Some acc"
| "topo_loop 0 R deg (t # queue) acc = None"
| "topo_loop (Suc n) R deg (t # queue) acc =
     (case relax_dependents (nexts R t) deg queue of
        None \<Rightarrow> None
      | Some (deg', queue') \<Rightarrow> topo_loop n R deg' queue' (acc @ [t]))"

definition topological_order :: "task_id list \<Rightarrow> dep_graph \<Rightarrow> task_id list option" where
  "topological_order order g =
     (let deg = init_in_degree (edges g)
      in topo_loop (length deg) (reverse_edges g) deg (filter (\<lambda>t. hm_get deg t = Some 0) order) [])"

end
