(* ===== verification/Dependency_Search.thy ===== *)
theory Dependency_Search
  imports Dependency_Graph
begin

text \<open>
  Correctness of the two depth-first searches of \<^verbatim>\<open>dependency.rs\<close>. A graph is read as
  the relation \<open>dep_rel E\<close> from a task to its direct dependencies. The cycle search
  answers with a real cycle or certifies that none is reachable; the memoised depth
  search computes the length of the longest dependency chain.
\<close>

definition dep_rel :: "edge_map \<Rightarrow> (task_id \<times> task_id) set" where
  "dep_rel E = {(t, d). d \<in> set (nexts E t)}"

lemma dep_rel_iff [simp]: "(t, d) \<in> dep_rel E \<longleftrightarrow> d \<in> set (nexts E t)"
  by (simp add: dep_rel_def)

definition is_cycle :: "edge_map \<Rightarrow> task_id list \<Rightarrow> bool" where
  "is_cycle E c \<longleftrightarrow> c \<noteq> [] \<and> successively (\<lambda>a b. b \<in> set (nexts E a)) c \<and> hd c \<in> set (nexts E (last c))"

text \<open>All the nodes the map mentions.\<close>

definition nodes_of :: "edge_map \<Rightarrow> task_id set" where
  "nodes_of E = fst ` set E \<union> \<Union> (set ` snd ` set E)"

lemma finite_nodes_of [simp]: "finite (nodes_of E)"
  by (simp add: nodes_of_def)

lemma nexts_in_nodes: "set (nexts E t) \<subseteq> nodes_of E"
proof (cases "hm_get E t")
  case (Some ds)
  then have "(t, ds) \<in> set E" by (rule map_of_SomeD)
  then have "set ds \<in> set ` snd ` set E" by (metis image_eqI snd_conv)
  then show ?thesis using Some by (auto simp: nexts_def nodes_of_def)
qed (simp add: nexts_def)

lemma card_nodes_fuel: "card (nodes_of E) < dg_fuel E"
proof -
  have "card (nodes_of E) \<le> card (fst ` set E) + card (\<Union> (set ` snd ` set E))"
    by (simp add: nodes_of_def card_Un_le)
  moreover have "card (fst ` set E) \<le> length E"
    by (metis card_image_le card_length finite_set le_trans)
  moreover have "card (\<Union> (set ` snd ` set E)) \<le> sum_list (map (\<lambda>(k, ds). length ds) E)"
  proof -
    have "\<Union> (set ` snd ` set E) = set (concat (map snd E))" by simp
    also have "card \<dots> \<le> length (concat (map snd E))" by (rule card_length)
    also have "\<dots> = sum_list (map (\<lambda>(k, ds). length ds) E)"
      by (simp add: length_concat comp_def case_prod_unfold)
    finally show ?thesis .
  qed
  ultimately show ?thesis by (simp add: dg_fuel_def)
qed

subsection \<open>The cycle search: frame facts\<close>

lemma dfs_enter_simps [simp]:
  "visited (dfs_enter v st) = insert v (visited st)"
  "in_stack (dfs_enter v st) = insert v (in_stack st)"
  "dfs_path (dfs_enter v st) = dfs_path st @ [v]"
  by (simp_all add: dfs_enter_def)

lemma dfs_leave_simps [simp]:
  "visited (dfs_leave v st) = visited st"
  "in_stack (dfs_leave v st) = in_stack st - {v}"
  "dfs_path (dfs_leave v st) = butlast (dfs_path st)"
  by (simp_all add: dfs_leave_def)

lemma dfs_visited_mono:
  "dfs_cycle n E v st = Some (b, st') \<Longrightarrow> visited st \<subseteq> visited st'"
  "dfs_deps n E ds st = Some (b, st') \<Longrightarrow> visited st \<subseteq> visited st'"
proof (induction n E v st and n E ds st arbitrary: b st' and b st' rule: dfs_cycle_dfs_deps.induct)
  case (2 n E v st)
  then show ?case by (fastforce split: option.splits prod.splits bool.splits)
next
  case (4 n E d ds st)
  then show ?case by (fastforce split: option.splits prod.splits bool.splits if_splits)
qed auto

subsection \<open>A reported cycle is a cycle\<close>

lemma successively_dropWhile: "successively P xs \<Longrightarrow> successively P (dropWhile Q xs)"
  by (metis append_take_drop_id dropWhile_eq_drop successively_append_iff)

lemma trim_path_cycle:
  assumes chain: "successively (\<lambda>a b. b \<in> set (nexts E a)) p" and d: "d \<in> set p"
    and closes: "d \<in> set (nexts E (last p))"
  shows "is_cycle E (trim_path d p)"
proof -
  have ne: "dropWhile (\<lambda>x. x \<noteq> d) p \<noteq> []" using d by simp
  have "hd (dropWhile (\<lambda>x. x \<noteq> d) p) = d" using hd_dropWhile [OF ne] by simp
  moreover have "last (dropWhile (\<lambda>x. x \<noteq> d) p) = last p"
    using ne by (metis last_appendR takeWhile_dropWhile_id)
  ultimately show ?thesis
    using assms ne by (simp add: is_cycle_def trim_path_def successively_dropWhile)
qed

text \<open>Between calls the path is a chain, and it holds exactly the nodes on the stack.\<close>

definition path_ok :: "edge_map \<Rightarrow> dfs_state \<Rightarrow> bool" where
  "path_ok E st \<longleftrightarrow> successively (\<lambda>a b. b \<in> set (nexts E a)) (dfs_path st) \<and>
     set (dfs_path st) = in_stack st \<and> in_stack st \<subseteq> visited st"

definition restored :: "edge_map \<Rightarrow> dfs_state \<Rightarrow> bool \<Rightarrow> dfs_state \<Rightarrow> bool" where
  "restored E st b st' \<longleftrightarrow>
     (if b then is_cycle E (dfs_path st')
      else dfs_path st' = dfs_path st \<and> in_stack st' = in_stack st)"

lemma dfs_sound:
  "dfs_cycle n E v st = Some (b, st') \<Longrightarrow> path_ok E st \<Longrightarrow> v \<notin> visited st \<Longrightarrow>
     (dfs_path st \<noteq> [] \<longrightarrow> v \<in> set (nexts E (last (dfs_path st)))) \<Longrightarrow> restored E st b st'"
  "dfs_deps n E ds st = Some (b, st') \<Longrightarrow> path_ok E st \<Longrightarrow> dfs_path st \<noteq> [] \<Longrightarrow>
     set ds \<subseteq> set (nexts E (last (dfs_path st))) \<Longrightarrow> restored E st b st'"
proof (induction n E v st and n E ds st arbitrary: b st' and b st' rule: dfs_cycle_dfs_deps.induct)
  case (2 n E v st)
  let ?s = "dfs_enter v st"
  have ok: "path_ok E ?s"
    using "2.prems" by (auto simp: path_ok_def successively_append_iff)
  obtain b1 s1 where r: "dfs_deps n E (nexts E v) ?s = Some (b1, s1)"
    using "2.prems"(1) by (auto split: option.splits)
  have "restored E ?s b1 s1"
    using "2.IH" [OF r ok] by simp
  then show ?case
    using r "2.prems" by (cases b1) (auto simp: restored_def path_ok_def)
next
  case (4 n E d ds st)
  show ?case
  proof (cases "d \<in> visited st")
    case False
    then obtain b1 s1 where r: "dfs_cycle n E d st = Some (b1, s1)"
      using "4.prems"(1) by (auto split: option.splits)
    have res: "restored E st b1 s1"
      using "4.IH"(1) [OF False r] "4.prems" False by simp
    show ?thesis
    proof (cases b1)
      case True
      then show ?thesis using res r False "4.prems"(1) by (simp add: restored_def)
    next
      case F: False
      have vis: "visited st \<subseteq> visited s1" using dfs_visited_mono(1) [OF r] .
      have same: "dfs_path s1 = dfs_path st" "in_stack s1 = in_stack st"
        using res F by (simp_all add: restored_def)
      have "path_ok E s1" using "4.prems"(2) vis same by (auto simp: path_ok_def)
      moreover have "dfs_deps n E ds s1 = Some (b, st')"
        using "4.prems"(1) r F False by simp
      ultimately have "restored E s1 b st'"
        using "4.IH"(2) [OF False r refl] F "4.prems" same by simp
      then show ?thesis using same by (simp add: restored_def)
    qed
  next
    case True
    then show ?thesis
      using "4.prems" "4.IH"(3) trim_path_cycle [of E "dfs_path st" d]
      by (auto simp: restored_def path_ok_def split: if_splits)
  qed
qed (auto simp: restored_def)

lemma detect_cycle_is_cycle:
  assumes "detect_cycle g t = Some c"
  shows "is_cycle (edges g) c"
proof -
  obtain st where "dfs_cycle (dg_fuel (edges g)) (edges g) t
      \<lparr>visited = {}, in_stack = {}, dfs_path = []\<rparr> = Some (True, st)" and c: "c = dfs_path st"
    using assms by (auto simp: detect_cycle_def split: option.splits prod.splits bool.splits)
  from dfs_sound(1) [OF this(1)] show ?thesis by (simp add: restored_def path_ok_def c)
qed

subsection \<open>No reported cycle means no reachable cycle\<close>

text \<open>
  The finished nodes (visited and off the stack) are closed under dependencies and none of
  them lies on a cycle.
\<close>

definition fin_ok :: "edge_map \<Rightarrow> dfs_state \<Rightarrow> bool" where
  "fin_ok E st \<longleftrightarrow> dep_rel E `` (visited st - in_stack st) \<subseteq> visited st - in_stack st \<and>
     (\<forall>x \<in> visited st - in_stack st. (x, x) \<notin> (dep_rel E)\<^sup>+)"

lemma closed_trancl: "r `` X \<subseteq> X \<Longrightarrow> x \<in> X \<Longrightarrow> (x, y) \<in> r\<^sup>+ \<Longrightarrow> y \<in> X"
  by (rotate_tac 2, induction rule: trancl_induct) auto

text \<open>A node whose dependencies are all finished can itself be finished.\<close>

lemma finish_node:
  assumes fin: "dep_rel E `` F \<subseteq> F" "\<forall>x \<in> F. (x, x) \<notin> (dep_rel E)\<^sup>+"
    and v: "v \<notin> F" and deps: "set (nexts E v) \<subseteq> F"
  shows "dep_rel E `` insert v F \<subseteq> insert v F \<and> (\<forall>x \<in> insert v F. (x, x) \<notin> (dep_rel E)\<^sup>+)"
proof -
  have "(v, v) \<notin> (dep_rel E)\<^sup>+"
  proof
    assume "(v, v) \<in> (dep_rel E)\<^sup>+"
    then obtain d where "(v, d) \<in> dep_rel E" "d = v \<or> (d, v) \<in> (dep_rel E)\<^sup>+"
      by (meson tranclD rtranclD)
    with deps have "d \<in> F" by auto
    with \<open>d = v \<or> (d, v) \<in> (dep_rel E)\<^sup>+\<close> v show False
      using closed_trancl [OF fin(1)] by blast
  qed
  then show ?thesis using fin deps by auto
qed

lemma dfs_complete:
  "dfs_cycle n E v st = Some (False, st') \<Longrightarrow> fin_ok E st \<Longrightarrow> v \<notin> visited st \<Longrightarrow>
     in_stack st \<subseteq> visited st \<Longrightarrow>
     fin_ok E st' \<and> in_stack st' = in_stack st \<and> v \<in> visited st'"
  "dfs_deps n E ds st = Some (False, st') \<Longrightarrow> fin_ok E st \<Longrightarrow> in_stack st \<subseteq> visited st \<Longrightarrow>
     fin_ok E st' \<and> in_stack st' = in_stack st \<and> set ds \<subseteq> visited st' - in_stack st'"
proof (induction n E v st and n E ds st arbitrary: st' and st' rule: dfs_cycle_dfs_deps.induct)
  case (2 n E v st)
  let ?s = "dfs_enter v st"
  obtain s1 where r: "dfs_deps n E (nexts E v) ?s = Some (False, s1)" and st': "st' = dfs_leave v s1"
    using "2.prems"(1) by (auto split: option.splits prod.splits bool.splits)
  have eq: "visited ?s - in_stack ?s = visited st - in_stack st"
    using "2.prems"(3) by auto
  have "fin_ok E ?s" using "2.prems"(2) unfolding fin_ok_def eq .
  moreover have "in_stack ?s \<subseteq> visited ?s" using "2.prems"(4) by auto
  ultimately have ih: "fin_ok E s1" "in_stack s1 = insert v (in_stack st)"
      "set (nexts E v) \<subseteq> visited s1 - in_stack s1"
    using "2.IH" [OF r] by auto
  have v: "v \<in> visited s1" using dfs_visited_mono(2) [OF r] by auto
  have "v \<notin> in_stack st" using "2.prems"(3,4) by auto
  then have F: "visited st' - in_stack st' = insert v (visited s1 - in_stack s1)"
      "in_stack st' = in_stack st"
    using ih(2) v by (auto simp: st')
  have "fin_ok E st'"
    using finish_node [of E "visited s1 - in_stack s1" v] ih
    unfolding fin_ok_def F(1) by blast
  then show ?case using F v by (auto simp: st')
next
  case (4 n E d ds st)
  show ?case
  proof (cases "d \<in> visited st")
    case False
    then obtain s1 where r: "dfs_cycle n E d st = Some (False, s1)"
        and r2: "dfs_deps n E ds s1 = Some (False, st')"
      using "4.prems"(1) by (auto split: option.splits prod.splits bool.splits)
    have ih: "fin_ok E s1" "in_stack s1 = in_stack st" "d \<in> visited s1"
      using "4.IH"(1) [OF False r] "4.prems" False by simp_all
    moreover have "in_stack s1 \<subseteq> visited s1"
      using dfs_visited_mono(1) [OF r] ih "4.prems"(3) by auto
    ultimately have ih2: "fin_ok E st'" "in_stack st' = in_stack s1"
        "set ds \<subseteq> visited st' - in_stack st'"
      using "4.IH"(2) [OF False r refl _ r2] by auto
    have "d \<in> visited st'" using dfs_visited_mono(2) [OF r2] ih by auto
    moreover have "d \<notin> in_stack st" using False "4.prems"(3) by auto
    ultimately show ?thesis using ih ih2 by auto
  next
    case True
    then have notin: "d \<notin> in_stack st" and r2: "dfs_deps n E ds st = Some (False, st')"
      using "4.prems"(1) by (auto split: if_splits)
    have "fin_ok E st' \<and> in_stack st' = in_stack st \<and> set ds \<subseteq> visited st' - in_stack st'"
      using "4.IH"(3) [OF _ notin r2 "4.prems"(2,3)] True by auto
    then show ?thesis using dfs_visited_mono(2) [OF r2] True notin by auto
  qed
qed auto

subsection \<open>The fuel is enough\<close>

lemma card_minus_insert:
  assumes "finite N" and "v \<in> N" and "v \<notin> V" and "card (N - V) \<le> Suc n"
  shows "card (N - insert v V) \<le> n"
proof -
  have "N - insert v V = (N - V) - {v}" by auto
  with assms show ?thesis by simp
qed

lemma dfs_fuel:
  "finite N \<Longrightarrow> nodes_of E \<subseteq> N \<Longrightarrow> v \<in> N \<Longrightarrow> v \<notin> visited st \<Longrightarrow> card (N - visited st) \<le> n \<Longrightarrow>
     dfs_cycle n E v st \<noteq> None"
  "finite N \<Longrightarrow> nodes_of E \<subseteq> N \<Longrightarrow> set ds \<subseteq> N \<Longrightarrow> card (N - visited st) \<le> n \<Longrightarrow>
     dfs_deps n E ds st \<noteq> None"
proof (induction n E v st and n E ds st rule: dfs_cycle_dfs_deps.induct)
  case (1 E v st)
  then show ?case by auto
next
  case (2 n E v st)
  have "card (N - visited (dfs_enter v st)) \<le> n"
    using card_minus_insert [of N v "visited st" n] "2.prems" by simp
  then have "dfs_deps n E (nexts E v) (dfs_enter v st) \<noteq> None"
    using "2.IH" "2.prems" nexts_in_nodes [of E v] by auto
  then show ?case by (auto split: option.splits prod.splits bool.splits)
next
  case (4 n E d ds st)
  show ?case
  proof (cases "d \<in> visited st")
    case False
    have "dfs_cycle n E d st \<noteq> None" using "4.IH"(1) [OF False] "4.prems" False by simp
    then obtain b s1 where r: "dfs_cycle n E d st = Some (b, s1)" by auto
    have "N - visited s1 \<subseteq> N - visited st" using dfs_visited_mono(1) [OF r] by auto
    then have "card (N - visited s1) \<le> n"
      using "4.prems" by (meson card_mono finite_Diff le_trans)
    then show ?thesis
      using "4.IH"(2) [OF False r refl] "4.prems" False r by (cases b) auto
  next
    case True
    then show ?thesis using "4.IH"(3) "4.prems" by auto
  qed
qed auto

lemma detect_cycle_total:
  "dfs_cycle (dg_fuel E) E t \<lparr>visited = {}, in_stack = {}, dfs_path = []\<rparr> \<noteq> None"
proof -
  have "card (insert t (nodes_of E)) \<le> dg_fuel E"
    using card_nodes_fuel [of E] by (simp add: card_insert_if)
  then show ?thesis by (intro dfs_fuel(1) [of "insert t (nodes_of E)"]) auto
qed

lemma detect_cycle_None_acyclic:
  assumes "detect_cycle g t = None" and "(t, x) \<in> (dep_rel (edges g))\<^sup>*"
  shows "(x, x) \<notin> (dep_rel (edges g))\<^sup>+"
proof -
  let ?s0 = "\<lparr>visited = {}, in_stack = {}, dfs_path = []\<rparr>"
  obtain st where r: "dfs_cycle (dg_fuel (edges g)) (edges g) t ?s0 = Some (False, st)"
    using assms(1) detect_cycle_total [of "edges g" t]
    by (auto simp: detect_cycle_def split: option.splits prod.splits bool.splits)
  have fin: "fin_ok (edges g) st" "in_stack st = {}" "t \<in> visited st"
    using dfs_complete(1) [OF r] by (auto simp: fin_ok_def)
  from assms(2) have "x \<in> visited st"
    using fin by (induction rule: rtrancl_induct) (auto simp: fin_ok_def dep_rel_def)
  with fin show ?thesis by (simp add: fin_ok_def)
qed

subsection \<open>Depth is the longest chain\<close>

text \<open>A chain of \<open>n\<close> tasks, each a direct dependency of the one before, starting at \<open>t\<close>.\<close>

inductive dep_chain :: "edge_map \<Rightarrow> task_id \<Rightarrow> nat \<Rightarrow> bool" for E where
  single: "dep_chain E t (Suc 0)"
| extend: "d \<in> set (nexts E t) \<Longrightarrow> dep_chain E d n \<Longrightarrow> dep_chain E t (Suc n)"

inductive_cases dep_chain_SucE: "dep_chain E t (Suc n)"

definition longest_chain :: "edge_map \<Rightarrow> task_id \<Rightarrow> nat \<Rightarrow> bool" where
  "longest_chain E t n \<longleftrightarrow> dep_chain E t n \<and> (\<forall>m. dep_chain E t m \<longrightarrow> m \<le> n)"

lemma longest_chain_unique: "longest_chain E t m \<Longrightarrow> longest_chain E t n \<Longrightarrow> m = n"
  by (meson le_antisym longest_chain_def)

lemma dep_chain_pos: "dep_chain E t n \<Longrightarrow> 0 < n"
  by (induction rule: dep_chain.induct) auto

lemma longest_chain_leaf: "nexts E t = [] \<Longrightarrow> longest_chain E t (Suc 0)"
  using dep_chain.single [of E t] by (auto simp: longest_chain_def elim: dep_chain.cases)

lemma max_or_0_ge: "x \<in> set xs \<Longrightarrow> x \<le> max_or_0 xs"
  by (induction xs) (auto simp: max_or_0_def)

lemma max_or_0_in: "xs \<noteq> [] \<Longrightarrow> max_or_0 xs \<in> set xs"
proof (induction xs)
  case (Cons x xs)
  then show ?case by (cases "xs = []") (auto simp: max_or_0_def max_def)
qed simp

lemma longest_chain_node:
  assumes all: "list_all2 (longest_chain E) (nexts E t) xs" and ne: "nexts E t \<noteq> []"
  shows "longest_chain E t (Suc (max_or_0 xs))"
  unfolding longest_chain_def
proof
  have "xs \<noteq> []" using all ne by auto
  then obtain i where i: "i < length xs" "xs ! i = max_or_0 xs"
    using max_or_0_in [of xs] by (auto simp: in_set_conv_nth)
  then have "dep_chain E (nexts E t ! i) (max_or_0 xs)" "nexts E t ! i \<in> set (nexts E t)"
    using all by (auto simp: list_all2_conv_all_nth longest_chain_def)
  then show "dep_chain E t (Suc (max_or_0 xs))" by (blast intro: dep_chain.extend)
next
  have dep: "n \<le> max_or_0 xs" if d: "d \<in> set (nexts E t)" and c: "dep_chain E d n" for d n
  proof -
    obtain i where i: "i < length (nexts E t)" "nexts E t ! i = d"
      using d by (auto simp: in_set_conv_nth)
    then have "longest_chain E d (xs ! i)" "i < length xs"
      using all by (auto simp: list_all2_conv_all_nth)
    then have "n \<le> xs ! i" "xs ! i \<in> set xs" using c by (auto simp: longest_chain_def)
    then show ?thesis using max_or_0_ge by (meson le_trans)
  qed
  show "\<forall>m. dep_chain E t m \<longrightarrow> m \<le> Suc (max_or_0 xs)"
  proof (intro allI impI)
    fix m assume "dep_chain E t m"
    then show "m \<le> Suc (max_or_0 xs)" by cases (auto dest: dep)
  qed
qed

definition memo_ok :: "edge_map \<Rightarrow> depth_memo \<Rightarrow> bool" where
  "memo_ok E memo \<longleftrightarrow> (\<forall>k c. hm_get memo k = Some c \<longrightarrow> longest_chain E k c)"

lemma memo_ok_insert: "memo_ok E memo \<Longrightarrow> longest_chain E t n \<Longrightarrow> memo_ok E (hm_insert t n memo)"
  by (auto simp: memo_ok_def)

lemma depth_dfs_correct:
  "depth_dfs n E t memo = Some (d, memo') \<Longrightarrow> memo_ok E memo \<Longrightarrow>
     longest_chain E t d \<and> memo_ok E memo'"
  "depth_deps n E ds memo = Some (xs, memo') \<Longrightarrow> memo_ok E memo \<Longrightarrow>
     list_all2 (longest_chain E) ds xs \<and> memo_ok E memo'"
proof (induction n E t memo and n E ds memo arbitrary: d memo' and xs memo'
    rule: depth_dfs_depth_deps.induct)
  case (2 n E t memo)
  show ?case
  proof (cases "hm_get memo t")
    case None
    show ?thesis
    proof (cases "nexts E t = []")
      case True
      then show ?thesis
        using None "2.prems" longest_chain_leaf memo_ok_insert by auto
    next
      case False
      then obtain ys m1 where r: "depth_deps n E (nexts E t) memo = Some (ys, m1)"
          and d: "d = Suc (max_or_0 ys)" and m': "memo' = hm_insert t d m1"
        using None "2.prems"(1) by (auto split: option.splits prod.splits)
      have "list_all2 (longest_chain E) (nexts E t) ys" "memo_ok E m1"
        using "2.IH" [OF None False r "2.prems"(2)] by simp_all
      then show ?thesis using longest_chain_node False d m' memo_ok_insert by simp
    qed
  next
    case (Some c)
    then show ?thesis using "2.prems" by (auto simp: memo_ok_def)
  qed
next
  case (4 n E d ds memo)
  then obtain x m1 ys where r: "depth_dfs n E d memo = Some (x, m1)"
      and r2: "depth_deps n E ds m1 = Some (ys, memo')" and xs: "xs = x # ys"
    by (auto split: option.splits prod.splits)
  have "longest_chain E d x" "memo_ok E m1"
    using "4.IH"(1) [OF r "4.prems"(2)] by simp_all
  then show ?case using "4.IH"(2) [OF r refl r2] xs by simp
qed auto

text \<open>
  The depth search spends one unit of fuel per level, and the tasks reachable from a
  dependency are fewer than those reachable from the task, unless it lies on a cycle.
\<close>

lemma reach_in_nodes: "(dep_rel E)\<^sup>* `` {t} \<subseteq> insert t (nodes_of E)"
proof
  fix x assume "x \<in> (dep_rel E)\<^sup>* `` {t}"
  then have "(t, x) \<in> (dep_rel E)\<^sup>*" by simp
  then show "x \<in> insert t (nodes_of E)"
    using nexts_in_nodes by (cases rule: rtranclE) auto
qed

lemma reach_finite: "finite ((dep_rel E)\<^sup>* `` {t})"
  by (rule finite_subset [OF reach_in_nodes]) simp

lemma reach_card_decreases:
  assumes "d \<in> set (nexts E t)" and "(t, t) \<notin> (dep_rel E)\<^sup>+"
  shows "card ((dep_rel E)\<^sup>* `` {d}) < card ((dep_rel E)\<^sup>* `` {t})"
proof (rule psubset_card_mono)
  show "finite ((dep_rel E)\<^sup>* `` {t})" by (rule reach_finite)
  have "t \<notin> (dep_rel E)\<^sup>* `` {d}"
    using assms by (auto dest: rtrancl_into_trancl2 [rotated])
  moreover have "(dep_rel E)\<^sup>* `` {d} \<subseteq> (dep_rel E)\<^sup>* `` {t}"
    using assms(1) by (auto intro: converse_rtrancl_into_rtrancl)
  ultimately show "(dep_rel E)\<^sup>* `` {d} \<subset> (dep_rel E)\<^sup>* `` {t}" by blast
qed

definition acyclic_from :: "edge_map \<Rightarrow> task_id \<Rightarrow> bool" where
  "acyclic_from E t \<longleftrightarrow> (\<forall>x. (t, x) \<in> (dep_rel E)\<^sup>* \<longrightarrow> (x, x) \<notin> (dep_rel E)\<^sup>+)"

lemma acyclic_from_next: "acyclic_from E t \<Longrightarrow> d \<in> set (nexts E t) \<Longrightarrow> acyclic_from E d"
  unfolding acyclic_from_def by (meson converse_rtrancl_into_rtrancl dep_rel_iff)

lemma depth_fuel:
  "acyclic_from E t \<Longrightarrow> card ((dep_rel E)\<^sup>* `` {t}) \<le> n \<Longrightarrow> depth_dfs n E t memo \<noteq> None"
  "\<forall>d \<in> set ds. acyclic_from E d \<and> card ((dep_rel E)\<^sup>* `` {d}) \<le> n \<Longrightarrow> depth_deps n E ds memo \<noteq> None"
proof (induction n E t memo and n E ds memo rule: depth_dfs_depth_deps.induct)
  case (1 E t memo)
  then show ?case using reach_finite [of E t] by auto
next
  case (2 n E t memo)
  have "acyclic_from E d \<and> card ((dep_rel E)\<^sup>* `` {d}) \<le> n" if "d \<in> set (nexts E t)" for d
    using that "2.prems" reach_card_decreases [of d E t] acyclic_from_next
    by (fastforce simp: acyclic_from_def)
  then have deps: "nexts E t \<noteq> [] \<Longrightarrow> hm_get memo t = None \<Longrightarrow> depth_deps n E (nexts E t) memo \<noteq> None"
    using "2.IH" by blast
  show ?case
  proof (cases "hm_get memo t")
    case None
    then show ?thesis using deps by (cases "nexts E t = []") (auto simp: Let_def)
  qed simp
next
  case (4 n E d ds memo)
  then obtain x m1 where r: "depth_dfs n E d memo = Some (x, m1)" by fastforce
  then have "depth_deps n E ds m1 \<noteq> None" using "4.IH"(2) [OF r refl] "4.prems" by simp
  then show ?case using r by auto
qed auto

lemma calculate_depth_longest:
  assumes "acyclic_from (edges g) t"
  obtains n where "calculate_depth g t = Some n" and "longest_chain (edges g) t n"
proof -
  let ?E = "edges g"
  have "card ((dep_rel ?E)\<^sup>* `` {t}) \<le> card (insert t (nodes_of ?E))"
    by (intro card_mono reach_in_nodes) simp
  also have "\<dots> \<le> dg_fuel ?E"
    using card_nodes_fuel [of ?E] by (simp add: card_insert_if)
  finally obtain d m where r: "depth_dfs (dg_fuel ?E) ?E t hm_empty = Some (d, m)"
    using depth_fuel(1) [OF assms] by fastforce
  have "longest_chain ?E t d"
    using depth_dfs_correct(1) [OF r] by (simp add: memo_ok_def)
  then show thesis using r that by (simp add: calculate_depth_def)
qed

end
