(* ===== verification/Dependency_Invariant.thy ===== *)
theory Dependency_Invariant
  imports Dependency_Search
begin

text \<open>
  The well-formedness invariant of the dependency graph and what each operation does to
  it: the reverse edges mirror the edges with multiplicities, every dependency is a
  registered task, the graph is acyclic, and no chain is longer than
  \<open>MAX_DEPENDENCY_DEPTH\<close>.
\<close>

definition mirrored :: "dep_graph \<Rightarrow> bool" where
  "mirrored g \<longleftrightarrow>
     (\<forall>t d. count_list (nexts (reverse_edges g) d) t = count_list (nexts (edges g) t) d)"

definition deps_closed :: "dep_graph \<Rightarrow> bool" where
  "deps_closed g \<longleftrightarrow> (\<forall>t. set (nexts (edges g) t) \<subseteq> hm_keys (edges g))"

definition depth_bounded :: "dep_graph \<Rightarrow> bool" where
  "depth_bounded g \<longleftrightarrow> (\<forall>t n. dep_chain (edges g) t n \<longrightarrow> n \<le> MAX_DEPENDENCY_DEPTH)"

definition dg_inv :: "dep_graph \<Rightarrow> bool" where
  "dg_inv g \<longleftrightarrow> hm_inv (edges g) \<and> hm_inv (reverse_edges g) \<and> mirrored g \<and> deps_closed g \<and>
     acyclic (dep_rel (edges g)) \<and> depth_bounded g"

text \<open>Two graphs that no operation of the module can tell apart.\<close>

definition same_graph :: "dep_graph \<Rightarrow> dep_graph \<Rightarrow> bool" where
  "same_graph g h \<longleftrightarrow> (\<forall>t. hm_get (edges g) t = hm_get (edges h) t) \<and>
     (\<forall>t. nexts (reverse_edges g) t = nexts (reverse_edges h) t) \<and> completed g = completed h"

subsection \<open>What the updates do to the successor lists\<close>

lemma nexts_insert [simp]: "nexts (hm_insert k ds E) t = (if t = k then ds else nexts E t)"
  by (simp add: nexts_def)

lemma nexts_remove [simp]: "nexts (hm_remove k E) t = (if t = k then [] else nexts E t)"
  by (simp add: nexts_def)

lemma nexts_drop_dependent:
  "nexts (drop_dependent t d R) x = (if x = d then filter (\<lambda>i. i \<noteq> t) (nexts R x) else nexts R x)"
  by (auto simp: drop_dependent_def nexts_def split: option.splits)

lemma nexts_notin_keys [simp]: "t \<notin> hm_keys E \<Longrightarrow> nexts E t = []"
  by (auto simp: nexts_def hm.keys_lookup split: option.splits)

lemma nexts_fold_drop:
  "nexts (fold (drop_dependent t) ds R) x =
     (if x \<in> set ds then filter (\<lambda>i. i \<noteq> t) (nexts R x) else nexts R x)"
  by (induction ds arbitrary: R) (auto simp: nexts_drop_dependent)

lemma nexts_fold_push:
  "nexts (fold (push_reverse t) ds R) x = nexts R x @ replicate (count_list ds x) t"
  by (induction ds arbitrary: R) (auto simp: push_reverse_def replicate_append_same)

lemma hm_inv_fold_push [simp]: "hm_inv R \<Longrightarrow> hm_inv (fold (push_reverse t) ds R)"
  by (induction ds arbitrary: R) (auto simp: push_reverse_def)

lemma hm_inv_fold_drop [simp]: "hm_inv R \<Longrightarrow> hm_inv (fold (drop_dependent t) ds R)"
  by (induction ds arbitrary: R) (auto simp: drop_dependent_def)

lemma hm_keys_fold_drop [simp]: "hm_keys (fold (drop_dependent t) ds R) = hm_keys R"
  by (induction ds arbitrary: R) (simp_all add: drop_dependent_def)

lemma link_task_simps [simp]:
  "edges (link_task t deps g) = hm_insert t deps (edges g)"
  "reverse_edges (link_task t deps g) = fold (push_reverse t) deps (reverse_edges g)"
  "completed (link_task t deps g) = completed g"
  by (simp_all add: link_task_def)

lemma mirrored_mem: "mirrored g \<Longrightarrow> t \<in> set (nexts (reverse_edges g) d) \<longleftrightarrow> d \<in> set (nexts (edges g) t)"
  unfolding mirrored_def by (metis count_list_0_iff_notin)

lemma dg_inv_new: "dg_inv dg_new"
proof -
  have "dep_rel hm_empty = {}" by (simp add: dep_rel_def nexts_def)
  moreover have "n \<le> MAX_DEPENDENCY_DEPTH" if "dep_chain hm_empty t n" for t n
    using that by cases (auto simp: nexts_def MAX_DEPENDENCY_DEPTH_def)
  ultimately show ?thesis
    by (auto simp: dg_inv_def dg_new_def mirrored_def deps_closed_def depth_bounded_def nexts_def
        acyclic_def)
qed

subsection \<open>Adding a task\<close>

lemma rollback_restores:
  assumes inv: "dg_inv g" and fresh: "t \<notin> hm_keys (edges g)"
  shows "same_graph (rollback_task t deps (link_task t deps g)) g"
proof -
  have rev: "nexts (reverse_edges (rollback_task t deps (link_task t deps g))) d =
      nexts (reverse_edges g) d" for d
  proof -
    have "t \<notin> set (nexts (reverse_edges g) d)"
      using inv fresh mirrored_mem [of g t d] by (simp add: dg_inv_def)
    then show ?thesis
      by (simp add: rollback_task_def nexts_fold_drop nexts_fold_push count_list_0_iff_notin)
  qed
  have "hm_get (edges g) t = None" using fresh by (simp add: hm.keys_lookup)
  then show ?thesis by (simp add: same_graph_def rev) (simp add: rollback_task_def)
qed

lemma hm_inv_rollback:
  "hm_inv (edges g) \<Longrightarrow> hm_inv (reverse_edges g) \<Longrightarrow>
     hm_inv (edges (rollback_task t deps g)) \<and> hm_inv (reverse_edges (rollback_task t deps g))"
  by (simp add: rollback_task_def)

lemma dg_inv_same_graph:
  assumes "dg_inv g" and same: "same_graph h g" and "hm_inv (edges h)" and "hm_inv (reverse_edges h)"
  shows "dg_inv h"
proof -
  have n: "nexts (edges h) t = nexts (edges g) t" for t
    using same by (simp add: same_graph_def nexts_def)
  have k: "hm_keys (edges h) = hm_keys (edges g)"
    using same by (simp add: same_graph_def set_eq_iff hm.keys_lookup)
  have "dep_rel (edges h) = dep_rel (edges g)" by (auto simp: dep_rel_def n)
  moreover have "depth_bounded h"
  proof -
    have "dep_chain (edges g) t m" if "dep_chain (edges h) t m" for t m
      using that by induction (auto intro: dep_chain.intros simp: n)
    then show ?thesis using assms(1) unfolding dg_inv_def depth_bounded_def by blast
  qed
  ultimately show ?thesis
    using assms unfolding dg_inv_def mirrored_def deps_closed_def same_graph_def
    by (simp add: n k)
qed

text \<open>
  A fresh task cannot be reached from the tasks already there, so the old part of the
  graph is untouched.
\<close>

lemma link_old_steps:
  assumes closed: "deps_closed g" and fresh: "t \<notin> hm_keys (edges g)" and "x \<noteq> t"
  shows "(x, y) \<in> (dep_rel (edges (link_task t deps g)))\<^sup>+ \<Longrightarrow> (x, y) \<in> (dep_rel (edges g))\<^sup>+ \<and> y \<noteq> t"
proof (induction rule: trancl_induct)
  case (base y)
  then have "y \<in> set (nexts (edges g) x)" using assms(3) by simp
  moreover from this have "y \<noteq> t" using closed fresh by (auto simp: deps_closed_def)
  ultimately show ?case by auto
next
  case (step y z)
  then have "z \<in> set (nexts (edges g) y)" by simp
  moreover from this have "z \<noteq> t" using closed fresh by (auto simp: deps_closed_def)
  ultimately show ?case using step.IH by (auto intro: trancl_into_trancl)
qed

lemma link_old_chain:
  assumes closed: "deps_closed g" and fresh: "t \<notin> hm_keys (edges g)"
  shows "dep_chain (edges (link_task t deps g)) x n \<Longrightarrow> x \<noteq> t \<Longrightarrow> dep_chain (edges g) x n"
proof (induction rule: dep_chain.induct)
  case (single x)
  show ?case by (rule dep_chain.single)
next
  case (extend d x n)
  then have d: "d \<in> set (nexts (edges g) x)" by simp
  then have "d \<noteq> t" using closed fresh by (auto simp: deps_closed_def)
  then show ?case using d extend.IH by (blast intro: dep_chain.extend)
qed

lemma link_task_mirrored:
  assumes "mirrored g" and "t \<notin> hm_keys (edges g)"
  shows "mirrored (link_task t deps g)"
  unfolding mirrored_def
proof (intro allI)
  fix x d
  have "count_list (nexts (reverse_edges g) d) t = 0"
    using assms by (simp add: mirrored_def)
  then show "count_list (nexts (reverse_edges (link_task t deps g)) d) x =
      count_list (nexts (edges (link_task t deps g)) x) d"
    using assms(1) by (auto simp: mirrored_def nexts_fold_push count_list_append)
qed

lemma link_task_inv:
  assumes inv: "dg_inv g" and fresh: "t \<notin> hm_keys (edges g)"
    and deps: "set deps \<subseteq> insert t (hm_keys (edges g))"
    and acyc: "acyclic_from (edges (link_task t deps g)) t"
    and depth: "longest_chain (edges (link_task t deps g)) t n" "n \<le> MAX_DEPENDENCY_DEPTH"
  shows "dg_inv (link_task t deps g)"
proof -
  let ?E = "edges (link_task t deps g)"
  have closed: "deps_closed g" using inv by (simp add: dg_inv_def)
  have "deps_closed (link_task t deps g)"
    using closed deps by (auto simp: deps_closed_def)
  moreover have "acyclic (dep_rel ?E)"
    unfolding acyclic_def
  proof
    fix x
    show "(x, x) \<notin> (dep_rel ?E)\<^sup>+"
    proof (cases "x = t")
      case True
      with acyc show ?thesis by (simp add: acyclic_from_def)
    next
      case False
      with link_old_steps [OF closed fresh False, of x] inv show ?thesis
        by (auto simp: dg_inv_def acyclic_def)
    qed
  qed
  moreover have "depth_bounded (link_task t deps g)"
    unfolding depth_bounded_def
  proof (intro allI impI)
    fix x m assume c: "dep_chain ?E x m"
    show "m \<le> MAX_DEPENDENCY_DEPTH"
    proof (cases "x = t")
      case True
      with c depth show ?thesis by (auto simp: longest_chain_def intro: le_trans)
    next
      case False
      with link_old_chain [OF closed fresh c] inv show ?thesis
        by (auto simp: dg_inv_def depth_bounded_def)
    qed
  qed
  ultimately show ?thesis
    using inv link_task_mirrored [OF _ fresh] by (simp add: dg_inv_def)
qed

text \<open>The three checks of \<open>add_task\<close>, with the facts the searches establish.\<close>

lemma add_task_cases:
  obtains (unknown) d where "d \<in> set deps" "d \<notin> known" "d \<notin> hm_keys (edges g)"
      "add_task t deps known g = Some (g, Inl (TaskNotFound d))"
  | (cycle) c where "set deps \<subseteq> known \<union> hm_keys (edges g)" "is_cycle (edges (link_task t deps g)) c"
      "add_task t deps known g =
         Some (rollback_task t deps (link_task t deps g), Inl (DependencyCycle c))"
  | (deep) n where "set deps \<subseteq> known \<union> hm_keys (edges g)" "acyclic_from (edges (link_task t deps g)) t"
      "longest_chain (edges (link_task t deps g)) t n" "n > MAX_DEPENDENCY_DEPTH"
      "add_task t deps known g =
         Some (rollback_task t deps (link_task t deps g), Inl (DependencyTooDeep n MAX_DEPENDENCY_DEPTH))"
  | (ok) n where "set deps \<subseteq> known \<union> hm_keys (edges g)" "acyclic_from (edges (link_task t deps g)) t"
      "longest_chain (edges (link_task t deps g)) t n" "n \<le> MAX_DEPENDENCY_DEPTH"
      "add_task t deps known g = Some (link_task t deps g, Inr ())"
proof (cases "find (\<lambda>d. d \<notin> known \<and> \<not> hm_contains (edges g) d) deps")
  case (Some d)
  then have "d \<in> set deps" "d \<notin> known" "d \<notin> hm_keys (edges g)"
    by (auto simp: find_Some_iff hm_contains_iff)
  then show thesis using unknown Some by (simp add: add_task_def)
next
  case None
  let ?g = "link_task t deps g"
  have known: "set deps \<subseteq> known \<union> hm_keys (edges g)"
    using None by (auto simp: find_None_iff hm_contains_iff)
  show thesis
  proof (cases "detect_cycle ?g t")
    case (Some c)
    then show thesis
      using cycle [OF known detect_cycle_is_cycle [OF Some]] None by (simp add: add_task_def)
  next
    case no_cycle: None
    then have acyc: "acyclic_from (edges ?g) t"
      unfolding acyclic_from_def using detect_cycle_None_acyclic by blast
    then obtain n where n: "calculate_depth ?g t = Some n" "longest_chain (edges ?g) t n"
      by (rule calculate_depth_longest)
    have "add_task t deps known g =
        (if n > MAX_DEPENDENCY_DEPTH
         then Some (rollback_task t deps ?g, Inl (DependencyTooDeep n MAX_DEPENDENCY_DEPTH))
         else Some (?g, Inr ()))"
      using None no_cycle n(1) by (simp add: add_task_def)
    then show thesis
      using deep [OF known acyc n(2)] ok [OF known acyc n(2)]
      by (cases "n > MAX_DEPENDENCY_DEPTH") auto
  qed
qed

lemma add_task_total: "\<exists>g' r. add_task t deps known g = Some (g', r)"
  by (rule add_task_cases [of deps known g t]) auto

lemma add_task_error_restores:
  assumes "dg_inv g" and "t \<notin> hm_keys (edges g)"
    and "add_task t deps known g = Some (g', Inl e)"
  shows "same_graph g' g \<and> hm_inv (edges g') \<and> hm_inv (reverse_edges g')"
proof (cases rule: add_task_cases [of deps known g t])
  case unknown
  then show ?thesis using assms by (simp add: same_graph_def dg_inv_def)
next
  case cycle
  then show ?thesis
    using assms rollback_restores [OF assms(1,2), of deps]
    by (auto simp: dg_inv_def hm_inv_rollback)
next
  case deep
  then show ?thesis
    using assms rollback_restores [OF assms(1,2), of deps]
    by (auto simp: dg_inv_def hm_inv_rollback)
next
  case ok
  then show ?thesis using assms by simp
qed

lemma add_task_inv:
  assumes inv: "dg_inv g" and fresh: "t \<notin> hm_keys (edges g)"
    and known: "known \<subseteq> insert t (hm_keys (edges g))"
    and r: "add_task t deps known g = Some (g', r)"
  shows "dg_inv g'"
proof (cases r)
  case (Inl e)
  then show ?thesis
    using add_task_error_restores [OF inv fresh] r dg_inv_same_graph [OF inv] by blast
next
  case (Inr u)
  show ?thesis
  proof (cases rule: add_task_cases [of deps known g t])
    case (ok n)
    then show ?thesis
      using link_task_inv [OF inv fresh, of deps n] known r by auto
  qed (use r Inr in auto)
qed

subsection \<open>Removing a task\<close>

lemma remove_task_nexts:
  assumes "dg_inv g"
  shows "nexts (edges (remove_task t g)) x =
      (if x = t then [] else filter (\<lambda>i. i \<noteq> t) (nexts (edges g) x))"
    and "nexts (reverse_edges (remove_task t g)) x =
      (if x = t then [] else filter (\<lambda>i. i \<noteq> t) (nexts (reverse_edges g) x))"
proof -
  have mir: "mirrored g" using assms by (simp add: dg_inv_def)
  have self: "t \<notin> set (nexts (edges g) t)"
    using assms unfolding dg_inv_def acyclic_def by (meson dep_rel_iff r_into_trancl)
  have selfr: "t \<notin> set (nexts (reverse_edges g) t)" using mirrored_mem [OF mir] self by simp
  let ?f = "remove_forward t g"
  have fe: "nexts (edges ?f) y = (if y = t then [] else nexts (edges g) y)" for y
    by (auto simp: remove_forward_def nexts_def split: option.splits)
  have fr: "nexts (reverse_edges ?f) y = filter (\<lambda>i. i \<noteq> t) (nexts (reverse_edges g) y)" for y
  proof (cases "y \<in> set (nexts (edges g) t)")
    case True
    then show ?thesis
      by (auto simp: remove_forward_def nexts_fold_drop nexts_def [of "edges g"] split: option.splits)
  next
    case False
    then have "t \<notin> set (nexts (reverse_edges g) y)" using mirrored_mem [OF mir] by simp
    then show ?thesis
      using False by (auto simp: remove_forward_def nexts_fold_drop nexts_def [of "edges g"]
          split: option.splits)
  qed
  have ft: "nexts (reverse_edges ?f) t = nexts (reverse_edges g) t" using fr selfr by simp
  have be: "nexts (edges (remove_backward t ?f)) x =
      (if x \<in> set (nexts (reverse_edges ?f) t) then filter (\<lambda>i. i \<noteq> t) (nexts (edges ?f) x)
       else nexts (edges ?f) x)"
    by (auto simp: remove_backward_def nexts_fold_drop nexts_def [of "reverse_edges ?f"]
        split: option.splits)
  have "x \<notin> set (nexts (reverse_edges g) t) \<Longrightarrow> t \<notin> set (nexts (edges g) x)"
    using mirrored_mem [OF mir] by simp
  then show "nexts (edges (remove_task t g)) x =
      (if x = t then [] else filter (\<lambda>i. i \<noteq> t) (nexts (edges g) x))"
    by (auto simp: remove_task_def Let_def be fe ft)
  have "nexts (reverse_edges (remove_backward t ?f)) x =
      (if x = t then [] else nexts (reverse_edges ?f) x)"
    by (auto simp: remove_backward_def nexts_def split: option.splits)
  then show "nexts (reverse_edges (remove_task t g)) x =
      (if x = t then [] else filter (\<lambda>i. i \<noteq> t) (nexts (reverse_edges g) x))"
    by (simp add: remove_task_def Let_def fr)
qed

lemma remove_task_keys: "hm_keys (edges (remove_task t g)) = hm_keys (edges g) - {t}"
proof -
  have f: "hm_keys (edges (remove_forward t g)) = hm_keys (edges g) - {t}"
    by (auto simp: remove_forward_def hm.keys_lookup split: option.splits if_splits)
  have "hm_keys (edges (remove_backward t h)) = hm_keys (edges h)" for h
    by (auto simp: remove_backward_def split: option.splits)
  then show ?thesis by (simp add: remove_task_def Let_def f)
qed

lemma remove_task_hm_inv:
  assumes "hm_inv (edges g)" and "hm_inv (reverse_edges g)"
  shows "hm_inv (edges (remove_task t g)) \<and> hm_inv (reverse_edges (remove_task t g))"
  using assms
  by (auto simp: remove_task_def remove_forward_def remove_backward_def Let_def split: option.splits)

lemma remove_task_inv:
  assumes inv: "dg_inv g"
  shows "dg_inv (remove_task t g)"
proof -
  let ?h = "remove_task t g"
  note n = remove_task_nexts [OF inv]
  have sub: "set (nexts (edges ?h) x) \<subseteq> set (nexts (edges g) x) - {t}" for x
    by (auto simp: n(1))
  have "mirrored ?h"
    using inv by (auto simp: mirrored_def n count_list_filter_neq dg_inv_def)
  moreover have "deps_closed ?h"
    using inv sub by (fastforce simp: deps_closed_def remove_task_keys dg_inv_def)
  moreover have "acyclic (dep_rel (edges ?h))"
    by (rule acyclic_subset [of "dep_rel (edges g)"]) (use inv sub in \<open>auto simp: dg_inv_def dep_rel_def\<close>)
  moreover have "depth_bounded ?h"
  proof -
    have "dep_chain (edges g) x m" if "dep_chain (edges ?h) x m" for x m
      using that sub by induction (blast intro: dep_chain.intros)+
    then show ?thesis using inv by (auto simp: dg_inv_def depth_bounded_def)
  qed
  ultimately show ?thesis
    using remove_task_hm_inv inv by (simp add: dg_inv_def)
qed

subsection \<open>Completing a task\<close>

lemma is_unblocked_iff: "is_unblocked g t \<longleftrightarrow> set (nexts (edges g) t) \<subseteq> completed g"
  by (auto simp: is_unblocked_def nexts_def list_all_iff split: option.splits)

lemma has_dependencies_iff: "has_dependencies g t \<longleftrightarrow> nexts (edges g) t \<noteq> []"
  by (auto simp: has_dependencies_def nexts_def split: option.splits)

lemma mark_completed_graph [simp]:
  "edges (fst (mark_completed t g)) = edges g"
  "reverse_edges (fst (mark_completed t g)) = reverse_edges g"
  "completed (fst (mark_completed t g)) = insert t (completed g)"
  by (simp_all add: mark_completed_def Let_def)

lemma mark_completed_inv: "dg_inv g \<Longrightarrow> dg_inv (fst (mark_completed t g))"
  by (simp add: dg_inv_def mirrored_def deps_closed_def depth_bounded_def)

lemma count_list_filter: "count_list (filter P xs) x = (if P x then count_list xs x else 0)"
  by (induction xs) auto

subsection \<open>The contract of the graph towards the scheduler\<close>

text \<open>
  What a client that completes tasks relies on: completing a task adds it to the completed
  ones, keeps every dependency, and reports only dependents whose dependencies are then all
  complete.
\<close>

locale completion_graph =
  fixes deps_of :: "'g \<Rightarrow> 'i \<Rightarrow> 'i set"
    and done_of :: "'g \<Rightarrow> 'i set"
    and complete :: "'i \<Rightarrow> 'g \<Rightarrow> 'g \<times> 'i list"
    and wf_graph :: "'g \<Rightarrow> bool"
  assumes complete_deps: "deps_of (fst (complete t g)) = deps_of g"
    and complete_done: "done_of (fst (complete t g)) = insert t (done_of g)"
    and complete_wf: "wf_graph g \<Longrightarrow> wf_graph (fst (complete t g))"
    and complete_reports: "wf_graph g \<Longrightarrow> x \<in> set (snd (complete t g)) \<Longrightarrow>
      t \<in> deps_of g x \<and> deps_of g x \<subseteq> insert t (done_of g)"
begin

definition done_closed :: "'g \<Rightarrow> bool" where
  "done_closed g \<longleftrightarrow> (\<forall>t \<in> done_of g. deps_of g t \<subseteq> done_of g)"

lemma done_closed_complete:
  "done_closed g \<Longrightarrow> deps_of g t \<subseteq> done_of g \<Longrightarrow> done_closed (fst (complete t g))"
  by (auto simp: done_closed_def complete_deps complete_done)

lemma reported_runnable:
  "wf_graph g \<Longrightarrow> x \<in> set (snd (complete t g)) \<Longrightarrow>
     deps_of (fst (complete t g)) x \<subseteq> done_of (fst (complete t g))"
  using complete_reports by (simp add: complete_deps complete_done)

end

definition dep_set :: "dep_graph \<Rightarrow> task_id \<Rightarrow> task_id set" where
  "dep_set g t = set (dependencies_of g t)"

interpretation dg: completion_graph dep_set completed mark_completed dg_inv
proof unfold_locales
  fix t x :: task_id and g :: dep_graph
  show "dep_set (fst (mark_completed t g)) = dep_set g"
    by (simp add: dep_set_def dependencies_of_def fun_eq_iff)
  show "completed (fst (mark_completed t g)) = insert t (completed g)" by simp
  show "dg_inv g \<Longrightarrow> dg_inv (fst (mark_completed t g))" by (rule mark_completed_inv)
  assume "dg_inv g" "x \<in> set (snd (mark_completed t g))"
  then show "t \<in> dep_set g x \<and> dep_set g x \<subseteq> insert t (completed g)"
    by (auto simp: mark_completed_def Let_def dep_set_def dependencies_of_def dg_inv_def
        mirrored_mem is_unblocked_iff)
qed

end
