(* ===== verification/Dependency_Topo.thy ===== *)
theory Dependency_Topo
  imports Dependency_Invariant
begin

text \<open>
  Correctness of \<open>topological_order\<close> (Kahn's algorithm): on a well-formed graph, for every
  iteration order of the in-degree table, the loop ends without an underflow and lists
  each task exactly once, after all of its dependencies.
\<close>

definition topo_sorted :: "edge_map \<Rightarrow> task_id list \<Rightarrow> bool" where
  "topo_sorted E ts \<longleftrightarrow> (\<forall>i < length ts. set (nexts E (ts ! i)) \<subseteq> set (take i ts))"

lemma topo_sorted_snoc:
  "topo_sorted E ts \<Longrightarrow> set (nexts E t) \<subseteq> set ts \<Longrightarrow> topo_sorted E (ts @ [t])"
  by (auto simp: topo_sorted_def nth_append less_Suc_eq)

subsection \<open>The in-degree table\<close>

lemma fold_zeros:
  "hm_get (fold (\<lambda>k m. if hm_contains m k then m else hm_insert k 0 m) ks m) x =
     (case hm_get m x of Some v \<Rightarrow> Some v | None \<Rightarrow> if x \<in> set ks then Some 0 else None)"
proof (induction ks arbitrary: m)
  case (Cons k ks)
  show ?case
    by (simp only: fold_simps Cons.IH) (auto simp: hm_contains_def split: option.splits)
qed (simp split: option.split)

lemma fold_degrees:
  "hm_inv E \<Longrightarrow> hm_get (fold (\<lambda>(k, deps) m. hm_insert k (length deps) m) E m) x =
     (case hm_get E x of Some deps \<Rightarrow> Some (length deps) | None \<Rightarrow> hm_get m x)"
proof (induction E arbitrary: m)
  case (Cons e E)
  obtain k deps where e: "e = (k, deps)" by (cases e)
  have "hm_get E k = None" using Cons.prems e by (auto simp: hm_inv_def map_of_eq_None_iff)
  moreover have "hm_inv E" using Cons.prems by (simp add: hm_inv_def)
  ultimately show ?case using Cons.IH e by (auto split: option.splits)
qed simp

lemma init_in_degree_get:
  assumes "hm_inv E"
  shows "hm_get (init_in_degree E) x =
    (if x \<in> hm_keys E then Some (length (nexts E x))
     else if x \<in> nodes_of E then Some 0 else None)"
proof -
  have "hm_get E x = None \<Longrightarrow> x \<notin> hm_keys E" by (simp add: hm.keys_lookup)
  then show ?thesis
    using assms by (auto simp: init_in_degree_def Let_def fold_degrees fold_zeros nexts_def nodes_of_def
        dest: hm_get_SomeD split: option.splits)
qed

lemma hm_inv_init_in_degree: "hm_inv (init_in_degree E)"
proof -
  have "hm_inv m \<Longrightarrow> hm_inv (fold (\<lambda>k m. if hm_contains m k then m else hm_insert k 0 m) ks m)"
    for ks and m :: "(task_id, nat) hashmap"
    by (induction ks arbitrary: m) auto
  moreover have "hm_inv m \<Longrightarrow> hm_inv (fold (\<lambda>(k, deps) m. hm_insert k (length deps) m) es m)"
    for es :: edge_map and m :: "(task_id, nat) hashmap"
    by (induction es arbitrary: m) auto
  ultimately show ?thesis by (simp add: init_in_degree_def Let_def)
qed

lemma closed_nodes: "deps_closed g \<Longrightarrow> hm_inv (edges g) \<Longrightarrow> nodes_of (edges g) = hm_keys (edges g)"
proof -
  assume "deps_closed g" "hm_inv (edges g)"
  then have "set ds \<subseteq> hm_keys (edges g)" if "(k, ds) \<in> set (edges g)" for k ds
    using that hm_get_mem [of "edges g" k ds] unfolding deps_closed_def nexts_def
    by (metis option.simps(5))
  then have "\<Union> (set ` snd ` set (edges g)) \<subseteq> hm_keys (edges g)"
    by (metis (no_types, lifting) UN_least image_iff image_image prod.collapse)
  then show ?thesis unfolding nodes_of_def by blast
qed

subsection \<open>One round\<close>

lemma relax_dependents_spec:
  assumes "\<forall>x \<in> set ds. \<exists>k. hm_get deg x = Some k \<and> count_list ds x \<le> k"
  shows "\<exists>deg' new. relax_dependents ds deg queue = Some (deg', queue @ new) \<and> distinct new \<and>
    set new = {x \<in> set ds. hm_get deg x = Some (count_list ds x)} \<and>
    (\<forall>x. hm_get deg' x = map_option (\<lambda>k. k - count_list ds x) (hm_get deg x))"
  using assms
proof (induction ds arbitrary: deg queue)
  case Nil
  have "map_option (\<lambda>k. k - count_list [] x) (hm_get deg x) = hm_get deg x" for x
    by (cases "hm_get deg x") auto
  then show ?case by auto
next
  case (Cons d ds)
  then obtain k where k: "hm_get deg d = Some (Suc k)" and kle: "count_list ds d \<le> k"
    by (auto simp: Suc_le_eq dest!: gr0_implies_Suc less_imp_Suc_add)
  let ?deg = "hm_insert d k deg" and ?q = "if k = 0 then queue @ [d] else queue"
  have "\<forall>x \<in> set ds. \<exists>k. hm_get ?deg x = Some k \<and> count_list ds x \<le> k"
    using Cons.prems kle by auto
  from Cons.IH [OF this, of ?q] obtain deg' new where
    r: "relax_dependents ds ?deg ?q = Some (deg', ?q @ new)" "distinct new"
      "set new = {x \<in> set ds. hm_get ?deg x = Some (count_list ds x)}"
      "\<forall>x. hm_get deg' x = map_option (\<lambda>k. k - count_list ds x) (hm_get ?deg x)"
    by blast
  have step: "relax_dependents (d # ds) deg queue =
      Some (deg', queue @ (if k = 0 then d # new else new))"
    using k r(1) by simp
  have deg': "\<forall>x. hm_get deg' x = map_option (\<lambda>k. k - count_list (d # ds) x) (hm_get deg x)"
  proof
    fix x
    show "hm_get deg' x = map_option (\<lambda>k. k - count_list (d # ds) x) (hm_get deg x)"
      using spec [OF r(4), of x] k by (cases "x = d") simp_all
  qed
  have new: "x \<in> set new \<longleftrightarrow> x \<in> set ds \<and> (if x = d then k = count_list ds d
      else hm_get deg x = Some (count_list ds x))" for x
    using r(3) by auto
  show ?case
  proof (cases "k = 0")
    case True
    then have "d \<notin> set ds" using kle by (simp add: count_list_0_iff_notin)
    have "distinct (d # new)" using r(2) new [of d] \<open>d \<notin> set ds\<close> by simp
    moreover have "x \<in> set (d # new) \<longleftrightarrow>
        x \<in> {x \<in> set (d # ds). hm_get deg x = Some (count_list (d # ds) x)}" for x
      using new [of x] k True \<open>d \<notin> set ds\<close> by (cases "x = d") (simp_all add: count_list_0_iff_notin)
    then have "set (d # new) = {x \<in> set (d # ds). hm_get deg x = Some (count_list (d # ds) x)}"
      by (rule set_eqI)
    ultimately show ?thesis
      using step deg' True by (intro exI [of _ deg'] exI [of _ "d # new"]) simp
  next
    case False
    have "x \<in> set new \<longleftrightarrow>
        x \<in> {x \<in> set (d # ds). hm_get deg x = Some (count_list (d # ds) x)}" for x
      using new [of x] k False count_list_0_iff_notin [of ds d] by (cases "x = d") auto
    then have "set new = {x \<in> set (d # ds). hm_get deg x = Some (count_list (d # ds) x)}"
      by (rule set_eqI)
    then show ?thesis using step deg' False r(2) by (intro exI [of _ deg'] exI [of _ new]) simp
  qed
qed

subsection \<open>The loop\<close>

text \<open>The dependencies of \<open>x\<close> that are not yet in \<open>acc\<close>, with multiplicities.\<close>

definition pending :: "edge_map \<Rightarrow> task_id list \<Rightarrow> task_id \<Rightarrow> nat" where
  "pending E acc x = length (filter (\<lambda>d. d \<notin> set acc) (nexts E x))"

lemma pending_0_iff: "pending E acc x = 0 \<longleftrightarrow> set (nexts E x) \<subseteq> set acc"
  by (auto simp: pending_def filter_empty_conv)

definition topo_inv ::
  "edge_map \<Rightarrow> (task_id, nat) hashmap \<Rightarrow> task_id list \<Rightarrow> task_id list \<Rightarrow> bool" where
  "topo_inv E deg queue acc \<longleftrightarrow>
     distinct (acc @ queue) \<and> topo_sorted E acc \<and>
     (\<forall>x. hm_get deg x = (if x \<in> hm_keys E then Some (pending E acc x) else None)) \<and>
     (\<forall>x. x \<in> set (acc @ queue) \<longleftrightarrow> x \<in> hm_keys E \<and> pending E acc x = 0)"

lemma pending_snoc:
  "t \<notin> set acc \<Longrightarrow> pending E (acc @ [t]) x = pending E acc x - count_list (nexts E x) t"
  "t \<notin> set acc \<Longrightarrow> count_list (nexts E x) t \<le> pending E acc x"
proof -
  assume t: "t \<notin> set acc"
  have "length (filter (\<lambda>d. d \<notin> set acc) xs) =
      length (filter (\<lambda>d. d \<notin> set (acc @ [t])) xs) + count_list xs t" for xs
    using t by (induction xs) auto
  then show "pending E (acc @ [t]) x = pending E acc x - count_list (nexts E x) t"
      "count_list (nexts E x) t \<le> pending E acc x"
    by (simp_all add: pending_def)
qed

lemma topo_step:
  assumes inv: "dg_inv g" and ti: "topo_inv (edges g) deg (t # queue) acc"
  obtains deg' queue' where "relax_dependents (nexts (reverse_edges g) t) deg queue = Some (deg', queue')"
    and "topo_inv (edges g) deg' queue' (acc @ [t])"
proof -
  let ?E = "edges g" and ?R = "reverse_edges g"
  have mir: "count_list (nexts ?R t) x = count_list (nexts ?E x) t" for x
    using inv by (simp add: dg_inv_def mirrored_def)
  have t: "t \<notin> set acc" "pending ?E acc t = 0" using ti by (auto simp: topo_inv_def)
  have get: "hm_get deg x = (if x \<in> hm_keys ?E then Some (pending ?E acc x) else None)" for x
    using ti by (simp add: topo_inv_def)
  have dependent: "x \<in> hm_keys ?E" if "x \<in> set (nexts ?R t)" for x
    using that mir [of x] by (metis count_list_0_iff_notin list.set(1) empty_iff nexts_notin_keys)
  have "\<forall>x \<in> set (nexts ?R t). \<exists>k. hm_get deg x = Some k \<and> count_list (nexts ?R t) x \<le> k"
    using dependent by (simp add: get mir pending_snoc(2) [OF t(1)])
  from relax_dependents_spec [OF this, of queue] obtain deg' new where
    r: "relax_dependents (nexts ?R t) deg queue = Some (deg', queue @ new)" "distinct new"
      "set new = {x \<in> set (nexts ?R t). hm_get deg x = Some (count_list (nexts ?R t) x)}"
      "\<forall>x. hm_get deg' x = map_option (\<lambda>k. k - count_list (nexts ?R t) x) (hm_get deg x)"
    by blast
  have deg': "hm_get deg' x = (if x \<in> hm_keys ?E then Some (pending ?E (acc @ [t]) x) else None)" for x
    using r(4) by (simp add: get mir pending_snoc(1) [OF t(1)])
  have inR: "x \<in> set (nexts ?R t) \<longleftrightarrow> t \<in> set (nexts ?E x)" for x
    using inv mirrored_mem by (simp add: dg_inv_def)
  have new: "x \<in> set new \<longleftrightarrow> x \<in> hm_keys ?E \<and> t \<in> set (nexts ?E x) \<and> pending ?E (acc @ [t]) x = 0" for x
    using dependent pending_snoc [OF t(1), of ?E x] unfolding r(3)
    by (auto simp: get mir inR)
  have old: "pending ?E acc x = 0 \<Longrightarrow> t \<notin> set (nexts ?E x)" for x
    using t(1) by (auto simp: pending_0_iff)
  have sorted: "topo_sorted ?E (acc @ [t])"
    using ti t by (intro topo_sorted_snoc) (auto simp: topo_inv_def pending_0_iff)
  have grow: "x \<in> hm_keys ?E \<and> pending ?E (acc @ [t]) x = 0 \<longleftrightarrow>
      (x \<in> hm_keys ?E \<and> pending ?E acc x = 0) \<or> x \<in> set new" for x
    using new [of x] pending_snoc [OF t(1), of ?E x] count_list_0_iff_notin [of "nexts ?E x" t] by auto
  have mem: "x \<in> set (acc @ t # queue) \<longleftrightarrow> x \<in> hm_keys ?E \<and> pending ?E acc x = 0" for x
    using ti by (simp add: topo_inv_def)
  have "set new \<inter> set (acc @ t # queue) = {}"
    using mem new old by blast
  then have "distinct ((acc @ [t]) @ queue @ new)"
    using ti r(2) by (auto simp: topo_inv_def)
  moreover have "x \<in> set ((acc @ [t]) @ queue @ new) \<longleftrightarrow> x \<in> hm_keys ?E \<and> pending ?E (acc @ [t]) x = 0" for x
    unfolding grow using mem [of x] by auto
  ultimately have "topo_inv ?E deg' (queue @ new) (acc @ [t])"
    using sorted deg' by (simp add: topo_inv_def)
  with r(1) that show thesis by blast
qed

text \<open>With an empty queue every task has been listed: a least unlisted task would have degree 0.\<close>

lemma topo_done:
  assumes inv: "dg_inv g" and ti: "topo_inv (edges g) deg [] acc"
  shows "set acc = hm_keys (edges g)"
proof (rule ccontr)
  let ?E = "edges g"
  have sub: "set acc \<subseteq> hm_keys ?E" using ti by (auto simp: topo_inv_def)
  assume "set acc \<noteq> hm_keys ?E"
  then obtain y where y: "y \<in> hm_keys ?E - set acc" using sub by blast
  have "finite (dep_rel ?E)"
  proof (rule finite_subset)
    show "dep_rel ?E \<subseteq> hm_keys ?E \<times> nodes_of ?E"
      using nexts_in_nodes [of ?E] nexts_notin_keys [of _ ?E] by (fastforce simp: dep_rel_def)
  qed simp
  then have "wf ((dep_rel ?E)\<inverse>)"
    using inv by (simp add: dg_inv_def finite_acyclic_wf_converse)
  from wfE_min [OF this y] obtain z where z: "z \<in> hm_keys ?E - set acc"
      "\<And>d. d \<in> set (nexts ?E z) \<Longrightarrow> d \<notin> hm_keys ?E - set acc"
    by (metis converse_iff dep_rel_iff)
  have "set (nexts ?E z) \<subseteq> hm_keys ?E" using inv by (auto simp: dg_inv_def deps_closed_def)
  with z(2) have "pending ?E acc z = 0" unfolding pending_0_iff by blast
  with z(1) ti show False by (auto simp: topo_inv_def)
qed

lemma topo_exit:
  assumes "dg_inv g" and ti: "topo_inv (edges g) deg [] acc"
  shows "distinct acc \<and> set acc = hm_keys (edges g) \<and> topo_sorted (edges g) acc"
proof -
  have "distinct acc" "topo_sorted (edges g) acc"
    using ti unfolding topo_inv_def by simp_all
  then show ?thesis using topo_done [OF assms] by blast
qed

lemma topo_loop_correct:
  assumes "dg_inv g" and "topo_inv (edges g) deg queue acc"
    and "card (hm_keys (edges g)) \<le> n + length acc"
  shows "\<exists>ts. topo_loop n (reverse_edges g) deg queue acc = Some ts \<and> distinct ts \<and>
    set ts = hm_keys (edges g) \<and> topo_sorted (edges g) ts"
  using assms
proof (induction n arbitrary: deg queue acc)
  case 0
  have "distinct (acc @ queue)" "set (acc @ queue) \<subseteq> hm_keys (edges g)"
    using "0.prems"(2) by (auto simp: topo_inv_def)
  then have "length (acc @ queue) \<le> card (hm_keys (edges g))"
    by (metis card_mono distinct_card finite_imageI finite_set)
  then have "length queue = 0" using "0.prems"(3) unfolding length_append by linarith
  then have "queue = []" by simp
  then show ?case using topo_exit [OF "0.prems"(1)] "0.prems"(2) by simp
next
  case (Suc n)
  show ?case
  proof (cases queue)
    case Nil
    then show ?thesis using topo_exit [OF Suc.prems(1)] Suc.prems(2) by simp
  next
    case (Cons t q)
    with Suc.prems obtain deg' q' where
      "relax_dependents (nexts (reverse_edges g) t) deg q = Some (deg', q')"
      "topo_inv (edges g) deg' q' (acc @ [t])"
      by (metis topo_step)
    with Suc.IH [of deg' q' "acc @ [t]"] Suc.prems Cons show ?thesis by auto
  qed
qed

text \<open>
  Every iteration order of the in-degree table gives an order in which dependencies come
  first; the loop neither underflows nor runs out of rounds.
\<close>

lemma topological_order_sorted:
  assumes inv: "dg_inv g" and order: "distinct order" "set order = hm_keys (edges g)"
  shows "\<exists>ts. topological_order order g = Some ts \<and> distinct ts \<and>
    set ts = hm_keys (edges g) \<and> topo_sorted (edges g) ts"
proof -
  let ?E = "edges g" and ?deg = "init_in_degree (edges g)"
  have E: "hm_inv ?E" "nodes_of ?E = hm_keys ?E"
    using inv closed_nodes by (auto simp: dg_inv_def)
  have get: "hm_get ?deg x = (if x \<in> hm_keys ?E then Some (length (nexts ?E x)) else None)" for x
    using init_in_degree_get [OF E(1)] E(2) by simp
  have "hm_keys ?deg = hm_keys ?E" by (simp only: set_eq_iff hm.keys_lookup [of _ ?deg] get) simp
  then have len: "length ?deg = card (hm_keys ?E)"
    using hm_len_card [OF hm_inv_init_in_degree] by metis
  have "topo_inv ?E ?deg (filter (\<lambda>t. hm_get ?deg t = Some 0) order) []"
    using order get by (auto simp: topo_inv_def topo_sorted_def pending_def)
  from topo_loop_correct [OF inv this, of "length ?deg"] len show ?thesis
    by (simp add: topological_order_def Let_def)
qed

end
