(* ===== verification/Dependency_Props.thy ===== *)
theory Dependency_Props
  imports Dependency_Topo
begin

text \<open>
  The properties of the dependency graph: the searches against their specifications, the
  invariant over \<open>add_task\<close>, \<open>remove_task\<close> and \<open>mark_completed\<close>, and the topological order.
\<close>

subsection \<open>Reported cycles are reachable\<close>

lemma dfs_stays_in:
  "dfs_cycle n E v st = Some (b, st') \<Longrightarrow> dep_rel E `` X \<subseteq> X \<Longrightarrow> v \<in> X \<Longrightarrow> set (dfs_path st) \<subseteq> X \<Longrightarrow>
     set (dfs_path st') \<subseteq> X"
  "dfs_deps n E ds st = Some (b, st') \<Longrightarrow> dep_rel E `` X \<subseteq> X \<Longrightarrow> set ds \<subseteq> X \<Longrightarrow> set (dfs_path st) \<subseteq> X \<Longrightarrow>
     set (dfs_path st') \<subseteq> X"
proof (induction n E v st and n E ds st arbitrary: b st' and b st' rule: dfs_cycle_dfs_deps.induct)
  case (2 n E v st)
  obtain b1 s1 where r: "dfs_deps n E (nexts E v) (dfs_enter v st) = Some (b1, s1)"
    using "2.prems"(1) by (auto split: option.splits)
  have "set (nexts E v) \<subseteq> X" using "2.prems" by (auto simp: dep_rel_def)
  then have "set (dfs_path s1) \<subseteq> X" using "2.IH" [OF r] "2.prems" by simp
  then show ?case using r "2.prems"(1) by (cases b1) (auto simp: subset_iff dest!: in_set_butlastD)
next
  case (4 n E d ds st)
  show ?case
  proof (cases "d \<in> visited st")
    case False
    then obtain b1 s1 where r: "dfs_cycle n E d st = Some (b1, s1)"
      using "4.prems"(1) by (auto split: option.splits)
    have s1: "set (dfs_path s1) \<subseteq> X" using "4.IH"(1) [OF False r] "4.prems" by simp
    then show ?thesis
      using r "4.prems" False "4.IH"(2) [OF False r refl] by (cases b1) auto
  next
    case True
    then show ?thesis
      using "4.prems" "4.IH"(3) by (auto simp: trim_path_def subset_iff dest!: set_dropWhileD split: if_splits)
  qed
qed auto

lemma successively_rtrancl:
  "successively (\<lambda>a b. b \<in> set (nexts E a)) (a # xs) \<Longrightarrow> x \<in> set (a # xs) \<Longrightarrow> (a, x) \<in> (dep_rel E)\<^sup>*"
proof (induction xs arbitrary: a)
  case (Cons y ys)
  then show ?case by (auto intro: converse_rtrancl_into_rtrancl)
qed simp

lemma is_cycle_trancl:
  assumes "is_cycle E c"
  shows "(hd c, hd c) \<in> (dep_rel E)\<^sup>+"
proof -
  obtain a xs where c: "c = a # xs" using assms by (cases c) (auto simp: is_cycle_def)
  have "(a, last c) \<in> (dep_rel E)\<^sup>*"
    using assms c successively_rtrancl [of E a xs "last c"] by (simp add: is_cycle_def)
  moreover have "(last c, a) \<in> dep_rel E" using assms c by (simp add: is_cycle_def)
  ultimately show ?thesis using c by (simp add: rtrancl_into_trancl1)
qed

lemma detect_cycle_reachable:
  assumes "detect_cycle g t = Some c"
  shows "set c \<subseteq> (dep_rel (edges g))\<^sup>* `` {t}"
proof -
  obtain st where r: "dfs_cycle (dg_fuel (edges g)) (edges g) t
      \<lparr>visited = {}, in_stack = {}, dfs_path = []\<rparr> = Some (True, st)" and c: "c = dfs_path st"
    using assms by (auto simp: detect_cycle_def split: option.splits prod.splits bool.splits)
  have "dep_rel (edges g) `` ((dep_rel (edges g))\<^sup>* `` {t}) \<subseteq> (dep_rel (edges g))\<^sup>* `` {t}"
    by (auto intro: rtrancl_into_rtrancl)
  from dfs_stays_in(1) [OF r this] show ?thesis by (simp add: c)
qed

subsection \<open>Properties\<close>

text \<open>
  C1: \<open>detect_cycle\<close> is sound and complete. It reports a list exactly when a cycle is
  reachable from the start, and the list it reports is a cycle of the graph, all of it
  reachable from the start.
\<close>

theorem detect_cycle_correct:
  "(detect_cycle g t = None \<longleftrightarrow> acyclic_from (edges g) t) \<and>
   (\<forall>c. detect_cycle g t = Some c \<longrightarrow> is_cycle (edges g) c \<and> set c \<subseteq> (dep_rel (edges g))\<^sup>* `` {t})"
proof -
  have cyc: "is_cycle (edges g) c \<and> set c \<subseteq> (dep_rel (edges g))\<^sup>* `` {t}"
    if "detect_cycle g t = Some c" for c
    using that detect_cycle_is_cycle detect_cycle_reachable by blast
  have "\<not> acyclic_from (edges g) t" if c: "detect_cycle g t = Some c" for c
  proof -
    have "hd c \<in> set c" using cyc [OF c] by (simp add: is_cycle_def)
    then have "(t, hd c) \<in> (dep_rel (edges g))\<^sup>*" using cyc [OF c] by blast
    with is_cycle_trancl [of "edges g" c] cyc [OF c] show ?thesis
      unfolding acyclic_from_def by blast
  qed
  moreover have "acyclic_from (edges g) t" if "detect_cycle g t = None"
    unfolding acyclic_from_def using detect_cycle_None_acyclic [OF that] by blast
  ultimately show ?thesis using cyc by fastforce
qed

theorem detect_cycle_correct_witness:
  "detect_cycle \<lparr>edges = [(1, [2]), (2, [3]), (3, [2])], reverse_edges = [], completed = {}\<rparr> 1 = Some [2, 3] \<and>
   is_cycle [(1, [2]), (2, [3]), (3, [2])] [2, 3]"
proof -
  let ?g = "\<lparr>edges = [(1, [2]), (2, [3]), (3, [2])], reverse_edges = [], completed = {}\<rparr>"
  have "detect_cycle ?g 1 = Some [2, 3]" by code_simp
  with detect_cycle_correct [of ?g 1] show ?thesis by simp
qed

text \<open>
  Adding a task never diverges: for every graph, task and dependency list, \<open>add_task\<close>
  returns, although it runs two recursive searches over a graph that may contain cycles.
\<close>

theorem add_task_returns: "\<exists>g' r. add_task t deps known g = Some (g', r)"
  by (rule add_task_total)

text \<open>
  C22: the exact condition under which \<open>add_task\<close> accepts a task: every dependency is known,
  no cycle is reachable from the task once it is linked, and no chain that starts at it
  has more than \<open>MAX_DEPENDENCY_DEPTH\<close> tasks. The graph is then the linked one.
\<close>

theorem add_task_accepts_iff:
  "add_task t deps known g = Some (g', Inr ()) \<longleftrightarrow>
     g' = link_task t deps g \<and> set deps \<subseteq> known \<union> hm_keys (edges g) \<and>
     acyclic_from (edges (link_task t deps g)) t \<and>
     (\<forall>n. dep_chain (edges (link_task t deps g)) t n \<longrightarrow> n \<le> MAX_DEPENDENCY_DEPTH)"
proof (cases rule: add_task_cases [of deps known g t])
  case (cycle c)
  have "detect_cycle (link_task t deps g) t \<noteq> None"
    using cycle(1,3) by (auto simp: add_task_def Let_def split: option.splits if_splits)
  then have "\<not> acyclic_from (edges (link_task t deps g)) t"
    using detect_cycle_None_acyclic dfs_stays_in detect_cycle_reachable is_cycle_trancl
    by (metis detect_cycle_is_cycle Image_singleton_iff acyclic_from_def is_cycle_def list.set_sel(1)
        option.exhaust subsetD)
  with cycle(3) show ?thesis by simp
next
  case (deep n)
  then show ?thesis by (auto simp: longest_chain_def)
next
  case (ok n)
  then show ?thesis by (auto simp: longest_chain_def intro: le_trans)
qed auto

theorem add_task_accepts_iff_witness:
  "add_task 2 [1] {} \<lparr>edges = [(1, [])], reverse_edges = [], completed = {}\<rparr> =
     Some (link_task 2 [1] \<lparr>edges = [(1, [])], reverse_edges = [], completed = {}\<rparr>, Inr ()) \<and>
   acyclic_from (edges (link_task 2 [1] \<lparr>edges = [(1, [])], reverse_edges = [], completed = {}\<rparr>)) 2"
proof -
  let ?g = "\<lparr>edges = [(1, [])], reverse_edges = [], completed = {}\<rparr>"
  have "add_task 2 [1] {} ?g = Some (link_task 2 [1] ?g, Inr ())" by code_simp
  with add_task_accepts_iff [of 2 "[1]" "{}" ?g "link_task 2 [1] ?g"] show ?thesis by simp
qed

text \<open>
  C6: every outcome of \<open>add_task\<close> for a task the graph does not hold yet keeps the invariant
  (mirrored reverse edges, registered dependencies, acyclic, depth at most ten), and an
  error leaves the graph as it was: the rollback undoes the tentative insertion.
\<close>

theorem add_task_preserves_inv:
  assumes "dg_inv g" and "t \<notin> hm_keys (edges g)"
    and "known \<subseteq> insert t (hm_keys (edges g))"
    and "add_task t deps known g = Some (g', r)"
  shows "dg_inv g' \<and> (r = Inr () \<or> same_graph g' g)"
  using add_task_inv [OF assms] add_task_error_restores [OF assms(1,2)] assms(4)
  by (cases r) auto

text \<open>A graph of two tasks, the second depending on the first, built by the operations.\<close>

definition two_tasks :: dep_graph where
  "two_tasks = link_task 2 [1] (link_task 1 [] dg_new)"

lemma dg_inv_add_ok:
  assumes "dg_inv g" and "t \<notin> hm_keys (edges g)" and "add_task t deps (hm_keys (edges g)) g = Some (g', r)"
  shows "dg_inv g'"
  using add_task_inv [OF assms(1,2) _ assms(3)] by blast

lemma two_tasks_inv: "dg_inv two_tasks"
proof -
  let ?g = "link_task 1 [] dg_new"
  have 1: "dg_inv ?g"
    by (rule dg_inv_add_ok [OF dg_inv_new, of 1 "[]" _ "Inr ()"], code_simp, code_simp)
  show ?thesis
    unfolding two_tasks_def by (rule dg_inv_add_ok [OF 1, of 2 "[1]" _ "Inr ()"], code_simp, code_simp)
qed

theorem add_task_preserves_inv_witness:
  "dg_inv two_tasks \<and> add_task 3 [2, 3] {1, 2, 3} two_tasks =
     Some (rollback_task 3 [2, 3] (link_task 3 [2, 3] two_tasks), Inl (DependencyCycle [3])) \<and>
   same_graph (rollback_task 3 [2, 3] (link_task 3 [2, 3] two_tasks)) two_tasks"
proof -
  have r: "add_task 3 [2, 3] {1, 2, 3} two_tasks =
     Some (rollback_task 3 [2, 3] (link_task 3 [2, 3] two_tasks), Inl (DependencyCycle [3]))"
    by code_simp
  have k: "hm_keys (edges two_tasks) = {1, 2}" by (auto simp: two_tasks_def dg_new_def)
  then have "3 \<notin> hm_keys (edges two_tasks)" "{1, 2, 3} \<subseteq> insert 3 (hm_keys (edges two_tasks))" by auto
  from add_task_preserves_inv [OF two_tasks_inv this r] show ?thesis using r two_tasks_inv by simp
qed

text \<open>
  Removing a task keeps the invariant, forgets the task everywhere, and changes no other
  dependency: each other task keeps its dependencies except the removed one.
\<close>

theorem remove_task_correct:
  assumes "dg_inv g"
  shows "dg_inv (remove_task t g) \<and> hm_keys (edges (remove_task t g)) = hm_keys (edges g) - {t} \<and>
    t \<notin> completed (remove_task t g) \<and> nexts (reverse_edges (remove_task t g)) t = [] \<and>
    (\<forall>x. x \<noteq> t \<longrightarrow> dependencies_of (remove_task t g) x = filter (\<lambda>d. d \<noteq> t) (dependencies_of g x))"
  using remove_task_inv [OF assms] remove_task_nexts [OF assms]
  by (simp add: remove_task_keys dependencies_of_def) (simp add: remove_task_def Let_def)

theorem remove_task_correct_witness:
  "dg_inv two_tasks \<and> dependencies_of two_tasks 2 = [1] \<and> dependencies_of (remove_task 1 two_tasks) 2 = []"
proof -
  have "dependencies_of two_tasks 2 = [1]" by code_simp
  with remove_task_correct [OF two_tasks_inv, of 1] two_tasks_inv show ?thesis by simp
qed

text \<open>
  Completing a task returns the dependents whose dependencies are now all completed, each
  as often as it lists the completed task: a dependency listed twice makes
  \<open>mark_completed\<close> report the dependent twice.
\<close>

theorem mark_completed_reports:
  assumes "dg_inv g"
  shows "count_list (snd (mark_completed t g)) x =
    (if set (dependencies_of g x) \<subseteq> insert t (completed g)
     then count_list (dependencies_of g x) t else 0)"
  using assms
  by (simp add: mark_completed_def Let_def count_list_filter is_unblocked_iff dependencies_of_def
      dg_inv_def mirrored_def)

theorem mark_completed_reports_witness:
  "dg_inv two_tasks \<and> count_list (snd (mark_completed 1 two_tasks)) 2 = 1"
proof -
  have "dependencies_of two_tasks 2 = [1]" by code_simp
  with mark_completed_reports [OF two_tasks_inv, of 1 2] two_tasks_inv show ?thesis by simp
qed

text \<open>
  C10: on a well-formed graph \<open>topological_order\<close> returns, whatever order the in-degree table
  iterates in: no in-degree underflows, every task is listed exactly once, and each task
  comes after all of its dependencies.
\<close>

theorem topological_order_correct:
  assumes "dg_inv g" and "distinct order" and "set order = hm_keys (edges g)"
  shows "\<exists>ts. topological_order order g = Some ts \<and> distinct ts \<and> set ts = hm_keys (edges g) \<and>
    topo_sorted (edges g) ts"
  using assms by (rule topological_order_sorted)

theorem topological_order_correct_witness:
  "dg_inv two_tasks \<and> topological_order [2, 1] two_tasks = Some [1, 2] \<and>
   topo_sorted (edges two_tasks) [1, 2]"
proof -
  have k: "set [2, 1] = hm_keys (edges two_tasks)" by (auto simp: two_tasks_def dg_new_def)
  have r: "topological_order [2, 1] two_tasks = Some [1, 2]" by code_simp
  from topological_order_correct [OF two_tasks_inv _ k] r two_tasks_inv show ?thesis by simp
qed

end
