(* ===== verification/Retry.thy ===== *)
theory Retry
  imports Models Rust_Strings
begin

text \<open>
  Retries of failed task executions (\<^verbatim>\<open>crates/task-scheduler/src/retry.rs\<close>). The
  executor, the clock, the UUID source and the sleeping of the async runtime are the
  environment, a record of functions over a world \<open>'w\<close> that each call may change.
  Arithmetic on \<open>u8\<close> and \<open>u64\<close> is the release profile's, which wraps on overflow.
\<close>

subsection \<open>Backoff\<close>

text \<open>\<^verbatim>\<open>u64::saturating_mul\<close> and \<^verbatim>\<open>u64::saturating_pow\<close>.\<close>

definition u64_sat :: "nat \<Rightarrow> u64" where
  "u64_sat n = (if n < 2 ^ 64 then of_nat n else - 1)"

definition saturating_mul :: "u64 \<Rightarrow> u64 \<Rightarrow> u64" where
  "saturating_mul a b = u64_sat (unat a * unat b)"

definition saturating_pow :: "u64 \<Rightarrow> u32 \<Rightarrow> u64" where
  "saturating_pow a e = u64_sat (unat a ^ unat e)"

text \<open>The delay in seconds.\<close>

definition calculate_backoff :: "retry_policy \<Rightarrow> u8 \<Rightarrow> u64" where
  "calculate_backoff policy attempt =
     (if attempt = 0 then 0
      else
        let base = ucast (base_interval_secs policy);
            max = ucast (max_interval_secs policy);
            exponent = ucast (attempt - 1);
            multiplier = saturating_pow 2 exponent
        in min (saturating_mul base multiplier) max)"

subsection \<open>The environment\<close>

text \<open>What \<^verbatim>\<open>tokio::time::timeout(d, executor.execute(task)).await\<close> gives.\<close>

datatype exec_result = ExecOk | ExecErr string | Elapsed

record 'w env =
  env_now :: "'w \<Rightarrow> timestamp \<times> 'w"
  env_uuid :: "'w \<Rightarrow> uuid \<times> 'w"
  env_sleep :: "u64 \<Rightarrow> 'w \<Rightarrow> 'w"
  env_execute :: "u32 \<Rightarrow> task \<Rightarrow> 'w \<Rightarrow> exec_result \<times> 'w"

definition timeout_msg :: "task \<Rightarrow> string" where
  "timeout_msg t = ''Task exceeded configured timeout of '' @ show_nat (unat (t_timeout_seconds t)) @ ''s''"

definition outcome_of :: "task \<Rightarrow> exec_result \<Rightarrow> task_run_status \<times> string option" where
  "outcome_of t r =
     (case r of
        ExecOk \<Rightarrow> (RunSucceeded, None)
      | ExecErr e \<Rightarrow> (RunFailed, Some e)
      | Elapsed \<Rightarrow> (RunTimedOut, Some (timeout_msg t)))"

subsection \<open>One attempt and the loop\<close>

text \<open>One iteration: the clock and the run id, the backoff of a retry, the execution, and
  the \<^verbatim>\<open>TaskRun\<close> it leaves.\<close>

definition attempt_once :: "'w env \<Rightarrow> task \<Rightarrow> u8 \<Rightarrow> 'w \<Rightarrow> task_run \<times> 'w" where
  "attempt_once en t attempt w =
     (let (start, w1) = env_now en w;
          (rid, w2) = env_uuid en w1;
          w3 = (if attempt > 1 then env_sleep en (calculate_backoff (t_retry_policy t) (attempt - 1)) w2 else w2);
          (res, w4) = env_execute en (t_timeout_seconds t) t w3;
          (fin, w5) = env_now en w4;
          (status, err) = outcome_of t res
      in (\<lparr>run_id = rid, run_task_id = t_id t, run_start_time = start, run_end_time = Some fin,
           run_duration_ms = Some (of_int (num_milliseconds (fin - start))),
           run_status = status, run_error = err, run_attempt = attempt\<rparr>, w5))"

text \<open>
  \<^verbatim>\<open>for attempt in 1..=max_attempts\<close>: the remaining attempts are the list; the result says
  whether one succeeded and gives the runs so far and the last error.
\<close>

fun attempt_loop :: "'w env \<Rightarrow> task \<Rightarrow> u8 list \<Rightarrow> task_run list \<Rightarrow> string option \<Rightarrow> 'w \<Rightarrow>
    bool \<times> task_run list \<times> string option \<times> 'w" where
  "attempt_loop en t [] runs last_err w = (False, runs, last_err, w)"
| "attempt_loop en t (a # as) runs last_err w =
     (let (run, w') = attempt_once en t a w;
          runs' = runs @ [run];
          last_err' = (case run_error run of Some e \<Rightarrow> Some e | None \<Rightarrow> last_err)
      in if run_status run = RunSucceeded then (True, runs', last_err', w')
         else attempt_loop en t as runs' last_err' w')"

text \<open>The range \<^verbatim>\<open>1..=n\<close> on \<open>u8\<close>.\<close>

definition attempts_upto :: "u8 \<Rightarrow> u8 list" where
  "attempts_upto n = map of_nat [1..<Suc (unat n)]"

definition max_attempts :: "task \<Rightarrow> u8" where
  "max_attempts t = max_retries (t_retry_policy t) + 1"

text \<open>
  The shared state: the task table and the history. A failing run marks the stored task
  (not the snapshot) as failed with the last error.
\<close>

definition mark_failed :: "string option \<Rightarrow> timestamp \<Rightarrow> task \<Rightarrow> task" where
  "mark_failed last_err now t =
     t\<lparr>t_status := Failed (case last_err of Some e \<Rightarrow> e | None \<Rightarrow> ''unknown error''), t_updated_at := now\<rparr>"

definition execute_with_retry ::
  "'w env \<Rightarrow> task \<Rightarrow> (task_id, task) hashmap \<Rightarrow> task_run list \<Rightarrow> 'w \<Rightarrow>
     bool \<times> (task_id, task) hashmap \<times> task_run list \<times> 'w" where
  "execute_with_retry en t tasks history w =
     (let (ok, runs, last_err, w1) = attempt_loop en t (attempts_upto (max_attempts t)) [] None w
      in if ok then (True, tasks, history @ runs, w1)
         else if hm_contains tasks (t_id t)
         then let (now, w2) = env_now en w1
              in (False, hm_modify (t_id t) (mark_failed last_err now) tasks, history @ runs, w2)
         else (False, tasks, history @ runs, w1))"

subsection \<open>History retention\<close>

definition DEFAULT_RETENTION_DAYS :: int where
  "DEFAULT_RETENTION_DAYS = 30"

definition cleanup_old_history :: "timestamp \<Rightarrow> int \<Rightarrow> task_run list \<Rightarrow> task_run list" where
  "cleanup_old_history now retention_days history =
     (let cutoff = now - seconds (86400 * retention_days)
      in filter (\<lambda>run. run_start_time run > cutoff) history)"

subsection \<open>Lemmas\<close>

lemma unat_u64_sat: "unat (u64_sat n) = min n (2 ^ 64 - 1)"
  by (simp add: u64_sat_def unat_of_nat_small unat_minus_1)

lemma min_sat_mul:
  fixes base cap p :: nat
  assumes "cap < 2 ^ 64"
  shows "min (min (base * min p (2 ^ 64 - 1)) (2 ^ 64 - 1)) cap = min (base * p) cap"
proof (cases "base = 0 \<or> p \<le> 2 ^ 64 - 1")
  case True
  then show ?thesis using assms by auto
next
  case False
  then have "2 ^ 64 - 1 \<le> base * (2 ^ 64 - 1)" "base * (2 ^ 64 - 1) \<le> base * p"
      "min p (2 ^ 64 - 1) = 2 ^ 64 - 1"
    by simp_all
  moreover have "cap \<le> 2 ^ 64 - 1" using assms by simp
  ultimately show ?thesis by linarith
qed

lemma attempts_upto_unat: "map unat (attempts_upto n) = [1..<Suc (unat n)]"
proof -
  have "unat (of_nat i :: u8) = i" if "i \<in> set [1..<Suc (unat n)]" for i
  proof -
    have "i < 256" using that unat_u8_less [of n] by auto
    then show ?thesis by (simp add: unat_of_nat_small)
  qed
  then show ?thesis unfolding attempts_upto_def map_map by (intro map_idI) simp
qed

lemma length_attempts_upto [simp]: "length (attempts_upto n) = unat n"
  by (simp add: attempts_upto_def)

lemma attempt_once_facts:
  assumes "attempt_once en t a w = (run, w')"
  shows "run_attempt run = a \<and> run_task_id run = t_id t \<and>
    (run_status run \<noteq> RunSucceeded \<longrightarrow> run_error run \<noteq> None) \<and> run_status run \<noteq> RunRunning"
  using assms
  by (auto simp: attempt_once_def outcome_of_def Let_def split: prod.splits exec_result.splits)

text \<open>What the loop adds to the runs: attempts in order, stopping at the first success.\<close>

lemma attempt_loop_facts:
  assumes "attempt_loop en t as runs le w = (ok, runs', le', w')"
  shows "\<exists>new. runs' = runs @ new \<and> map run_attempt new = take (length new) as \<and>
    (\<forall>r \<in> set new. run_task_id r = t_id t) \<and>
    (\<forall>r \<in> set (butlast new). run_status r \<noteq> RunSucceeded) \<and>
    (if ok then new \<noteq> [] \<and> run_status (last new) = RunSucceeded
     else length new = length as \<and> (\<forall>r \<in> set new. run_status r \<noteq> RunSucceeded) \<and>
       le' = (if new = [] then le else run_error (last new)))"
  using assms
proof (induction en t as runs le w arbitrary: ok runs' le' w' rule: attempt_loop.induct)
  case (1 en t runs le w)
  then show ?case by auto
next
  case (2 en t a as runs le w)
  obtain run w1 where once: "attempt_once en t a w = (run, w1)" by fastforce
  note f = attempt_once_facts [OF once]
  let ?le = "case run_error run of Some e \<Rightarrow> Some e | None \<Rightarrow> le"
  show ?case
  proof (cases "run_status run = RunSucceeded")
    case True
    then have "ok" "runs' = runs @ [run]" using "2.prems" once by (auto simp: Let_def)
    then show ?thesis using True f by (intro exI [of _ "[run]"]) auto
  next
    case False
    then have "attempt_loop en t as (runs @ [run]) ?le w1 = (ok, runs', le', w')"
      using "2.prems" once by (auto simp: Let_def)
    from "2.IH" [OF once [symmetric] refl refl refl False this] obtain new where
      new: "runs' = (runs @ [run]) @ new" "map run_attempt new = take (length new) as"
        "\<forall>r \<in> set new. run_task_id r = t_id t"
        "\<forall>r \<in> set (butlast new). run_status r \<noteq> RunSucceeded"
        "if ok then new \<noteq> [] \<and> run_status (last new) = RunSucceeded
         else length new = length as \<and> (\<forall>r \<in> set new. run_status r \<noteq> RunSucceeded) \<and>
           le' = (if new = [] then ?le else run_error (last new))"
      by blast
    then show ?thesis using f False by (intro exI [of _ "run # new"]) (auto split: if_splits)
  qed
qed

lemma attempt_loop_errors:
  "attempt_loop en t as runs le w = (ok, runs', le', w') \<Longrightarrow>
     \<forall>r \<in> set runs. run_status r \<noteq> RunSucceeded \<longrightarrow> run_error r \<noteq> None \<Longrightarrow>
     \<forall>r \<in> set runs'. run_status r \<noteq> RunSucceeded \<longrightarrow> run_error r \<noteq> None"
proof (induction en t as runs le w rule: attempt_loop.induct)
  case (2 en t a as runs le w)
  obtain run w1 where once: "attempt_once en t a w = (run, w1)" by fastforce
  then show ?case
    using "2.prems" "2.IH" [OF once [symmetric] refl refl refl] attempt_once_facts [OF once]
    by (auto simp: Let_def split: if_splits)
qed simp

lemma attempt_loop_failed:
  assumes "attempt_loop en t as [] None w = (ok, runs, le, w')" and "\<not> ok" and "runs \<noteq> []"
  shows "\<exists>e. run_error (last runs) = Some e \<and> le = Some e"
proof -
  have le: "le = run_error (last runs)" using attempt_loop_facts [OF assms(1)] assms(2,3) by auto
  have "\<forall>r \<in> set runs. run_error r \<noteq> None"
    using attempt_loop_errors [OF assms(1)] attempt_loop_facts [OF assms(1)] assms(2) by auto
  then show ?thesis using le assms(3) by (auto simp: Ball_def)
qed

text \<open>An environment that also records the requested sleeps.\<close>

definition logged :: "'w env \<Rightarrow> ('w \<times> u64 list) env" where
  "logged en = \<lparr>
     env_now = (\<lambda>(w, l). let (x, w') = env_now en w in (x, (w', l))),
     env_uuid = (\<lambda>(w, l). let (x, w') = env_uuid en w in (x, (w', l))),
     env_sleep = (\<lambda>d (w, l). (env_sleep en d w, l @ [d])),
     env_execute = (\<lambda>s t (w, l). let (r, w') = env_execute en s t w in (r, (w', l)))\<rparr>"

lemma attempt_once_logged:
  "attempt_once (logged en) t a (w, l) =
     (let (run, w') = attempt_once en t a w
      in (run, (w', l @ (if a > 1 then [calculate_backoff (t_retry_policy t) (a - 1)] else []))))"
  by (auto simp: attempt_once_def logged_def Let_def split: prod.splits)

definition sleeps_of :: "task \<Rightarrow> u8 list \<Rightarrow> u64 list" where
  "sleeps_of t as = concat (map (\<lambda>a. if a > 1 then [calculate_backoff (t_retry_policy t) (a - 1)] else []) as)"

lemma attempt_loop_logged:
  "attempt_loop (logged en) t as runs le (w, l) =
     (let (ok, runs', le', w') = attempt_loop en t as runs le w
      in (ok, runs', le', (w', l @ sleeps_of t (take (length runs' - length runs) as))))"
proof (induction as arbitrary: runs le w l)
  case Nil
  then show ?case by (simp add: sleeps_of_def)
next
  case (Cons a as)
  obtain run w1 where once: "attempt_once en t a w = (run, w1)" by fastforce
  show ?case
  proof (cases "run_status run = RunSucceeded")
    case True
    then show ?thesis by (simp add: attempt_once_logged once Let_def sleeps_of_def)
  next
    case False
    let ?le = "case run_error run of Some e \<Rightarrow> Some e | None \<Rightarrow> le"
    obtain ok rs le' w' where r: "attempt_loop en t as (runs @ [run]) ?le w1 = (ok, rs, le', w')"
      by (metis prod_cases4)
    from attempt_loop_facts [OF r] have "length runs < length rs" by auto
    then have "length rs - length runs = Suc (length rs - Suc (length runs))" by simp
    then show ?thesis
      using False by (simp add: attempt_once_logged once Let_def Cons.IH r sleeps_of_def)
  qed
qed

lemma sleeps_of_attempts:
  assumes "k \<le> unat n"
  shows "sleeps_of t (take k (attempts_upto n)) =
    map (\<lambda>i. calculate_backoff (t_retry_policy t) (of_nat i)) [1..<k]"
  using assms
proof (induction k)
  case 0
  then show ?case by (simp add: sleeps_of_def)
next
  case (Suc k)
  have nth: "attempts_upto n ! k = of_nat (Suc k)"
    using Suc.prems by (simp add: attempts_upto_def del: upt_Suc)
  have k: "k < 255" using Suc.prems unat_u8_less [of n] by simp
  have gt: "(1 :: u8) < of_nat (Suc k) \<longleftrightarrow> 0 < k"
    using k by (simp add: word_less_nat_alt unat_of_nat_small del: of_nat_Suc)
  have "take (Suc k) (attempts_upto n) = take k (attempts_upto n) @ [of_nat (Suc k)]"
    using Suc.prems nth by (simp add: take_Suc_conv_app_nth)
  then have "sleeps_of t (take (Suc k) (attempts_upto n)) = sleeps_of t (take k (attempts_upto n)) @
      (if 0 < k then [calculate_backoff (t_retry_policy t) (of_nat k)] else [])"
    using gt by (simp add: sleeps_of_def)
  then show ?case using Suc by (cases k) simp_all
qed

subsection \<open>Properties\<close>

text \<open>
  The backoff is the documented formula \<^verbatim>\<open>min(base * 2^(attempt-1), max)\<close> for
  every policy and every attempt: the saturating 64-bit arithmetic never changes the
  result.
\<close>

theorem calculate_backoff_exact:
  "unat (calculate_backoff p a) =
     (if a = 0 then 0
      else min (unat (base_interval_secs p) * 2 ^ (unat a - 1)) (unat (max_interval_secs p)))"
proof (cases "a = 0")
  case True
  then show ?thesis by (simp add: calculate_backoff_def)
next
  case False
  have e: "unat (a - 1) = unat a - 1" using False by (rule unat_minus_one)
  have "unat (max_interval_secs p) < 2 ^ 64" using unat_u32_less [of "max_interval_secs p"] by simp
  then show ?thesis
    using False min_sat_mul [of "unat (max_interval_secs p)" "unat (base_interval_secs p)" "2 ^ (unat a - 1)"]
    by (simp add: calculate_backoff_def Let_def saturating_mul_def saturating_pow_def unat_u64_sat unat_min
        unat_ucast_up_u32 unat_ucast_up_u8 e)
qed

text \<open>
  C24: with fewer than 255 retries, \<open>execute_with_retry\<close> appends to the history one run per
  attempt, numbered from 1 without gaps, at most one more than the retries, and only the
  last can have succeeded. It reports success exactly when the last run succeeded; on
  failure every attempt was used and the stored task is marked failed with the error of
  the last run.
\<close>

theorem execute_with_retry_outcome:
  assumes retries: "unat (max_retries (t_retry_policy t)) < 255"
    and r: "execute_with_retry en t tasks h w = (ok, tasks', h', w')"
  shows "\<exists>runs. h' = h @ runs \<and> runs \<noteq> [] \<and>
    map (\<lambda>r. unat (run_attempt r)) runs = [1..<Suc (length runs)] \<and>
    length runs \<le> Suc (unat (max_retries (t_retry_policy t))) \<and>
    (\<forall>r \<in> set runs. run_task_id r = t_id t) \<and>
    (\<forall>r \<in> set (butlast runs). run_status r \<noteq> RunSucceeded) \<and>
    (ok \<longleftrightarrow> run_status (last runs) = RunSucceeded) \<and> (ok \<longrightarrow> tasks' = tasks) \<and>
    (\<not> ok \<longrightarrow> length runs = Suc (unat (max_retries (t_retry_policy t))) \<and>
      (\<exists>e now. run_error (last runs) = Some e \<and> (\<forall>k. hm_get tasks' k =
        (if k = t_id t then map_option (\<lambda>u. u\<lparr>t_status := Failed e, t_updated_at := now\<rparr>) (hm_get tasks k)
         else hm_get tasks k))))"
proof -
  obtain runs le w1 where loop:
    "attempt_loop en t (attempts_upto (max_attempts t)) [] None w = (ok, runs, le, w1)"
    using r by (auto simp: execute_with_retry_def Let_def split: prod.splits if_splits)
  have n: "unat (max_attempts t) = Suc (unat (max_retries (t_retry_policy t)))"
    using retries by (simp add: max_attempts_def unat_word_ariths)
  have h': "h' = h @ runs" "ok \<longrightarrow> tasks' = tasks"
    using r by (auto simp: execute_with_retry_def Let_def loop split: prod.splits if_splits)
  note f = attempt_loop_facts [OF loop, simplified]
  have len: "length runs \<le> unat (max_attempts t)"
  proof -
    have "length (map run_attempt runs) = length (take (length runs) (attempts_upto (max_attempts t)))"
      using f by metis
    then show ?thesis by simp
  qed
  have "map (\<lambda>r. unat (run_attempt r)) runs = map unat (map run_attempt runs)" by simp
  also have "\<dots> = take (length runs) (map unat (attempts_upto (max_attempts t)))"
    using f by (metis take_map)
  also have "\<dots> = [1..<Suc (length runs)]" using len by (simp add: attempts_upto_unat take_upt del: upt_Suc)
  finally have nums: "map (\<lambda>r. unat (run_attempt r)) runs = [1..<Suc (length runs)]" .
  have ne: "runs \<noteq> []" using f n by (cases ok) auto
  have fail: "length runs = Suc (unat (max_retries (t_retry_policy t))) \<and>
      (\<exists>e now. run_error (last runs) = Some e \<and> (\<forall>k. hm_get tasks' k =
        (if k = t_id t then map_option (\<lambda>u. u\<lparr>t_status := Failed e, t_updated_at := now\<rparr>) (hm_get tasks k)
         else hm_get tasks k)))" if "\<not> ok"
    using attempt_loop_failed [OF loop that ne] r f n that
    by (auto simp: execute_with_retry_def Let_def loop mark_failed_def hm_contains_def split: prod.splits if_splits)
  show ?thesis
    using h' ne nums len n f fail by (intro exI [of _ runs]) (cases ok; simp)
qed

text \<open>A task and an executor that fails twice before it succeeds.\<close>

definition sample_task :: task where
  "sample_task = \<lparr>t_id = 7, t_name = ''backup'', t_trigger = Cron ''0 0 * * * *'',
     t_action = ActCommand ''echo'' [], t_timeout_seconds = 300, t_dependencies = [],
     t_retry_policy = default_retry_policy, t_status = Active, t_created_at = 0, t_updated_at = 0\<rparr>"

definition flaky_env :: "nat env" where
  "flaky_env = \<lparr>env_now = (\<lambda>w. (int w, w)), env_uuid = (\<lambda>w. (w, w)), env_sleep = (\<lambda>d w. w),
     env_execute = (\<lambda>s t w. (if w < 2 then ExecErr ''boom'' else ExecOk, Suc w))\<rparr>"

lemma sample_attempts: "attempts_upto (max_attempts sample_task) = [1, 2, 3, 4]"
  by (simp add: attempts_upto_def max_attempts_def sample_task_def default_retry_policy_def upt_rec)

theorem execute_with_retry_outcome_witness:
  "(\<exists>tasks' h' w'. execute_with_retry flaky_env sample_task [(7, sample_task)] [] 0 = (True, tasks', h', w') \<and>
     map (\<lambda>r. unat (run_attempt r)) h' = [1, 2, 3])"
proof -
  obtain ok tasks' h' w' where r:
    "execute_with_retry flaky_env sample_task [(7, sample_task)] [] 0 = (ok, tasks', h', w')"
    by (metis prod_cases4)
  have ok: "ok" "length h' = 3"
  proof -
    have "fst (execute_with_retry flaky_env sample_task [(7, sample_task)] [] 0) \<and>
        length (fst (snd (snd (execute_with_retry flaky_env sample_task [(7, sample_task)] [] 0)))) = 3"
      by (simp add: execute_with_retry_def sample_attempts Let_def attempt_once_def flaky_env_def outcome_of_def)
    with r show "ok" "length h' = 3" by simp_all
  qed
  have "unat (max_retries (t_retry_policy sample_task)) < 255"
    by (simp add: sample_task_def default_retry_policy_def)
  from execute_with_retry_outcome [OF this r] ok show ?thesis using r by (auto simp: upt_rec)
qed

text \<open>
  A policy of 255 retries never runs the task. The attempt count is computed in \<open>u8\<close> and
  wraps to 0, so the loop is empty: no attempt is made, nothing is added to the history,
  and the stored task is marked failed with \<open>unknown error\<close>.
\<close>

theorem retry_255_never_runs:
  assumes "max_retries (t_retry_policy t) = 255"
  shows "execute_with_retry en t tasks h w =
    (if hm_contains tasks (t_id t)
     then (False, hm_modify (t_id t) (mark_failed None (fst (env_now en w))) tasks, h, snd (env_now en w))
     else (False, tasks, h, w))"
proof -
  have "max_attempts t = 0" using assms by (simp add: max_attempts_def)
  then show ?thesis
    by (simp add: execute_with_retry_def attempts_upto_def Let_def case_prod_unfold)
qed

theorem retry_255_never_runs_witness:
  "(let t = sample_task\<lparr>t_retry_policy := default_retry_policy\<lparr>max_retries := 255\<rparr>\<rparr>
    in execute_with_retry flaky_env t [(7, t)] [] 0 =
      (False, hm_modify 7 (mark_failed None 0) [(7, t)], [], 0))"
proof -
  let ?t = "sample_task\<lparr>t_retry_policy := default_retry_policy\<lparr>max_retries := 255\<rparr>\<rparr>"
  have "max_retries (t_retry_policy ?t) = 255" by simp
  from retry_255_never_runs [OF this, of flaky_env "[(7, ?t)]" "[]" 0] show ?thesis
    by (simp add: Let_def sample_task_def flaky_env_def hm_contains_def)
qed

text \<open>
  The waits between attempts follow the policy: whatever the executor does, the sleeps
  requested over one execution are the backoffs of attempts \<open>1, 2, \<dots>\<close>, one before each
  run but the first, and recording them changes nothing else.
\<close>

theorem execute_with_retry_sleeps:
  "execute_with_retry (logged en) t tasks h (w, l) =
     (let (ok, tasks', h', w') = execute_with_retry en t tasks h w
      in (ok, tasks', h', (w', l @ map (\<lambda>i. calculate_backoff (t_retry_policy t) (of_nat i))
            [1..<length h' - length h])))"
proof -
  obtain ok runs le w1 where loop:
    "attempt_loop en t (attempts_upto (max_attempts t)) [] None w = (ok, runs, le, w1)"
    by (metis prod_cases4)
  have "length runs \<le> unat (max_attempts t)"
  proof -
    have "map run_attempt runs = take (length runs) (attempts_upto (max_attempts t))"
      using attempt_loop_facts [OF loop] by auto
    then show ?thesis by (metis length_attempts_upto length_map length_take min.absorb_iff2 min_def)
  qed
  note s = sleeps_of_attempts [OF this, of t]
  have now: "env_now (logged en) (x, y) = (let (n, w') = env_now en x in (n, (w', y)))" for x y
    by (simp add: logged_def)
  show ?thesis
    by (simp add: execute_with_retry_def attempt_loop_logged loop Let_def s now case_prod_unfold)
qed

end
