(* ===== verification/Time_Condition.thy ===== *)
theory Time_Condition
  imports Models Rust_Strings
begin

text \<open>
  Time-based trigger conditions (\<^verbatim>\<open>crates/task-scheduler/src/time_condition.rs\<close>): the
  parser and the evaluator. What the evaluator reads of a \<^verbatim>\<open>DateTime<Utc>\<close> (weekday,
  hour, minute) is the record \<open>civil_time\<close>. Hours and minutes are \<open>u32\<close> in the source and
  natural numbers here; the parser only lets through values below 24 and 60, so their
  arithmetic cannot overflow.
\<close>

datatype weekday = Mon | Tue | Wed | Thu | Fri | Sat | Sun

record civil_time =
  ct_weekday :: weekday
  ct_hour :: nat
  ct_minute :: nat

datatype atomic_condition =
    Weekday
  | Weekend
  | After nat nat
  | Before nat nat
  | Between nat nat nat nat
  | DayOfWeek weekday

datatype condition_node =
    Atom atomic_condition
  | And condition_node condition_node
  | Or condition_node condition_node

record time_condition =
  tc_expression :: string
  tc_root :: condition_node

subsection \<open>Parsing\<close>

definition quoted :: "string \<Rightarrow> string \<Rightarrow> task_error" where
  "quoted msg s = InvalidCronExpression (msg @ [CHR 0x27] @ s @ [CHR 0x27])"

definition parse_hh_mm :: "string \<Rightarrow> string \<Rightarrow> string \<Rightarrow> task_error + nat \<times> nat" where
  "parse_hh_mm input h m =
     (case parse_u32 h of
        None \<Rightarrow> Inl (quoted ''invalid hour in time: '' input)
      | Some hour \<Rightarrow>
          (case parse_u32 m of
             None \<Rightarrow> Inl (quoted ''invalid minute in time: '' input)
           | Some minute \<Rightarrow>
               if hour > 23 \<or> minute > 59 then Inl (quoted ''time out of range: '' input)
               else Inr (hour, minute)))"

definition parse_12h :: "string \<Rightarrow> task_error + nat \<times> nat" where
  "parse_12h input =
     (let is_pm = ends_with_str input ''pm''
      in case parse_u32 (take (length input - 2) input) of
           None \<Rightarrow> Inl (quoted ''invalid hour in time: '' input)
         | Some hour \<Rightarrow>
             if hour = 0 \<or> hour > 12 then Inl (quoted ''invalid 12-hour time: '' input)
             else Inr (if is_pm then (if hour = 12 then 12 else hour + 12)
                       else (if hour = 12 then 0 else hour), 0))"

definition parse_time :: "string \<Rightarrow> task_error + nat \<times> nat" where
  "parse_time s =
     (let input = to_lowercase (str_trim s);
          rest = (if ends_with_str input ''am'' \<or> ends_with_str input ''pm'' then parse_12h input
                  else Inl (quoted ''cannot parse time: '' input))
      in if CHR '':'' \<in> set input
         then (case split_char CHR '':'' input of
                 [h, m] \<Rightarrow> parse_hh_mm input h m
               | _ \<Rightarrow> rest)
         else rest)"

definition day_names :: "(string \<times> weekday) list" where
  "day_names =
     [(''monday'', Mon), (''mon'', Mon), (''tuesday'', Tue), (''tue'', Tue),
      (''wednesday'', Wed), (''wed'', Wed), (''thursday'', Thu), (''thu'', Thu),
      (''friday'', Fri), (''fri'', Fri), (''saturday'', Sat), (''sat'', Sat),
      (''sunday'', Sun), (''sun'', Sun)]"

definition parse_between :: "string \<Rightarrow> string \<Rightarrow> task_error + condition_node" where
  "parse_between start end =
     (case parse_time start of
        Inl e \<Rightarrow> Inl e
      | Inr (sh, sm) \<Rightarrow>
          (case parse_time end of
             Inl e \<Rightarrow> Inl e
           | Inr (eh, em) \<Rightarrow> Inr (Atom (Between sh sm eh em))))"

definition parse_atom :: "string \<Rightarrow> task_error + condition_node" where
  "parse_atom s =
     (let input = to_lowercase (str_trim s) in
      if input = ''weekday'' then Inr (Atom Weekday)
      else if input = ''weekend'' then Inr (Atom Weekend)
      else case map_of day_names input of
        Some d \<Rightarrow> Inr (Atom (DayOfWeek d))
      | None \<Rightarrow>
      (case strip_prefix ''after '' input of
         Some time_str \<Rightarrow>
           (case parse_time (str_trim time_str) of
              Inl e \<Rightarrow> Inl e
            | Inr (h, m) \<Rightarrow> Inr (Atom (After h m)))
       | None \<Rightarrow>
      (case strip_prefix ''before '' input of
         Some time_str \<Rightarrow>
           (case parse_time (str_trim time_str) of
              Inl e \<Rightarrow> Inl e
            | Inr (h, m) \<Rightarrow> Inr (Atom (Before h m)))
       | None \<Rightarrow>
      (case Option.bind (strip_prefix ''between '' input) (find_str '' and '') of
         Some (start, end) \<Rightarrow> parse_between (str_trim start) (str_trim end)
       | None \<Rightarrow> Inl (quoted ''unrecognized time condition: '' input)))))"

function parse_and :: "string \<Rightarrow> task_error + condition_node" where
  "parse_and input =
     (case find_str ''&&'' input of
        Some (l, r) \<Rightarrow>
          (case parse_atom (str_trim l) of
             Inl e \<Rightarrow> Inl e
           | Inr left_node \<Rightarrow>
               (case parse_and (str_trim r) of
                  Inl e \<Rightarrow> Inl e
                | Inr right_node \<Rightarrow> Inr (And left_node right_node)))
      | None \<Rightarrow> parse_atom input)"
  by pat_completeness auto
termination
  by (relation "measure length") (auto dest!: find_str_shorter intro: le_less_trans [OF str_trim_length])

function parse_or :: "string \<Rightarrow> task_error + condition_node" where
  "parse_or input =
     (case find_str ''||'' input of
        Some (l, r) \<Rightarrow>
          (case parse_and (str_trim l) of
             Inl e \<Rightarrow> Inl e
           | Inr left_node \<Rightarrow>
               (case parse_or (str_trim r) of
                  Inl e \<Rightarrow> Inl e
                | Inr right_node \<Rightarrow> Inr (Or left_node right_node)))
      | None \<Rightarrow> parse_and input)"
  by pat_completeness auto
termination
  by (relation "measure length") (auto dest!: find_str_shorter intro: le_less_trans [OF str_trim_length])

declare parse_and.simps [simp del] parse_or.simps [simp del]

definition tc_parse :: "string \<Rightarrow> task_error + time_condition" where
  "tc_parse expression =
     (let trimmed = str_trim expression in
      if trimmed = [] then Inl (InvalidCronExpression ''empty time condition expression'')
      else (case parse_or trimmed of
              Inl e \<Rightarrow> Inl e
            | Inr root \<Rightarrow> Inr \<lparr>tc_expression = expression, tc_root = root\<rparr>))"

subsection \<open>Evaluation\<close>

definition minutes_of :: "civil_time \<Rightarrow> nat" where
  "minutes_of c = ct_hour c * 60 + ct_minute c"

fun eval_atom :: "atomic_condition \<Rightarrow> civil_time \<Rightarrow> bool" where
  "eval_atom Weekday c = (ct_weekday c \<noteq> Sat \<and> ct_weekday c \<noteq> Sun)"
| "eval_atom Weekend c = (ct_weekday c = Sat \<or> ct_weekday c = Sun)"
| "eval_atom (After h m) c = (minutes_of c \<ge> h * 60 + m)"
| "eval_atom (Before h m) c = (minutes_of c < h * 60 + m)"
| "eval_atom (Between sh sm eh em) c =
     (minutes_of c \<ge> sh * 60 + sm \<and> minutes_of c < eh * 60 + em)"
| "eval_atom (DayOfWeek d) c = (ct_weekday c = d)"

fun eval_node :: "condition_node \<Rightarrow> civil_time \<Rightarrow> bool" where
  "eval_node (Atom a) c = eval_atom a c"
| "eval_node (And l r) c = (eval_node l c \<and> eval_node r c)"
| "eval_node (Or l r) c = (eval_node l c \<or> eval_node r c)"

definition tc_evaluate :: "time_condition \<Rightarrow> civil_time \<Rightarrow> bool" where
  "tc_evaluate tc c = eval_node (tc_root tc) c"

end
