(* ===== verification/Time_Condition_Props.thy ===== *)
theory Time_Condition_Props
  imports Time_Condition
begin

text \<open>
  Properties of time conditions: the parser only produces times of day, it inverts a
  printer of conditions in disjunctive form with the intended meaning, and ranges that
  cross midnight never hold.
\<close>

subsection \<open>Parsed conditions are well formed\<close>

fun atom_wf :: "atomic_condition \<Rightarrow> bool" where
  "atom_wf (After h m) = (h < 24 \<and> m < 60)"
| "atom_wf (Before h m) = (h < 24 \<and> m < 60)"
| "atom_wf (Between sh sm eh em) = (sh < 24 \<and> sm < 60 \<and> eh < 24 \<and> em < 60)"
| "atom_wf _ = True"

fun node_wf :: "condition_node \<Rightarrow> bool" where
  "node_wf (Atom a) = atom_wf a"
| "node_wf (And l r) = (node_wf l \<and> node_wf r)"
| "node_wf (Or l r) = (node_wf l \<and> node_wf r)"

lemma parse_hh_mm_bounds: "parse_hh_mm i a b = Inr (h, m) \<Longrightarrow> h < 24 \<and> m < 60"
  by (auto simp: parse_hh_mm_def split: option.splits if_splits)

lemma parse_12h_bounds: "parse_12h i = Inr (h, m) \<Longrightarrow> h < 24 \<and> m < 60"
  by (auto simp: parse_12h_def Let_def split: option.splits if_splits)

lemma parse_time_bounds: "parse_time s = Inr (h, m) \<Longrightarrow> h < 24 \<and> m < 60"
  by (auto simp: parse_time_def Let_def dest: parse_hh_mm_bounds parse_12h_bounds
      split: if_splits list.splits)

lemma parse_between_wf: "parse_between a b = Inr n \<Longrightarrow> node_wf n"
  by (auto simp: parse_between_def dest!: parse_time_bounds split: sum.splits)

lemma parse_atom_wf: "parse_atom s = Inr n \<Longrightarrow> node_wf n"
  by (auto simp: parse_atom_def Let_def dest: parse_between_wf dest!: parse_time_bounds
      split: if_splits option.splits sum.splits)

lemma parse_and_wf: "parse_and s = Inr n \<Longrightarrow> node_wf n"
proof (induction s arbitrary: n rule: parse_and.induct)
  case (1 s)
  show ?case
  proof (cases "find_str ''&&'' s")
    case None
    then show ?thesis using "1.prems" parse_atom_wf by (simp add: parse_and.simps [of s])
  next
    case (Some lr)
    then obtain l r where lr: "find_str ''&&'' s = Some (l, r)" by (cases lr) simp
    with "1.prems" obtain a b where ab: "parse_atom (str_trim l) = Inr a"
        "parse_and (str_trim r) = Inr b" "n = And a b"
      by (auto simp: parse_and.simps [of s] split: sum.splits)
    have "node_wf b" using "1.IH" [OF lr refl ab(1,2)] .
    then show ?thesis using parse_atom_wf ab by simp
  qed
qed

lemma parse_or_wf: "parse_or s = Inr n \<Longrightarrow> node_wf n"
proof (induction s arbitrary: n rule: parse_or.induct)
  case (1 s)
  show ?case
  proof (cases "find_str ''||'' s")
    case None
    then show ?thesis using "1.prems" parse_and_wf by (simp add: parse_or.simps [of s])
  next
    case (Some lr)
    then obtain l r where lr: "find_str ''||'' s = Some (l, r)" by (cases lr) simp
    with "1.prems" obtain a b where ab: "parse_and (str_trim l) = Inr a"
        "parse_or (str_trim r) = Inr b" "n = Or a b"
      by (auto simp: parse_or.simps [of s] split: sum.splits)
    have "node_wf b" using "1.IH" [OF lr refl ab(1,2)] .
    then show ?thesis using parse_and_wf ab by simp
  qed
qed

subsection \<open>A printer\<close>

definition show_time :: "nat \<Rightarrow> nat \<Rightarrow> string" where
  "show_time h m = show_nat h @ '':'' @ show_nat m"

fun show_day :: "weekday \<Rightarrow> string" where
  "show_day Mon = ''monday''"
| "show_day Tue = ''tuesday''"
| "show_day Wed = ''wednesday''"
| "show_day Thu = ''thursday''"
| "show_day Fri = ''friday''"
| "show_day Sat = ''saturday''"
| "show_day Sun = ''sunday''"

fun show_atom :: "atomic_condition \<Rightarrow> string" where
  "show_atom Weekday = ''weekday''"
| "show_atom Weekend = ''weekend''"
| "show_atom (After h m) = ''after '' @ show_time h m"
| "show_atom (Before h m) = ''before '' @ show_time h m"
| "show_atom (Between sh sm eh em) = ''between '' @ show_time sh sm @ '' and '' @ show_time eh em"
| "show_atom (DayOfWeek d) = show_day d"

text \<open>A conjunction is a first atom and the further ones; a disjunction likewise.\<close>

fun show_conj :: "atomic_condition \<Rightarrow> atomic_condition list \<Rightarrow> string" where
  "show_conj a [] = show_atom a"
| "show_conj a (b # bs) = show_atom a @ '' && '' @ show_conj b bs"

fun conj_node :: "atomic_condition \<Rightarrow> atomic_condition list \<Rightarrow> condition_node" where
  "conj_node a [] = Atom a"
| "conj_node a (b # bs) = And (Atom a) (conj_node b bs)"

type_synonym conjunction = "atomic_condition \<times> atomic_condition list"

fun show_disj :: "conjunction \<Rightarrow> conjunction list \<Rightarrow> string" where
  "show_disj (a, as) [] = show_conj a as"
| "show_disj (a, as) (c # cs) = show_conj a as @ '' || '' @ show_disj c cs"

fun disj_node :: "conjunction \<Rightarrow> conjunction list \<Rightarrow> condition_node" where
  "disj_node (a, as) [] = conj_node a as"
| "disj_node (a, as) (c # cs) = Or (conj_node a as) (disj_node c cs)"

subsection \<open>Parsing printed times\<close>

abbreviation time_char :: "char \<Rightarrow> bool" where
  "time_char c \<equiv> is_digit_char c \<or> c = CHR '':''"

lemma is_digit_char_iff: "is_digit_char c \<longleftrightarrow> 48 \<le> (of_char c :: nat) \<and> (of_char c :: nat) \<le> 57"
  by (simp add: is_digit_char_def digit_val_def Let_def)

lemma digit_char_plain:
  assumes "is_digit_char c"
  shows "\<not> is_ws c" "lower_char c = c" "c \<noteq> CHR '':''" "c \<noteq> CHR ''&''" "c \<noteq> CHR ''|''" "c \<noteq> CHR '' ''"
  using assms by (auto simp: is_digit_char_iff is_ws_def lower_char_def Let_def)

lemma time_char_plain:
  assumes "time_char c"
  shows "\<not> is_ws c" "lower_char c = c" "c \<noteq> CHR ''&''" "c \<noteq> CHR ''|''" "c \<noteq> CHR '' ''"
  using assms digit_char_plain [of c] by (auto simp: is_ws_def lower_char_def Let_def)

lemma show_time_chars: "c \<in> set (show_time h m) \<Longrightarrow> time_char c"
  using show_nat_digits [of h] show_nat_digits [of m] by (auto simp: show_time_def list_all_iff)

lemma show_time_nonempty [simp]: "show_time h m \<noteq> []"
  by (simp add: show_time_def)

lemma lowercase_plain: "(\<And>c. c \<in> set s \<Longrightarrow> lower_char c = c) \<Longrightarrow> to_lowercase s = s"
  by (simp add: to_lowercase_def map_idI)

lemma trim_plain: "s \<noteq> [] \<Longrightarrow> (\<And>c. c \<in> set s \<Longrightarrow> \<not> is_ws c) \<Longrightarrow> str_trim s = s"
  by (rule str_trim_id) simp_all

lemma split_char_plain: "(\<And>c. c \<in> set s \<Longrightarrow> c \<noteq> d) \<Longrightarrow> split_char d s = [s]"
  by (induction s) auto

lemma split_char_mid: "(\<And>c. c \<in> set a \<Longrightarrow> c \<noteq> d) \<Longrightarrow> split_char d (a @ d # b) = a # split_char d b"
  by (induction a) auto

lemma split_show_time: "split_char CHR '':'' (show_time h m) = [show_nat h, show_nat m]"
  using show_nat_digits [of h] show_nat_digits [of m]
  by (simp add: show_time_def split_char_mid split_char_plain list_all_iff digit_char_plain(3))

lemma show_time_trim [simp]: "str_trim (show_time h m) = show_time h m"
  using show_time_chars time_char_plain(1) by (intro trim_plain) auto

lemma show_time_lower [simp]: "to_lowercase (show_time h m) = show_time h m"
  using show_time_chars time_char_plain(2) by (intro lowercase_plain) auto

lemma parse_show_time:
  assumes "h < 24" and "m < 60"
  shows "parse_time (show_time h m) = Inr (h, m)"
proof -
  have "CHR '':'' \<in> set (show_time h m)" by (simp add: show_time_def)
  moreover have "parse_u32 (show_nat h) = Some h" "parse_u32 (show_nat m) = Some m"
    using assms by (simp_all add: parse_u32_show_nat)
  ultimately show ?thesis
    using assms by (simp add: parse_time_def Let_def split_show_time parse_hh_mm_def)
qed

subsection \<open>Parsing printed atoms\<close>

definition plain_char :: "char \<Rightarrow> bool" where
  "plain_char c \<longleftrightarrow> lower_char c = c \<and> c \<noteq> CHR ''&'' \<and> c \<noteq> CHR ''|''"

lemma show_day_plain: "list_all plain_char (show_day d)"
  by (cases d) (simp_all add: plain_char_def lower_char_def Let_def)

lemma show_time_plain: "list_all plain_char (show_time h m)"
  using show_time_chars [of _ h m] time_char_plain by (auto simp: list_all_iff plain_char_def)

lemma show_atom_plain: "list_all plain_char (show_atom a)"
  by (cases a) (simp_all add: show_day_plain show_time_plain, simp_all add: plain_char_def lower_char_def Let_def)

lemma show_time_last: "\<not> is_ws (last (show_time h m))"
  using show_time_chars [of "last (show_time h m)" h m] time_char_plain(1) by auto

lemma show_day_ends: "show_day d \<noteq> [] \<and> \<not> is_ws (hd (show_day d)) \<and> \<not> is_ws (last (show_day d))"
  by (cases d) (simp_all add: is_ws_def)

lemma show_atom_ends: "show_atom a \<noteq> [] \<and> \<not> is_ws (hd (show_atom a)) \<and> \<not> is_ws (last (show_atom a))"
  by (cases a) (simp_all add: show_day_ends show_time_last, simp_all add: is_ws_def)

lemma show_atom_trim: "str_trim (show_atom a) = show_atom a"
  using show_atom_ends by (simp add: str_trim_id)

lemma show_atom_lower: "to_lowercase (show_atom a) = show_atom a"
  using show_atom_plain [of a] by (intro lowercase_plain) (simp add: list_all_iff plain_char_def)

lemma strip_prefix_append [simp]: "strip_prefix p (p @ s) = Some s"
  by (simp add: strip_prefix_def starts_with_str_def)

lemma find_and_times:
  "find_str '' and '' (show_time a b @ '' and '' @ r) = Some (show_time a b, r)"
proof (rule find_str_at)
  fix i assume i: "i < length (show_time a b)"
  then have "(show_time a b) ! i \<noteq> CHR '' ''"
    using show_time_chars [of "show_time a b ! i" a b] time_char_plain(5) by auto
  then show "\<not> starts_with_str '' and '' (drop i (show_time a b @ '' and '' @ r))"
    using i by (simp add: starts_with_str_def Cons_nth_drop_Suc [symmetric])
qed simp

lemma parse_show_between:
  assumes "sh < 24" "sm < 60" "eh < 24" "em < 60"
  shows "parse_atom (show_atom (Between sh sm eh em)) = Inr (Atom (Between sh sm eh em))"
proof -
  let ?s = "show_atom (Between sh sm eh em)"
  have "strip_prefix ''between '' ?s = Some (show_time sh sm @ '' and '' @ show_time eh em)"
    using strip_prefix_append [of "''between ''"] by simp
  then have "Option.bind (strip_prefix ''between '' ?s) (find_str '' and '') =
      Some (show_time sh sm, show_time eh em)"
    using find_and_times [of sh sm "show_time eh em"] by simp
  moreover have "strip_prefix ''after '' ?s = None" "strip_prefix ''before '' ?s = None"
    by (simp_all add: strip_prefix_def starts_with_str_def)
  moreover have "map_of day_names ?s = None" by (simp add: day_names_def)
  ultimately show ?thesis
    using assms unfolding parse_atom_def Let_def show_atom_trim show_atom_lower
    by (simp add: parse_between_def parse_show_time)
qed

lemma parse_show_after:
  assumes "h < 24" "m < 60"
  shows "parse_atom (show_atom (After h m)) = Inr (Atom (After h m))"
proof -
  have "strip_prefix ''after '' (show_atom (After h m)) = Some (show_time h m)"
    using strip_prefix_append [of "''after ''"] by simp
  moreover have "map_of day_names (show_atom (After h m)) = None" by (simp add: day_names_def)
  ultimately show ?thesis
    using assms unfolding parse_atom_def Let_def show_atom_trim show_atom_lower
    by (simp add: parse_show_time)
qed

lemma parse_show_before:
  assumes "h < 24" "m < 60"
  shows "parse_atom (show_atom (Before h m)) = Inr (Atom (Before h m))"
proof -
  have "strip_prefix ''before '' (show_atom (Before h m)) = Some (show_time h m)"
    using strip_prefix_append [of "''before ''"] by simp
  moreover have "strip_prefix ''after '' (show_atom (Before h m)) = None"
    by (simp add: strip_prefix_def starts_with_str_def)
  moreover have "map_of day_names (show_atom (Before h m)) = None" by (simp add: day_names_def)
  ultimately show ?thesis
    using assms unfolding parse_atom_def Let_def show_atom_trim show_atom_lower
    by (simp add: parse_show_time)
qed

lemma parse_show_day: "parse_atom (show_atom (DayOfWeek d)) = Inr (Atom (DayOfWeek d))"
  unfolding parse_atom_def Let_def show_atom_trim show_atom_lower
  by (cases d) (simp_all add: day_names_def)

lemma parse_show_atom:
  assumes "atom_wf a"
  shows "parse_atom (show_atom a) = Inr (Atom a)"
proof (cases a)
  case Weekday
  then show ?thesis unfolding parse_atom_def Let_def show_atom_trim show_atom_lower by simp
next
  case Weekend
  then show ?thesis unfolding parse_atom_def Let_def show_atom_trim show_atom_lower by simp
qed (use assms parse_show_after parse_show_before parse_show_between parse_show_day in auto)

subsection \<open>Parsing printed conjunctions and disjunctions\<close>

lemma find_sep:
  assumes "x \<notin> set l"
  shows "find_str [x, x] (l @ [x, x] @ r) = Some (l, r)"
proof (rule find_str_at)
  fix i assume "i < length l"
  then show "\<not> starts_with_str [x, x] (drop i (l @ [x, x] @ r))"
    using assms by (auto simp: starts_with_str_def Cons_nth_drop_Suc [symmetric])
qed simp

lemma find_sep_None: "x \<notin> set s \<Longrightarrow> find_str [x, x] s = None"
  by (induction s) (auto simp: starts_with_str_def)

lemma trim_left_of_sep:
  "s \<noteq> [] \<Longrightarrow> \<not> is_ws (hd s) \<Longrightarrow> \<not> is_ws (last s) \<Longrightarrow> str_trim (s @ '' '') = s"
  using str_trim_pad [of s "[]" "'' ''"] by (simp add: is_ws_def)

lemma trim_right_of_sep:
  "s \<noteq> [] \<Longrightarrow> \<not> is_ws (hd s) \<Longrightarrow> \<not> is_ws (last s) \<Longrightarrow> str_trim ('' '' @ s) = s"
  using str_trim_pad [of s "'' ''" "[]"] by (simp add: is_ws_def)

lemma show_conj_ends:
  "show_conj a as \<noteq> [] \<and> \<not> is_ws (hd (show_conj a as)) \<and> \<not> is_ws (last (show_conj a as))"
  by (induction a as rule: show_conj.induct) (auto simp: show_atom_ends)

lemma show_disj_ends:
  "show_disj c cs \<noteq> [] \<and> \<not> is_ws (hd (show_disj c cs)) \<and> \<not> is_ws (last (show_disj c cs))"
  by (induction c cs rule: show_disj.induct) (auto simp: show_conj_ends)

lemma show_atom_seps: "CHR ''&'' \<notin> set (show_atom a)" "CHR ''|'' \<notin> set (show_atom a)"
  using show_atom_plain [of a] by (auto simp: list_all_iff plain_char_def)

lemma show_conj_no_bar: "CHR ''|'' \<notin> set (show_conj a as)"
  by (induction a as rule: show_conj.induct) (auto simp: show_atom_seps)

lemma parse_show_conj:
  "atom_wf a \<Longrightarrow> list_all atom_wf as \<Longrightarrow> parse_and (show_conj a as) = Inr (conj_node a as)"
proof (induction a as rule: show_conj.induct)
  case (1 a)
  then show ?case
    using find_sep_None [of "CHR ''&''" "show_atom a"]
    by (simp add: parse_and.simps show_atom_seps parse_show_atom)
next
  case (2 a b bs)
  have "find_str ''&&'' (show_conj a (b # bs)) = Some (show_atom a @ '' '', '' '' @ show_conj b bs)"
    using find_sep [of "CHR ''&''" "show_atom a @ '' ''"] show_atom_seps by simp
  then show ?case
    using 2 show_atom_ends [of a] show_conj_ends [of b bs]
    by (simp add: parse_and.simps [of "show_conj a (b # bs)"] trim_left_of_sep trim_right_of_sep
        parse_show_atom del: show_conj.simps append_Cons)
qed

abbreviation conj_wf :: "conjunction \<Rightarrow> bool" where
  "conj_wf c \<equiv> atom_wf (fst c) \<and> list_all atom_wf (snd c)"

lemma parse_show_disj:
  "conj_wf c \<Longrightarrow> list_all conj_wf cs \<Longrightarrow> parse_or (show_disj c cs) = Inr (disj_node c cs)"
proof (induction c cs rule: show_disj.induct)
  case (1 a as)
  then show ?case
    using find_sep_None [of "CHR ''|''" "show_conj a as"]
    by (simp add: parse_or.simps show_conj_no_bar parse_show_conj)
next
  case (2 a as c cs)
  have "find_str ''||'' (show_disj (a, as) (c # cs)) = Some (show_conj a as @ '' '', '' '' @ show_disj c cs)"
    using find_sep [of "CHR ''|''" "show_conj a as @ '' ''"] show_conj_no_bar by simp
  then show ?case
    using 2 show_conj_ends [of a as] show_disj_ends [of c cs]
    by (simp add: parse_or.simps [of "show_disj (a, as) (c # cs)"] trim_left_of_sep trim_right_of_sep
        parse_show_conj del: show_disj.simps append_Cons)
qed

lemma eval_conj_node: "eval_node (conj_node a as) t \<longleftrightarrow> (\<forall>x \<in> set (a # as). eval_atom x t)"
  by (induction a as rule: conj_node.induct) auto

lemma eval_disj_node:
  "eval_node (disj_node c cs) t \<longleftrightarrow> (\<exists>d \<in> set (c # cs). \<forall>x \<in> set (fst d # snd d). eval_atom x t)"
  by (induction c cs rule: disj_node.induct) (auto simp: eval_conj_node)

text \<open>The definitions the simplifier unfolds to parse a concrete text.\<close>

lemmas parse_text = tc_parse_def parse_or.simps parse_and.simps parse_between_def parse_atom_def
  parse_time_def parse_12h_def parse_hh_mm_def parse_u32_def digit_val_def str_trim_def is_ws_def
  to_lowercase_def lower_char_def day_names_def strip_prefix_def starts_with_str_def ends_with_str_def

subsection \<open>Properties\<close>

text \<open>
  Every time of day in a parsed condition is valid: hours below 24 and minutes below 60,
  whatever the input text and its notation.
\<close>

theorem tc_parse_wf:
  assumes "tc_parse s = Inr tc"
  shows "node_wf (tc_root tc)"
  using assms by (auto simp: tc_parse_def Let_def dest: parse_or_wf split: if_splits sum.splits)

theorem tc_parse_wf_witness:
  "tc_parse ''weekday && after 9am'' =
     Inr \<lparr>tc_expression = ''weekday && after 9am'',
          tc_root = And (Atom Weekday) (Atom (After 9 0))\<rparr> \<and>
   node_wf (And (Atom Weekday) (Atom (After 9 0)))"
proof -
  have "tc_parse ''weekday && after 9am'' =
     Inr \<lparr>tc_expression = ''weekday && after 9am'',
          tc_root = And (Atom Weekday) (Atom (After 9 0))\<rparr>"
    by (simp add: parse_text)
  with tc_parse_wf [OF this] show ?thesis by simp
qed

text \<open>
  C25: parsing inverts printing for every condition in disjunctive form, and the parsed
  condition means what the text says: at a time it holds when all atoms of one of the
  alternatives hold. So \<^verbatim>\<open>&&\<close> binds tighter than \<^verbatim>\<open>||\<close>.
\<close>

theorem tc_parse_show:
  assumes "conj_wf c" and "list_all conj_wf cs"
  shows "tc_parse (show_disj c cs) = Inr \<lparr>tc_expression = show_disj c cs, tc_root = disj_node c cs\<rparr> \<and>
    (\<forall>t. tc_evaluate \<lparr>tc_expression = show_disj c cs, tc_root = disj_node c cs\<rparr> t \<longleftrightarrow>
       (\<exists>d \<in> set (c # cs). \<forall>x \<in> set (fst d # snd d). eval_atom x t))"
proof -
  have "str_trim (show_disj c cs) = show_disj c cs" "show_disj c cs \<noteq> []"
    using show_disj_ends [of c cs] by (simp_all add: str_trim_id)
  then have "tc_parse (show_disj c cs) = Inr \<lparr>tc_expression = show_disj c cs, tc_root = disj_node c cs\<rparr>"
    by (simp add: tc_parse_def parse_show_disj assms)
  then show ?thesis by (simp add: tc_evaluate_def eval_disj_node del: list.set)
qed

theorem tc_parse_show_witness:
  "show_disj (Weekend, []) [(Weekday, [After 18 5])] = ''weekend || weekday && after 18:5'' \<and>
   (\<exists>tc. tc_parse (show_disj (Weekend, []) [(Weekday, [After 18 5])]) = Inr tc \<and>
      tc_evaluate tc \<lparr>ct_weekday = Mon, ct_hour = 19, ct_minute = 0\<rparr> \<and>
      \<not> tc_evaluate tc \<lparr>ct_weekday = Mon, ct_hour = 18, ct_minute = 0\<rparr>)"
proof -
  have "show_disj (Weekend, []) [(Weekday, [After 18 5])] = ''weekend || weekday && after 18:5''"
    by code_simp
  with tc_parse_show [of "(Weekend, [])" "[(Weekday, [After 18 5])]"] show ?thesis
    by (simp add: minutes_of_def)
qed

text \<open>
  A range whose end is not later than its start, such as \<^verbatim>\<open>between 10pm and 6am\<close>,
  parses but holds at no time: ranges do not wrap around midnight.
\<close>

theorem between_overnight_never_holds:
  assumes "eh * 60 + em \<le> sh * 60 + sm"
  shows "\<not> eval_atom (Between sh sm eh em) t"
  using assms by simp

theorem between_overnight_never_holds_witness:
  "tc_parse ''between 10pm and 6am'' =
     Inr \<lparr>tc_expression = ''between 10pm and 6am'', tc_root = Atom (Between 22 0 6 0)\<rparr> \<and>
   \<not> eval_atom (Between 22 0 6 0) \<lparr>ct_weekday = Mon, ct_hour = 23, ct_minute = 0\<rparr>"
proof -
  have "tc_parse ''between 10pm and 6am'' =
     Inr \<lparr>tc_expression = ''between 10pm and 6am'', tc_root = Atom (Between 22 0 6 0)\<rparr>"
    by (simp add: parse_text)
  with between_overnight_never_holds [of 6 0 22 0] show ?thesis by simp
qed

end
