(* ===== verification/Cron_Schedule.thy ===== *)
theory Cron_Schedule
  imports Models Rust_Strings
begin

text \<open>
  Cron schedules (\<^verbatim>\<open>crates/task-scheduler/src/cron_parser.rs\<close>). The \<^verbatim>\<open>cron\<close> crate is
  a parameter: \<open>cron_from_str\<close> parses an expression into a schedule \<open>'s\<close> or fails with a
  message, and \<open>cron_after s t n\<close> is what \<^verbatim>\<open>s.after(&t).take(n)\<close> yields.
\<close>

record 's cron_api =
  cron_from_str :: "string \<Rightarrow> string + 's"
  cron_after :: "'s \<Rightarrow> timestamp \<Rightarrow> nat \<Rightarrow> timestamp list"

record 's cron_schedule =
  cs_expression :: string
  cs_schedule :: 's

text \<open>What the crate documents of its iterator: occurrences come in increasing order, after
  the given time, taking fewer of them gives a prefix, and between a time and its next
  occurrence the upcoming occurrences stay the same.\<close>

definition cron_laws :: "'s cron_api \<Rightarrow> bool" where
  "cron_laws api \<longleftrightarrow>
     (\<forall>s t n. sorted_wrt (<) (cron_after api s t n) \<and> (\<forall>x \<in> set (cron_after api s t n). t < x) \<and>
        length (cron_after api s t n) \<le> n) \<and>
     (\<forall>s t n m. m \<le> n \<longrightarrow> take m (cron_after api s t n) = cron_after api s t m) \<and>
     (\<forall>s t t' n x xs. cron_after api s t n = x # xs \<longrightarrow> t \<le> t' \<longrightarrow> t' < x \<longrightarrow> cron_after api s t' n = x # xs)"

definition next_after :: "'s cron_api \<Rightarrow> 's cron_schedule \<Rightarrow> timestamp \<Rightarrow> timestamp option" where
  "next_after api cs t = (case cron_after api (cs_schedule cs) t 1 of [] \<Rightarrow> None | x # _ \<Rightarrow> Some x)"

definition next_n_after :: "'s cron_api \<Rightarrow> 's cron_schedule \<Rightarrow> timestamp \<Rightarrow> nat \<Rightarrow> timestamp list" where
  "next_n_after api cs t n = cron_after api (cs_schedule cs) t n"

definition matches_at :: "'s cron_api \<Rightarrow> 's cron_schedule \<Rightarrow> timestamp \<Rightarrow> int \<Rightarrow> bool" where
  "matches_at api cs time tolerance_secs =
     (case next_after api cs (time - seconds tolerance_secs) of
        Some x \<Rightarrow> x \<le> time
      | None \<Rightarrow> False)"

text \<open>The loop over \<^verbatim>\<open>upcoming.windows(2)\<close>: the first gap of less than a minute is an error.\<close>

fun check_windows :: "string \<Rightarrow> timestamp list \<Rightarrow> task_error + unit" where
  "check_windows expr (a # b # rest) =
     (let interval = num_seconds (b - a)
      in if interval < 60
         then Inl (InvalidCronExpression
                (expr @ '': interval '' @ show_int interval @ ''s is less than minimum 60s''))
         else check_windows expr (b # rest))"
| "check_windows expr _ = Inr ()"

definition validate_minimum_interval :: "'s cron_api \<Rightarrow> timestamp \<Rightarrow> 's cron_schedule \<Rightarrow> task_error + unit" where
  "validate_minimum_interval api now cs =
     (let upcoming = cron_after api (cs_schedule cs) now 5
      in if length upcoming < 2 then Inr () else check_windows (cs_expression cs) upcoming)"

definition cron_parse :: "'s cron_api \<Rightarrow> timestamp \<Rightarrow> string \<Rightarrow> task_error + 's cron_schedule" where
  "cron_parse api now expression =
     (case cron_from_str api expression of
        Inl e \<Rightarrow> Inl (InvalidCronExpression (expression @ '': '' @ e))
      | Inr sched \<Rightarrow>
          let cs = \<lparr>cs_expression = expression, cs_schedule = sched\<rparr>
          in (case validate_minimum_interval api now cs of
                Inl e \<Rightarrow> Inl e
              | Inr _ \<Rightarrow> Inr cs))"

subsection \<open>Lemmas\<close>

lemma next_after_gt:
  assumes "cron_laws api" "next_after api cs t = Some x"
  shows "t < x"
proof -
  have "x \<in> set (cron_after api (cs_schedule cs) t 1)"
    using assms(2) by (auto simp: next_after_def split: list.splits)
  moreover have "\<forall>s t n. sorted_wrt (<) (cron_after api s t n) \<and> (\<forall>x \<in> set (cron_after api s t n). t < x) \<and>
      length (cron_after api s t n) \<le> n"
    using assms(1) unfolding cron_laws_def by (rule conjunct1)
  ultimately show ?thesis by blast
qed

lemma next_after_stable:
  assumes "cron_laws api" "next_after api cs t = Some x" "t \<le> t'" "t' < x"
  shows "next_after api cs t' = Some x"
proof -
  obtain xs where "cron_after api (cs_schedule cs) t 1 = x # xs"
    using assms(2) by (auto simp: next_after_def split: list.splits)
  then have "cron_after api (cs_schedule cs) t' 1 = x # xs"
    using assms(1,3,4) unfolding cron_laws_def by blast
  then show ?thesis by (simp add: next_after_def)
qed

lemma check_windows_gaps:
  "check_windows e xs = Inr () \<longleftrightarrow> successively (\<lambda>a b. 60 \<le> num_seconds (b - a)) xs"
  by (induction e xs rule: check_windows.induct) (auto simp: Let_def)

text \<open>A schedule that fires on every full minute, as an instance of the parameter.\<close>

fun minutely :: "timestamp \<Rightarrow> nat \<Rightarrow> timestamp list" where
  "minutely t 0 = []"
| "minutely t (Suc n) = (let x = (t div seconds 60 + 1) * seconds 60 in x # minutely x n)"

definition minutely_api :: "unit cron_api" where
  "minutely_api = \<lparr>cron_from_str = (\<lambda>s. if s = ''0 * * * * *'' then Inr () else Inl ''invalid expression''),
     cron_after = (\<lambda>_. minutely)\<rparr>"

lemma minutely_gt: "x \<in> set (minutely t n) \<Longrightarrow> t < x"
proof (induction t n rule: minutely.induct)
  case (2 t n)
  let ?x = "(t div seconds 60 + 1) * seconds 60"
  have "t < ?x"
    using minus_mod_eq_div_mult [of t "seconds 60"] pos_mod_bound [of "seconds 60" t]
    by (simp add: seconds_def algebra_simps)
  then show ?case using 2 by (auto simp: Let_def)
qed simp

lemma minutely_laws: "cron_laws minutely_api"
proof -
  have "sorted_wrt (<) (minutely t n)" for t n
    by (induction t n rule: minutely.induct) (auto simp: Let_def dest: minutely_gt)
  moreover have "length (minutely t n) = n" for t n
    by (induction t n rule: minutely.induct) (auto simp: Let_def)
  moreover have "m \<le> n \<Longrightarrow> take m (minutely t n) = minutely t m" for t m n
  proof (induction t n arbitrary: m rule: minutely.induct)
    case (2 t n)
    then show ?case by (cases m) (simp_all add: Let_def)
  qed simp
  moreover have "minutely t n = x # xs \<Longrightarrow> t \<le> t' \<Longrightarrow> t' < x \<Longrightarrow> minutely t' n = x # xs" for t t' n x xs
  proof (cases n)
    case (Suc k)
    assume a: "minutely t n = x # xs" "t \<le> t'" "t' < x"
    then have x: "x = (t div seconds 60 + 1) * seconds 60" using Suc by (simp add: Let_def)
    have "t div seconds 60 \<le> t' div seconds 60"
      using a(2) by (simp add: seconds_def zdiv_mono1)
    moreover have "t' div seconds 60 < t div seconds 60 + 1"
      using a(3) unfolding x by (simp add: seconds_def div_less_iff_less_mult)
    ultimately have "t' div seconds 60 = t div seconds 60" by simp
    then show ?thesis using a(1) unfolding Suc minutely.simps Let_def by (simp only:)
  qed simp
  ultimately show ?thesis
    unfolding cron_laws_def minutely_api_def cron_api.simps using minutely_gt by (metis order_refl)
qed

subsection \<open>Properties\<close>

text \<open>
  An accepted cron expression does not fire more than once a minute over its next
  occurrences: the first five occurrences after the time of parsing are at least sixty
  seconds apart.
\<close>

theorem cron_parse_min_interval:
  assumes "cron_parse api now expr = Inr cs"
  shows "successively (\<lambda>a b. 60 \<le> num_seconds (b - a)) (next_n_after api cs now 5)"
proof -
  have v: "validate_minimum_interval api now cs = Inr ()"
    using assms by (auto simp: cron_parse_def Let_def split: sum.splits)
  show ?thesis
  proof (cases "length (next_n_after api cs now 5) < 2")
    case True
    then consider "next_n_after api cs now 5 = []" | x where "next_n_after api cs now 5 = [x]"
      by (cases "next_n_after api cs now 5"; cases "tl (next_n_after api cs now 5)") auto
    then show ?thesis by cases simp_all
  next
    case False
    then show ?thesis
      using v by (simp add: validate_minimum_interval_def next_n_after_def Let_def check_windows_gaps)
  qed
qed

theorem cron_parse_min_interval_witness:
  "cron_parse minutely_api 0 ''0 * * * * *'' = Inr \<lparr>cs_expression = ''0 * * * * *'', cs_schedule = ()\<rparr> \<and>
   successively (\<lambda>a b. 60 \<le> num_seconds (b - a))
     (next_n_after minutely_api \<lparr>cs_expression = ''0 * * * * *'', cs_schedule = ()\<rparr> 0 5)"
proof -
  have "cron_parse minutely_api 0 ''0 * * * * *'' = Inr \<lparr>cs_expression = ''0 * * * * *'', cs_schedule = ()\<rparr>"
    by code_simp
  with cron_parse_min_interval [OF this] show ?thesis by simp
qed

end
