(* ===== verification/Webhook.thy ===== *)
theory Webhook
  imports Models
begin

text \<open>
  The webhook registry (\<^verbatim>\<open>crates/task-scheduler/src/webhook.rs\<close>). Registration reads
  the list under a read lock, drops it, and appends under a write lock, so it is two atomic
  steps: \<open>register_check\<close> and \<open>register_commit\<close>. \<open>register\<close> runs them back to back; the
  step relation \<open>reg_step\<close> lets several registrations interleave. Sending on the
  unbounded channel is the list of events the operation sends.
\<close>

record webhook_config =
  wc_task_id :: task_id
  wc_path :: string
  wc_method :: http_method

record webhook_event =
  we_task_id :: task_id
  we_path :: string
  we_method :: http_method
  we_body :: "string option"
  we_headers :: "(string, string) hashmap"

datatype webhook_error = PathAlreadyRegistered string http_method | WebhookInvalidTrigger

type_synonym webhooks = "webhook_config list"

definition wr_new :: webhooks where
  "wr_new = []"

definition is_registered :: "string \<Rightarrow> http_method \<Rightarrow> webhooks \<Rightarrow> bool" where
  "is_registered path method ws = list_ex (\<lambda>w. wc_path w = path \<and> wc_method w = method) ws"

definition register_check :: "task_id \<Rightarrow> task_trigger \<Rightarrow> webhooks \<Rightarrow> webhook_error + webhook_config" where
  "register_check t trigger ws =
     (case trigger of
        WebhookTrigger path method \<Rightarrow>
          if list_ex (\<lambda>w. wc_path w = path \<and> wc_method w = method) ws
          then Inl (PathAlreadyRegistered path method)
          else Inr \<lparr>wc_task_id = t, wc_path = path, wc_method = method\<rparr>
      | _ \<Rightarrow> Inl WebhookInvalidTrigger)"

definition register_commit :: "webhook_config \<Rightarrow> webhooks \<Rightarrow> webhooks" where
  "register_commit c ws = ws @ [c]"

definition register :: "task_id \<Rightarrow> task_trigger \<Rightarrow> webhooks \<Rightarrow> webhooks \<times> (webhook_error + unit)" where
  "register t trigger ws =
     (case register_check t trigger ws of
        Inl e \<Rightarrow> (ws, Inl e)
      | Inr c \<Rightarrow> (register_commit c ws, Inr ()))"

definition unregister :: "task_id \<Rightarrow> webhooks \<Rightarrow> webhooks" where
  "unregister t ws = filter (\<lambda>w. wc_task_id w \<noteq> t) ws"

definition handle_request :: "string \<Rightarrow> http_method \<Rightarrow> string option \<Rightarrow> (string, string) hashmap \<Rightarrow>
    webhooks \<Rightarrow> webhook_event list \<times> bool" where
  "handle_request path method body headers ws =
     (let matching = filter (\<lambda>w. wc_path w = path \<and> wc_method w = method) ws
      in if matching = [] then ([], False)
         else (map (\<lambda>w. \<lparr>we_task_id = wc_task_id w, we_path = path, we_method = method,
                          we_body = body, we_headers = headers\<rparr>) matching, True))"

definition list_endpoints :: "webhooks \<Rightarrow> (task_id \<times> string \<times> http_method) list" where
  "list_endpoints ws = map (\<lambda>w. (wc_task_id w, wc_path w, wc_method w)) ws"

subsection \<open>The registry under sequential use\<close>

text \<open>The contract of registration: no two entries share an endpoint.\<close>

definition endpoint :: "webhook_config \<Rightarrow> string \<times> http_method" where
  "endpoint w = (wc_path w, wc_method w)"

definition wr_inv :: "webhooks \<Rightarrow> bool" where
  "wr_inv ws \<longleftrightarrow> distinct (map endpoint ws)"

lemma is_registered_iff: "is_registered p m ws \<longleftrightarrow> (p, m) \<in> endpoint ` set ws"
  by (auto simp: is_registered_def list_ex_iff endpoint_def)

lemma register_cases:
  "register t trigger ws =
     (case trigger of
        WebhookTrigger p m \<Rightarrow>
          if is_registered p m ws then (ws, Inl (PathAlreadyRegistered p m))
          else (ws @ [\<lparr>wc_task_id = t, wc_path = p, wc_method = m\<rparr>], Inr ())
      | _ \<Rightarrow> (ws, Inl WebhookInvalidTrigger))"
  by (simp add: register_def register_check_def register_commit_def is_registered_def
      split: task_trigger.split)

lemma register_inv: "wr_inv ws \<Longrightarrow> wr_inv (fst (register t trigger ws))"
  by (auto simp: register_cases wr_inv_def is_registered_iff endpoint_def split: task_trigger.split)

lemma unregister_inv: "wr_inv ws \<Longrightarrow> wr_inv (unregister t ws)"
  by (induction ws) (auto simp: wr_inv_def unregister_def)

lemma wr_inv_match_length:
  "wr_inv ws \<Longrightarrow> length (filter (\<lambda>w. endpoint w = e) ws) = (if e \<in> endpoint ` set ws then 1 else 0)"
  by (induction ws) (auto simp: wr_inv_def filter_empty_conv)

lemma handle_request_events:
  "map we_task_id (fst (handle_request p m b h ws)) =
     map wc_task_id (filter (\<lambda>w. endpoint w = (p, m)) ws)"
  by (simp add: handle_request_def Let_def endpoint_def o_def)

lemma handle_request_found: "snd (handle_request p m b h ws) \<longleftrightarrow> is_registered p m ws"
  by (auto simp: handle_request_def is_registered_def Let_def list_ex_iff filter_empty_conv)

subsection \<open>Interleaved registrations\<close>

text \<open>The registrations in flight are the configurations that passed their check.\<close>

record reg_state =
  rs_hooks :: webhooks
  rs_pending :: "webhook_config list"

inductive reg_step :: "reg_state \<Rightarrow> reg_state \<Rightarrow> bool" where
  check: "register_check t trigger (rs_hooks s) = Inr c \<Longrightarrow>
    reg_step s (s\<lparr>rs_pending := rs_pending s @ [c]\<rparr>)"
| reject: "register_check t trigger (rs_hooks s) = Inl e \<Longrightarrow> reg_step s s"
| commit: "rs_pending s = xs @ c # ys \<Longrightarrow>
    reg_step s (s\<lparr>rs_hooks := register_commit c (rs_hooks s), rs_pending := xs @ ys\<rparr>)"
| drop: "reg_step s (s\<lparr>rs_hooks := unregister t (rs_hooks s)\<rparr>)"

text \<open>With at most one registration in flight the check and the commit act as one step.\<close>

definition reg_inv :: "reg_state \<Rightarrow> bool" where
  "reg_inv s \<longleftrightarrow> wr_inv (rs_hooks s) \<and> (\<forall>c \<in> set (rs_pending s). endpoint c \<notin> endpoint ` set (rs_hooks s)) \<and>
     length (rs_pending s) \<le> 1"

lemma register_check_fresh:
  "register_check t trigger ws = Inr c \<Longrightarrow> endpoint c \<notin> endpoint ` set ws"
  by (auto simp: register_check_def endpoint_def list_ex_iff split: task_trigger.splits if_splits)

lemma reg_step_inv:
  assumes "reg_step s s'" and "reg_inv s" and "length (rs_pending s') \<le> 1"
  shows "reg_inv s'"
  using assms
proof cases
  case (check t trigger c)
  then show ?thesis using assms(2,3) register_check_fresh [OF check(2)] by (auto simp: reg_inv_def)
next
  case (commit xs c ys)
  then have "xs = []" "ys = []" using assms(2) by (auto simp: reg_inv_def)
  then show ?thesis using commit assms(2) by (auto simp: reg_inv_def wr_inv_def register_commit_def)
next
  case (drop t)
  then show ?thesis using assms(2) unregister_inv [of "rs_hooks s" t]
    by (auto simp: reg_inv_def unregister_def)
qed (use assms in auto)

subsection \<open>Properties\<close>

text \<open>
  As long as registrations do not overlap, no two entries of the registry share an
  endpoint, and a request is dispatched to exactly one task when its endpoint is registered
  and to none otherwise, whatever registrations and removals came before.
\<close>

theorem webhook_dispatch_unique:
  assumes "rtranclp (\<lambda>s s'. reg_step s s' \<and> length (rs_pending s') \<le> 1)
    \<lparr>rs_hooks = wr_new, rs_pending = []\<rparr> s"
  shows "wr_inv (rs_hooks s) \<and>
    length (fst (handle_request p m b h (rs_hooks s))) = (if is_registered p m (rs_hooks s) then 1 else 0) \<and>
    (snd (handle_request p m b h (rs_hooks s)) \<longleftrightarrow> is_registered p m (rs_hooks s))"
proof -
  have "reg_inv \<lparr>rs_hooks = wr_new, rs_pending = []\<rparr>"
    by (simp add: reg_inv_def wr_inv_def wr_new_def)
  with assms have "reg_inv s"
    by (induction rule: rtranclp_induct) (blast intro: reg_step_inv)+
  then have inv: "wr_inv (rs_hooks s)" by (simp add: reg_inv_def)
  have "length (fst (handle_request p m b h (rs_hooks s))) =
      length (filter (\<lambda>w. endpoint w = (p, m)) (rs_hooks s))"
    using handle_request_events [of p m b h "rs_hooks s"] by (metis length_map)
  with wr_inv_match_length [OF inv, of "(p, m)"] inv show ?thesis
    by (simp add: handle_request_found is_registered_iff)
qed

definition hook_a :: webhook_config where
  "hook_a = \<lparr>wc_task_id = 1, wc_path = ''/deploy'', wc_method = Post\<rparr>"

theorem webhook_dispatch_unique_witness:
  "rtranclp (\<lambda>s s'. reg_step s s' \<and> length (rs_pending s') \<le> 1)
     \<lparr>rs_hooks = wr_new, rs_pending = []\<rparr> \<lparr>rs_hooks = [hook_a], rs_pending = []\<rparr> \<and>
   length (fst (handle_request ''/deploy'' Post None [] [hook_a])) = 1"
proof -
  let ?s0 = "\<lparr>rs_hooks = wr_new, rs_pending = []\<rparr>"
  let ?s1 = "\<lparr>rs_hooks = wr_new, rs_pending = [hook_a]\<rparr>"
  let ?s2 = "\<lparr>rs_hooks = [hook_a], rs_pending = []\<rparr>"
  have c: "register_check 1 (WebhookTrigger ''/deploy'' Post) wr_new = Inr hook_a"
    by (simp add: register_check_def wr_new_def hook_a_def)
  have s1: "reg_step ?s0 ?s1"
    using reg_step.check [of 1 "WebhookTrigger ''/deploy'' Post" ?s0 hook_a] c by simp
  have s2: "reg_step ?s1 ?s2"
    using reg_step.commit [of ?s1 "[]" hook_a "[]"] by (simp add: register_commit_def wr_new_def)
  have r: "rtranclp (\<lambda>s s'. reg_step s s' \<and> length (rs_pending s') \<le> 1) ?s0 ?s2"
    by (rule rtranclp.rtrancl_into_rtrancl [OF r_into_rtranclp]) (use s1 s2 in auto)
  have "is_registered ''/deploy'' Post [hook_a]" by (simp add: is_registered_def hook_a_def)
  then show ?thesis using r webhook_dispatch_unique [OF r, of "''/deploy''" Post None "[]"] by simp
qed

text \<open>
  Two registrations of one endpoint whose checks both run before either commit are both
  accepted, and a request to that endpoint then triggers both tasks: the duplicate check is
  not atomic with the insertion.
\<close>

theorem register_race:
  "\<exists>s. rtranclp reg_step \<lparr>rs_hooks = wr_new, rs_pending = []\<rparr> s \<and> \<not> wr_inv (rs_hooks s) \<and>
     map we_task_id (fst (handle_request ''/deploy'' Post None [] (rs_hooks s))) = [1, 2]"
proof -
  let ?b = "hook_a\<lparr>wc_task_id := 2\<rparr>"
  let ?tr = "WebhookTrigger ''/deploy'' Post"
  define s where "s = (\<lambda>hooks pending. \<lparr>rs_hooks = hooks, rs_pending = pending\<rparr>)"
  have c: "register_check 1 ?tr wr_new = Inr hook_a" "register_check 2 ?tr wr_new = Inr ?b"
    by (simp_all add: register_check_def wr_new_def hook_a_def)
  have "reg_step (s wr_new []) (s wr_new [hook_a])"
    using reg_step.check [of 1 ?tr "s wr_new []" hook_a] c by (simp add: s_def)
  moreover have "reg_step (s wr_new [hook_a]) (s wr_new [hook_a, ?b])"
    using reg_step.check [of 2 ?tr "s wr_new [hook_a]" ?b] c by (simp add: s_def)
  moreover have "reg_step (s wr_new [hook_a, ?b]) (s [hook_a] [?b])"
    using reg_step.commit [of "s wr_new [hook_a, ?b]" "[]" hook_a "[?b]"]
    by (simp add: s_def register_commit_def wr_new_def)
  moreover have "reg_step (s [hook_a] [?b]) (s [hook_a, ?b] [])"
    using reg_step.commit [of "s [hook_a] [?b]" "[]" ?b "[]"] by (simp add: s_def register_commit_def)
  ultimately have "rtranclp reg_step (s wr_new []) (s [hook_a, ?b] [])"
    by (meson rtranclp.rtrancl_into_rtrancl rtranclp.rtrancl_refl)
  then show ?thesis
    by (intro exI [of _ "s [hook_a, ?b] []"])
      (simp add: s_def wr_inv_def endpoint_def hook_a_def handle_request_def Let_def)
qed

end
