(* ===== verification/File_Watcher.thy ===== *)
theory File_Watcher
  imports Models
begin

text \<open>
  The file watcher (\<^verbatim>\<open>crates/task-scheduler/src/file_watcher.rs\<close>). The \<^verbatim>\<open>notify\<close> crate is
  a parameter: a record of the calls the watcher makes on a handle \<open>'h\<close>, with \<open>ny_watched\<close>
  naming the paths a handle observes. \<open>ex\<close> is \<^verbatim>\<open>Path::exists\<close>, a snapshot of the file
  system that is taken not to change during one call. The events sent on the channel are a
  list; \<^verbatim>\<open>HashMap\<close> iteration order is the argument \<open>order\<close>.
\<close>

record 'h notify_api =
  ny_new :: "string + 'h"
  ny_watch :: "'h \<Rightarrow> path \<Rightarrow> 'h \<times> string option"
  ny_unwatch :: "'h \<Rightarrow> path \<Rightarrow> 'h"
  ny_watched :: "'h \<Rightarrow> path set"

text \<open>What the crate documents: a watched path is observed until it is unwatched, and other
  paths are unaffected.\<close>

definition notify_laws :: "'h notify_api \<Rightarrow> bool" where
  "notify_laws ny \<longleftrightarrow>
     (\<forall>h p h'. ny_watch ny h p = (h', None) \<longrightarrow> ny_watched ny h' = insert p (ny_watched ny h)) \<and>
     (\<forall>h p. ny_watched ny (ny_unwatch ny h p) = ny_watched ny h - {p})"

record watch_config =
  wf_paths :: "path list"
  wf_events :: "fs_event list"

record 'h file_watcher =
  fw_watcher :: "'h option"
  fw_watches :: "(task_id, watch_config) hashmap"

record file_change_event =
  fc_task_id :: task_id
  fc_path :: path
  fc_event :: fs_event

datatype notify_kind = KindCreate | KindModify | KindRemove | KindOther

record notify_event =
  ev_kind :: notify_kind
  ev_paths :: "path list"

datatype file_watcher_error =
    InitFailed string
  | NotStarted
  | WatchFailed path string
  | FileInvalidTrigger

definition fw_new :: "'h file_watcher" where
  "fw_new = \<lparr>fw_watcher = None, fw_watches = hm_empty\<rparr>"

definition fw_start :: "'h notify_api \<Rightarrow> 'h file_watcher \<Rightarrow> 'h file_watcher \<times> (file_watcher_error + unit)" where
  "fw_start ny fw =
     (case ny_new ny of
        Inl e \<Rightarrow> (fw, Inl (InitFailed e))
      | Inr h \<Rightarrow> (fw\<lparr>fw_watcher := Some h\<rparr>, Inr ()))"

text \<open>The path whose observation stands for \<open>p\<close>: itself, or its parent when \<open>p\<close> does not
  exist yet.\<close>

definition watch_target :: "(path \<Rightarrow> bool) \<Rightarrow> path \<Rightarrow> path option" where
  "watch_target ex p =
     (if ex p then Some p
      else (case path_parent p of
              Some parent \<Rightarrow> if ex parent then Some parent else None
            | None \<Rightarrow> None))"

fun watch_paths :: "'h notify_api \<Rightarrow> (path \<Rightarrow> bool) \<Rightarrow> path list \<Rightarrow> 'h \<Rightarrow> 'h \<times> (file_watcher_error + unit)" where
  "watch_paths ny ex [] h = (h, Inr ())"
| "watch_paths ny ex (p # ps) h =
     (case watch_target ex p of
        None \<Rightarrow> watch_paths ny ex ps h
      | Some q \<Rightarrow>
          (case ny_watch ny h q of
             (h', Some reason) \<Rightarrow> (h', Inl (WatchFailed q reason))
           | (h', None) \<Rightarrow> watch_paths ny ex ps h'))"

definition watch_task :: "'h notify_api \<Rightarrow> (path \<Rightarrow> bool) \<Rightarrow> task_id \<Rightarrow> task_trigger \<Rightarrow> 'h file_watcher \<Rightarrow>
    'h file_watcher \<times> (file_watcher_error + unit)" where
  "watch_task ny ex t trigger fw =
     (case trigger of
        FileChange paths events \<Rightarrow>
          (case fw_watcher fw of
             None \<Rightarrow> (fw, Inl NotStarted)
           | Some h \<Rightarrow>
               (case watch_paths ny ex paths h of
                  (h', Inl e) \<Rightarrow> (fw\<lparr>fw_watcher := Some h'\<rparr>, Inl e)
                | (h', Inr _) \<Rightarrow>
                    (fw\<lparr>fw_watcher := Some h',
                        fw_watches := hm_insert t \<lparr>wf_paths = paths, wf_events = events\<rparr> (fw_watches fw)\<rparr>,
                     Inr ())))
      | _ \<Rightarrow> (fw, Inl FileInvalidTrigger))"

text \<open>\<^verbatim>\<open>path.parent().map(..).unwrap_or_default()\<close> gives the empty path when there is no
  parent.\<close>

definition unwatch_target :: "(path \<Rightarrow> bool) \<Rightarrow> path \<Rightarrow> path" where
  "unwatch_target ex p =
     (if ex p then p else (case path_parent p of Some q \<Rightarrow> q | None \<Rightarrow> []))"

fun unwatch_paths :: "'h notify_api \<Rightarrow> (path \<Rightarrow> bool) \<Rightarrow> path list \<Rightarrow> 'h \<Rightarrow> 'h" where
  "unwatch_paths ny ex [] h = h"
| "unwatch_paths ny ex (p # ps) h =
     (let target = unwatch_target ex p
      in unwatch_paths ny ex ps (if ex target then ny_unwatch ny h target else h))"

definition unwatch_task :: "'h notify_api \<Rightarrow> (path \<Rightarrow> bool) \<Rightarrow> task_id \<Rightarrow> 'h file_watcher \<Rightarrow> 'h file_watcher" where
  "unwatch_task ny ex t fw =
     (case hm_get (fw_watches fw) t of
        None \<Rightarrow> fw
      | Some config \<Rightarrow>
          fw\<lparr>fw_watches := hm_remove t (fw_watches fw),
             fw_watcher := map_option (unwatch_paths ny ex (wf_paths config)) (fw_watcher fw)\<rparr>)"

definition fw_stop :: "'h file_watcher \<Rightarrow> 'h file_watcher" where
  "fw_stop fw = fw\<lparr>fw_watcher := None, fw_watches := hm_empty\<rparr>"

fun fs_event_of :: "notify_kind \<Rightarrow> fs_event option" where
  "fs_event_of KindCreate = Some Created"
| "fs_event_of KindModify = Some Modified"
| "fs_event_of KindRemove = Some Deleted"
| "fs_event_of KindOther = None"

definition path_matches :: "path \<Rightarrow> path \<Rightarrow> bool" where
  "path_matches event_path watched_path \<longleftrightarrow>
     event_path = watched_path \<or> path_starts_with event_path watched_path \<or>
     (case path_file_name watched_path of
        Some name \<Rightarrow> path_ends_with event_path [Normal name]
      | None \<Rightarrow> False)"

definition task_events :: "fs_event \<Rightarrow> path list \<Rightarrow> task_id \<Rightarrow> watch_config \<Rightarrow> file_change_event list" where
  "task_events e paths t config =
     (if e \<notin> set (wf_events config) then []
      else map (\<lambda>p. \<lparr>fc_task_id = t, fc_path = p, fc_event = e\<rparr>)
             (filter (\<lambda>p. list_ex (path_matches p) (wf_paths config)) paths))"

definition process_notify_event ::
  "task_id list \<Rightarrow> (task_id, watch_config) hashmap \<Rightarrow> notify_event \<Rightarrow> file_change_event list" where
  "process_notify_event order watches ev =
     (case fs_event_of (ev_kind ev) of
        None \<Rightarrow> []
      | Some e \<Rightarrow>
          concat (map (\<lambda>t. case hm_get watches t of
                             Some config \<Rightarrow> task_events e (ev_paths ev) t config
                           | None \<Rightarrow> []) order))"

subsection \<open>Lemmas\<close>

lemma watch_paths_watched:
  assumes laws: "notify_laws ny" and "watch_paths ny ex ps h = (h', Inr ())"
  shows "ny_watched ny h' = ny_watched ny h \<union> {q. \<exists>p \<in> set ps. watch_target ex p = Some q}"
  using assms(2)
proof (induction ps arbitrary: h)
  case (Cons p ps)
  show ?case
  proof (cases "watch_target ex p")
    case None
    then show ?thesis using Cons by simp
  next
    case (Some q)
    then obtain h1 where w: "ny_watch ny h q = (h1, None)" and
      r: "watch_paths ny ex ps h1 = (h', Inr ())"
      using Cons.prems by (auto split: prod.splits option.splits)
    have "ny_watched ny h1 = insert q (ny_watched ny h)" using laws w by (simp add: notify_laws_def)
    then show ?thesis using Cons.IH [OF r] Some by auto
  qed
qed simp

lemma unwatch_paths_watched:
  assumes laws: "notify_laws ny"
  shows "ny_watched ny (unwatch_paths ny ex ps h) =
    ny_watched ny h - {q. ex q \<and> (\<exists>p \<in> set ps. unwatch_target ex p = q)}"
proof (induction ps arbitrary: h)
  case (Cons p ps)
  then show ?case using laws by (auto simp: notify_laws_def Let_def)
qed simp

lemma task_events_mem:
  "ev \<in> set (task_events e ps t config) \<longleftrightarrow>
     fc_task_id ev = t \<and> fc_event ev = e \<and> e \<in> set (wf_events config) \<and> fc_path ev \<in> set ps \<and>
     (\<exists>w \<in> set (wf_paths config). path_matches (fc_path ev) w)"
  by (cases ev) (auto simp: task_events_def list_ex_iff)

lemma process_notify_event_mem:
  "ev \<in> set (process_notify_event order watches nev) \<longleftrightarrow>
     fc_task_id ev \<in> set order \<and> fs_event_of (ev_kind nev) = Some (fc_event ev) \<and>
     fc_path ev \<in> set (ev_paths nev) \<and>
     (\<exists>config. hm_get watches (fc_task_id ev) = Some config \<and> fc_event ev \<in> set (wf_events config) \<and>
        (\<exists>w \<in> set (wf_paths config). path_matches (fc_path ev) w))"
  by (auto simp: process_notify_event_def task_events_mem split: option.splits) metis+

lemma path_matches_iff:
  "path_matches e w \<longleftrightarrow> path_starts_with e w \<or> (\<exists>n. path_file_name w = Some n \<and> e \<noteq> [] \<and> last e = Normal n)"
  by (auto simp: path_matches_def split: option.splits)

subsection \<open>Properties\<close>

text \<open>
  A raw event is dispatched as a change event of a task exactly when the task is
  watched for that kind of event and one of its watched paths is a prefix of the changed
  path or has the changed path's last component as its file name; no other events are sent,
  whatever the iteration order of the watch table.
\<close>

theorem process_notify_event_exact:
  assumes "set order = hm_keys watches"
  shows "ev \<in> set (process_notify_event order watches nev) \<longleftrightarrow>
    fs_event_of (ev_kind nev) = Some (fc_event ev) \<and> fc_path ev \<in> set (ev_paths nev) \<and>
    (\<exists>config. hm_get watches (fc_task_id ev) = Some config \<and> fc_event ev \<in> set (wf_events config) \<and>
      (\<exists>w \<in> set (wf_paths config). path_starts_with (fc_path ev) w \<or>
         (\<exists>n. path_file_name w = Some n \<and> fc_path ev \<noteq> [] \<and> last (fc_path ev) = Normal n)))"
  unfolding process_notify_event_mem path_matches_iff assms
  by (auto dest: hm_get_SomeD)

definition etc_config :: path where
  "etc_config = [RootDir, Normal ''etc'', Normal ''config.toml'']"

definition tmp_config :: path where
  "tmp_config = [RootDir, Normal ''tmp'', Normal ''config.toml'']"

text \<open>The witness: a change of \<^verbatim>\<open>/tmp/config.toml\<close> triggers the task that watches
  \<^verbatim>\<open>/etc/config.toml\<close>, since only the file names are compared.\<close>

theorem process_notify_event_exact_witness:
  "\<lparr>fc_task_id = 7, fc_path = tmp_config, fc_event = Modified\<rparr> \<in>
     set (process_notify_event [7] [(7, \<lparr>wf_paths = [etc_config], wf_events = [Modified]\<rparr>)]
       \<lparr>ev_kind = KindModify, ev_paths = [tmp_config]\<rparr>) \<and> \<not> path_starts_with tmp_config etc_config"
  by (subst process_notify_event_exact)
    (simp_all add: etc_config_def tmp_config_def path_file_name_def path_starts_with_def)

text \<open>
  A successful \<open>watch_task\<close> records the task's configuration and leaves the handle
  observing every path of it that exists, and the parent of every path that does not exist
  but whose parent does; a failing one leaves the watch table as it was.
\<close>

theorem watch_task_covers:
  assumes "notify_laws ny" and "watch_task ny ex t (FileChange paths events) fw = (fw', r)"
  shows "case r of
      Inl _ \<Rightarrow> fw_watches fw' = fw_watches fw
    | Inr _ \<Rightarrow> fw_watches fw' = hm_insert t \<lparr>wf_paths = paths, wf_events = events\<rparr> (fw_watches fw) \<and>
        (\<exists>h h'. fw_watcher fw = Some h \<and> fw_watcher fw' = Some h' \<and>
           ny_watched ny h' = ny_watched ny h \<union> {q. \<exists>p \<in> set paths. watch_target ex p = Some q})"
  using assms(2)
  by (auto simp: watch_task_def watch_paths_watched [OF assms(1)] split: option.splits prod.splits sum.splits)

text \<open>A handle that is the set of the paths it observes and that accepts every path.\<close>

definition set_notify :: "path set notify_api" where
  "set_notify = \<lparr>ny_new = Inr {}, ny_watch = (\<lambda>h p. (insert p h, None)), ny_unwatch = (\<lambda>h p. h - {p}),
     ny_watched = id\<rparr>"

lemma set_notify_laws: "notify_laws set_notify"
  by (simp add: notify_laws_def set_notify_def)

theorem watch_task_covers_witness:
  "watch_task set_notify (\<lambda>p. p = etc_config) 7 (FileChange [etc_config] [Modified]) \<lparr>fw_watcher = Some {}, fw_watches = []\<rparr> =
     (\<lparr>fw_watcher = Some {etc_config}, fw_watches = [(7, \<lparr>wf_paths = [etc_config], wf_events = [Modified]\<rparr>)]\<rparr>, Inr ()) \<and>
   etc_config \<in> ny_watched set_notify {etc_config}"
proof -
  have w: "watch_task set_notify (\<lambda>p. p = etc_config) 7 (FileChange [etc_config] [Modified]) \<lparr>fw_watcher = Some {}, fw_watches = []\<rparr> =
     (\<lparr>fw_watcher = Some {etc_config}, fw_watches = [(7, \<lparr>wf_paths = [etc_config], wf_events = [Modified]\<rparr>)]\<rparr>, Inr ())"
    by (simp add: watch_task_def set_notify_def watch_target_def hm_insert_def)
  from watch_task_covers [OF set_notify_laws w] show ?thesis
    unfolding w by (simp add: watch_target_def set_notify_def)
qed

text \<open>
  Unwatching one task stops the observation of a path that another task still watches:
  the other task stays in the watch table, but the handle no longer observes the path, so
  its events stop.
\<close>

theorem unwatch_task_breaks_sharing:
  assumes "notify_laws ny" and "fw_watcher fw = Some h"
    and "hm_get (fw_watches fw) t1 = Some c1" and "hm_get (fw_watches fw) t2 = Some c2" and "t1 \<noteq> t2"
    and "p \<in> set (wf_paths c1)" and "p \<in> set (wf_paths c2)" and "ex p"
  shows "hm_get (fw_watches (unwatch_task ny ex t1 fw)) t2 = Some c2 \<and>
    (\<exists>h'. fw_watcher (unwatch_task ny ex t1 fw) = Some h' \<and> p \<notin> ny_watched ny h')"
  using assms
  by (auto simp: unwatch_task_def unwatch_paths_watched [OF assms(1)] unwatch_target_def)

theorem unwatch_task_breaks_sharing_witness:
  "let c = \<lparr>wf_paths = [etc_config], wf_events = [Modified]\<rparr>;
       fw = \<lparr>fw_watcher = Some {etc_config}, fw_watches = [(1, c), (2, c)]\<rparr>
   in hm_get (fw_watches (unwatch_task set_notify (\<lambda>p. p = etc_config) 1 fw)) 2 = Some c \<and>
     (\<exists>h'. fw_watcher (unwatch_task set_notify (\<lambda>p. p = etc_config) 1 fw) = Some h' \<and>
        etc_config \<notin> ny_watched set_notify h')"
  unfolding Let_def
  by (rule unwatch_task_breaks_sharing [OF set_notify_laws, where h = "{etc_config}" and
        ?c1.0 = "\<lparr>wf_paths = [etc_config], wf_events = [Modified]\<rparr>"]) simp_all

end
