(* ===== verification/Scheduler.thy ===== *)
theory Scheduler
  imports Dependency_Invariant Retry Time_Condition Cron_Schedule Webhook File_Watcher
begin

text \<open>
  The scheduler (\<^verbatim>\<open>crates/task-scheduler/src/scheduler.rs\<close>): its state and every
  operation. The crates it calls are the record \<open>platform\<close>: the \<^verbatim>\<open>cron\<close> and \<^verbatim>\<open>notify\<close>
  crates, the environment of the retry module (executor, clock, UUIDs, sleeping), the
  calendar fields \<^verbatim>\<open>chrono\<close> reads off a timestamp, and the file system's \<^verbatim>\<open>exists\<close>.
  Operations that run tasks give \<open>None\<close> when the recursion of
  \<open>handle_triggered_task_with_deps\<close> exceeds its fuel.

  Each operation is one step on the state: the model interleaves whole operations, not the
  awaits inside them.
\<close>

record ('s, 'h, 'w) platform =
  pf_cron :: "'s cron_api"
  pf_notify :: "'h notify_api"
  pf_env :: "'w env"
  pf_civil :: "timestamp \<Rightarrow> civil_time"
  pf_exists :: "'w \<Rightarrow> path \<Rightarrow> bool"

record scheduler_config =
  tick_interval_secs :: u64
  max_drift_secs :: int

definition default_scheduler_config :: scheduler_config where
  "default_scheduler_config = \<lparr>tick_interval_secs = 30, max_drift_secs = 60\<rparr>"

record 's cron_task_state =
  ct_task_id :: task_id
  ct_schedule :: "'s cron_schedule"
  ct_last_fired :: "timestamp option"

record time_condition_state =
  tcs_task_id :: task_id
  tcs_condition :: time_condition
  tcs_last_fired :: "timestamp option"
  tcs_min_interval_secs :: int

record task_summary =
  ts_id :: task_id
  ts_name :: string
  ts_trigger_type :: string
  ts_next_run :: "timestamp option"

text \<open>
  The part of the state that running a task reads and writes: the task table, the history
  and the dependency graph.
\<close>

record core =
  co_tasks :: "(task_id, task) hashmap"
  co_history :: "task_run list"
  co_graph :: dep_graph

text \<open>
  The channels to the spawned handlers are queues; \<open>sc_file_rx\<close> says that the receiver is
  still in its slot, and a handler that took it is identified by the generation of its
  shutdown channel. \<open>sc_gen\<close> counts the calls of \<open>start\<close>, \<open>sc_stopped\<close> whether the
  current shutdown channel has been signalled.
\<close>

record ('s, 'h) scheduler =
  sc_config :: scheduler_config
  sc_core :: core
  sc_cron_tasks :: "'s cron_task_state list"
  sc_time_condition_tasks :: "time_condition_state list"
  sc_file_watcher :: "'h file_watcher"
  sc_webhook_registry :: webhooks
  sc_file_rx :: bool
  sc_webhook_rx :: bool
  sc_file_queue :: "file_change_event list"
  sc_webhook_queue :: "webhook_event list"
  sc_gen :: nat
  sc_stopped :: bool
  sc_tick_loops :: "nat list"
  sc_file_loop :: "nat option"
  sc_webhook_loop :: "nat option"

definition scheduler_new :: "scheduler_config \<Rightarrow> ('s, 'h) scheduler" where
  "scheduler_new config = \<lparr>sc_config = config,
     sc_core = \<lparr>co_tasks = hm_empty, co_history = [], co_graph = dg_new\<rparr>,
     sc_cron_tasks = [], sc_time_condition_tasks = [], sc_file_watcher = fw_new,
     sc_webhook_registry = wr_new, sc_file_rx = True, sc_webhook_rx = True,
     sc_file_queue = [], sc_webhook_queue = [], sc_gen = 0, sc_stopped = False,
     sc_tick_loops = [], sc_file_loop = None, sc_webhook_loop = None\<rparr>"

subsection \<open>Creating and cancelling tasks\<close>

fun file_watcher_error_text :: "file_watcher_error \<Rightarrow> string" where
  "file_watcher_error_text (InitFailed e) = ''File watcher initialization failed: '' @ e"
| "file_watcher_error_text NotStarted = ''File watcher not started''"
| "file_watcher_error_text (WatchFailed p reason) =
     ''Failed to watch path '' @ [CHR 0x27] @ path_display p @ [CHR 0x27] @ '': '' @ reason"
| "file_watcher_error_text FileInvalidTrigger = ''Invalid trigger type for file watcher''"

fun method_debug :: "http_method \<Rightarrow> string" where
  "method_debug Get = ''Get''"
| "method_debug Post = ''Post''"
| "method_debug Put = ''Put''"
| "method_debug Patch = ''Patch''"
| "method_debug Delete = ''Delete''"

fun webhook_error_text :: "webhook_error \<Rightarrow> string" where
  "webhook_error_text (PathAlreadyRegistered p m) =
     ''Webhook path already registered: '' @ method_debug m @ '' '' @ p"
| "webhook_error_text WebhookInvalidTrigger = ''Invalid trigger type for webhook registry''"

text \<open>The second half of \<open>create_task\<close>: the trigger is set up, or the error returned.\<close>

definition set_up_trigger :: "('s, 'h, 'w) platform \<Rightarrow> task \<Rightarrow> ('s, 'h) scheduler \<Rightarrow> 'w \<Rightarrow>
    ('s, 'h) scheduler \<times> 'w \<times> (task_error + unit)" where
  "set_up_trigger pf t s w =
     (case t_trigger t of
        Cron expression \<Rightarrow>
          let (now, w') = env_now (pf_env pf) w in
          (case cron_parse (pf_cron pf) now expression of
             Inl e \<Rightarrow> (s, w', Inl e)
           | Inr schedule \<Rightarrow>
               (s\<lparr>sc_cron_tasks := sc_cron_tasks s @
                    [\<lparr>ct_task_id = t_id t, ct_schedule = schedule, ct_last_fired = None\<rparr>]\<rparr>, w', Inr ()))
      | FileChange _ _ \<Rightarrow>
          (case watch_task (pf_notify pf) (pf_exists pf w) (t_id t) (t_trigger t) (sc_file_watcher s) of
             (fw, Inl e) \<Rightarrow> (s\<lparr>sc_file_watcher := fw\<rparr>, w,
                Inl (InvalidCronExpression (''file watch error: '' @ file_watcher_error_text e)))
           | (fw, Inr _) \<Rightarrow> (s\<lparr>sc_file_watcher := fw\<rparr>, w, Inr ()))
      | WebhookTrigger _ _ \<Rightarrow>
          (case register (t_id t) (t_trigger t) (sc_webhook_registry s) of
             (ws, Inl e) \<Rightarrow> (s\<lparr>sc_webhook_registry := ws\<rparr>, w,
                Inl (InvalidCronExpression (''webhook error: '' @ webhook_error_text e)))
           | (ws, Inr _) \<Rightarrow> (s\<lparr>sc_webhook_registry := ws\<rparr>, w, Inr ()))
      | TimeConditionTrigger expression \<Rightarrow>
          (case tc_parse expression of
             Inl e \<Rightarrow> (s, w, Inl e)
           | Inr condition \<Rightarrow>
               (s\<lparr>sc_time_condition_tasks := sc_time_condition_tasks s @
                    [\<lparr>tcs_task_id = t_id t, tcs_condition = condition, tcs_last_fired = None,
                      tcs_min_interval_secs = 60\<rparr>]\<rparr>, w, Inr ()))
      | TaskCompletion _ \<Rightarrow> (s, w, Inr ()))"

definition known_tasks :: "task \<Rightarrow> (task_id, task) hashmap \<Rightarrow> task_id set" where
  "known_tasks t tasks = (if t_dependencies t \<noteq> [] then insert (t_id t) (set (map fst tasks)) else set (map fst tasks))"

definition create_task :: "('s, 'h, 'w) platform \<Rightarrow> task \<Rightarrow> ('s, 'h) scheduler \<Rightarrow> 'w \<Rightarrow>
    (('s, 'h) scheduler \<times> 'w \<times> (task_error + task_id)) option" where
  "create_task pf t s w =
     (case add_task (t_id t) (t_dependencies t) (known_tasks t (co_tasks (sc_core s))) (co_graph (sc_core s)) of
        None \<Rightarrow> None
      | Some (g, Inl e) \<Rightarrow> Some (s\<lparr>sc_core := sc_core s\<lparr>co_graph := g\<rparr>\<rparr>, w, Inl e)
      | Some (g, Inr _) \<Rightarrow>
          (case set_up_trigger pf t (s\<lparr>sc_core := sc_core s\<lparr>co_graph := g\<rparr>\<rparr>) w of
             (s1, w1, Inl e) \<Rightarrow> Some (s1, w1, Inl e)
           | (s1, w1, Inr _) \<Rightarrow>
               Some (s1\<lparr>sc_core := sc_core s1\<lparr>co_tasks := hm_insert (t_id t) t (co_tasks (sc_core s1))\<rparr>\<rparr>,
                     w1, Inr (t_id t))))"

definition cancel_task :: "('s, 'h, 'w) platform \<Rightarrow> task_id \<Rightarrow> ('s, 'h) scheduler \<Rightarrow> 'w \<Rightarrow>
    ('s, 'h) scheduler \<times> (task_error + unit)" where
  "cancel_task pf t s w =
     (if hm_get (co_tasks (sc_core s)) t = None then (s, Inl (TaskNotFound t))
      else (s\<lparr>sc_core := (sc_core s)\<lparr>co_tasks := hm_remove t (co_tasks (sc_core s)),
                 co_graph := remove_task t (co_graph (sc_core s))\<rparr>,
              sc_cron_tasks := filter (\<lambda>c. ct_task_id c \<noteq> t) (sc_cron_tasks s),
              sc_time_condition_tasks := filter (\<lambda>c. tcs_task_id c \<noteq> t) (sc_time_condition_tasks s),
              sc_file_watcher := unwatch_task (pf_notify pf) (pf_exists pf w) t (sc_file_watcher s),
              sc_webhook_registry := unregister t (sc_webhook_registry s)\<rparr>, Inr ()))"

subsection \<open>Queries and history\<close>

definition task_history :: "task_id \<Rightarrow> nat \<Rightarrow> ('s, 'h) scheduler \<Rightarrow> task_run list" where
  "task_history t limit s = take limit (rev (filter (\<lambda>r. run_task_id r = t) (co_history (sc_core s))))"

definition cleanup_history :: "timestamp \<Rightarrow> int \<Rightarrow> ('s, 'h) scheduler \<Rightarrow> ('s, 'h) scheduler" where
  "cleanup_history now days s =
     s\<lparr>sc_core := (sc_core s)\<lparr>co_history := cleanup_old_history now days (co_history (sc_core s))\<rparr>\<rparr>"

definition are_dependencies_satisfied :: "task_id \<Rightarrow> ('s, 'h) scheduler \<Rightarrow> bool" where
  "are_dependencies_satisfied t s = is_unblocked (co_graph (sc_core s)) t"

fun trigger_type :: "task_trigger \<Rightarrow> string" where
  "trigger_type (Cron _) = ''cron''"
| "trigger_type (FileChange _ _) = ''file_change''"
| "trigger_type (WebhookTrigger _ _) = ''webhook''"
| "trigger_type (TimeConditionTrigger _) = ''time_condition''"
| "trigger_type (TaskCompletion _) = ''task_completion''"

definition list_tasks :: "('s, 'h, 'w) platform \<Rightarrow> timestamp \<Rightarrow> ('s, 'h) scheduler \<Rightarrow> task_summary list" where
  "list_tasks pf now s =
     map (\<lambda>(_, t). \<lparr>ts_id = t_id t, ts_name = t_name t, ts_trigger_type = trigger_type (t_trigger t),
            ts_next_run =
              (case t_trigger t of
                 Cron _ \<Rightarrow>
                   (case find (\<lambda>ct. ct_task_id ct = t_id t) (sc_cron_tasks s) of
                      Some ct \<Rightarrow> next_after (pf_cron pf) (ct_schedule ct) now
                    | None \<Rightarrow> None)
               | _ \<Rightarrow> None)\<rparr>) (co_tasks (sc_core s))"

subsection \<open>Running triggered tasks\<close>

text \<open>The recursion over unblocked dependents; the loop over them is
  \<open>handle_unblocked\<close>.\<close>

fun handle_triggered_task_with_deps :: "nat \<Rightarrow> 'w env \<Rightarrow> task_id \<Rightarrow> core \<Rightarrow> 'w \<Rightarrow> (core \<times> 'w) option"
and handle_unblocked :: "nat \<Rightarrow> 'w env \<Rightarrow> task_id list \<Rightarrow> core \<Rightarrow> 'w \<Rightarrow> (core \<times> 'w) option" where
  "handle_triggered_task_with_deps 0 en t c w = None"
| "handle_triggered_task_with_deps (Suc n) en t c w =
     (if has_dependencies (co_graph c) t \<and> \<not> is_unblocked (co_graph c) t then Some (c, w)
      else (case hm_get (co_tasks c) t of
              None \<Rightarrow> Some (c, w)
            | Some task \<Rightarrow>
                (case execute_with_retry en task (co_tasks c) (co_history c) w of
                   (success, tasks, history, w') \<Rightarrow>
                     let c1 = c\<lparr>co_tasks := tasks, co_history := history\<rparr> in
                     if success then
                       (case mark_completed t (co_graph c1) of
                          (g, unblocked) \<Rightarrow> handle_unblocked n en unblocked (c1\<lparr>co_graph := g\<rparr>) w')
                     else Some (c1, w'))))"
| "handle_unblocked n en [] c w = Some (c, w)"
| "handle_unblocked n en (t # ts) c w =
     (case handle_triggered_task_with_deps n en t c w of
        None \<Rightarrow> None
      | Some (c', w') \<Rightarrow> handle_unblocked n en ts c' w')"

text \<open>The fuel is the depth bound of the dependency graph.\<close>

definition run_triggered :: "'w env \<Rightarrow> task_id \<Rightarrow> core \<Rightarrow> 'w \<Rightarrow> (core \<times> 'w) option" where
  "run_triggered en t c w = handle_triggered_task_with_deps MAX_DEPENDENCY_DEPTH en t c w"

definition notify_task_completed :: "'w env \<Rightarrow> task_id \<Rightarrow> core \<Rightarrow> 'w \<Rightarrow> (core \<times> 'w) option" where
  "notify_task_completed en t c w =
     (case mark_completed t (co_graph c) of
        (g, unblocked) \<Rightarrow> handle_unblocked MAX_DEPENDENCY_DEPTH en unblocked (c\<lparr>co_graph := g\<rparr>) w)"

subsection \<open>The tick\<close>

definition cron_should_fire :: "'s cron_api \<Rightarrow> int \<Rightarrow> timestamp \<Rightarrow> 's cron_task_state \<Rightarrow> bool" where
  "cron_should_fire api max_drift now st =
     (case ct_last_fired st of
        Some last_fired \<Rightarrow>
          (case next_after api (ct_schedule st) last_fired of
             Some nxt \<Rightarrow>
               let drift = num_seconds (now - nxt) in drift \<ge> 0 \<and> drift \<le> max_drift
           | None \<Rightarrow> False)
      | None \<Rightarrow>
          (case next_after api (ct_schedule st) (now - seconds max_drift) of
             Some nxt \<Rightarrow> nxt \<le> now
           | None \<Rightarrow> False))"

fun check_cron_states :: "'s cron_api \<Rightarrow> 'w env \<Rightarrow> int \<Rightarrow> timestamp \<Rightarrow> 's cron_task_state list \<Rightarrow> core \<Rightarrow> 'w \<Rightarrow>
    ('s cron_task_state list \<times> core \<times> 'w) option" where
  "check_cron_states api en max_drift now [] c w = Some ([], c, w)"
| "check_cron_states api en max_drift now (st # sts) c w =
     (if cron_should_fire api max_drift now st then
        (case run_triggered en (ct_task_id st) c w of
           None \<Rightarrow> None
         | Some (c1, w1) \<Rightarrow>
             map_option (\<lambda>(sts', r). (st\<lparr>ct_last_fired := Some now\<rparr> # sts', r))
               (check_cron_states api en max_drift now sts c1 w1))
      else map_option (\<lambda>(sts', r). (st # sts', r)) (check_cron_states api en max_drift now sts c w))"

definition tc_should_fire :: "(timestamp \<Rightarrow> civil_time) \<Rightarrow> timestamp \<Rightarrow> time_condition_state \<Rightarrow> bool" where
  "tc_should_fire civil now st =
     (if (case tcs_last_fired st of
            Some last_fired \<Rightarrow> num_seconds (now - last_fired) < tcs_min_interval_secs st
          | None \<Rightarrow> False)
      then False
      else tc_evaluate (tcs_condition st) (civil now))"

fun check_tc_states :: "(timestamp \<Rightarrow> civil_time) \<Rightarrow> 'w env \<Rightarrow> timestamp \<Rightarrow> time_condition_state list \<Rightarrow> core \<Rightarrow> 'w \<Rightarrow>
    (time_condition_state list \<times> core \<times> 'w) option" where
  "check_tc_states civil en now [] c w = Some ([], c, w)"
| "check_tc_states civil en now (st # sts) c w =
     (if tc_should_fire civil now st then
        (case run_triggered en (tcs_task_id st) c w of
           None \<Rightarrow> None
         | Some (c1, w1) \<Rightarrow>
             map_option (\<lambda>(sts', r). (st\<lparr>tcs_last_fired := Some now\<rparr> # sts', r))
               (check_tc_states civil en now sts c1 w1))
      else map_option (\<lambda>(sts', r). (st # sts', r)) (check_tc_states civil en now sts c w))"

definition check_cron_tasks :: "('s, 'h, 'w) platform \<Rightarrow> ('s, 'h) scheduler \<Rightarrow> 'w \<Rightarrow> (('s, 'h) scheduler \<times> 'w) option" where
  "check_cron_tasks pf s w =
     (let (now, w1) = env_now (pf_env pf) w
      in map_option (\<lambda>(sts, c, w'). (s\<lparr>sc_cron_tasks := sts, sc_core := c\<rparr>, w'))
           (check_cron_states (pf_cron pf) (pf_env pf) (max_drift_secs (sc_config s)) now (sc_cron_tasks s) (sc_core s) w1))"

definition check_time_conditions :: "('s, 'h, 'w) platform \<Rightarrow> ('s, 'h) scheduler \<Rightarrow> 'w \<Rightarrow> (('s, 'h) scheduler \<times> 'w) option" where
  "check_time_conditions pf s w =
     (let (now, w1) = env_now (pf_env pf) w
      in map_option (\<lambda>(sts, c, w'). (s\<lparr>sc_time_condition_tasks := sts, sc_core := c\<rparr>, w'))
           (check_tc_states (pf_civil pf) (pf_env pf) now (sc_time_condition_tasks s) (sc_core s) w1))"

definition tick :: "('s, 'h, 'w) platform \<Rightarrow> ('s, 'h) scheduler \<Rightarrow> 'w \<Rightarrow> (('s, 'h) scheduler \<times> 'w) option" where
  "tick pf s w = Option.bind (check_cron_tasks pf s w) (\<lambda>(s1, w1). check_time_conditions pf s1 w1)"

subsection \<open>Starting and stopping\<close>

text \<open>
  \<open>start\<close> replaces the shutdown channel; dropping the old sender ends the handlers that
  listen on it. The receivers are taken from their slots, so only the first \<open>start\<close> spawns
  the file and webhook handlers.
\<close>

definition scheduler_start :: "('s, 'h, 'w) platform \<Rightarrow> ('s, 'h) scheduler \<Rightarrow> ('s, 'h) scheduler \<times> (task_error + unit)" where
  "scheduler_start pf s =
     (case fw_start (pf_notify pf) (sc_file_watcher s) of
        (fw, Inl e) \<Rightarrow> (s\<lparr>sc_file_watcher := fw\<rparr>,
           Inl (InvalidCronExpression (''file watcher start failed: '' @ file_watcher_error_text e)))
      | (fw, Inr _) \<Rightarrow>
          let gen = Suc (sc_gen s)
          in (s\<lparr>sc_file_watcher := fw, sc_gen := gen, sc_stopped := False,
                sc_tick_loops := sc_tick_loops s @ [gen],
                sc_file_loop := (if sc_file_rx s then Some gen else sc_file_loop s),
                sc_webhook_loop := (if sc_webhook_rx s then Some gen else sc_webhook_loop s),
                sc_file_rx := False, sc_webhook_rx := False\<rparr>, Inr ()))"

definition scheduler_stop :: "('s, 'h) scheduler \<Rightarrow> ('s, 'h) scheduler" where
  "scheduler_stop s =
     s\<lparr>sc_stopped := (if sc_gen s = 0 then sc_stopped s else True),
       sc_file_watcher := fw_stop (sc_file_watcher s)\<rparr>"

text \<open>A handler of generation \<open>gen\<close> sees its shutdown channel change.\<close>

definition shutdown_seen :: "nat \<Rightarrow> ('s, 'h) scheduler \<Rightarrow> bool" where
  "shutdown_seen gen s \<longleftrightarrow> gen < sc_gen s \<or> sc_stopped s"

text \<open>Sending to a channel whose receiver is gone fails, and the event is dropped.\<close>

definition send_file_events :: "file_change_event list \<Rightarrow> ('s, 'h) scheduler \<Rightarrow> ('s, 'h) scheduler" where
  "send_file_events evs s =
     (if sc_file_rx s \<or> sc_file_loop s \<noteq> None then s\<lparr>sc_file_queue := sc_file_queue s @ evs\<rparr> else s)"

definition send_webhook_events :: "webhook_event list \<Rightarrow> ('s, 'h) scheduler \<Rightarrow> ('s, 'h) scheduler" where
  "send_webhook_events evs s =
     (if sc_webhook_rx s \<or> sc_webhook_loop s \<noteq> None then s\<lparr>sc_webhook_queue := sc_webhook_queue s @ evs\<rparr> else s)"

subsection \<open>The running system\<close>

text \<open>
  The steps of the scheduler with its clients and its handlers; a task may be created with
  an identifier the dependency graph does not hold, as fresh UUIDs are.
\<close>

inductive sched_step :: "('s, 'h, 'w) platform \<Rightarrow> ('s, 'h) scheduler \<times> 'w \<Rightarrow> ('s, 'h) scheduler \<times> 'w \<Rightarrow> bool"
  for pf where
  create: "t_id t \<notin> hm_keys (edges (co_graph (sc_core s))) \<Longrightarrow> create_task pf t s w = Some (s', w', r) \<Longrightarrow>
    sched_step pf (s, w) (s', w')"
| cancel: "cancel_task pf t s w = (s', r) \<Longrightarrow> sched_step pf (s, w) (s', w)"
| cleanup: "sched_step pf (s, w) (cleanup_history now days s, w)"
| completed_external: "notify_task_completed (pf_env pf) t (sc_core s) w = Some (c, w') \<Longrightarrow>
    sched_step pf (s, w) (s\<lparr>sc_core := c\<rparr>, w')"
| start: "scheduler_start pf s = (s', r) \<Longrightarrow> sched_step pf (s, w) (s', w)"
| stop: "sched_step pf (s, w) (scheduler_stop s, w)"
| ticked: "gen \<in> set (sc_tick_loops s) \<Longrightarrow> tick pf s w = Some (s', w') \<Longrightarrow> sched_step pf (s, w) (s', w')"
| request: "handle_request p m b h (sc_webhook_registry s) = (evs, found) \<Longrightarrow>
    sched_step pf (s, w) (send_webhook_events evs s, w)"
| fs_change: "fw_watcher (sc_file_watcher s) \<noteq> None \<Longrightarrow>
    evs = process_notify_event order (fw_watches (sc_file_watcher s)) nev \<Longrightarrow>
    sched_step pf (s, w) (send_file_events evs s, w)"
| file_event: "sc_file_loop s = Some gen \<Longrightarrow> sc_file_queue s = ev # q \<Longrightarrow>
    run_triggered (pf_env pf) (fc_task_id ev) (sc_core s) w = Some (c, w') \<Longrightarrow>
    sched_step pf (s, w) (s\<lparr>sc_file_queue := q, sc_core := c\<rparr>, w')"
| webhook_event: "sc_webhook_loop s = Some gen \<Longrightarrow> sc_webhook_queue s = ev # q \<Longrightarrow>
    run_triggered (pf_env pf) (we_task_id ev) (sc_core s) w = Some (c, w') \<Longrightarrow>
    sched_step pf (s, w) (s\<lparr>sc_webhook_queue := q, sc_core := c\<rparr>, w')"
| tick_exit: "gen \<in> set (sc_tick_loops s) \<Longrightarrow> shutdown_seen gen s \<Longrightarrow>
    sched_step pf (s, w) (s\<lparr>sc_tick_loops := remove1 gen (sc_tick_loops s)\<rparr>, w)"
| file_exit: "sc_file_loop s = Some gen \<Longrightarrow> shutdown_seen gen s \<Longrightarrow>
    sched_step pf (s, w) (s\<lparr>sc_file_loop := None, sc_file_queue := []\<rparr>, w)"
| webhook_exit: "sc_webhook_loop s = Some gen \<Longrightarrow> shutdown_seen gen s \<Longrightarrow>
    sched_step pf (s, w) (s\<lparr>sc_webhook_loop := None, sc_webhook_queue := []\<rparr>, w)"

inductive_cases sched_stepE: "sched_step pf (s, w) (s', w')"

definition sched_reachable :: "('s, 'h, 'w) platform \<Rightarrow> scheduler_config \<Rightarrow> 'w \<Rightarrow> ('s, 'h) scheduler \<Rightarrow> 'w \<Rightarrow> bool" where
  "sched_reachable pf config w0 s w \<longleftrightarrow> (sched_step pf)\<^sup>*\<^sup>* (scheduler_new config, w0) (s, w)"

end
