(* ===== verification/Scheduler_Run.thy ===== *)
theory Scheduler_Run
  imports Scheduler
begin

text \<open>
  What running a triggered task and its cascade of unblocked dependents does to the core
  state: the recursion ends within the depth bound of the graph, the graph's edges stay,
  the history is only extended, and every run in the extension comes after successful runs
  of the task's dependencies.
\<close>

definition succ_ids :: "task_run list \<Rightarrow> task_id set" where
  "succ_ids runs = {run_task_id r | r. r \<in> set runs \<and> run_status r = RunSucceeded}"

text \<open>Each run's dependencies are in \<open>D\<close> or have succeeded earlier in the list.\<close>

fun deps_first :: "dep_graph \<Rightarrow> task_id set \<Rightarrow> task_run list \<Rightarrow> bool" where
  "deps_first g D [] = True"
| "deps_first g D (r # rs) =
     (dep_set g (run_task_id r) \<subseteq> D \<and>
      deps_first g (if run_status r = RunSucceeded then insert (run_task_id r) D else D) rs)"

lemma succ_ids_simps [simp]:
  "succ_ids [] = {}"
  "succ_ids (r # rs) = (if run_status r = RunSucceeded then insert (run_task_id r) (succ_ids rs) else succ_ids rs)"
  "succ_ids (xs @ ys) = succ_ids xs \<union> succ_ids ys"
  by (auto simp: succ_ids_def)

lemma deps_first_append:
  "deps_first g D (xs @ ys) \<longleftrightarrow> deps_first g D xs \<and> deps_first g (D \<union> succ_ids xs) ys"
  by (induction g D xs rule: deps_first.induct) (auto simp: insert_commute)

lemma deps_first_cong: "dep_set g = dep_set h \<Longrightarrow> deps_first g D rs = deps_first h D rs"
  by (induction g D rs rule: deps_first.induct) auto

lemma deps_first_one_task:
  "\<forall>r \<in> set rs. run_task_id r = t \<Longrightarrow> dep_set g t \<subseteq> D \<Longrightarrow> deps_first g D rs"
  by (induction g D rs rule: deps_first.induct) (simp_all add: subset_insertI2)

subsection \<open>One execution\<close>

text \<open>The entries of the task table keep their identifiers and everything but the status
  and the update time.\<close>

definition same_task :: "task \<Rightarrow> task \<Rightarrow> bool" where
  "same_task a b \<longleftrightarrow> b = a\<lparr>t_status := t_status b, t_updated_at := t_updated_at b\<rparr>"

definition tasks_le :: "(task_id, task) hashmap \<Rightarrow> (task_id, task) hashmap \<Rightarrow> bool" where
  "tasks_le m m' \<longleftrightarrow> (hm_inv m \<longrightarrow> hm_inv m') \<and> (\<forall>k. rel_option same_task (hm_get m k) (hm_get m' k))"

lemma same_task_refl [simp]: "same_task a a"
  by (simp add: same_task_def)

lemma same_task_trans: "same_task a b \<Longrightarrow> same_task b c \<Longrightarrow> same_task a c"
  by (cases a; cases b; cases c) (simp add: same_task_def)

lemma tasks_le_refl [simp]: "tasks_le m m"
  by (simp add: tasks_le_def option.rel_refl)

lemma tasks_le_trans:
  assumes "tasks_le a b" "tasks_le b c"
  shows "tasks_le a c"
proof -
  have "rel_option same_task (hm_get a k) (hm_get c k)" for k
  proof -
    have "rel_option same_task (hm_get a k) (hm_get b k)" "rel_option same_task (hm_get b k) (hm_get c k)"
      using assms by (simp_all add: tasks_le_def)
    then show ?thesis
      by (cases "hm_get a k"; cases "hm_get b k"; cases "hm_get c k") (auto intro: same_task_trans)
  qed
  then show ?thesis using assms by (simp add: tasks_le_def)
qed

lemma tasks_le_keys: "tasks_le m m' \<Longrightarrow> hm_keys m' = hm_keys m"
proof -
  assume le: "tasks_le m m'"
  have "hm_get m' k = None \<longleftrightarrow> hm_get m k = None" for k
    using le by (metis option_rel_Some1 option_rel_Some2 not_Some_eq tasks_le_def)
  then show ?thesis by (simp add: set_eq_iff hm.keys_lookup del: map_of_eq_None_iff)
qed

lemma tasks_le_id: "tasks_le m m' \<Longrightarrow> hm_get m' k = Some b \<Longrightarrow> \<exists>a. hm_get m k = Some a \<and> t_id b = t_id a"
proof -
  assume "tasks_le m m'" and b: "hm_get m' k = Some b"
  then have "rel_option same_task (hm_get m k) (Some b)" by (metis tasks_le_def)
  then obtain a where "hm_get m k = Some a" "same_task a b" by (cases "hm_get m k") auto
  then show ?thesis by (cases a; cases b) (simp add: same_task_def)
qed

lemma execute_with_retry_facts:
  assumes "execute_with_retry en t tasks h w = (ok, tasks', h', w')"
  shows "tasks_le tasks tasks' \<and>
    (\<exists>runs. h' = h @ runs \<and> (\<forall>r \<in> set runs. run_task_id r = t_id t) \<and>
       succ_ids runs = (if ok then {t_id t} else {}))"
proof -
  obtain runs le w1 where loop:
    "attempt_loop en t (attempts_upto (max_attempts t)) [] None w = (ok, runs, le, w1)"
    using assms by (auto simp: execute_with_retry_def Let_def split: prod.splits if_splits)
  note f = attempt_loop_facts [OF loop, simplified]
  have "succ_ids xs = {}" if "\<forall>r \<in> set xs. run_status r \<noteq> RunSucceeded" for xs
    using that by (auto simp: succ_ids_def)
  then have "succ_ids runs = (if ok then {t_id t} else {})"
    using f by (cases runs rule: rev_cases) (simp_all split: if_splits)
  moreover have "h' = h @ runs"
    using assms by (auto simp: execute_with_retry_def Let_def loop split: prod.splits if_splits)
  moreover have "tasks_le tasks tasks'"
    using assms
    by (auto simp: execute_with_retry_def Let_def loop tasks_le_def mark_failed_def same_task_def
        option.rel_map option.rel_refl split: prod.splits if_splits)
  ultimately show ?thesis using f by blast
qed

subsection \<open>The cascade\<close>

definition ids_ok :: "core \<Rightarrow> bool" where
  "ids_ok c \<longleftrightarrow> (\<forall>k t. hm_get (co_tasks c) k = Some t \<longrightarrow> t_id t = k)"

definition core_ext :: "core \<Rightarrow> core \<Rightarrow> bool" where
  "core_ext c c' \<longleftrightarrow> tasks_le (co_tasks c) (co_tasks c') \<and>
     edges (co_graph c') = edges (co_graph c) \<and> reverse_edges (co_graph c') = reverse_edges (co_graph c) \<and>
     (\<exists>new. co_history c' = co_history c @ new \<and> deps_first (co_graph c) (completed (co_graph c)) new \<and>
        completed (co_graph c') = completed (co_graph c) \<union> succ_ids new)"

lemma dep_set_edges: "edges g = edges h \<Longrightarrow> dep_set g = dep_set h"
  by (simp add: dep_set_def dependencies_of_def fun_eq_iff)

lemma core_ext_refl [simp]: "core_ext c c"
  by (simp add: core_ext_def)

lemma core_ext_trans:
  assumes "core_ext a b" "core_ext b c"
  shows "core_ext a c"
proof -
  obtain x y where
    x: "co_history b = co_history a @ x" "deps_first (co_graph a) (completed (co_graph a)) x"
      "completed (co_graph b) = completed (co_graph a) \<union> succ_ids x"
    and y: "co_history c = co_history b @ y" "deps_first (co_graph b) (completed (co_graph b)) y"
      "completed (co_graph c) = completed (co_graph b) \<union> succ_ids y"
    using assms unfolding core_ext_def by blast
  have "edges (co_graph b) = edges (co_graph a)" using assms(1) by (simp add: core_ext_def)
  note same = deps_first_cong [OF dep_set_edges [OF this]]
  have "co_history c = co_history a @ (x @ y)" "deps_first (co_graph a) (completed (co_graph a)) (x @ y)"
      "completed (co_graph c) = completed (co_graph a) \<union> succ_ids (x @ y)"
    using x y by (simp_all add: deps_first_append same Un_assoc)
  then have "\<exists>new. co_history c = co_history a @ new \<and> deps_first (co_graph a) (completed (co_graph a)) new \<and>
      completed (co_graph c) = completed (co_graph a) \<union> succ_ids new" by blast
  moreover have "tasks_le (co_tasks a) (co_tasks c)"
    using assms tasks_le_trans unfolding core_ext_def by blast
  ultimately show ?thesis using assms by (simp add: core_ext_def)
qed

lemma core_ext_ids_ok: "core_ext c c' \<Longrightarrow> ids_ok c \<Longrightarrow> ids_ok c'"
  unfolding core_ext_def ids_ok_def by (metis tasks_le_id)

text \<open>A run of a task whose dependencies are complete, with its completion on success.\<close>

lemma run_step_ext:
  assumes "ids_ok c" and task: "hm_get (co_tasks c) t = Some task"
    and ready: "dep_set (co_graph c) t \<subseteq> completed (co_graph c)"
    and ex: "execute_with_retry en task (co_tasks c) (co_history c) w = (ok, tasks, h, w')"
  shows "core_ext c (c\<lparr>co_tasks := tasks, co_history := h,
    co_graph := if ok then fst (mark_completed t (co_graph c)) else co_graph c\<rparr>)"
proof -
  have id: "t_id task = t" using assms(1) task by (simp add: ids_ok_def)
  obtain runs where r: "tasks_le (co_tasks c) tasks" "h = co_history c @ runs"
      "\<forall>r \<in> set runs. run_task_id r = t" "succ_ids runs = (if ok then {t} else {})"
    using execute_with_retry_facts [OF ex] id by auto
  have "deps_first (co_graph c) (completed (co_graph c)) runs"
    using deps_first_one_task [OF r(3) ready] .
  then show ?thesis using r unfolding core_ext_def by (cases ok) auto
qed

lemma ready_iff: "\<not> (has_dependencies g t \<and> \<not> is_unblocked g t) \<longleftrightarrow> dep_set g t \<subseteq> completed g"
  by (auto simp: has_dependencies_iff is_unblocked_iff dep_set_def dependencies_of_def)

lemma cascade_ext:
  "handle_triggered_task_with_deps n en t c w = Some (c', w') \<Longrightarrow> ids_ok c \<Longrightarrow> core_ext c c'"
  "handle_unblocked n en ts c w = Some (c', w') \<Longrightarrow> ids_ok c \<Longrightarrow> core_ext c c'"
proof (induction n en t c w and n en ts c w arbitrary: c' w' and c' w'
    rule: handle_triggered_task_with_deps_handle_unblocked.induct)
  case (2 n en t c w)
  show ?case
  proof (cases "(has_dependencies (co_graph c) t \<and> \<not> is_unblocked (co_graph c) t) \<or> hm_get (co_tasks c) t = None")
    case True
    then have "c' = c" using "2.prems"(1) by (auto split: if_splits)
    then show ?thesis by simp
  next
    case False
    then obtain task where task: "hm_get (co_tasks c) t = Some task"
      and ready: "dep_set (co_graph c) t \<subseteq> completed (co_graph c)"
      and noskip: "\<not> (has_dependencies (co_graph c) t \<and> \<not> is_unblocked (co_graph c) t)"
      using ready_iff by blast
    obtain ok tasks h w1 where ex: "execute_with_retry en task (co_tasks c) (co_history c) w = (ok, tasks, h, w1)"
      by (metis prod_cases4)
    obtain g un where mc: "mark_completed t (co_graph c) = (g, un)" by fastforce
    let ?c1 = "c\<lparr>co_tasks := tasks, co_history := h\<rparr>"
    note step = run_step_ext [OF "2.prems"(2) task ready ex]
    show ?thesis
    proof (cases ok)
      case True
      let ?c2 = "?c1\<lparr>co_graph := g\<rparr>"
      have ext: "core_ext c ?c2" using step True mc by simp
      have "handle_unblocked n en un ?c2 w1 = Some (c', w')"
        using "2.prems"(1) noskip task ex mc True by (auto simp: Let_def)
      moreover have mc': "mark_completed t (co_graph ?c1) = (g, un)" using mc by simp
      ultimately have "core_ext ?c2 c'"
        using "2.IH" [OF noskip task ex [symmetric] refl refl refl True mc' [symmetric]]
          core_ext_ids_ok [OF ext "2.prems"(2)] by blast
      then show ?thesis using core_ext_trans [OF ext] by blast
    next
      case False
      then have "c' = ?c1" using "2.prems"(1) noskip task ex by (auto simp: Let_def)
      then show ?thesis using step False by simp
    qed
  qed
next
  case (4 n en t ts c w)
  then obtain c1 w1 where h: "handle_triggered_task_with_deps n en t c w = Some (c1, w1)"
    and u: "handle_unblocked n en ts c1 w1 = Some (c', w')"
    by (auto split: option.splits)
  have "core_ext c c1" using "4.IH"(1) [OF h "4.prems"(2)] .
  then show ?case
    using "4.IH"(2) [OF h refl u] core_ext_ids_ok [OF _ "4.prems"(2)] core_ext_trans by blast
qed simp_all

lemma core_ext_dg_inv: "core_ext c c' \<Longrightarrow> dg_inv (co_graph c) \<Longrightarrow> dg_inv (co_graph c')"
  by (simp add: core_ext_def dg_inv_def mirrored_def deps_closed_def depth_bounded_def)

text \<open>
  Each level of the cascade moves to a dependent, whose longest dependency chain is one
  longer, so the depth bound of the graph bounds the recursion.
\<close>

lemma cascade_total:
  "dg_inv (co_graph c) \<Longrightarrow> ids_ok c \<Longrightarrow> dep_chain (edges (co_graph c)) t m \<Longrightarrow>
     MAX_DEPENDENCY_DEPTH < n + m \<Longrightarrow> \<exists>r. handle_triggered_task_with_deps n en t c w = Some r"
  "dg_inv (co_graph c) \<Longrightarrow> ids_ok c \<Longrightarrow> \<forall>t \<in> set ts. dep_chain (edges (co_graph c)) t m \<Longrightarrow>
     MAX_DEPENDENCY_DEPTH < n + m \<Longrightarrow> \<exists>r. handle_unblocked n en ts c w = Some r"
proof (induction n en t c w and n en ts c w arbitrary: m and m
    rule: handle_triggered_task_with_deps_handle_unblocked.induct)
  case (1 en t c w)
  then show ?case by (fastforce simp: dg_inv_def depth_bounded_def)
next
  case (2 n en t c w)
  show ?case
  proof (cases "(has_dependencies (co_graph c) t \<and> \<not> is_unblocked (co_graph c) t) \<or> hm_get (co_tasks c) t = None")
    case True
    then show ?thesis by auto
  next
    case False
    then obtain task where task: "hm_get (co_tasks c) t = Some task"
      and ready: "dep_set (co_graph c) t \<subseteq> completed (co_graph c)"
      and noskip: "\<not> (has_dependencies (co_graph c) t \<and> \<not> is_unblocked (co_graph c) t)"
      using ready_iff by blast
    obtain ok tasks h w1 where ex: "execute_with_retry en task (co_tasks c) (co_history c) w = (ok, tasks, h, w1)"
      by (metis prod_cases4)
    obtain g un where mc: "mark_completed t (co_graph c) = (g, un)" by fastforce
    let ?c1 = "c\<lparr>co_tasks := tasks, co_history := h\<rparr>"
    let ?c2 = "?c1\<lparr>co_graph := g\<rparr>"
    show ?thesis
    proof (cases ok)
      case True
      have ext: "core_ext c ?c2" using run_step_ext [OF "2.prems"(2) task ready ex] True mc by simp
      have chains: "\<forall>x \<in> set un. dep_chain (edges (co_graph ?c2)) x (Suc m)"
      proof
        fix x assume "x \<in> set un"
        then have "t \<in> dep_set (co_graph c) x"
          using dg.complete_reports [OF "2.prems"(1), of x t] mc by simp
        then show "dep_chain (edges (co_graph ?c2)) x (Suc m)"
          using "2.prems"(3) mc mark_completed_graph(1) [of t "co_graph c"]
          by (auto simp: dep_set_def dependencies_of_def intro: dep_chain.extend)
      qed
      have mc': "mark_completed t (co_graph ?c1) = (g, un)" using mc by simp
      have "\<exists>r. handle_unblocked n en un ?c2 w1 = Some r"
        using "2.IH" [OF noskip task ex [symmetric] refl refl refl True mc' [symmetric]]
          core_ext_dg_inv [OF ext "2.prems"(1)] core_ext_ids_ok [OF ext "2.prems"(2)] chains "2.prems"(4)
        by (metis add_Suc add_Suc_right)
      then show ?thesis using noskip task ex mc True by (auto simp: Let_def)
    next
      case False
      then show ?thesis using noskip task ex by (auto simp: Let_def)
    qed
  qed
next
  case (4 n en t ts c w)
  obtain c1 w1 where h: "handle_triggered_task_with_deps n en t c w = Some (c1, w1)"
    using "4.IH"(1) [of m] "4.prems" by fastforce
  have ext: "core_ext c c1" using cascade_ext(1) [OF h "4.prems"(2)] .
  then have e: "edges (co_graph c1) = edges (co_graph c)" by (simp add: core_ext_def)
  have "\<exists>r. handle_unblocked n en ts c1 w1 = Some r"
    by (rule "4.IH"(2) [OF h refl, of m])
      (use core_ext_dg_inv [OF ext "4.prems"(1)] core_ext_ids_ok [OF ext "4.prems"(2)] "4.prems" e in auto)
  then show ?case using h by auto
qed simp_all

text \<open>The three ways the scheduler runs tasks all return and extend the core.\<close>

lemma run_triggered_ok:
  assumes "dg_inv (co_graph c)" "ids_ok c"
  obtains c' w' where "run_triggered en t c w = Some (c', w')" "core_ext c c'"
proof -
  have "\<exists>r. handle_triggered_task_with_deps MAX_DEPENDENCY_DEPTH en t c w = Some r"
    by (rule cascade_total(1) [OF assms dep_chain.single]) simp
  then obtain c' w' where r: "run_triggered en t c w = Some (c', w')"
    unfolding run_triggered_def by fast
  have "core_ext c c'" by (rule cascade_ext(1) [OF r [unfolded run_triggered_def] assms(2)])
  with that r show thesis by blast
qed

lemma notify_task_completed_ok:
  assumes "dg_inv (co_graph c)" "ids_ok c"
  obtains c' w' where "notify_task_completed en t c w = Some (c', w')"
    "core_ext (c\<lparr>co_graph := fst (mark_completed t (co_graph c))\<rparr>) c'"
proof -
  let ?c = "c\<lparr>co_graph := fst (mark_completed t (co_graph c))\<rparr>"
  have inv: "dg_inv (co_graph ?c)" "ids_ok ?c"
    using assms by (simp_all add: mark_completed_inv ids_ok_def)
  have "\<exists>r. handle_unblocked MAX_DEPENDENCY_DEPTH en (snd (mark_completed t (co_graph c))) ?c w = Some r"
    by (rule cascade_total(2) [OF inv, of _ "Suc 0"]) (simp_all add: dep_chain.single)
  then obtain c' w' where r:
    "handle_unblocked MAX_DEPENDENCY_DEPTH en (snd (mark_completed t (co_graph c))) ?c w = Some (c', w')"
    by fast
  have "notify_task_completed en t c w = Some (c', w')"
    using r by (simp add: notify_task_completed_def case_prod_unfold)
  with that cascade_ext(2) [OF r inv(2)] show thesis by blast
qed

end
