(* ===== verification/Scheduler_Invariant.thy ===== *)
theory Scheduler_Invariant
  imports Scheduler_Run
begin

text \<open>
  The invariant of the scheduler and that every step of the running system keeps it: the
  dependency graph is well formed, the task table agrees with it, and every trigger table
  mentions registered tasks only.
\<close>

definition core_inv :: "core \<Rightarrow> bool" where
  "core_inv c \<longleftrightarrow> dg_inv (co_graph c) \<and> hm_inv (co_tasks c) \<and> ids_ok c \<and>
     hm_keys (co_tasks c) \<subseteq> hm_keys (edges (co_graph c))"

definition trigger_ids :: "('s, 'h) scheduler \<Rightarrow> task_id set" where
  "trigger_ids s = ct_task_id ` set (sc_cron_tasks s) \<union> tcs_task_id ` set (sc_time_condition_tasks s) \<union>
     wc_task_id ` set (sc_webhook_registry s) \<union> hm_keys (fw_watches (sc_file_watcher s))"

definition sched_inv :: "('s, 'h) scheduler \<Rightarrow> bool" where
  "sched_inv s \<longleftrightarrow> core_inv (sc_core s) \<and> trigger_ids s \<subseteq> hm_keys (co_tasks (sc_core s)) \<and>
     distinct (map ct_task_id (sc_cron_tasks s)) \<and> distinct (map tcs_task_id (sc_time_condition_tasks s)) \<and>
     wr_inv (sc_webhook_registry s) \<and> hm_inv (fw_watches (sc_file_watcher s))"

lemma core_inv_ext: "core_ext c c' \<Longrightarrow> core_inv c \<Longrightarrow> core_inv c'"
proof -
  assume ext: "core_ext c c'" and inv: "core_inv c"
  have le: "tasks_le (co_tasks c) (co_tasks c')" and "edges (co_graph c') = edges (co_graph c)"
    using ext by (simp_all add: core_ext_def)
  then have "hm_inv (co_tasks c')" "hm_keys (co_tasks c') \<subseteq> hm_keys (edges (co_graph c'))"
    using inv le tasks_le_keys [OF le] by (simp_all add: core_inv_def tasks_le_def)
  then show ?thesis
    using inv core_ext_dg_inv [OF ext] core_ext_ids_ok [OF ext] by (simp add: core_inv_def)
qed

lemma core_ext_keys: "core_ext c c' \<Longrightarrow> hm_keys (co_tasks c') = hm_keys (co_tasks c)"
  unfolding core_ext_def by (metis tasks_le_keys)

lemma sched_inv_new: "sched_inv (scheduler_new config)"
  by (simp add: sched_inv_def scheduler_new_def core_inv_def ids_ok_def dg_inv_new trigger_ids_def
      wr_inv_def wr_new_def fw_new_def)

text \<open>Replacing the core by an extension keeps the invariant, whatever happens to the
  fields that the invariant does not read.\<close>

lemma sched_inv_core:
  assumes "sched_inv s" "core_inv c" "hm_keys (co_tasks c) = hm_keys (co_tasks (sc_core s))"
  shows "sched_inv (s\<lparr>sc_core := c\<rparr>)"
  using assms by (simp add: sched_inv_def trigger_ids_def)

subsection \<open>The tick\<close>

lemma check_cron_states_ok:
  assumes "core_inv c"
  shows "\<exists>sts' c' w'. check_cron_states api en md now sts c w = Some (sts', c', w') \<and> core_ext c c' \<and>
    sts' = map (\<lambda>st. if cron_should_fire api md now st then st\<lparr>ct_last_fired := Some now\<rparr> else st) sts"
  using assms
proof (induction sts arbitrary: c w)
  case (Cons st sts)
  show ?case
  proof (cases "cron_should_fire api md now st")
    case True
    obtain c1 w1 where r: "run_triggered en (ct_task_id st) c w = Some (c1, w1)" "core_ext c c1"
      using run_triggered_ok Cons.prems unfolding core_inv_def by metis
    from Cons.IH [OF core_inv_ext [OF r(2) Cons.prems], of w1] True r core_ext_trans
    show ?thesis by fastforce
  next
    case False
    from Cons.IH [OF Cons.prems, of w] False show ?thesis by fastforce
  qed
qed simp

lemma check_tc_states_ok:
  assumes "core_inv c"
  shows "\<exists>sts' c' w'. check_tc_states civil en now sts c w = Some (sts', c', w') \<and> core_ext c c' \<and>
    sts' = map (\<lambda>st. if tc_should_fire civil now st then st\<lparr>tcs_last_fired := Some now\<rparr> else st) sts"
  using assms
proof (induction sts arbitrary: c w)
  case (Cons st sts)
  show ?case
  proof (cases "tc_should_fire civil now st")
    case True
    obtain c1 w1 where r: "run_triggered en (tcs_task_id st) c w = Some (c1, w1)" "core_ext c c1"
      using run_triggered_ok Cons.prems unfolding core_inv_def by metis
    from Cons.IH [OF core_inv_ext [OF r(2) Cons.prems], of w1] True r core_ext_trans
    show ?thesis by fastforce
  next
    case False
    from Cons.IH [OF Cons.prems, of w] False show ?thesis by fastforce
  qed
qed simp

lemma map_fired_ids [simp]:
  "map ct_task_id (map (\<lambda>st. if P st then st\<lparr>ct_last_fired := x\<rparr> else st) sts) = map ct_task_id sts"
  "map tcs_task_id (map (\<lambda>st. if Q st then st\<lparr>tcs_last_fired := x\<rparr> else st) sts') = map tcs_task_id sts'"
  by auto

lemma image_fired_ids [simp]:
  "ct_task_id ` set (map (\<lambda>st. if P st then st\<lparr>ct_last_fired := x\<rparr> else st) sts) = ct_task_id ` set sts"
  "tcs_task_id ` set (map (\<lambda>st. if Q st then st\<lparr>tcs_last_fired := x\<rparr> else st) sts') = tcs_task_id ` set sts'"
  using map_fired_ids by (metis set_map)+

lemma check_cron_tasks_ok:
  assumes "sched_inv s"
  obtains s' w' where "check_cron_tasks pf s w = Some (s', w')" "sched_inv s'"
    "core_ext (sc_core s) (sc_core s')"
proof -
  obtain now w1 where n: "env_now (pf_env pf) w = (now, w1)" by fastforce
  have inv: "core_inv (sc_core s)" using assms by (simp add: sched_inv_def)
  obtain sts c w' where r: "check_cron_states (pf_cron pf) (pf_env pf) (max_drift_secs (sc_config s)) now
        (sc_cron_tasks s) (sc_core s) w1 = Some (sts, c, w')" and ext: "core_ext (sc_core s) c"
      and sts: "sts = map (\<lambda>st. if cron_should_fire (pf_cron pf) (max_drift_secs (sc_config s)) now st
        then st\<lparr>ct_last_fired := Some now\<rparr> else st) (sc_cron_tasks s)"
    using check_cron_states_ok [OF inv, of "pf_cron pf" "pf_env pf" "max_drift_secs (sc_config s)" now "sc_cron_tasks s" w1]
    by (elim exE conjE) (rule that)
  let ?s = "s\<lparr>sc_cron_tasks := sts, sc_core := c\<rparr>"
  have "sched_inv ?s"
    using assms core_inv_ext [OF ext inv] core_ext_keys [OF ext] unfolding sts
    by (simp add: sched_inv_def trigger_ids_def del: set_map map_map)
  then show thesis using that [of ?s w'] r ext by (simp add: check_cron_tasks_def n)
qed

lemma check_time_conditions_ok:
  assumes "sched_inv s"
  obtains s' w' where "check_time_conditions pf s w = Some (s', w')" "sched_inv s'"
    "core_ext (sc_core s) (sc_core s')"
proof -
  obtain now w1 where n: "env_now (pf_env pf) w = (now, w1)" by fastforce
  have inv: "core_inv (sc_core s)" using assms by (simp add: sched_inv_def)
  obtain sts c w' where r: "check_tc_states (pf_civil pf) (pf_env pf) now
        (sc_time_condition_tasks s) (sc_core s) w1 = Some (sts, c, w')" and ext: "core_ext (sc_core s) c"
      and sts: "sts = map (\<lambda>st. if tc_should_fire (pf_civil pf) now st
        then st\<lparr>tcs_last_fired := Some now\<rparr> else st) (sc_time_condition_tasks s)"
    using check_tc_states_ok [OF inv, of "pf_civil pf" "pf_env pf" now "sc_time_condition_tasks s" w1]
    by (elim exE conjE) (rule that)
  let ?s = "s\<lparr>sc_time_condition_tasks := sts, sc_core := c\<rparr>"
  have "sched_inv ?s"
    using assms core_inv_ext [OF ext inv] core_ext_keys [OF ext] unfolding sts
    by (simp add: sched_inv_def trigger_ids_def del: set_map map_map)
  then show thesis using that [of ?s w'] r ext by (simp add: check_time_conditions_def n)
qed

lemma tick_ok:
  assumes "sched_inv s"
  obtains s' w' where "tick pf s w = Some (s', w')" "sched_inv s'" "core_ext (sc_core s) (sc_core s')"
proof -
  obtain s1 w1 where 1: "check_cron_tasks pf s w = Some (s1, w1)" "sched_inv s1"
      "core_ext (sc_core s) (sc_core s1)"
    by (rule check_cron_tasks_ok [OF assms])
  obtain s2 w2 where 2: "check_time_conditions pf s1 w1 = Some (s2, w2)" "sched_inv s2"
      "core_ext (sc_core s1) (sc_core s2)"
    by (rule check_time_conditions_ok [OF 1(2)])
  show thesis by (rule that [of s2 w2]) (use 1 2 core_ext_trans in \<open>auto simp: tick_def\<close>)
qed

subsection \<open>Creating a task\<close>

text \<open>The part of the invariant about the trigger tables alone.\<close>

definition tables_inv :: "('s, 'h) scheduler \<Rightarrow> bool" where
  "tables_inv s \<longleftrightarrow> distinct (map ct_task_id (sc_cron_tasks s)) \<and>
     distinct (map tcs_task_id (sc_time_condition_tasks s)) \<and>
     wr_inv (sc_webhook_registry s) \<and> hm_inv (fw_watches (sc_file_watcher s))"

lemma sched_inv_iff:
  "sched_inv s \<longleftrightarrow> core_inv (sc_core s) \<and> trigger_ids s \<subseteq> hm_keys (co_tasks (sc_core s)) \<and> tables_inv s"
  by (simp add: sched_inv_def tables_inv_def)

lemma watch_task_watches:
  assumes "watch_task ny ex t trigger fw = (fw', r)"
  shows "(case r of Inl _ \<Rightarrow> fw_watches fw' = fw_watches fw
                  | Inr _ \<Rightarrow> hm_keys (fw_watches fw') = insert t (hm_keys (fw_watches fw)) \<and>
                      (hm_inv (fw_watches fw) \<longrightarrow> hm_inv (fw_watches fw')))"
proof -
  have "(case r of Inl _ \<Rightarrow> fw_watches fw' = fw_watches fw
                 | Inr _ \<Rightarrow> \<exists>c. fw_watches fw' = hm_insert t c (fw_watches fw))"
    using assms by (auto simp: watch_task_def split: task_trigger.splits option.splits prod.splits sum.splits)
  then show ?thesis by (cases r) (simp_all, elim exE, simp)
qed

lemma register_hooks:
  assumes "register t trigger ws = (ws', r)"
  shows "(case r of Inl _ \<Rightarrow> ws' = ws | Inr _ \<Rightarrow> wc_task_id ` set ws' = insert t (wc_task_id ` set ws))"
  using assms by (auto simp: register_cases split: task_trigger.splits if_splits)

lemma set_up_trigger_facts:
  assumes "set_up_trigger pf t s w = (s1, w1, r)"
  shows "sc_core s1 = sc_core s \<and> trigger_ids s1 \<subseteq> insert (t_id t) (trigger_ids s) \<and>
    (r \<noteq> Inr () \<longrightarrow> trigger_ids s1 = trigger_ids s) \<and>
    (t_id t \<notin> trigger_ids s \<longrightarrow> tables_inv s \<longrightarrow> tables_inv s1)"
proof (cases "t_trigger t")
  case (Cron e)
  then show ?thesis using assms
    by (auto simp: set_up_trigger_def trigger_ids_def tables_inv_def split: prod.splits sum.splits)
next
  case (FileChange ps es)
  obtain fw q where wt: "watch_task (pf_notify pf) (pf_exists pf w) (t_id t) (t_trigger t) (sc_file_watcher s) = (fw, q)"
    by fastforce
  show ?thesis using assms watch_task_watches [OF wt] wt FileChange
    by (cases q; clarsimp simp: set_up_trigger_def trigger_ids_def tables_inv_def; blast?)
next
  case (WebhookTrigger p m)
  obtain ws q where wt: "register (t_id t) (t_trigger t) (sc_webhook_registry s) = (ws, q)"
    by fastforce
  have "wr_inv (sc_webhook_registry s) \<Longrightarrow> wr_inv ws"
    using register_inv [of "sc_webhook_registry s" "t_id t" "t_trigger t"] wt by simp
  then show ?thesis using assms register_hooks [OF wt] wt WebhookTrigger
    by (auto simp: set_up_trigger_def trigger_ids_def tables_inv_def split: sum.splits)
next
  case (TimeConditionTrigger e)
  then show ?thesis using assms
    by (auto simp: set_up_trigger_def trigger_ids_def tables_inv_def split: sum.splits)
next
  case (TaskCompletion x)
  then show ?thesis using assms by (auto simp: set_up_trigger_def)
qed

lemma add_task_keys:
  assumes "dg_inv g" "t \<notin> hm_keys (edges g)" "add_task t deps known g = Some (g', r)"
  shows "hm_keys (edges g') = (if r = Inr () then insert t (hm_keys (edges g)) else hm_keys (edges g))"
proof (cases r)
  case (Inl e)
  then have "hm_get (edges g') k = hm_get (edges g) k" for k
    using add_task_error_restores [OF assms(1,2)] assms(3) by (auto simp: same_graph_def)
  then show ?thesis using Inl by (simp add: set_eq_iff hm.keys_lookup del: map_of_eq_None_iff)
next
  case (Inr u)
  show ?thesis
    by (rule add_task_cases [of deps known g t]) (use assms(3) Inr in \<open>auto simp: link_task_def\<close>)
qed

lemma known_tasks_sub:
  "core_inv c \<Longrightarrow> known_tasks t (co_tasks c) \<subseteq> insert (t_id t) (hm_keys (edges (co_graph c)))"
  by (auto simp: known_tasks_def core_inv_def)

lemma create_task_inv:
  assumes inv: "sched_inv s" and fresh: "t_id t \<notin> hm_keys (edges (co_graph (sc_core s)))"
    and c: "create_task pf t s w = Some (s', w', r)"
  shows "sched_inv s'"
proof -
  let ?g = "co_graph (sc_core s)" and ?tasks = "co_tasks (sc_core s)"
  have ci: "core_inv (sc_core s)" using inv by (simp add: sched_inv_def)
  then have dg: "dg_inv ?g" by (simp add: core_inv_def)
  obtain g q where a: "add_task (t_id t) (t_dependencies t) (known_tasks t ?tasks) ?g = Some (g, q)"
    using c by (auto simp: create_task_def split: option.splits)
  note dg' = add_task_inv [OF dg fresh known_tasks_sub [OF ci] a]
  note keys = add_task_keys [OF dg fresh a]
  let ?s = "s\<lparr>sc_core := sc_core s\<lparr>co_graph := g\<rparr>\<rparr>"
  have core: "core_inv (sc_core ?s)"
    using ci dg' keys by (auto simp: core_inv_def ids_ok_def)
  then have s_inv: "sched_inv ?s" using inv by (intro sched_inv_core) auto
  have notin: "t_id t \<notin> trigger_ids ?s"
  proof -
    have "trigger_ids ?s \<subseteq> hm_keys ?tasks" "hm_keys ?tasks \<subseteq> hm_keys (edges ?g)"
      using s_inv ci by (simp_all add: sched_inv_def core_inv_def)
    then show ?thesis using fresh by blast
  qed
  show ?thesis
  proof (cases q)
    case (Inl e)
    then show ?thesis using c a s_inv by (auto simp: create_task_def)
  next
    case (Inr u)
    obtain s1 w1 q1 where st: "set_up_trigger pf t ?s w = (s1, w1, q1)" by (metis prod_cases3)
    note f = set_up_trigger_facts [OF st]
    show ?thesis
    proof (cases q1)
      case Inl': (Inl e)
      then show ?thesis using c a Inr st f s_inv notin by (auto simp: create_task_def sched_inv_iff)
    next
      case Inr': (Inr u1)
      have core1: "core_inv (sc_core s1\<lparr>co_tasks := hm_insert (t_id t) t (co_tasks (sc_core s1))\<rparr>)"
        using core f keys Inr by (auto simp: core_inv_def ids_ok_def)
      have s': "s' = s1\<lparr>sc_core := sc_core s1\<lparr>co_tasks := hm_insert (t_id t) t (co_tasks (sc_core s1))\<rparr>\<rparr>"
        using c a Inr Inr' st by (auto simp: create_task_def)
      have "trigger_ids s' = trigger_ids s1" "tables_inv s' = tables_inv s1"
        unfolding s' by (simp_all add: trigger_ids_def tables_inv_def)
      then show ?thesis
        using core1 f notin s_inv unfolding sched_inv_iff by (auto simp: s')
    qed
  qed
qed

subsection \<open>Cancelling a task\<close>

lemma unwatch_task_keys:
  "hm_keys (fw_watches (unwatch_task ny ex t fw)) = hm_keys (fw_watches fw) - {t}"
proof (cases "hm_get (fw_watches fw) t")
  case None
  then have "t \<notin> hm_keys (fw_watches fw)" by (simp add: hm.keys_lookup del: map_of_eq_None_iff)
  then show ?thesis using None by (simp add: unwatch_task_def)
next
  case (Some c)
  have "hm_keys (hm_remove t (fw_watches fw)) = hm_keys (fw_watches fw) - {t}" by (rule hm.keys_remove)
  then show ?thesis using Some by (simp add: unwatch_task_def)
qed

lemma unwatch_task_inv: "hm_inv (fw_watches fw) \<Longrightarrow> hm_inv (fw_watches (unwatch_task ny ex t fw))"
  by (simp add: unwatch_task_def split: option.split)

lemma cancel_trigger_ids:
  assumes "cancel_task pf t s w = (s', Inr ())"
  shows "trigger_ids s' = trigger_ids s - {t}"
proof -
  have s': "sc_cron_tasks s' = filter (\<lambda>c. ct_task_id c \<noteq> t) (sc_cron_tasks s)"
      "sc_time_condition_tasks s' = filter (\<lambda>c. tcs_task_id c \<noteq> t) (sc_time_condition_tasks s)"
      "sc_webhook_registry s' = unregister t (sc_webhook_registry s)"
      "sc_file_watcher s' = unwatch_task (pf_notify pf) (pf_exists pf w) t (sc_file_watcher s)"
    using assms by (auto simp: cancel_task_def split: if_splits)
  have "wc_task_id ` set (unregister t ws) = wc_task_id ` set ws - {t}" for ws
    by (auto simp: unregister_def)
  moreover have "ct_task_id ` set (filter (\<lambda>c. ct_task_id c \<noteq> t) cs) = ct_task_id ` set cs - {t}"
    for cs :: "'a cron_task_state list" by auto
  moreover have "tcs_task_id ` set (filter (\<lambda>c. tcs_task_id c \<noteq> t) cs) = tcs_task_id ` set cs - {t}"
    for cs :: "time_condition_state list" by auto
  ultimately show ?thesis
    by (simp only: trigger_ids_def s' unwatch_task_keys Un_Diff)
qed

lemma cancel_task_inv:
  assumes inv: "sched_inv s" and c: "cancel_task pf t s w = (s', r)"
  shows "sched_inv s'"
proof (cases r)
  case (Inl e)
  then show ?thesis using assms by (auto simp: cancel_task_def split: if_splits)
next
  case (Inr u)
  have core: "sc_core s' = (sc_core s)\<lparr>co_tasks := hm_remove t (co_tasks (sc_core s)),
      co_graph := remove_task t (co_graph (sc_core s))\<rparr>"
    using c Inr by (auto simp: cancel_task_def split: if_splits)
  have ci: "core_inv (sc_core s)" using inv by (simp add: sched_inv_def)
  have keys: "hm_keys (hm_remove t (co_tasks (sc_core s))) \<subseteq> hm_keys (edges (co_graph (sc_core s))) - {t}"
    using ci unfolding core_inv_def hm.keys_remove by (blast intro: Diff_mono)
  have "core_inv (sc_core s')"
    using ci remove_task_inv [of "co_graph (sc_core s)" t] keys
    unfolding core core_inv_def ids_ok_def by (simp add: remove_task_keys del: hm.keys_remove)
  moreover have "trigger_ids s' \<subseteq> hm_keys (co_tasks (sc_core s'))"
    using cancel_trigger_ids [of pf t s w s'] c Inr inv unfolding core sched_inv_def 
    by simp (blast intro: Diff_mono)
  moreover have "tables_inv s'"
    using c Inr inv unregister_inv unwatch_task_inv
    by (auto simp: cancel_task_def sched_inv_iff tables_inv_def distinct_map_filter split: if_splits)
  ultimately show ?thesis by (simp add: sched_inv_iff)
qed

subsection \<open>Every step\<close>

lemma sched_inv_cong:
  assumes "sc_core s' = sc_core s" "sc_cron_tasks s' = sc_cron_tasks s"
    "sc_time_condition_tasks s' = sc_time_condition_tasks s"
    "fw_watches (sc_file_watcher s') = fw_watches (sc_file_watcher s)"
    "sc_webhook_registry s' = sc_webhook_registry s"
  shows "sched_inv s' = sched_inv s"
  using assms by (simp add: sched_inv_def trigger_ids_def)

lemma scheduler_start_inv:
  assumes "sched_inv s" "scheduler_start pf s = (s', r)"
  shows "sched_inv s'"
  using assms(1)
  by (subst sched_inv_cong [of _ s])
    (use assms(2) in \<open>auto simp: scheduler_start_def fw_start_def Let_def split: sum.splits\<close>)

lemma scheduler_stop_inv: "sched_inv s \<Longrightarrow> sched_inv (scheduler_stop s)"
  by (simp add: scheduler_stop_def fw_stop_def sched_inv_def trigger_ids_def)

lemma run_triggered_inv:
  assumes "core_inv c" "run_triggered en t c w = Some (c', w')"
  shows "core_inv c' \<and> hm_keys (co_tasks c') = hm_keys (co_tasks c)"
proof -
  have "core_ext c c'"
    using cascade_ext(1) [OF assms(2) [unfolded run_triggered_def]] assms(1) by (simp add: core_inv_def)
  then show ?thesis using core_inv_ext core_ext_keys assms(1) by blast
qed

lemma notify_task_completed_inv:
  assumes "core_inv c" "notify_task_completed en t c w = Some (c', w')"
  shows "core_inv c' \<and> hm_keys (co_tasks c') = hm_keys (co_tasks c)"
proof -
  let ?c = "c\<lparr>co_graph := fst (mark_completed t (co_graph c))\<rparr>"
  have ci: "core_inv ?c" using assms(1) by (simp add: core_inv_def ids_ok_def mark_completed_inv)
  have "core_ext ?c c'"
    using cascade_ext(2) [of MAX_DEPENDENCY_DEPTH en _ ?c w c' w'] assms(2) ci
    by (simp add: notify_task_completed_def case_prod_unfold core_inv_def)
  then show ?thesis using core_inv_ext [OF _ ci] core_ext_keys [of ?c c'] by simp
qed

lemma sched_step_inv:
  assumes "sched_step pf (s, w) (s', w')" "sched_inv s"
  shows "sched_inv s'"
  using assms(1)
proof cases
  case (create t r)
  then show ?thesis by (rule create_task_inv [OF assms(2)])
next
  case (cancel t r)
  show ?thesis by (rule cancel_task_inv [OF assms(2) cancel(2)])
next
  case (cleanup now days)
  then show ?thesis using assms(2)
    by (simp add: cleanup_history_def sched_inv_def core_inv_def ids_ok_def trigger_ids_def)
next
  case (completed_external t c)
  have "core_inv (sc_core s)" using assms(2) by (simp add: sched_inv_def)
  from notify_task_completed_inv [OF this completed_external(2)] show ?thesis
    unfolding completed_external(1) using sched_inv_core [OF assms(2)] by blast
next
  case (start r)
  show ?thesis by (rule scheduler_start_inv [OF assms(2) start(2)])
next
  case stop
  then show ?thesis using scheduler_stop_inv [OF assms(2)] by simp
next
  case (ticked gen)
  obtain s1 w1 where "tick pf s w = Some (s1, w1)" "sched_inv s1" by (rule tick_ok [OF assms(2)])
  then show ?thesis using ticked by simp
next
  case (request p m b h evs found)
  then show ?thesis using assms(2) by (subst sched_inv_cong [of _ s]) (auto simp: send_webhook_events_def)
next
  case (fs_change evs order nev)
  then show ?thesis using assms(2) by (subst sched_inv_cong [of _ s]) (auto simp: send_file_events_def)
next
  case (file_event gen ev q c)
  have "core_inv (sc_core s)" using assms(2) by (simp add: sched_inv_def)
  from run_triggered_inv [OF this file_event(4)] sched_inv_core [OF assms(2)]
  have "sched_inv (s\<lparr>sc_core := c\<rparr>)" by blast
  then show ?thesis by (subst sched_inv_cong [of _ "s\<lparr>sc_core := c\<rparr>"]) (auto simp: file_event(1))
next
  case (webhook_event gen ev q c)
  have "core_inv (sc_core s)" using assms(2) by (simp add: sched_inv_def)
  from run_triggered_inv [OF this webhook_event(4)] sched_inv_core [OF assms(2)]
  have "sched_inv (s\<lparr>sc_core := c\<rparr>)" by blast
  then show ?thesis by (subst sched_inv_cong [of _ "s\<lparr>sc_core := c\<rparr>"]) (auto simp: webhook_event(1))
qed (use assms(2) in \<open>auto simp: sched_inv_def trigger_ids_def\<close>)

lemma reachable_inv: "sched_reachable pf config w0 s w \<Longrightarrow> sched_inv s"
  unfolding sched_reachable_def
proof (induction "(s, w)" arbitrary: s w rule: rtranclp_induct)
  case base
  then show ?case by (simp add: sched_inv_new)
next
  case (step y)
  then show ?case by (cases y) (blast intro: sched_step_inv)
qed

end
