(* ===== verification/Scheduler_Props.thy ===== *)
theory Scheduler_Props
  imports Scheduler_Invariant
begin

text \<open>
  The properties of the scheduler over its reachable states, and what its trigger checks
  do from tick to tick.
\<close>

subsection \<open>A concrete platform\<close>

text \<open>Every task succeeds, the clock stands at time \<open>0\<close>, the cron crate fires every
  minute, and the file system is empty.\<close>

definition demo_env :: "nat env" where
  "demo_env = \<lparr>env_now = (\<lambda>w. (0, w)), env_uuid = (\<lambda>w. (w, Suc w)), env_sleep = (\<lambda>d w. w),
     env_execute = (\<lambda>s t w. (ExecOk, w))\<rparr>"

definition demo_platform :: "(unit, path set, nat) platform" where
  "demo_platform = \<lparr>pf_cron = minutely_api, pf_notify = set_notify, pf_env = demo_env,
     pf_civil = (\<lambda>_. \<lparr>ct_weekday = Thu, ct_hour = 0, ct_minute = 0\<rparr>), pf_exists = (\<lambda>_ _. False)\<rparr>"

definition demo_task :: "task_id \<Rightarrow> task_trigger \<Rightarrow> task_id list \<Rightarrow> task" where
  "demo_task i tr deps = \<lparr>t_id = i, t_name = ''demo'', t_trigger = tr, t_action = ActCommand ''echo'' [],
     t_timeout_seconds = 60, t_dependencies = deps, t_retry_policy = default_retry_policy,
     t_status = Active, t_created_at = 0, t_updated_at = 0\<rparr>"

definition demo_new :: "(unit, path set) scheduler" where
  "demo_new = scheduler_new default_scheduler_config"

text \<open>Task \<open>2\<close> depends on task \<open>1\<close>; both wait for a completion.\<close>

definition demo_core :: core where
  "demo_core = \<lparr>co_tasks = [(1, demo_task 1 (TaskCompletion 9) []), (2, demo_task 2 (TaskCompletion 9) [1])],
     co_history = [], co_graph = link_task 2 [1] (link_task 1 [] dg_new)\<rparr>"

lemma demo_created:
  "create_task demo_platform (demo_task 1 (TaskCompletion 9) []) demo_new 0 =
     Some (demo_new\<lparr>sc_core := \<lparr>co_tasks = [(1, demo_task 1 (TaskCompletion 9) [])], co_history = [],
        co_graph = link_task 1 [] dg_new\<rparr>\<rparr>, 0, Inr 1)"
  "create_task demo_platform (demo_task 2 (TaskCompletion 9) [1])
      (demo_new\<lparr>sc_core := \<lparr>co_tasks = [(1, demo_task 1 (TaskCompletion 9) [])], co_history = [],
        co_graph = link_task 1 [] dg_new\<rparr>\<rparr>) 0 =
     Some (demo_new\<lparr>sc_core := demo_core\<rparr>, 0, Inr 2)"
proof -
  have a: "add_task 1 [] {} dg_new = Some (link_task 1 [] dg_new, Inr ())" by code_simp
  have b: "add_task 2 [1] {2, 1} (link_task 1 [] dg_new) = Some (link_task 2 [1] (link_task 1 [] dg_new), Inr ())"
    by code_simp
  show "create_task demo_platform (demo_task 1 (TaskCompletion 9) []) demo_new 0 =
     Some (demo_new\<lparr>sc_core := \<lparr>co_tasks = [(1, demo_task 1 (TaskCompletion 9) [])], co_history = [],
        co_graph = link_task 1 [] dg_new\<rparr>\<rparr>, 0, Inr 1)"
    using a by (simp add: create_task_def known_tasks_def demo_task_def demo_new_def scheduler_new_def
        set_up_trigger_def hm_insert_def hm_empty_def)
  show "create_task demo_platform (demo_task 2 (TaskCompletion 9) [1])
      (demo_new\<lparr>sc_core := \<lparr>co_tasks = [(1, demo_task 1 (TaskCompletion 9) [])], co_history = [],
        co_graph = link_task 1 [] dg_new\<rparr>\<rparr>) 0 =
     Some (demo_new\<lparr>sc_core := demo_core\<rparr>, 0, Inr 2)"
    using b by (simp add: create_task_def known_tasks_def demo_task_def demo_new_def scheduler_new_def
        set_up_trigger_def hm_insert_def hm_empty_def demo_core_def)
qed

lemma demo_reachable: "sched_reachable demo_platform default_scheduler_config 0 (demo_new\<lparr>sc_core := demo_core\<rparr>) 0"
proof -
  let ?s1 = "demo_new\<lparr>sc_core := \<lparr>co_tasks = [(1, demo_task 1 (TaskCompletion 9) [])], co_history = [],
        co_graph = link_task 1 [] dg_new\<rparr>\<rparr>"
  have 1: "sched_step demo_platform (demo_new, 0) (?s1, 0)"
    by (rule sched_step.create [OF _ demo_created(1)])
      (simp add: demo_task_def demo_new_def scheduler_new_def dg_new_def)
  have 2: "sched_step demo_platform (?s1, 0) (demo_new\<lparr>sc_core := demo_core\<rparr>, 0)"
    by (rule sched_step.create [OF _ demo_created(2)]) (simp add: demo_task_def dg_new_def)
  show ?thesis
    unfolding sched_reachable_def demo_new_def [symmetric]
    by (rule rtranclp.rtrancl_into_rtrancl [OF r_into_rtranclp]) (rule 1, rule 2)
qed

lemma demo_core_inv: "core_inv demo_core"
  using reachable_inv [OF demo_reachable] by (simp add: sched_inv_def)

subsection \<open>Running tasks\<close>



text \<open>
  C2: when a trigger fires, no task runs before its dependencies: in the runs appended to the
  history, every dependency of a task that runs was complete before the trigger or has an
  earlier successful run, and the tasks that become complete are exactly those with a
  successful run. The graph's edges do not change and the rest of the history stays.
\<close>

theorem run_triggered_deps_first:
  assumes "core_inv c" and "run_triggered en t c w = Some (c', w')"
  shows "edges (co_graph c') = edges (co_graph c) \<and>
    (\<exists>new. co_history c' = co_history c @ new \<and>
       deps_first (co_graph c) (completed (co_graph c)) new \<and>
       completed (co_graph c') = completed (co_graph c) \<union> succ_ids new)"
proof -
  have "core_ext c c'"
    using cascade_ext(1) [OF assms(2) [unfolded run_triggered_def]] assms(1) by (simp add: core_inv_def)
  then show ?thesis by (simp add: core_ext_def)
qed

theorem run_triggered_deps_first_witness:
  "core_inv demo_core \<and> (\<exists>c' w'. run_triggered demo_env 1 demo_core 0 = Some (c', w') \<and>
     edges (co_graph c') = edges (co_graph demo_core) \<and>
     (\<exists>new. co_history c' = new \<and> deps_first (co_graph demo_core) {} new \<and> completed (co_graph c') = succ_ids new))"
proof -
  obtain c' w' where r: "run_triggered demo_env 1 demo_core 0 = Some (c', w')"
    using run_triggered_ok [of demo_core demo_env 1 0] demo_core_inv unfolding core_inv_def by metis
  have "completed (co_graph demo_core) = {}" "co_history demo_core = []"
    by (simp_all add: demo_core_def link_task_def dg_new_def)
  with run_triggered_deps_first [OF demo_core_inv r] r demo_core_inv show ?thesis by auto
qed

subsection \<open>The state\<close>



text \<open>
  Cancelling a task forgets it everywhere: afterwards it is in no table, the dependency
  graph neither holds it nor mentions it, and every other task keeps its entry and its other
  dependencies; cancelling an unknown task is an error that changes nothing.
\<close>

theorem cancel_task_forgets:
  assumes "sched_inv s" and "cancel_task pf t s w = (s', r)"
  shows "(case r of
      Inl e \<Rightarrow> e = TaskNotFound t \<and> s' = s \<and> t \<notin> hm_keys (co_tasks (sc_core s))
    | Inr _ \<Rightarrow> t \<notin> trigger_ids s' \<and> t \<notin> hm_keys (edges (co_graph (sc_core s'))) \<and>
        (\<forall>k. hm_get (co_tasks (sc_core s')) k = (if k = t then None else hm_get (co_tasks (sc_core s)) k)) \<and>
        (\<forall>x. x \<noteq> t \<longrightarrow> dependencies_of (co_graph (sc_core s')) x =
           filter (\<lambda>d. d \<noteq> t) (dependencies_of (co_graph (sc_core s)) x)))"
proof (cases r)
  case (Inl e)
  then show ?thesis using assms(2)
    by (auto simp: cancel_task_def map_of_eq_None_iff split: if_splits)
next
  case (Inr u)
  have core: "co_graph (sc_core s') = remove_task t (co_graph (sc_core s))"
      "co_tasks (sc_core s') = hm_remove t (co_tasks (sc_core s))"
    using assms(2) Inr by (auto simp: cancel_task_def split: if_splits)
  have dg: "dg_inv (co_graph (sc_core s))" using assms(1) by (simp add: sched_inv_def core_inv_def)
  have "t \<notin> trigger_ids s'" using cancel_trigger_ids [of pf t s w s'] assms(2) Inr by simp
  then show ?thesis
    using Inr remove_task_nexts [OF dg] unfolding core by (simp add: remove_task_keys dependencies_of_def)
qed

theorem cancel_task_forgets_witness:
  "\<exists>s'. cancel_task demo_platform 1 (demo_new\<lparr>sc_core := demo_core\<rparr>) 0 = (s', Inr ()) \<and>
     1 \<notin> hm_keys (edges (co_graph (sc_core s'))) \<and> dependencies_of (co_graph (sc_core s')) 2 = []"
proof -
  let ?s = "demo_new\<lparr>sc_core := demo_core\<rparr>"
  obtain s' r where c: "cancel_task demo_platform 1 ?s 0 = (s', r)" by fastforce
  have r: "r = Inr ()" using c by (auto simp: cancel_task_def demo_core_def)
  have d: "dependencies_of (co_graph (sc_core ?s)) 2 = [1]"
    by (simp add: demo_core_def dependencies_of_def)
  from cancel_task_forgets [OF reachable_inv [OF demo_reachable] c] r d c show ?thesis by auto
qed

text \<open>
  A task whose dependencies are accepted but whose trigger is rejected stays in the
  dependency graph although creating it failed: it is not stored, so it can never run or be
  cancelled, yet other tasks may depend on it.
\<close>

theorem create_task_failed_leaks:
  assumes "add_task (t_id t) (t_dependencies t) (known_tasks t (co_tasks (sc_core s))) (co_graph (sc_core s)) =
      Some (g, Inr ())"
    and "create_task pf t s w = Some (s', w', Inl e)" and "t_id t \<notin> hm_keys (co_tasks (sc_core s))"
  shows "t_id t \<in> hm_keys (edges (co_graph (sc_core s'))) \<and>
    cancel_task pf (t_id t) s' w' = (s', Inl (TaskNotFound (t_id t)))"
proof -
  let ?s = "s\<lparr>sc_core := sc_core s\<lparr>co_graph := g\<rparr>\<rparr>"
  obtain s1 w1 q1 where st: "set_up_trigger pf t ?s w = (s1, w1, q1)" by (metis prod_cases3)
  then have "s' = s1" using assms(1,2) by (auto simp: create_task_def split: sum.splits)
  then have core: "sc_core s' = sc_core s\<lparr>co_graph := g\<rparr>"
    using set_up_trigger_facts [OF st] by simp
  have "edges g = hm_insert (t_id t) (t_dependencies t) (edges (co_graph (sc_core s)))"
    by (rule add_task_cases [of "t_dependencies t" "known_tasks t (co_tasks (sc_core s))" "co_graph (sc_core s)" "t_id t"])
      (use assms(1) in \<open>auto simp: link_task_def\<close>)
  then have k: "t_id t \<in> hm_keys (edges g)" by (simp add: hm.keys_insert)
  have "hm_get (co_tasks (sc_core s')) (t_id t) = None"
    using assms(3) core by (simp add: map_of_eq_None_iff)
  then show ?thesis using k core by (simp add: cancel_task_def)
qed

theorem create_task_failed_leaks_witness:
  "\<exists>s'. create_task demo_platform (demo_task 1 (Cron ''bad'') []) demo_new 0 =
     Some (s', 0, Inl (InvalidCronExpression (''bad'' @ '': '' @ ''invalid expression''))) \<and>
     1 \<in> hm_keys (edges (co_graph (sc_core s')))"
proof -
  let ?t = "demo_task 1 (Cron ''bad'') []"
  have a: "add_task 1 [] {} dg_new = Some (link_task 1 [] dg_new, Inr ())" by code_simp
  have k: "known_tasks ?t (co_tasks (sc_core demo_new)) = {}" "co_graph (sc_core demo_new) = dg_new"
      "t_id ?t = 1" "t_dependencies ?t = []"
    by (simp_all add: known_tasks_def demo_task_def demo_new_def scheduler_new_def hm_empty_def)
  have c: "create_task demo_platform ?t demo_new 0 =
      Some (demo_new\<lparr>sc_core := \<lparr>co_tasks = hm_empty, co_history = [], co_graph = link_task 1 [] dg_new\<rparr>\<rparr>, 0,
        Inl (InvalidCronExpression (''bad'' @ '': '' @ ''invalid expression'')))"
    using a by (simp add: create_task_def known_tasks_def demo_task_def demo_new_def scheduler_new_def
        set_up_trigger_def demo_platform_def demo_env_def cron_parse_def minutely_api_def hm_empty_def)
  have n: "t_id ?t \<notin> hm_keys (co_tasks (sc_core demo_new))"
    by (simp add: demo_new_def scheduler_new_def hm_empty_def)
  from create_task_failed_leaks [OF _ c n, of "link_task 1 [] dg_new"] a show ?thesis
    unfolding c by (simp add: k)
qed

text \<open>
  A task with a task-completion trigger on \<open>x\<close> is not triggered by the completion of
  \<open>x\<close>, unless \<open>x\<close> is also among its dependencies: the trigger is recorded nowhere.
\<close>

theorem task_completion_trigger_ignored:
  assumes "sched_inv s" and "t_id t \<notin> hm_keys (edges (co_graph (sc_core s)))"
    and "t_trigger t = TaskCompletion x" and "x \<notin> set (t_dependencies t)"
    and "create_task pf t s w = Some (s', w', Inr i)"
  shows "t_id t \<notin> set (snd (mark_completed x (co_graph (sc_core s')))) \<and> trigger_ids s' = trigger_ids s"
proof -
  let ?g = "co_graph (sc_core s)"
  have inv: "dg_inv (co_graph (sc_core s'))"
    using create_task_inv [OF assms(1,2,5)] by (simp add: sched_inv_def core_inv_def)
  obtain g q where a: "add_task (t_id t) (t_dependencies t) (known_tasks t (co_tasks (sc_core s))) ?g = Some (g, q)"
    using assms(5) by (auto simp: create_task_def split: option.splits)
  have q: "q = Inr ()" and g: "co_graph (sc_core s') = g" and ids: "trigger_ids s' = trigger_ids s"
    using assms(3,5) a
    by (auto simp: create_task_def set_up_trigger_def trigger_ids_def split: sum.splits)
  have "nexts (edges g) (t_id t) = t_dependencies t"
    by (rule add_task_cases [of "t_dependencies t" "known_tasks t (co_tasks (sc_core s))" ?g "t_id t"])
      (use a q in auto)
  then have "x \<notin> dep_set (co_graph (sc_core s')) (t_id t)"
    using assms(4) g by (simp add: dep_set_def dependencies_of_def)
  then show ?thesis using dg.complete_reports [OF inv] ids by blast
qed

theorem task_completion_trigger_ignored_witness:
  "\<exists>s'. create_task demo_platform (demo_task 1 (TaskCompletion 9) []) demo_new 0 = Some (s', 0, Inr 1) \<and>
     1 \<notin> set (snd (mark_completed 9 (co_graph (sc_core s'))))"
proof -
  let ?t = "demo_task 1 (TaskCompletion 9) []"
  have i: "t_id ?t = 1" "t_trigger ?t = TaskCompletion 9" "9 \<notin> set (t_dependencies ?t)"
      "t_id ?t \<notin> hm_keys (edges (co_graph (sc_core demo_new)))"
    by (simp_all add: demo_task_def demo_new_def scheduler_new_def dg_new_def)
  have inv: "sched_inv demo_new" unfolding demo_new_def by (rule sched_inv_new)
  from task_completion_trigger_ignored [OF inv i(4,2,3) demo_created(1)] demo_created(1) i(1)
  show ?thesis by auto
qed

end
