(* ===== verification/Scheduler_Triggers.thy ===== *)
theory Scheduler_Triggers
  imports Scheduler_Props
begin

text \<open>
  When the scheduler's periodic checks fire, and what becomes of the file and webhook
  handlers over a stop and a restart.
\<close>

subsection \<open>Drift\<close>

lemma num_seconds_ge0: "0 \<le> num_seconds d \<longleftrightarrow> - seconds 1 < d"
  using num_seconds_nonneg_iff by (simp add: seconds_def)

lemma num_seconds_le: "0 \<le> m \<Longrightarrow> num_seconds d \<le> m \<longleftrightarrow> d < seconds (m + 1)"
proof -
  assume m: "0 \<le> m"
  show ?thesis
  proof (cases "0 \<le> d")
    case True
    then show ?thesis by (simp add: num_seconds_def seconds_def int_div_le_iff del: distrib_right_numeral)
  next
    case False
    then have "num_seconds d \<le> 0" by (simp add: num_seconds_def pos_imp_zdiv_nonneg_iff)
    then show ?thesis using False m by (simp add: seconds_def)
  qed
qed

text \<open>
  A cron task that has not fired yet fires exactly when its schedule has an occurrence in
  the drift window up to now; one that has fired at \<open>lf\<close> fires exactly when the first
  occurrence after \<open>lf\<close> is less than a second ahead or less than \<open>max_drift + 1\<close> seconds
  ago.
\<close>

theorem cron_should_fire_iff:
  assumes "0 \<le> md"
  shows "cron_should_fire api md now st \<longleftrightarrow>
    (case ct_last_fired st of
       None \<Rightarrow> \<exists>nx. next_after api (ct_schedule st) (now - seconds md) = Some nx \<and> nx \<le> now
     | Some lf \<Rightarrow> \<exists>nx. next_after api (ct_schedule st) lf = Some nx \<and>
         nx - seconds 1 < now \<and> now < nx + seconds (md + 1))"
proof (cases "ct_last_fired st")
  case None
  then show ?thesis by (simp add: cron_should_fire_def split: option.split)
next
  case (Some lf)
  have "(0 \<le> num_seconds (now - nx) \<and> num_seconds (now - nx) \<le> md) \<longleftrightarrow>
      (nx - seconds 1 < now \<and> now < nx + seconds (md + 1))" for nx
    unfolding num_seconds_ge0 num_seconds_le [OF assms] by linarith
  with Some show ?thesis by (auto simp: cron_should_fire_def Let_def split: option.split)
qed

definition minute_state :: "timestamp option \<Rightarrow> unit cron_task_state" where
  "minute_state lf = \<lparr>ct_task_id = 1, ct_schedule = \<lparr>cs_expression = ''0 * * * * *'', cs_schedule = ()\<rparr>,
     ct_last_fired = lf\<rparr>"

lemma next_minute: "next_after minutely_api (ct_schedule (minute_state lf)) t = Some ((t div seconds 60 + 1) * seconds 60)"
  by (simp add: next_after_def minutely_api_def Let_def)

theorem cron_should_fire_iff_witness:
  "cron_should_fire minutely_api 60 (seconds 75) (minute_state (Some 0)) \<and>
   \<not> cron_should_fire minutely_api 60 (seconds 30) (minute_state (Some 0))"
proof -
  have f: "cron_should_fire minutely_api 60 now (minute_state (Some 0)) \<longleftrightarrow>
      seconds 60 - seconds 1 < now \<and> now < seconds 60 + seconds 61" for now
    using cron_should_fire_iff [of 60 minutely_api now "minute_state (Some 0)"] next_minute [of "Some 0" 0]
    by (simp add: minute_state_def)
  show ?thesis unfolding f by (simp add: seconds_def)
qed

text \<open>
  A cron task that misses an occurrence by more than the allowed drift never fires again:
  its next occurrence is computed from its last firing, so at every later tick the same
  occurrence is found to be too old, nothing runs and the state stays as it is.
\<close>

theorem cron_missed_never_fires:
  assumes "ct_last_fired st = Some lf" and "next_after api (ct_schedule st) lf = Some nx"
    and "md < num_seconds (now - nx)" and "now \<le> now'"
  shows "check_cron_states api en md now' [st] c w = Some ([st], c, w)"
proof -
  have "num_seconds (now - nx) \<le> num_seconds (now' - nx)" using assms(4) by (intro num_seconds_mono) simp
  then have "\<not> cron_should_fire api md now' st" using assms by (simp add: cron_should_fire_def Let_def)
  then show ?thesis by simp
qed

theorem cron_missed_never_fires_witness:
  "check_cron_states minutely_api demo_env 60 (seconds 86400) [minute_state (Some 0)] demo_core 0 =
     Some ([minute_state (Some 0)], demo_core, 0)"
proof (rule cron_missed_never_fires)
  show "ct_last_fired (minute_state (Some 0)) = Some 0" by (simp add: minute_state_def)
  show "next_after minutely_api (ct_schedule (minute_state (Some 0))) 0 = Some (seconds 60)"
    using next_minute [of "Some 0" 0] by simp
  show "60 < num_seconds (seconds 200 - seconds 60)" "seconds 200 \<le> seconds 86400"
    by (simp_all add: seconds_def num_seconds_def)
qed

text \<open>
  A tick less than a second before an occurrence fires the task early, because the drift
  truncates to zero; the occurrence is then still the next one after the recorded firing, so
  the following tick within the drift window fires the task a second time for the same
  occurrence.
\<close>

theorem cron_fires_twice:
  assumes "cron_laws api" and "0 \<le> md" and "ct_last_fired st = Some lf"
    and "next_after api (ct_schedule st) lf = Some nx" and "lf \<le> now"
    and "nx - seconds 1 < now" and "now < nx" and "nx \<le> now'" and "now' < nx + seconds (md + 1)"
  shows "cron_should_fire api md now st \<and> cron_should_fire api md now' (st\<lparr>ct_last_fired := Some now\<rparr>)"
proof -
  have n: "next_after api (ct_schedule st) now = Some nx"
    using next_after_stable [OF assms(1,4,5,7)] .
  have ge: "0 \<le> num_seconds (now - nx)" "0 \<le> num_seconds (now' - nx)"
    using assms(6,8) by (simp_all add: num_seconds_ge0 seconds_def)
  have le: "num_seconds (now - nx) \<le> md" "num_seconds (now' - nx) \<le> md"
    using assms(2,7,9) by (simp_all add: num_seconds_le seconds_def)
  show ?thesis using ge le n assms(3,4) by (simp add: cron_should_fire_def Let_def)
qed

theorem cron_fires_twice_witness:
  "cron_should_fire minutely_api 60 (59500000000) (minute_state (Some 0)) \<and>
   cron_should_fire minutely_api 60 (89500000000) (minute_state (Some 59500000000))"
proof -
  have "next_after minutely_api (ct_schedule (minute_state (Some 0))) 0 = Some (seconds 60)"
    using next_minute [of "Some 0" 0] by simp
  from cron_fires_twice [OF minutely_laws _ _ this, of 60 59500000000 89500000000]
  show ?thesis by (simp add: minute_state_def seconds_def)
qed

subsection \<open>Time conditions\<close>

text \<open>What one pass may do to an entry.\<close>

definition tc_step_ok :: "(timestamp \<Rightarrow> civil_time) \<Rightarrow> timestamp \<Rightarrow> time_condition_state \<Rightarrow> time_condition_state \<Rightarrow> bool" where
  "tc_step_ok civil now st st' \<longleftrightarrow>
     st' = st \<or> (st' = st\<lparr>tcs_last_fired := Some now\<rparr> \<and> tc_evaluate (tcs_condition st) (civil now) \<and>
       (\<forall>lf. tcs_last_fired st = Some lf \<longrightarrow> tcs_min_interval_secs st \<le> num_seconds (now - lf)))"

text \<open>
  A pass over the time conditions fires a task only when its condition holds at that time
  and at least its minimum interval has passed since its last firing, and changes no entry
  of a task it does not fire.
\<close>

theorem check_time_conditions_spacing:
  assumes "sched_inv s" and "env_now (pf_env pf) w = (now, w1)"
    and "check_time_conditions pf s w = Some (s', w')"
  shows "list_all2 (tc_step_ok (pf_civil pf) now) (sc_time_condition_tasks s) (sc_time_condition_tasks s')"
proof -
  have inv: "core_inv (sc_core s)" using assms(1) by (simp add: sched_inv_def)
  have "sc_time_condition_tasks s' = map (\<lambda>st. if tc_should_fire (pf_civil pf) now st
      then st\<lparr>tcs_last_fired := Some now\<rparr> else st) (sc_time_condition_tasks s)"
    using check_tc_states_ok [OF inv, of "pf_civil pf" "pf_env pf" now "sc_time_condition_tasks s" w1] assms(2,3)
    by (auto simp: check_time_conditions_def)
  then show ?thesis
    by (auto simp: list.rel_map tc_step_ok_def tc_should_fire_def list.rel_refl_strong
        intro!: list.rel_refl_strong split: if_splits option.splits)
qed

definition demo_timed :: "(unit, path set) scheduler" where
  "demo_timed = demo_new\<lparr>sc_core := demo_core, sc_time_condition_tasks :=
     [\<lparr>tcs_task_id = 1, tcs_condition = \<lparr>tc_expression = ''weekday'', tc_root = Atom Weekday\<rparr>,
       tcs_last_fired = None, tcs_min_interval_secs = 60\<rparr>]\<rparr>"

theorem check_time_conditions_spacing_witness:
  "\<exists>s' w'. check_time_conditions demo_platform demo_timed 0 = Some (s', w') \<and>
     list_all2 (tc_step_ok (pf_civil demo_platform) 0) (sc_time_condition_tasks demo_timed) (sc_time_condition_tasks s')"
proof -
  have inv: "sched_inv demo_timed"
    using reachable_inv [OF demo_reachable]
    by (simp add: sched_inv_def demo_timed_def trigger_ids_def demo_core_def)
  obtain s' w' where c: "check_time_conditions demo_platform demo_timed 0 = Some (s', w')"
    by (rule check_time_conditions_ok [OF inv])
  have "env_now (pf_env demo_platform) 0 = (0, 0)" by (simp add: demo_platform_def demo_env_def)
  from check_time_conditions_spacing [OF inv this c] c show ?thesis by blast
qed

subsection \<open>Stopping and restarting\<close>

definition handlers :: "('s, 'h) scheduler \<Rightarrow> bool \<times> bool \<times> nat option \<times> nat option" where
  "handlers s = (sc_file_rx s, sc_webhook_rx s, sc_file_loop s, sc_webhook_loop s)"

lemma handlers_frame [simp]:
  "handlers (s\<lparr>sc_core := c\<rparr>) = handlers s"
  "handlers (s\<lparr>sc_cron_tasks := x\<rparr>) = handlers s"
  "handlers (s\<lparr>sc_time_condition_tasks := y\<rparr>) = handlers s"
  "handlers (s\<lparr>sc_file_watcher := fw\<rparr>) = handlers s"
  "handlers (s\<lparr>sc_webhook_registry := ws\<rparr>) = handlers s"
  by (simp_all add: handlers_def)

lemma set_up_trigger_handlers:
  assumes "set_up_trigger pf t s w = (s1, w1, r)"
  shows "handlers s1 = handlers s"
  using assms
  by (auto simp: set_up_trigger_def split: task_trigger.splits prod.splits sum.splits)

lemma create_task_handlers:
  assumes "create_task pf t s w = Some (s', w', r)"
  shows "handlers s' = handlers s"
  using assms
  by (auto simp: create_task_def dest!: set_up_trigger_handlers split: option.splits prod.splits sum.splits)

lemma cancel_task_handlers: "cancel_task pf t s w = (s', r) \<Longrightarrow> handlers s' = handlers s"
  by (auto simp: cancel_task_def handlers_def split: if_splits)

lemma check_handlers:
  "check_cron_tasks pf s w = Some (s', w') \<Longrightarrow> handlers s' = handlers s"
  "check_time_conditions pf s w = Some (s', w') \<Longrightarrow> handlers s' = handlers s"
  by (auto simp: check_cron_tasks_def check_time_conditions_def Let_def split: prod.splits)

lemma tick_handlers: "tick pf s w = Some (s', w') \<Longrightarrow> handlers s' = handlers s"
  by (auto simp: tick_def bind_eq_Some_conv dest!: check_handlers)

text \<open>Once a handler has ended, no step brings it back.\<close>

lemma handler_gone_step:
  assumes "sched_step pf (s, w) (s', w')" and "\<not> sc_webhook_rx s" and "sc_webhook_loop s = None"
  shows "\<not> sc_webhook_rx s' \<and> sc_webhook_loop s' = None"
  using assms(1)
proof cases
  case (create t r)
  show ?thesis using create_task_handlers [OF create(2)] assms by (simp add: handlers_def)
next
  case (cancel t r)
  show ?thesis using cancel_task_handlers [OF cancel(2)] assms by (simp add: handlers_def)
next
  case (ticked gen)
  show ?thesis using tick_handlers [OF ticked(2)] assms by (simp add: handlers_def)
next
  case (start r)
  then show ?thesis using assms by (auto simp: scheduler_start_def Let_def split: prod.splits sum.splits)
qed (use assms in \<open>auto simp: cleanup_history_def scheduler_stop_def send_webhook_events_def send_file_events_def\<close>)

text \<open>
  Once the webhook handler has ended after a stop, no later step, a restart included,
  brings it back: requests are still matched and reported as handled, but their events are
  dropped and no task runs for them.
\<close>

theorem restart_loses_webhooks:
  assumes "(sched_step pf)\<^sup>*\<^sup>* (s, w) (s', w')" and "\<not> sc_webhook_rx s" and "sc_webhook_loop s = None"
  shows "sc_webhook_loop s' = None \<and> send_webhook_events evs s' = s'"
proof -
  have "\<not> sc_webhook_rx s' \<and> sc_webhook_loop s' = None"
    using assms(1)
  proof (induction "(s', w')" arbitrary: s' w' rule: rtranclp_induct)
    case base
    then show ?case using assms(2,3) by simp
  next
    case (step y)
    then show ?case by (cases y) (auto dest: handler_gone_step)
  qed
  then show ?thesis by (simp add: send_webhook_events_def)
qed

definition demo_stopped :: "(unit, path set) scheduler" where
  "demo_stopped = demo_new\<lparr>sc_gen := 1, sc_stopped := True, sc_file_rx := False, sc_webhook_rx := False\<rparr>"

theorem restart_loses_webhooks_witness:
  "(sched_step demo_platform)\<^sup>*\<^sup>* (demo_stopped, 0) (fst (scheduler_start demo_platform demo_stopped), 0) \<and>
   sc_webhook_loop (fst (scheduler_start demo_platform demo_stopped)) = None \<and>
   sc_tick_loops (fst (scheduler_start demo_platform demo_stopped)) = [2]"
proof -
  have r: "(sched_step demo_platform)\<^sup>*\<^sup>* (demo_stopped, 0) (fst (scheduler_start demo_platform demo_stopped), 0)"
    by (rule r_into_rtranclp, rule sched_step.start) (rule prod.collapse [symmetric])
  have "\<not> sc_webhook_rx demo_stopped" "sc_webhook_loop demo_stopped = None"
    by (simp_all add: demo_stopped_def demo_new_def scheduler_new_def)
  from restart_loses_webhooks [OF r this] r show ?thesis
    by (simp add: scheduler_start_def fw_start_def demo_platform_def set_notify_def demo_stopped_def demo_new_def
        scheduler_new_def)
qed

end
