(* ===== verification/Expiring_Store.thy ===== *)
theory Expiring_Store
  imports Std_Collections
begin

text \<open>
  The interface the rate limiter, the brute-force protection and the session store share:
  a store whose entries lose their meaning with time, a query, and a clean-up operation that
  may run at any moment. The contract is that a clean-up cannot be observed by a query at
  the same or a later time. The conversions of \<^verbatim>\<open>chrono\<close> between the two duration types
  are a parameter of the stores.
\<close>

record chrono_api =
  from_std :: "nat \<Rightarrow> duration option"
  to_std :: "duration \<Rightarrow> nat option"

text \<open>What \<^verbatim>\<open>chrono\<close> documents: a conversion that succeeds keeps the length, and a
  non-negative duration converts back.\<close>

definition chrono_laws :: "chrono_api \<Rightarrow> bool" where
  "chrono_laws ch \<longleftrightarrow>
     (\<forall>d x. from_std ch d = Some x \<longrightarrow> x = int d) \<and> (\<forall>x. 0 \<le> x \<longrightarrow> to_std ch x = Some (nat x))"

text \<open>\<^verbatim>\<open>chrono::Duration::from_std(d).unwrap_or(chrono::Duration::seconds(default))\<close>\<close>

definition duration_or :: "chrono_api \<Rightarrow> nat \<Rightarrow> int \<Rightarrow> duration" where
  "duration_or ch d default_secs = (case from_std ch d of Some x \<Rightarrow> x | None \<Rightarrow> seconds default_secs)"

definition secs_std :: "nat \<Rightarrow> nat" where
  "secs_std n = n * 1000000000"

locale expiring_store =
  fixes query :: "timestamp \<Rightarrow> 'k \<Rightarrow> 's \<Rightarrow> 'r"
    and cleanup :: "timestamp \<Rightarrow> 's \<Rightarrow> 's"
    and store_inv :: "'s \<Rightarrow> bool"
  assumes cleanup_inv: "store_inv s \<Longrightarrow> store_inv (cleanup now s)"
    and cleanup_query: "store_inv s \<Longrightarrow> now \<le> now' \<Longrightarrow> query now' k (cleanup now s) = query now' k s"
begin

lemma cleanups_inv: "store_inv s \<Longrightarrow> store_inv (fold cleanup ts s)"
  by (induction ts arbitrary: s) (auto simp: cleanup_inv)

lemma cleanups_invisible:
  "store_inv s \<Longrightarrow> \<forall>t \<in> set ts. t \<le> now \<Longrightarrow> query now k (fold cleanup ts s) = query now k s"
  by (induction ts arbitrary: s) (auto simp: cleanup_inv cleanup_query)

end

end
