(* ===== verification/Rate_Limit.thy ===== *)
theory Rate_Limit
  imports Expiring_Store Models
begin

text \<open>
  The sliding-window rate limiter (\<^verbatim>\<open>crates/security-layer/src/rate_limit.rs\<close>). The
  current time is an argument of each operation.
\<close>

definition DEFAULT_RATE_LIMIT :: u32 where
  "DEFAULT_RATE_LIMIT = 100"

definition WINDOW_SIZE :: nat where
  "WINDOW_SIZE = secs_std 60"

record rate_limit_config =
  default_limit :: u32
  window :: nat

definition default_rate_limit_config :: rate_limit_config where
  "default_rate_limit_config = \<lparr>default_limit = DEFAULT_RATE_LIMIT, window = WINDOW_SIZE\<rparr>"

record rate_limiter =
  rl_config :: rate_limit_config
  rl_current_default_limit :: u32
  rl_records :: "(api_key_id, timestamp list) hashmap"

definition rl_new :: "rate_limit_config \<Rightarrow> rate_limiter" where
  "rl_new config = \<lparr>rl_config = config, rl_current_default_limit = default_limit config, rl_records = hm_empty\<rparr>"

definition set_default_limit :: "u32 \<Rightarrow> rate_limiter \<Rightarrow> rate_limiter \<times> u32" where
  "set_default_limit new_limit rl =
     (rl\<lparr>rl_current_default_limit := max new_limit 1\<rparr>, rl_current_default_limit rl)"

definition rl_window :: "chrono_api \<Rightarrow> rate_limiter \<Rightarrow> duration" where
  "rl_window ch rl = duration_or ch (window (rl_config rl)) 60"

text \<open>\<^verbatim>\<open>timestamps.retain(|t| *t >= window_start)\<close>\<close>

definition in_window :: "timestamp \<Rightarrow> timestamp list \<Rightarrow> timestamp list" where
  "in_window window_start ts = filter (\<lambda>t. t \<ge> window_start) ts"

definition timestamps_of :: "api_key_id \<Rightarrow> rate_limiter \<Rightarrow> timestamp list" where
  "timestamps_of k rl = (case hm_get (rl_records rl) k of Some ts \<Rightarrow> ts | None \<Rightarrow> [])"

definition retry_after_of :: "chrono_api \<Rightarrow> duration \<Rightarrow> timestamp \<Rightarrow> timestamp list \<Rightarrow> nat" where
  "retry_after_of ch w now ts =
     (let oldest = (case ts of t # _ \<Rightarrow> t | [] \<Rightarrow> now);
          expires_at = oldest + w
      in if expires_at > now
         then (case to_std ch (expires_at - now) of Some d \<Rightarrow> d | None \<Rightarrow> secs_std 1)
         else secs_std 1)"

definition check_rate_limit :: "chrono_api \<Rightarrow> timestamp \<Rightarrow> api_key_id \<Rightarrow> u32 option \<Rightarrow> rate_limiter \<Rightarrow>
    rate_limiter \<times> (security_error + unit)" where
  "check_rate_limit ch now k key_limit rl =
     (let limit = (case key_limit of Some l \<Rightarrow> l | None \<Rightarrow> rl_current_default_limit rl);
          w = rl_window ch rl;
          ts = in_window (now - w) (timestamps_of k rl)
      in if length ts \<ge> unat limit
         then (rl\<lparr>rl_records := hm_insert k ts (rl_records rl)\<rparr>,
               Inl (RateLimitExceeded (retry_after_of ch w now ts)))
         else (rl\<lparr>rl_records := hm_insert k (ts @ [now]) (rl_records rl)\<rparr>, Inr ()))"

definition rl_cleanup_expired :: "chrono_api \<Rightarrow> timestamp \<Rightarrow> rate_limiter \<Rightarrow> rate_limiter" where
  "rl_cleanup_expired ch now rl =
     rl\<lparr>rl_records := hm_retain (\<lambda>_ ts. ts \<noteq> [])
          (hm_map_values (in_window (now - rl_window ch rl)) (rl_records rl))\<rparr>"

definition tracked_key_count :: "rate_limiter \<Rightarrow> nat" where
  "tracked_key_count rl = hm_len (rl_records rl)"

definition current_count :: "chrono_api \<Rightarrow> timestamp \<Rightarrow> api_key_id \<Rightarrow> rate_limiter \<Rightarrow> u32" where
  "current_count ch now k rl =
     (case hm_get (rl_records rl) k of
        Some ts \<Rightarrow> of_nat (length (in_window (now - rl_window ch rl) ts))
      | None \<Rightarrow> 0)"

subsection \<open>Lemmas\<close>

definition rl_inv :: "rate_limiter \<Rightarrow> bool" where
  "rl_inv rl \<longleftrightarrow> hm_inv (rl_records rl)"

lemma in_window_twice: "a \<le> b \<Longrightarrow> in_window b (in_window a ts) = in_window b ts"
  unfolding in_window_def filter_filter by (rule filter_cong) auto

lemma in_window_length_mono: "a \<le> b \<Longrightarrow> length (in_window b ts) \<le> length (in_window a ts)"
  by (metis in_window_def in_window_twice length_filter_le)

lemma in_window_append [simp]: "in_window a (xs @ ys) = in_window a xs @ in_window a ys"
  by (simp add: in_window_def)

lemma rl_window_update [simp]: "rl_window ch (rl\<lparr>rl_records := r\<rparr>) = rl_window ch rl"
  by (simp add: rl_window_def)

lemma timestamps_of_insert [simp]:
  "timestamps_of k (rl\<lparr>rl_records := hm_insert k' ts (rl_records rl)\<rparr>) = (if k = k' then ts else timestamps_of k rl)"
  by (simp add: timestamps_of_def)

lemma current_count_timestamps:
  "current_count ch now k rl = of_nat (length (in_window (now - rl_window ch rl) (timestamps_of k rl)))"
  by (auto simp: current_count_def timestamps_of_def in_window_def split: option.split)

lemma timestamps_of_cleanup:
  "rl_inv rl \<Longrightarrow> timestamps_of k (rl_cleanup_expired ch now rl) = in_window (now - rl_window ch rl) (timestamps_of k rl)"
  by (auto simp: timestamps_of_def rl_cleanup_expired_def rl_inv_def hm_get_retain in_window_def split: option.split)

lemma rl_window_cleanup [simp]: "rl_window ch (rl_cleanup_expired ch now rl) = rl_window ch rl"
  by (simp add: rl_cleanup_expired_def)

interpretation rl: expiring_store "current_count ch" "rl_cleanup_expired ch" rl_inv for ch
proof unfold_locales
  fix s now now' k
  assume "rl_inv s"
  then show "rl_inv (rl_cleanup_expired ch now s)"
    by (simp add: rl_inv_def rl_cleanup_expired_def)
  assume "now \<le> now'"
  then show "current_count ch now' k (rl_cleanup_expired ch now s) = current_count ch now' k s"
    using \<open>rl_inv s\<close> by (simp add: current_count_timestamps timestamps_of_cleanup in_window_twice)
qed

lemma check_rate_limit_inv: "rl_inv rl \<Longrightarrow> rl_inv (fst (check_rate_limit ch now k kl rl))"
  by (simp add: check_rate_limit_def rl_inv_def Let_def)

subsection \<open>Traces\<close>

text \<open>The calls a limiter receives, with the time of each, and the times at which requests of
  a key are accepted.\<close>

datatype rl_call = Check timestamp api_key_id "u32 option" | Cleanup timestamp | SetDefault timestamp u32

fun call_time :: "rl_call \<Rightarrow> timestamp" where
  "call_time (Check t _ _) = t"
| "call_time (Cleanup t) = t"
| "call_time (SetDefault t _) = t"

fun rl_apply :: "chrono_api \<Rightarrow> rl_call \<Rightarrow> rate_limiter \<times> (api_key_id \<Rightarrow> timestamp list) \<Rightarrow>
    rate_limiter \<times> (api_key_id \<Rightarrow> timestamp list)" where
  "rl_apply ch (Check now k kl) (rl, acc) =
     (case check_rate_limit ch now k kl rl of
        (rl', Inl _) \<Rightarrow> (rl', acc)
      | (rl', Inr _) \<Rightarrow> (rl', acc(k := acc k @ [now])))"
| "rl_apply ch (Cleanup now) (rl, acc) = (rl_cleanup_expired ch now rl, acc)"
| "rl_apply ch (SetDefault now l) (rl, acc) = (fst (set_default_limit l rl), acc)"

definition rl_run :: "chrono_api \<Rightarrow> rate_limit_config \<Rightarrow> rl_call list \<Rightarrow> rate_limiter \<times> (api_key_id \<Rightarrow> timestamp list)" where
  "rl_run ch config calls = fold (rl_apply ch) calls (rl_new config, \<lambda>_. [])"

text \<open>The records agree with the accepted requests as far as any later window can see.\<close>

definition rl_tracks :: "chrono_api \<Rightarrow> duration \<Rightarrow> timestamp \<Rightarrow> rate_limiter \<times> (api_key_id \<Rightarrow> timestamp list) \<Rightarrow> bool" where
  "rl_tracks ch w now0 st \<longleftrightarrow> rl_inv (fst st) \<and> rl_window ch (fst st) = w \<and>
     (\<forall>k. \<forall>t \<in> set (snd st k). t \<le> now0) \<and>
     (\<forall>now k. now0 \<le> now \<longrightarrow> in_window (now - w) (timestamps_of k (fst st)) = in_window (now - w) (snd st k))"

lemma rl_tracks_later: "rl_tracks ch w now0 st \<Longrightarrow> now0 \<le> later \<Longrightarrow> rl_tracks ch w later st"
  unfolding rl_tracks_def by (meson order_trans)

lemma rl_apply_tracks:
  assumes "rl_tracks ch w now0 st" and "now0 \<le> call_time c"
  shows "rl_tracks ch w (call_time c) (rl_apply ch c st)"
proof -
  have t: "rl_tracks ch w (call_time c) st" using rl_tracks_later [OF assms] .
  obtain rl acc where st: "st = (rl, acc)" by fastforce
  show ?thesis
  proof (cases c)
    case (Check now k kl)
    have tw: "in_window (b - w) (in_window (now - w) ts) = in_window (b - w) ts" if "now \<le> b" for b ts
      using that by (intro in_window_twice) simp
    show ?thesis
      using t Check st
      by (auto simp: rl_tracks_def check_rate_limit_def Let_def rl_inv_def tw split: option.split)
  next
    case (Cleanup now)
    then show ?thesis using t st rl.cleanup_inv [of rl ch now]
      by (auto simp: rl_tracks_def timestamps_of_cleanup in_window_twice)
  next
    case (SetDefault now l)
    then show ?thesis using t st
      by (simp add: rl_tracks_def set_default_limit_def rl_inv_def rl_window_def timestamps_of_def)
  qed
qed

lemma rl_run_snoc: "rl_run ch config (calls @ [c]) = rl_apply ch c (rl_run ch config calls)"
  by (simp add: rl_run_def)

lemma rl_run_tracks:
  assumes "sorted (map call_time calls)" and "\<forall>c \<in> set calls. call_time c \<le> now"
  shows "rl_tracks ch (duration_or ch (window config) 60) now (rl_run ch config calls)"
  using assms
proof (induction calls arbitrary: now rule: rev_induct)
  case Nil
  then show ?case by (simp add: rl_tracks_def rl_run_def rl_new_def rl_inv_def rl_window_def timestamps_of_def)
next
  case (snoc c calls)
  have "rl_tracks ch (duration_or ch (window config) 60) (call_time c) (rl_run ch config calls)"
    using snoc by (simp add: sorted_append)
  from rl_apply_tracks [OF this] show ?case
    using snoc.prems(2) by (simp add: rl_run_snoc) (meson order_refl rl_tracks_later)
qed

text \<open>Every limit in force for the key is at most \<open>L\<close>.\<close>

fun call_limit_ok :: "nat \<Rightarrow> api_key_id \<Rightarrow> rl_call \<Rightarrow> bool" where
  "call_limit_ok L k (Check _ k' (Some l)) = (k' = k \<longrightarrow> unat l \<le> L)"
| "call_limit_ok L k (SetDefault _ l) = (unat (max l 1) \<le> L)"
| "call_limit_ok L k _ = True"

lemma rl_default_le:
  assumes "unat (default_limit config) \<le> L" "\<forall>c \<in> set calls. call_limit_ok L k c"
  shows "unat (rl_current_default_limit (fst (rl_run ch config calls))) \<le> L"
  using assms(2)
proof (induction calls rule: rev_induct)
  case Nil
  then show ?case using assms(1) by (simp add: rl_run_def rl_new_def)
next
  case (snoc c calls)
  obtain rl acc where r: "rl_run ch config calls = (rl, acc)" by fastforce
  show ?case
    using snoc r
    by (cases c) (auto simp: rl_run_snoc check_rate_limit_def Let_def rl_cleanup_expired_def set_default_limit_def)
qed

text \<open>The accepted requests of a key in the window that ends at \<open>T\<close>.\<close>

definition accepted_in :: "duration \<Rightarrow> timestamp \<Rightarrow> timestamp list \<Rightarrow> nat" where
  "accepted_in w T ts = length (filter (\<lambda>t. T - w \<le> t \<and> t \<le> T) ts)"

lemma accepted_in_le: "accepted_in w T ts \<le> length (in_window (T - w) ts)"
  unfolding accepted_in_def in_window_def by (induction ts) auto

lemma accepted_in_snoc:
  assumes "now \<le> T \<longrightarrow> Suc (length (in_window (now - w) ts)) \<le> L" and "accepted_in w T ts \<le> L"
  shows "accepted_in w T (ts @ [now]) \<le> L"
proof (cases "now \<le> T")
  case True
  have "accepted_in w T (ts @ [now]) \<le> Suc (length (in_window (T - w) ts))"
    using accepted_in_le [of w T "ts @ [now]"] by (simp add: in_window_def split: if_splits)
  also have "\<dots> \<le> Suc (length (in_window (now - w) ts))"
    using True in_window_length_mono [of "now - w" "T - w" ts] by simp
  finally show ?thesis using assms(1) True by simp
next
  case False
  then show ?thesis using assms(2) by (simp add: accepted_in_def)
qed

lemma window_bound:
  assumes "sorted (map call_time calls)" and "unat (default_limit config) \<le> L"
    and "\<forall>c \<in> set calls. call_limit_ok L k c"
  shows "accepted_in (duration_or ch (window config) 60) T (snd (rl_run ch config calls) k) \<le> L"
  using assms(1,3)
proof (induction calls rule: rev_induct)
  case Nil
  then show ?case by (simp add: rl_run_def accepted_in_def)
next
  case (snoc c calls)
  let ?w = "duration_or ch (window config) 60"
  obtain rl acc where r: "rl_run ch config calls = (rl, acc)" by fastforce
  have IH: "accepted_in ?w T (acc k) \<le> L" using snoc r by (simp add: sorted_append)
  show ?case
  proof (cases "\<exists>now kl. c = Check now k kl \<and> snd (check_rate_limit ch now k kl rl) = Inr ()")
    case False
    then have "snd (rl_apply ch c (rl, acc)) k = acc k"
      by (cases c) (auto split: prod.split sum.split)
    then show ?thesis using IH r by (simp add: rl_run_snoc)
  next
    case True
    then obtain now kl where c: "c = Check now k kl" and ok: "snd (check_rate_limit ch now k kl rl) = Inr ()" by blast
    have "rl_tracks ch ?w now (rl, acc)"
      using rl_run_tracks [of calls now ch config] snoc.prems(1) r c by (simp add: sorted_append)
    then have same: "in_window (now - ?w) (timestamps_of k rl) = in_window (now - ?w) (acc k)" "rl_window ch rl = ?w"
      by (auto simp: rl_tracks_def)
    have "unat (rl_current_default_limit rl) \<le> L"
      using rl_default_le [OF assms(2), of calls k ch] snoc.prems(2) r by simp
    then have "unat (case kl of Some l \<Rightarrow> l | None \<Rightarrow> rl_current_default_limit rl) \<le> L"
      using snoc.prems(2) c by (auto split: option.split)
    then have "Suc (length (in_window (now - ?w) (acc k))) \<le> L"
      using ok same by (auto simp: check_rate_limit_def Let_def split: if_splits)
    then have "accepted_in ?w T (acc k @ [now]) \<le> L" using IH by (intro accepted_in_snoc) simp_all
    moreover have "snd (rl_apply ch c (rl, acc)) k = acc k @ [now]"
      using c ok by (auto split: prod.split sum.split)
    ultimately show ?thesis using r by (simp add: rl_run_snoc)
  qed
qed

subsection \<open>Properties\<close>


definition exact_chrono :: chrono_api where
  "exact_chrono = \<lparr>from_std = (\<lambda>d. Some (int d)), to_std = (\<lambda>x. if 0 \<le> x then Some (nat x) else None)\<rparr>"

lemma exact_chrono_laws: "chrono_laws exact_chrono"
  by (simp add: chrono_laws_def exact_chrono_def)

definition burst :: "rl_call list" where
  "burst = [Check 0 1 (Some 2), Check 5 1 (Some 2), Cleanup 6, Check 7 1 (Some 2), SetDefault 8 1]"


text \<open>
  The announced \<open>retry_after\<close> is one clock unit too short: when a key is at its limit,
  with requests at distinct times in the window, a request made exactly
  \<open>retry_after\<close> later is rejected again, because the window keeps its left end, and one
  nanosecond after that the next request is accepted.
\<close>

theorem retry_after_boundary:
  assumes "chrono_laws ch" and "w = rl_window ch rl"
    and "in_window (now - w) (timestamps_of k rl) = old # rest" and "sorted_wrt (<) (old # rest)"
    and "now < old + w" and "unat limit = Suc (length rest)"
    and "check_rate_limit ch now k (Some limit) rl = (rl', r)"
  shows "\<exists>d. r = Inl (RateLimitExceeded d) \<and> now + int d = old + w \<and>
    snd (check_rate_limit ch (now + int d) k (Some limit) rl') = Inl (RateLimitExceeded (secs_std 1)) \<and>
    snd (check_rate_limit ch (now + int d + 1) k (Some limit) rl') = Inr ()"
proof -
  let ?d = "nat (old + w - now)"
  have std: "to_std ch (old + w - now) = Some ?d" using assms(1,5) by (simp add: chrono_laws_def)
  have r: "r = Inl (RateLimitExceeded ?d)" and rl': "timestamps_of k rl' = old # rest" "rl_window ch rl' = w"
    using assms std by (auto simp: check_rate_limit_def Let_def retry_after_of_def)
  have d: "now + int ?d = old + w" using assms(5) by simp
  have keep: "in_window (now + int ?d - w) (old # rest) = old # rest"
    using assms(4) d by (auto simp: in_window_def filter_id_conv)
  have drop: "in_window (now + int ?d + 1 - w) (old # rest) = rest"
    using assms(4) d by (auto simp: in_window_def filter_id_conv)
  have "snd (check_rate_limit ch (now + int ?d) k (Some limit) rl') = Inl (RateLimitExceeded (secs_std 1))"
    unfolding check_rate_limit_def Let_def rl' keep using assms(6) d by (simp add: retry_after_of_def)
  moreover have "snd (check_rate_limit ch (now + int ?d + 1) k (Some limit) rl') = Inr ()"
    unfolding check_rate_limit_def Let_def rl' drop using assms(6) by simp
  ultimately show ?thesis using r d by blast
qed

theorem retry_after_boundary_witness:
  "\<exists>rl' d. check_rate_limit exact_chrono 10 1 (Some 1)
      \<lparr>rl_config = default_rate_limit_config, rl_current_default_limit = 100, rl_records = [(1, [4])]\<rparr> =
      (rl', Inl (RateLimitExceeded d)) \<and>
    snd (check_rate_limit exact_chrono (10 + int d) 1 (Some 1) rl') = Inl (RateLimitExceeded (secs_std 1))"
proof -
  let ?rl = "\<lparr>rl_config = default_rate_limit_config, rl_current_default_limit = 100, rl_records = [(1, [4])]\<rparr>"
  have w: "rl_window exact_chrono ?rl = 60000000000"
    by (simp add: rl_window_def duration_or_def exact_chrono_def default_rate_limit_config_def WINDOW_SIZE_def secs_std_def)
  obtain rl' r where c: "check_rate_limit exact_chrono 10 1 (Some 1) ?rl = (rl', r)" by fastforce
  have i: "in_window (10 - 60000000000) (timestamps_of 1 ?rl) = 4 # []"
    by (simp add: in_window_def timestamps_of_def)
  from retry_after_boundary [OF exact_chrono_laws w [symmetric] i _ _ _ c] c show ?thesis by auto
qed

end
