(* ===== verification/Brute_Force.thy ===== *)
theory Brute_Force
  imports Rate_Limit
begin

text \<open>
  Brute-force protection (\<^verbatim>\<open>crates/security-layer/src/brute_force.rs\<close>): failed
  authentications per IP address and temporary blocks. IP addresses are only compared, so
  they are any type \<open>'ip\<close>.
\<close>

record brute_force_config =
  max_failures :: u32
  failure_window :: nat
  block_duration :: nat

definition default_brute_force_config :: brute_force_config where
  "default_brute_force_config = \<lparr>max_failures = 5, failure_window = secs_std (10 * 60),
     block_duration = secs_std (15 * 60)\<rparr>"

record failure_record =
  attempts :: "timestamp list"
  blocked_until :: "timestamp option"

record 'ip brute_force =
  bf_config :: brute_force_config
  bf_records :: "('ip, failure_record) hashmap"

definition bf_new :: "brute_force_config \<Rightarrow> 'ip brute_force" where
  "bf_new config = \<lparr>bf_config = config, bf_records = hm_empty\<rparr>"

definition check_ip :: "timestamp \<Rightarrow> 'ip \<Rightarrow> 'ip brute_force \<Rightarrow> security_error + unit" where
  "check_ip now ip bf =
     (case hm_get (bf_records bf) ip of
        Some r \<Rightarrow>
          (case blocked_until r of
             Some u \<Rightarrow> if now < u then Inl (IpBlocked u) else Inr ()
           | None \<Rightarrow> Inr ())
      | None \<Rightarrow> Inr ())"

definition empty_failures :: failure_record where
  "empty_failures = \<lparr>attempts = [], blocked_until = None\<rparr>"

text \<open>The part of \<open>record_failure\<close> after the check of an active block.\<close>

definition count_failure :: "chrono_api \<Rightarrow> brute_force_config \<Rightarrow> timestamp \<Rightarrow> failure_record \<Rightarrow> failure_record" where
  "count_failure ch config now r =
     (let window_start = now - duration_or ch (failure_window config) 600;
          as = filter (\<lambda>t. t \<ge> window_start) (attempts r @ [now])
      in if length as \<ge> unat (max_failures config)
         then \<lparr>attempts = [], blocked_until = Some (now + duration_or ch (block_duration config) 900)\<rparr>
         else r\<lparr>attempts := as\<rparr>)"

definition record_failure :: "chrono_api \<Rightarrow> timestamp \<Rightarrow> 'ip \<Rightarrow> 'ip brute_force \<Rightarrow> 'ip brute_force" where
  "record_failure ch now ip bf =
     (let r = (case hm_get (bf_records bf) ip of Some r \<Rightarrow> r | None \<Rightarrow> empty_failures);
          r' = (case blocked_until r of
                  Some u \<Rightarrow> if now < u then r else count_failure ch (bf_config bf) now empty_failures
                | None \<Rightarrow> count_failure ch (bf_config bf) now r)
      in bf\<lparr>bf_records := hm_insert ip r' (bf_records bf)\<rparr>)"

definition record_success :: "'ip \<Rightarrow> 'ip brute_force \<Rightarrow> 'ip brute_force" where
  "record_success ip bf =
     bf\<lparr>bf_records := hm_modify ip (\<lambda>r. if blocked_until r = None then r\<lparr>attempts := []\<rparr> else r) (bf_records bf)\<rparr>"

definition bf_keep :: "timestamp \<Rightarrow> failure_record \<Rightarrow> bool" where
  "bf_keep now r =
     (if (case blocked_until r of Some u \<Rightarrow> now \<ge> u | None \<Rightarrow> False) then False
      else if attempts r = [] \<and> blocked_until r = None then False
      else True)"

definition bf_cleanup_expired :: "timestamp \<Rightarrow> 'ip brute_force \<Rightarrow> 'ip brute_force" where
  "bf_cleanup_expired now bf = bf\<lparr>bf_records := hm_retain (\<lambda>_ r. bf_keep now r) (bf_records bf)\<rparr>"

definition tracked_ip_count :: "'ip brute_force \<Rightarrow> nat" where
  "tracked_ip_count bf = hm_len (bf_records bf)"

subsection \<open>Lemmas\<close>

definition failures_of :: "'ip \<Rightarrow> 'ip brute_force \<Rightarrow> failure_record" where
  "failures_of ip bf = (case hm_get (bf_records bf) ip of Some r \<Rightarrow> r | None \<Rightarrow> empty_failures)"

definition bf_inv :: "'ip brute_force \<Rightarrow> bool" where
  "bf_inv bf \<longleftrightarrow> hm_inv (bf_records bf)"

lemma check_ip_failures:
  "check_ip now ip bf =
     (case blocked_until (failures_of ip bf) of
        Some u \<Rightarrow> if now < u then Inl (IpBlocked u) else Inr ()
      | None \<Rightarrow> Inr ())"
  by (simp add: check_ip_def failures_of_def empty_failures_def split: option.split)

lemma failures_of_record_failure:
  "failures_of ip (record_failure ch now ip' bf) =
     (if ip = ip' then
        (case blocked_until (failures_of ip bf) of
           Some u \<Rightarrow> if now < u then failures_of ip bf else count_failure ch (bf_config bf) now empty_failures
         | None \<Rightarrow> count_failure ch (bf_config bf) now (failures_of ip bf))
      else failures_of ip bf)"
  unfolding record_failure_def failures_of_def Let_def
  by (cases "ip = ip'") (hypsubst, simp_all)

lemma bf_config_record_failure [simp]: "bf_config (record_failure ch now ip bf) = bf_config bf"
  by (simp add: record_failure_def Let_def)

interpretation bf: expiring_store check_ip bf_cleanup_expired bf_inv
proof unfold_locales
  fix s :: "'ip brute_force" and now now' ip
  assume inv: "bf_inv s"
  then show "bf_inv (bf_cleanup_expired now s)" by (simp add: bf_inv_def bf_cleanup_expired_def)
  assume "now \<le> now'"
  then show "check_ip now' ip (bf_cleanup_expired now s) = check_ip now' ip s"
    using inv
    by (auto simp: check_ip_def bf_cleanup_expired_def bf_inv_def hm_get_retain bf_keep_def split: option.splits)
qed

text \<open>Below the threshold a failure within the window is only recorded.\<close>

lemma count_failure_below:
  assumes "\<forall>t \<in> set as. now - duration_or ch (failure_window config) 600 \<le> t"
    and "0 \<le> duration_or ch (failure_window config) 600" and "Suc (length as) < unat (max_failures config)"
  shows "count_failure ch config now \<lparr>attempts = as, blocked_until = None\<rparr> =
    \<lparr>attempts = as @ [now], blocked_until = None\<rparr>"
  using assms by (simp add: count_failure_def Let_def filter_id_conv)

lemma count_failure_reached:
  assumes "\<forall>t \<in> set as. now - duration_or ch (failure_window config) 600 \<le> t"
    and "0 \<le> duration_or ch (failure_window config) 600" and "unat (max_failures config) \<le> Suc (length as)"
  shows "count_failure ch config now \<lparr>attempts = as, blocked_until = None\<rparr> =
    \<lparr>attempts = [], blocked_until = Some (now + duration_or ch (block_duration config) 900)\<rparr>"
  using assms by (simp add: count_failure_def Let_def filter_id_conv)

lemma failures_accumulate:
  assumes "sorted ts" "ts \<noteq> []" "last ts - hd ts \<le> duration_or ch (failure_window (bf_config bf)) 600"
    and "failures_of ip bf = empty_failures" and "length ts < unat (max_failures (bf_config bf))"
  shows "failures_of ip (fold (\<lambda>t. record_failure ch t ip) ts bf) = \<lparr>attempts = ts, blocked_until = None\<rparr>"
  using assms
proof (induction ts rule: rev_induct)
  case (snoc t ts)
  have t: "\<forall>x \<in> set ts. t - duration_or ch (failure_window (bf_config bf)) 600 \<le> x"
    using snoc.prems(1,3) by (cases ts) (auto simp: sorted_append)
  have pos: "0 \<le> duration_or ch (failure_window (bf_config bf)) 600"
    using snoc.prems(1,3) by (cases ts) (auto simp: sorted_append)
  have cfg: "bf_config (fold (\<lambda>t. record_failure ch t ip) ts bf) = bf_config bf"
    by (induction ts arbitrary: bf) auto
  have IH: "failures_of ip (fold (\<lambda>t. record_failure ch t ip) ts bf) = \<lparr>attempts = ts, blocked_until = None\<rparr>"
  proof (cases "ts = []")
    case True
    then show ?thesis using snoc.prems(4) by (simp add: empty_failures_def)
  next
    case False
    have "last ts \<le> t" using snoc.prems(1) last_in_set [OF False] by (simp add: sorted_append)
    then have "last ts - hd ts \<le> duration_or ch (failure_window (bf_config bf)) 600"
      using snoc.prems(3) False by simp
    then show ?thesis using snoc False by (simp add: sorted_append)
  qed
  then show ?case
    using count_failure_below [OF t pos] snoc.prems(5) by (simp add: failures_of_record_failure cfg)
qed simp


subsection \<open>Properties\<close>

text \<open>
  C35: an address without a record that fails as often as the threshold within the failure
  window is blocked by its last failure until the end of the block and not longer; before
  that failure it is not blocked; and the failures of one address do not affect another.
\<close>

theorem brute_force_blocks:
  assumes "sorted (ts @ [now])" and "now - hd (ts @ [now]) \<le> duration_or ch (failure_window (bf_config bf)) 600"
    and "hm_get (bf_records bf) ip = None" and "Suc (length ts) = unat (max_failures (bf_config bf))"
    and "bf' = fold (\<lambda>t. record_failure ch t ip) ts bf" and "until = now + duration_or ch (block_duration (bf_config bf)) 900"
  shows "check_ip t ip bf' = Inr () \<and>
    (t < until \<longrightarrow> check_ip t ip (record_failure ch now ip bf') = Inl (IpBlocked until)) \<and>
    (until \<le> t \<longrightarrow> check_ip t ip (record_failure ch now ip bf') = Inr ()) \<and>
    (ip' \<noteq> ip \<longrightarrow> check_ip t ip' (record_failure ch now ip bf') = check_ip t ip' bf)"
proof -
  have empty: "failures_of ip bf = empty_failures" using assms(3) by (simp add: failures_of_def)
  have cfg: "bf_config bf' = bf_config bf" unfolding assms(5) by (induction ts arbitrary: bf) auto
  have other: "ip' \<noteq> ip \<Longrightarrow> failures_of ip' bf' = failures_of ip' bf"
    unfolding assms(5) by (induction ts arbitrary: bf) (auto simp: failures_of_record_failure)
  have pos: "0 \<le> duration_or ch (failure_window (bf_config bf)) 600"
    using assms(1,2) by (cases ts) (auto simp: sorted_append)
  have recent: "\<forall>x \<in> set ts. now - duration_or ch (failure_window (bf_config bf)) 600 \<le> x"
    using assms(1,2) by (cases ts) (auto simp: sorted_append)
  have as: "failures_of ip bf' = \<lparr>attempts = ts, blocked_until = None\<rparr>"
  proof (cases "ts = []")
    case True
    then show ?thesis using empty assms(5) by (simp add: empty_failures_def)
  next
    case False
    have "last ts \<le> now" using assms(1) last_in_set [OF False] by (simp add: sorted_append)
    then have "last ts - hd ts \<le> duration_or ch (failure_window (bf_config bf)) 600" using assms(2) False by simp
    then show ?thesis
      unfolding assms(5) using failures_accumulate [OF _ False _ empty] assms(1,4) by (simp add: sorted_append)
  qed
  show ?thesis
    using count_failure_reached [OF recent pos] assms(4,6) as cfg other
    by (simp add: check_ip_failures failures_of_record_failure)
qed

theorem brute_force_blocks_witness:
  "let bf = bf_new default_brute_force_config :: nat brute_force;
       bf' = fold (\<lambda>t. record_failure exact_chrono t 1) [0, 1, 2, 3] bf
   in check_ip 5 1 bf' = Inr () \<and>
     check_ip 5 1 (record_failure exact_chrono 4 1 bf') = Inl (IpBlocked (4 + seconds 900))"
proof -
  let ?bf = "bf_new default_brute_force_config :: nat brute_force"
  have c: "bf_config ?bf = default_brute_force_config" by (simp add: bf_new_def)
  have w: "duration_or exact_chrono (failure_window (bf_config ?bf)) 600 = 600000000000"
      "duration_or exact_chrono (block_duration (bf_config ?bf)) 900 = seconds 900"
    unfolding c by (simp_all add: duration_or_def exact_chrono_def default_brute_force_config_def secs_std_def seconds_def)
  have n: "Suc (length [0 :: int, 1, 2, 3]) = unat (max_failures (bf_config ?bf))"
    unfolding c by (simp add: default_brute_force_config_def)
  from brute_force_blocks [of "[0, 1, 2, 3]" 4 exact_chrono ?bf 1 _ "4 + seconds 900" 5, OF _ _ _ n refl]
  show ?thesis unfolding Let_def w by (simp add: bf_new_def seconds_def)
qed

end
