(* ===== verification/Session_Tokens.thy ===== *)
theory Session_Tokens
  imports Expiring_Store Models
begin

text \<open>
  Login sessions (\<^verbatim>\<open>crates/security-layer/src/auth/session.rs\<close>). The random bytes, the
  session identifier, the time and the \<^verbatim>\<open>hex\<close> crate's encoding are arguments.
\<close>

definition SESSION_TOKEN_BYTES :: nat where
  "SESSION_TOKEN_BYTES = 32"

record session_manager =
  sm_sessions :: "(string, session) hashmap"
  sm_timeout_minutes :: u32

definition sm_new :: "u32 \<Rightarrow> session_manager" where
  "sm_new timeout = \<lparr>sm_sessions = hm_empty, sm_timeout_minutes = timeout\<rparr>"

definition sm_timeout :: "session_manager \<Rightarrow> duration" where
  "sm_timeout sm = seconds (60 * int (unat (sm_timeout_minutes sm)))"

definition generate_session_token :: "(u8 list \<Rightarrow> string) \<Rightarrow> (nat \<Rightarrow> u8) \<Rightarrow> string" where
  "generate_session_token hex_encode rng = hex_encode (map rng [0..<SESSION_TOKEN_BYTES])"

definition create_session :: "string \<Rightarrow> session_id \<Rightarrow> timestamp \<Rightarrow> user_id \<Rightarrow> session_manager \<Rightarrow> session_manager \<times> session" where
  "create_session token sid now user sm =
     (let session = \<lparr>s_id = sid, s_user_id = user, s_created_at = now, s_last_activity = now, s_token = token,
            s_mode = default_agent_mode\<rparr>
      in (sm\<lparr>sm_sessions := hm_insert token session (sm_sessions sm)\<rparr>, session))"

definition validate_session :: "timestamp \<Rightarrow> string \<Rightarrow> session_manager \<Rightarrow> session_manager \<times> (security_error + session)" where
  "validate_session now token sm =
     (case hm_get (sm_sessions sm) token of
        Some s \<Rightarrow>
          if now - s_last_activity s > sm_timeout sm
          then (sm\<lparr>sm_sessions := hm_remove token (sm_sessions sm)\<rparr>, Inl SessionExpired)
          else let updated = s\<lparr>s_last_activity := now\<rparr>
               in (sm\<lparr>sm_sessions := hm_insert token updated (sm_sessions sm)\<rparr>, Inr updated)
      | None \<Rightarrow> (sm, Inl SessionExpired))"

definition invalidate_session :: "string \<Rightarrow> session_manager \<Rightarrow> session_manager \<times> (security_error + unit)" where
  "invalidate_session token sm = (sm\<lparr>sm_sessions := hm_remove token (sm_sessions sm)\<rparr>, Inr ())"

definition sm_cleanup_expired :: "timestamp \<Rightarrow> session_manager \<Rightarrow> session_manager \<times> nat" where
  "sm_cleanup_expired now sm =
     (let kept = hm_retain (\<lambda>_ s. now - s_last_activity s \<le> sm_timeout sm) (sm_sessions sm)
      in (sm\<lparr>sm_sessions := kept\<rparr>, hm_len (sm_sessions sm) - hm_len kept))"

definition active_session_count :: "timestamp \<Rightarrow> session_manager \<Rightarrow> nat" where
  "active_session_count now sm =
     length (filter (\<lambda>s. now - s_last_activity s \<le> sm_timeout sm) (map snd (sm_sessions sm)))"

definition is_session_valid :: "timestamp \<Rightarrow> string \<Rightarrow> session_manager \<Rightarrow> bool" where
  "is_session_valid now token sm =
     (case hm_get (sm_sessions sm) token of
        Some s \<Rightarrow> now - s_last_activity s \<le> sm_timeout sm
      | None \<Rightarrow> False)"

subsection \<open>Lemmas\<close>

definition sm_inv :: "session_manager \<Rightarrow> bool" where
  "sm_inv sm \<longleftrightarrow> hm_inv (sm_sessions sm) \<and> (\<forall>k s. hm_get (sm_sessions sm) k = Some s \<longrightarrow> s_token s = k)"

lemma sm_timeout_update [simp]: "sm_timeout (sm\<lparr>sm_sessions := x\<rparr>) = sm_timeout sm"
  by (simp add: sm_timeout_def)

interpretation sm: expiring_store is_session_valid "\<lambda>now sm. fst (sm_cleanup_expired now sm)" sm_inv
proof unfold_locales
  fix s now now' k
  assume inv: "sm_inv s"
  then show "sm_inv (fst (sm_cleanup_expired now s))"
    by (auto simp: sm_inv_def sm_cleanup_expired_def Let_def hm_get_retain split: option.splits if_splits)
  assume "now \<le> now'"
  then show "is_session_valid now' k (fst (sm_cleanup_expired now s)) = is_session_valid now' k s"
    using inv
    by (auto simp: is_session_valid_def sm_cleanup_expired_def Let_def hm_get_retain sm_inv_def split: option.splits)
qed

lemma sm_inv_create: "sm_inv sm \<Longrightarrow> sm_inv (fst (create_session token sid now user sm))"
  by (auto simp: sm_inv_def create_session_def Let_def)

lemma sm_inv_validate: "sm_inv sm \<Longrightarrow> sm_inv (fst (validate_session now token sm))"
  by (auto simp: sm_inv_def validate_session_def Let_def split: option.split)

lemma validate_is_valid: "(\<exists>s. snd (validate_session now token sm) = Inr s) \<longleftrightarrow> is_session_valid now token sm"
  by (auto simp: validate_session_def is_session_valid_def Let_def split: option.split)

lemma cleanup_count:
  "sm_inv sm \<Longrightarrow> active_session_count now sm = hm_len (sm_sessions (fst (sm_cleanup_expired now sm)))"
  by (simp add: active_session_count_def sm_cleanup_expired_def hm_retain_def Let_def filter_map o_def case_prod_unfold)

subsection \<open>The life of a session\<close>

text \<open>The calls that can touch one session: validations of its token, and clean-ups and
  validations of other tokens.\<close>

datatype session_call = Validate timestamp | ValidateOther timestamp string | CleanupAt timestamp

fun session_call_time :: "session_call \<Rightarrow> timestamp" where
  "session_call_time (Validate t) = t"
| "session_call_time (ValidateOther t _) = t"
| "session_call_time (CleanupAt t) = t"

fun session_results :: "string \<Rightarrow> session_call list \<Rightarrow> session_manager \<Rightarrow> bool list" where
  "session_results tok [] sm = []"
| "session_results tok (Validate t # cs) sm =
     (case validate_session t tok sm of (sm', r) \<Rightarrow> (\<not> isl r) # session_results tok cs sm')"
| "session_results tok (ValidateOther t tok' # cs) sm = session_results tok cs (fst (validate_session t tok' sm))"
| "session_results tok (CleanupAt t # cs) sm = session_results tok cs (fst (sm_cleanup_expired t sm))"

text \<open>The specification: a session is alive as long as no two successive uses are further
  apart than the timeout, and dead from then on.\<close>

fun alive :: "duration \<Rightarrow> timestamp \<Rightarrow> timestamp list \<Rightarrow> bool list" where
  "alive timeout last_use [] = []"
| "alive timeout last_use (t # ts) =
     (if t - last_use \<le> timeout then True # alive timeout t ts else replicate (Suc (length ts)) False)"

definition validation_times :: "session_call list \<Rightarrow> timestamp list" where
  "validation_times cs = concat (map (\<lambda>c. case c of Validate t \<Rightarrow> [t] | _ \<Rightarrow> []) cs)"

lemma validation_times_simps [simp]:
  "validation_times [] = []"
  "validation_times (Validate t # cs) = t # validation_times cs"
  "validation_times (ValidateOther t x # cs) = validation_times cs"
  "validation_times (CleanupAt t # cs) = validation_times cs"
  by (simp_all add: validation_times_def)

lemma dead_results:
  "hm_inv (sm_sessions sm) \<Longrightarrow> hm_get (sm_sessions sm) tok = None \<Longrightarrow> (\<forall>t x. ValidateOther t x \<in> set cs \<longrightarrow> x \<noteq> tok) \<Longrightarrow>
     session_results tok cs sm = replicate (length (validation_times cs)) False"
proof (induction tok cs sm rule: session_results.induct)
  case (3 tok t tok' cs sm)
  have "hm_get (sm_sessions (fst (validate_session t tok' sm))) tok = None"
      "hm_inv (sm_sessions (fst (validate_session t tok' sm)))"
    using 3 by (auto simp: validate_session_def Let_def split: option.split)
  then show ?case using 3 by simp
next
  case (4 tok t cs sm)
  have "hm_get (sm_sessions (fst (sm_cleanup_expired t sm))) tok = None"
      "hm_inv (sm_sessions (fst (sm_cleanup_expired t sm)))"
    using 4 by (auto simp: sm_cleanup_expired_def Let_def hm_get_retain)
  then show ?case using 4 by simp
qed (auto simp: validate_session_def)

lemma session_results_alive:
  assumes "hm_inv (sm_sessions sm)" and "hm_get (sm_sessions sm) tok = Some s"
    and "\<forall>t x. ValidateOther t x \<in> set cs \<longrightarrow> x \<noteq> tok"
    and "sorted (map session_call_time cs)" 
  shows "session_results tok cs sm = alive (sm_timeout sm) (s_last_activity s) (validation_times cs)"
  using assms
proof (induction tok cs sm arbitrary: s rule: session_results.induct)
  case (2 tok t cs sm)
  show ?case
  proof (cases "t - s_last_activity s \<le> sm_timeout sm")
    case True
    let ?s = "s\<lparr>s_last_activity := t\<rparr>" and ?sm = "sm\<lparr>sm_sessions := hm_insert tok (s\<lparr>s_last_activity := t\<rparr>) (sm_sessions sm)\<rparr>"
    have v: "validate_session t tok sm = (?sm, Inr ?s)"
      using True "2.prems"(2) by (simp add: validate_session_def Let_def)
    have "session_results tok cs ?sm = alive (sm_timeout ?sm) (s_last_activity ?s) (validation_times cs)"
      by (rule "2.IH" [OF v [symmetric]]) (use "2.prems" in auto)
    then show ?thesis using v True by simp
  next
    case False
    let ?sm = "sm\<lparr>sm_sessions := hm_remove tok (sm_sessions sm)\<rparr>"
    have v: "validate_session t tok sm = (?sm, Inl SessionExpired)"
      using False "2.prems"(2) by (simp add: validate_session_def)
    have "session_results tok cs ?sm = replicate (length (validation_times cs)) False"
      by (rule dead_results) (use "2.prems" in auto)
    then show ?thesis using v False by simp
  qed
next
  case (3 tok t tok' cs sm)
  let ?sm = "fst (validate_session t tok' sm)"
  have "hm_get (sm_sessions ?sm) tok = Some s" "hm_inv (sm_sessions ?sm)" "sm_timeout ?sm = sm_timeout sm"
    using 3 by (auto simp: validate_session_def Let_def split: option.split)
  then show ?case using 3 by simp
next
  case (4 tok t cs sm)
  let ?sm = "fst (sm_cleanup_expired t sm)"
  have k: "hm_inv (sm_sessions ?sm)" "sm_timeout ?sm = sm_timeout sm"
    using 4 by (auto simp: sm_cleanup_expired_def Let_def)
  show ?case
  proof (cases "t - s_last_activity s \<le> sm_timeout sm")
    case True
    then have "hm_get (sm_sessions ?sm) tok = Some s"
      using "4.prems" by (simp add: sm_cleanup_expired_def Let_def hm_get_retain)
    then show ?thesis using 4 k by simp
  next
    case False
    have "hm_get (sm_sessions ?sm) tok = None"
      using "4.prems" False by (simp add: sm_cleanup_expired_def Let_def hm_get_retain)
    then have "session_results tok cs ?sm = replicate (length (validation_times cs)) False"
      using "4.prems" k by (intro dead_results) auto
    moreover have "alive (sm_timeout sm) (s_last_activity s) (validation_times cs) =
        replicate (length (validation_times cs)) False"
    proof (cases "validation_times cs")
      case (Cons u us)
      have "u \<in> session_call_time ` set cs"
        using Cons by (force simp: validation_times_def image_iff split: session_call.splits dest: arg_cong [of _ _ set])
      then have "t \<le> u" using "4.prems"(4) by auto
      then show ?thesis using Cons False by simp
    qed simp
    ultimately show ?thesis by simp
  qed
qed simp

subsection \<open>Properties\<close>

text \<open>
  C7: a session lives as the specification \<open>alive\<close> says: a validation succeeds exactly when
  no gap between successive uses since the creation has exceeded the timeout, and a session
  that has expired once never validates again, however validations of other tokens and
  clean-ups interleave.
\<close>

theorem session_lifetime:
  assumes "hm_inv (sm_sessions sm)" and "sorted (map session_call_time cs)"
    and "\<forall>t x. ValidateOther t x \<in> set cs \<longrightarrow> x \<noteq> tok"
  shows "session_results tok cs (fst (create_session tok sid created user sm)) =
    alive (sm_timeout sm) created (validation_times cs)"
proof -
  let ?sm = "fst (create_session tok sid created user sm)"
  have "\<exists>s. hm_get (sm_sessions ?sm) tok = Some s \<and> s_last_activity s = created"
      "hm_inv (sm_sessions ?sm)" "sm_timeout ?sm = sm_timeout sm"
    using assms(1) by (simp_all add: create_session_def Let_def)
  then show ?thesis using session_results_alive [of ?sm tok _ cs] assms(2,3) by metis
qed

theorem session_lifetime_witness:
  "session_results ''t'' [Validate (seconds 1800), CleanupAt (seconds 3601), Validate (seconds 3602), Validate (seconds 3603)]
     (fst (create_session ''t'' 1 0 2 (sm_new 30))) = [True, False, False]"
  using session_lifetime [of "sm_new 30"
      "[Validate (seconds 1800), CleanupAt (seconds 3601), Validate (seconds 3602), Validate (seconds 3603)]" "''t''" 1 0 2]
  by (simp add: sm_new_def sm_timeout_def seconds_def)

end
