(* ===== verification/Rbac.thy ===== *)
theory Rbac
  imports Models
begin

text \<open>
  Role-based access control (\<^verbatim>\<open>crates/security-layer/src/rbac.rs\<close>). Roles are ordered by
  privilege, so that the permission tables can be compared with the required role.
\<close>

datatype permission =
    ManageUsers
  | ManageRoles
  | ManageConfig
  | ManageSecurity
  | ExecuteTasks
  | ViewLogs
  | SendMessages
  | ViewStatus

fun required_role :: "permission \<Rightarrow> role" where
  "required_role ManageUsers = Admin"
| "required_role ManageRoles = Admin"
| "required_role ManageConfig = Admin"
| "required_role ManageSecurity = Admin"
| "required_role ExecuteTasks = Operator"
| "required_role ViewLogs = Operator"
| "required_role SendMessages = Operator"
| "required_role ViewStatus = Operator"

fun permissions_for_role :: "role \<Rightarrow> permission list" where
  "permissions_for_role Admin =
     [ManageUsers, ManageRoles, ManageConfig, ManageSecurity, ExecuteTasks, ViewLogs, SendMessages, ViewStatus]"
| "permissions_for_role Operator = [ExecuteTasks, ViewLogs, SendMessages, ViewStatus]"

definition authorize :: "role \<Rightarrow> permission \<Rightarrow> security_error + unit" where
  "authorize r p =
     (if p \<in> set (permissions_for_role r) then Inr ()
      else Inl (InsufficientPermissions (required_role p)))"

instantiation role :: linorder
begin

definition less_eq_role :: "role \<Rightarrow> role \<Rightarrow> bool" where
  "less_eq_role a b \<longleftrightarrow> (a = Operator \<or> b = Admin)"

definition less_role :: "role \<Rightarrow> role \<Rightarrow> bool" where
  "less_role a b \<longleftrightarrow> (a = Operator \<and> b = Admin)"

instance
  by standard (auto simp: less_eq_role_def less_role_def intro: role.exhaust)

end

lemma granted_iff: "p \<in> set (permissions_for_role r) \<longleftrightarrow> required_role p \<le> r"
  by (cases p; cases r) (simp_all add: less_eq_role_def)

text \<open>The two tables of the module agree, and a denial names the least role that would have
  been enough.\<close>

lemma authorize_iff: "authorize r p = (if required_role p \<le> r then Inr () else Inl (InsufficientPermissions (required_role p)))"
  by (simp add: authorize_def granted_iff)

lemma authorize_mono: "r \<le> r' \<Longrightarrow> authorize r p = Inr () \<Longrightarrow> authorize r' p = Inr ()"
  by (auto simp: authorize_iff split: if_splits)

lemma authorize_denied_role:
  "authorize r p = Inl (InsufficientPermissions q) \<Longrightarrow> r < q \<and> authorize q p = Inr ()"
  by (auto simp: authorize_iff split: if_splits)

end
