(* ===== verification/Config.thy ===== *)
theory Config
  imports Models
begin

text \<open>
  The configuration model (\<^verbatim>\<open>crates/common/src/config/models.rs\<close>): one record per
  struct, the default of each, and the textual forms of the enums. Environment variables are
  the argument \<open>env_var\<close>. An alert threshold is a 64-bit float that the modelled code only
  copies, so it is its bit pattern.
\<close>

type_synonym env_vars = "string \<Rightarrow> string option"

subsection \<open>General and providers\<close>

record general_config =
  gc_agent_name :: string
  gc_data_dir :: path
  gc_log_dir :: path

definition default_general_config :: general_config where
  "default_general_config = \<lparr>gc_agent_name = ''xenoclaw'', gc_data_dir = path_from_str ''./data'',
     gc_log_dir = path_from_str ''./logs''\<rparr>"

datatype provider_type =
    OpenAiCompatible
  | Anthropic
  | Ollama
  | ClaudeCode
  | CopilotCli
  | GeminiCli
  | CodexCli

fun provider_type_str :: "provider_type \<Rightarrow> string" where
  "provider_type_str OpenAiCompatible = ''open_ai_compatible''"
| "provider_type_str Anthropic = ''anthropic''"
| "provider_type_str Ollama = ''ollama''"
| "provider_type_str ClaudeCode = ''claude_code''"
| "provider_type_str CopilotCli = ''copilot_cli''"
| "provider_type_str GeminiCli = ''gemini_cli''"
| "provider_type_str CodexCli = ''codex_cli''"

definition provider_type_of_str :: "string \<Rightarrow> string + provider_type" where
  "provider_type_of_str s =
     (let l = to_lowercase s in
      if l \<in> {''openai_compatible'', ''open_ai_compatible'', ''openaicompatible'', ''openai''} then Inr OpenAiCompatible
      else if l \<in> {''anthropic'', ''claude''} then Inr Anthropic
      else if l \<in> {''ollama'', ''local''} then Inr Ollama
      else if l \<in> {''claude_code'', ''claudecode''} then Inr ClaudeCode
      else if l \<in> {''copilot_cli'', ''copilotcli'', ''copilot'', ''github_copilot''} then Inr CopilotCli
      else if l \<in> {''gemini_cli'', ''geminicli'', ''gemini_cli_provider''} then Inr GeminiCli
      else if l \<in> {''codex_cli'', ''codexcli'', ''openai_codex''} then Inr CodexCli
      else Inl (''unknown provider type: '' @ s))"

record provider_config =
  pc_name :: string
  pc_provider_type :: provider_type
  pc_api_key :: "string option"
  pc_base_url :: string
  pc_model :: string
  pc_priority :: u8
  pc_timeout_seconds :: u32
  pc_max_tokens :: "u32 option"

record llm_config =
  lc_providers :: "provider_config list"

definition default_llm_config :: llm_config where
  "default_llm_config = \<lparr>lc_providers = []\<rparr>"

subsection \<open>Security\<close>

record filesystem_rule =
  fr_path :: path
  fr_read :: bool
  fr_write :: bool
  fr_execute :: bool

record network_rule =
  nr_host :: string
  nr_port :: "u16 option"

record resource_limits =
  rs_max_memory_mb :: u32
  rs_max_cpu_percent :: u8
  rs_max_processes :: u8

definition default_resource_limits :: resource_limits where
  "default_resource_limits = \<lparr>rs_max_memory_mb = 512, rs_max_cpu_percent = 80, rs_max_processes = 10\<rparr>"

record security_config =
  sy_filesystem_rules :: "filesystem_rule list"
  sy_network_allowlist :: "network_rule list"
  sy_resource_limits :: resource_limits
  sy_session_timeout_minutes :: u32
  sy_max_failed_attempts :: u8
  sy_lockout_minutes :: u16
  sy_admin_username :: string
  sy_admin_password_hash :: string
  sy_admin_key_hash :: string

definition default_security_config :: security_config where
  "default_security_config = \<lparr>sy_filesystem_rules = [], sy_network_allowlist = [],
     sy_resource_limits = default_resource_limits, sy_session_timeout_minutes = 30,
     sy_max_failed_attempts = 5, sy_lockout_minutes = 15, sy_admin_username = ''admin'',
     sy_admin_password_hash = [], sy_admin_key_hash = []\<rparr>"

subsection \<open>Coding, scheduler, web and API\<close>

record lsp_config =
  lsp_language :: string
  lsp_command :: string
  lsp_args :: "string list"

record coding_config =
  co_workspace_dirs :: "path list"
  co_repository_dirs :: "path list"
  co_command_allowlist :: "string list"
  co_command_blocklist :: "string list"
  co_max_file_size_mb :: u32
  co_max_concurrent_shells :: u8
  co_shell_timeout_seconds :: u32
  co_undo_history_size :: nat
  co_language_servers :: "lsp_config list"

record task_limits =
  tl_max_concurrent_tasks :: u8
  tl_default_timeout_seconds :: u32
  tl_max_dependency_depth :: u8

definition default_task_limits :: task_limits where
  "default_task_limits = \<lparr>tl_max_concurrent_tasks = 10, tl_default_timeout_seconds = 300, tl_max_dependency_depth = 10\<rparr>"

record web_config =
  wb_enabled :: bool
  wb_host :: string
  wb_port :: u16
  wb_dir :: path
  wb_tls_cert :: "path option"
  wb_tls_key :: "path option"

definition default_web_dir :: "env_vars \<Rightarrow> path" where
  "default_web_dir env_var =
     (case env_var ''XENOCLAW_WEB_DIR'' of Some d \<Rightarrow> path_from_str d | None \<Rightarrow> path_from_str ''./web/dist'')"

definition default_web_config :: "env_vars \<Rightarrow> web_config" where
  "default_web_config env_var = \<lparr>wb_enabled = True, wb_host = ''0.0.0.0'', wb_port = 8080,
     wb_dir = default_web_dir env_var, wb_tls_cert = None, wb_tls_key = None\<rparr>"

record api_config =
  ap_host :: string
  ap_port :: u16
  ap_rate_limit_per_minute :: u32

definition default_api_config :: api_config where
  "default_api_config = \<lparr>ap_host = ''0.0.0.0'', ap_port = 9090, ap_rate_limit_per_minute = 100\<rparr>"

subsection \<open>Messaging and monitoring\<close>

record telegram_config = tg_bot_token :: string
record discord_config = dc_bot_token :: string
record whatsapp_config = wa_phone_number :: string

record messaging_config =
  mg_telegram :: "telegram_config option"
  mg_discord :: "discord_config option"
  mg_whatsapp :: "whatsapp_config option"

definition default_messaging_config :: messaging_config where
  "default_messaging_config = \<lparr>mg_telegram = None, mg_discord = None, mg_whatsapp = None\<rparr>"

datatype log_level = LvDebug | LvInfo | LvWarn | LvError | LvFatal

fun log_level_str :: "log_level \<Rightarrow> string" where
  "log_level_str LvDebug = ''debug''"
| "log_level_str LvInfo = ''info''"
| "log_level_str LvWarn = ''warn''"
| "log_level_str LvError = ''error''"
| "log_level_str LvFatal = ''fatal''"

definition log_level_of_str :: "string \<Rightarrow> string + log_level" where
  "log_level_of_str s =
     (let l = to_lowercase s in
      if l = ''debug'' then Inr LvDebug
      else if l = ''info'' then Inr LvInfo
      else if l = ''warn'' \<or> l = ''warning'' then Inr LvWarn
      else if l = ''error'' then Inr LvError
      else if l = ''fatal'' then Inr LvFatal
      else Inl (''unknown log level: '' @ s))"

datatype alert_operator = GreaterThan | LessThan | GreaterThanOrEqual | LessThanOrEqual

record alert_rule =
  ar_name :: string
  ar_metric :: string
  ar_threshold :: u64
  ar_operator :: alert_operator

record monitoring_config =
  mn_log_level :: log_level
  mn_log_retention_days :: u16
  mn_max_log_file_size_mb :: u32
  mn_metrics_enabled :: bool
  mn_metrics_port :: u16
  mn_alert_rules :: "alert_rule list"

definition default_monitoring_config :: monitoring_config where
  "default_monitoring_config = \<lparr>mn_log_level = LvInfo, mn_log_retention_days = 30,
     mn_max_log_file_size_mb = 100, mn_metrics_enabled = True, mn_metrics_port = 9100, mn_alert_rules = []\<rparr>"

subsection \<open>Plugins, MCP and skills\<close>

record plugin_config =
  pl_enabled :: bool
  pl_directory :: path
  pl_reload_interval_seconds :: u32

definition default_plugins_dir :: "env_vars \<Rightarrow> path" where
  "default_plugins_dir env_var =
     (case env_var ''XENOCLAW_DATA_DIR'' of
        Some d \<Rightarrow> path_join (path_from_str d) ''plugins''
      | None \<Rightarrow> path_from_str ''./plugins'')"

definition default_plugin_config :: "env_vars \<Rightarrow> plugin_config" where
  "default_plugin_config env_var = \<lparr>pl_enabled = True, pl_directory = default_plugins_dir env_var,
     pl_reload_interval_seconds = 10\<rparr>"

record mcp_server_config =
  ms_name :: string
  ms_command :: string
  ms_args :: "string list"
  ms_env :: "(string, string) hashmap"
  ms_disabled :: bool
  ms_auto_approve :: "string list"

record mcp_config =
  mc_server_enabled :: bool
  mc_server_transport :: string
  mc_server_port :: u16
  mc_servers :: "mcp_server_config list"

definition default_mcp_config :: mcp_config where
  "default_mcp_config = \<lparr>mc_server_enabled = True, mc_server_transport = ''stdio'', mc_server_port = 3100, mc_servers = []\<rparr>"

record skills_config =
  sk_auto_create :: bool
  sk_auto_create_threshold :: u32
  sk_curator_schedule :: string
  sk_curator_enabled :: bool
  sk_skills_dir :: "path option"

definition default_skills_config :: skills_config where
  "default_skills_config = \<lparr>sk_auto_create = True, sk_auto_create_threshold = 15,
     sk_curator_schedule = ''0 0 * * 0'', sk_curator_enabled = True, sk_skills_dir = None\<rparr>"

datatype session_source =
    SrcWeb
  | SrcApi
  | SrcTui
  | SrcClaudeCode
  | SrcCopilotCli
  | SrcTelegram string
  | SrcDiscord string
  | SrcWhatsApp string

subsection \<open>The platform configuration\<close>

record platform_config =
  cf_general :: general_config
  cf_llm :: llm_config
  cf_security :: security_config
  cf_coding :: "coding_config option"
  cf_scheduler :: task_limits
  cf_web :: web_config
  cf_api :: api_config
  cf_messaging :: messaging_config
  cf_monitoring :: monitoring_config
  cf_plugins :: plugin_config
  cf_mcp :: mcp_config
  cf_skills :: skills_config

definition default_platform_config :: "env_vars \<Rightarrow> platform_config" where
  "default_platform_config env_var = \<lparr>cf_general = default_general_config, cf_llm = default_llm_config,
     cf_security = default_security_config, cf_coding = None, cf_scheduler = default_task_limits,
     cf_web = default_web_config env_var, cf_api = default_api_config,
     cf_messaging = default_messaging_config, cf_monitoring = default_monitoring_config,
     cf_plugins = default_plugin_config env_var, cf_mcp = default_mcp_config, cf_skills = default_skills_config\<rparr>"

subsection \<open>Textual forms\<close>

lemma lower_char_id: "(of_char c :: nat) < 65 \<or> 90 < (of_char c :: nat) \<Longrightarrow> lower_char c = c"
  by (auto simp: lower_char_def Let_def)

lemma provider_type_roundtrip: "provider_type_of_str (provider_type_str t) = Inr t"
  by (cases t) (simp_all add: provider_type_of_str_def to_lowercase_def lower_char_def Let_def)

lemma log_level_roundtrip: "log_level_of_str (log_level_str l) = Inr l"
  by (cases l) (simp_all add: log_level_of_str_def to_lowercase_def lower_char_def Let_def)

end
