(* ===== verification/Config_Validation.thy ===== *)
theory Config_Validation
  imports Config
begin

text \<open>
  Validation of a configuration (\<^verbatim>\<open>crates/common/src/config/validation.rs\<close>). Each
  function of the source pushes onto a shared error list; here it gives the errors it pushes,
  in order.
\<close>

record validation_error =
  ve_setting :: string
  ve_reason :: string

datatype config_error =
    ConfigFileNotFound path
  | ConfigIoError string
  | ConfigParseError string
  | ConfigInvalid "validation_error list"

definition validation_error_text :: "validation_error \<Rightarrow> string" where
  "validation_error_text e = ve_setting e @ '': '' @ ve_reason e"

definition newline :: string where
  "newline = [CHR 0x0A]"

fun config_error_text :: "config_error \<Rightarrow> string" where
  "config_error_text (ConfigFileNotFound p) = ''Configuration file not found: '' @ path_display p"
| "config_error_text (ConfigIoError m) = ''I/O error reading configuration: '' @ m"
| "config_error_text (ConfigParseError m) = ''Failed to parse configuration: '' @ m"
| "config_error_text (ConfigInvalid es) =
     ''Configuration validation failed with '' @ show_nat (length es) @ '' error(s):'' @ newline @
     concat (map (\<lambda>e. ''  - '' @ validation_error_text e @ newline) es)"

text \<open>\<^verbatim>\<open>if cond { errors.push(..) }\<close>\<close>

definition err_if :: "bool \<Rightarrow> string \<Rightarrow> string \<Rightarrow> validation_error list" where
  "err_if b setting reason = (if b then [\<lparr>ve_setting = setting, ve_reason = reason\<rparr>] else [])"

definition blank :: "string \<Rightarrow> bool" where
  "blank s \<longleftrightarrow> str_trim s = []"

definition validate_general :: "platform_config \<Rightarrow> validation_error list" where
  "validate_general c =
     err_if (blank (gc_agent_name (cf_general c))) ''general.agent_name'' ''agent name must not be empty''"

definition is_cli_provider :: "provider_type \<Rightarrow> bool" where
  "is_cli_provider t \<longleftrightarrow> t \<in> {ClaudeCode, CopilotCli, GeminiCli, CodexCli}"

definition needs_api_key :: "provider_type \<Rightarrow> bool" where
  "needs_api_key t \<longleftrightarrow> t \<notin> {Ollama, ClaudeCode, CopilotCli, GeminiCli, CodexCli}"

definition validate_provider :: "string \<Rightarrow> provider_config \<Rightarrow> validation_error list" where
  "validate_provider prefix p =
     err_if (blank (pc_name p)) (prefix @ ''.name'') ''provider name must not be empty'' @
     err_if (\<not> is_cli_provider (pc_provider_type p) \<and> blank (pc_base_url p)) (prefix @ ''.base_url'')
       ''base_url must not be empty'' @
     err_if (blank (pc_model p)) (prefix @ ''.model'') ''model must not be empty'' @
     err_if (needs_api_key (pc_provider_type p) \<and> pc_api_key p = None) (prefix @ ''.api_key'')
       (''api_key is required for '' @ provider_type_str (pc_provider_type p) @ '' providers'') @
     err_if (pc_timeout_seconds p < 5 \<or> pc_timeout_seconds p > 120) (prefix @ ''.timeout_seconds'')
       (''timeout_seconds must be between 5 and 120, got '' @ show_nat (unat (pc_timeout_seconds p)))"

fun validate_providers :: "nat \<Rightarrow> u8 set \<Rightarrow> provider_config list \<Rightarrow> validation_error list" where
  "validate_providers i seen [] = []"
| "validate_providers i seen (p # ps) =
     (let prefix = ''llm.providers['' @ show_nat i @ '']''
      in validate_provider prefix p @
         err_if (pc_priority p \<in> seen) (prefix @ ''.priority'')
           (''duplicate priority value '' @ show_nat (unat (pc_priority p)) @
            ''; each provider must have a unique priority'') @
         validate_providers (Suc i) (insert (pc_priority p) seen) ps)"

definition validate_llm :: "platform_config \<Rightarrow> validation_error list" where
  "validate_llm c =
     (let ps = lc_providers (cf_llm c) in
      if ps = [] then
        [\<lparr>ve_setting = ''llm.providers'', ve_reason = ''at least 1 LLM provider must be configured''\<rparr>]
      else
        err_if (length ps > 10) ''llm.providers''
          (''at most 10 LLM providers are allowed, found '' @ show_nat (length ps)) @
        validate_providers 0 {} ps)"

definition validate_security :: "platform_config \<Rightarrow> validation_error list" where
  "validate_security c =
     (let s = cf_security c; l = sy_resource_limits s in
      err_if (sy_session_timeout_minutes s = 0) ''security.session_timeout_minutes''
        ''session timeout must be greater than 0'' @
      err_if (sy_max_failed_attempts s = 0) ''security.max_failed_attempts''
        ''max failed attempts must be greater than 0'' @
      err_if (sy_lockout_minutes s = 0) ''security.lockout_minutes''
        ''lockout duration must be greater than 0'' @
      err_if (rs_max_memory_mb l = 0) ''security.resource_limits.max_memory_mb''
        ''max memory must be greater than 0'' @
      err_if (rs_max_cpu_percent l = 0 \<or> rs_max_cpu_percent l > 100) ''security.resource_limits.max_cpu_percent''
        ''max CPU percent must be between 1 and 100'' @
      err_if (rs_max_processes l = 0) ''security.resource_limits.max_processes''
        ''max processes must be greater than 0'')"

definition validate_lsp :: "nat \<times> lsp_config \<Rightarrow> validation_error list" where
  "validate_lsp = (\<lambda>(i, l).
     err_if (blank (lsp_language l)) (''coding.language_servers['' @ show_nat i @ ''].language'')
       ''language must not be empty'' @
     err_if (blank (lsp_command l)) (''coding.language_servers['' @ show_nat i @ ''].command'')
       ''command must not be empty'')"

definition validate_coding :: "platform_config \<Rightarrow> validation_error list" where
  "validate_coding c =
     (case cf_coding c of
        None \<Rightarrow> []
      | Some d \<Rightarrow>
          err_if (co_workspace_dirs d = []) ''coding.workspace_dirs''
            ''at least one workspace directory must be configured when coding module is enabled'' @
          err_if (co_max_file_size_mb d = 0) ''coding.max_file_size_mb'' ''max file size must be greater than 0'' @
          err_if (co_max_concurrent_shells d = 0) ''coding.max_concurrent_shells''
            ''max concurrent shells must be greater than 0'' @
          err_if (co_shell_timeout_seconds d = 0) ''coding.shell_timeout_seconds''
            ''shell timeout must be greater than 0'' @
          err_if (co_undo_history_size d = 0) ''coding.undo_history_size''
            ''undo history size must be greater than 0'' @
          concat (map validate_lsp (enumerate 0 (co_language_servers d))))"

definition validate_scheduler :: "platform_config \<Rightarrow> validation_error list" where
  "validate_scheduler c =
     (let s = cf_scheduler c in
      err_if (tl_max_concurrent_tasks s = 0) ''scheduler.max_concurrent_tasks''
        ''max concurrent tasks must be greater than 0'' @
      err_if (tl_default_timeout_seconds s = 0) ''scheduler.default_timeout_seconds''
        ''default timeout must be greater than 0'' @
      err_if (tl_max_dependency_depth s = 0) ''scheduler.max_dependency_depth''
        ''max dependency depth must be greater than 0'')"

definition validate_web :: "platform_config \<Rightarrow> validation_error list" where
  "validate_web c =
     (let w = cf_web c in
      if wb_enabled w then
        err_if (blank (wb_host w)) ''web.host'' ''host must not be empty when web interface is enabled'' @
        err_if (wb_port w = 0) ''web.port'' ''port must be greater than 0'' @
        (case (wb_tls_cert w, wb_tls_key w) of
           (Some _, None) \<Rightarrow>
             [\<lparr>ve_setting = ''web.tls_key'', ve_reason = ''tls_key must be provided when tls_cert is set''\<rparr>]
         | (None, Some _) \<Rightarrow>
             [\<lparr>ve_setting = ''web.tls_cert'', ve_reason = ''tls_cert must be provided when tls_key is set''\<rparr>]
         | _ \<Rightarrow> [])
      else [])"

definition validate_api :: "platform_config \<Rightarrow> validation_error list" where
  "validate_api c =
     (let a = cf_api c in
      err_if (blank (ap_host a)) ''api.host'' ''API host must not be empty'' @
      err_if (ap_port a = 0) ''api.port'' ''API port must be greater than 0'' @
      err_if (ap_rate_limit_per_minute a = 0) ''api.rate_limit_per_minute'' ''rate limit must be greater than 0'')"

definition validate_alert_rule :: "nat \<times> alert_rule \<Rightarrow> validation_error list" where
  "validate_alert_rule = (\<lambda>(i, r).
     err_if (blank (ar_name r)) (''monitoring.alert_rules['' @ show_nat i @ ''].name'')
       ''alert rule name must not be empty'' @
     err_if (blank (ar_metric r)) (''monitoring.alert_rules['' @ show_nat i @ ''].metric'')
       ''alert rule metric must not be empty'')"

definition retention_error :: "u16 \<Rightarrow> validation_error list" where
  "retention_error d =
     err_if (d = 0 \<or> d > 365) ''monitoring.log_retention_days''
       (''log retention must be between 1 and 365 days, got '' @ show_nat (unat d))"

definition validate_monitoring :: "platform_config \<Rightarrow> validation_error list" where
  "validate_monitoring c =
     (let m = cf_monitoring c in
      retention_error (mn_log_retention_days m) @
      err_if (mn_max_log_file_size_mb m = 0) ''monitoring.max_log_file_size_mb''
        ''max log file size must be greater than 0'' @
      err_if (mn_metrics_enabled m \<and> mn_metrics_port m = 0) ''monitoring.metrics_port''
        ''metrics port must be greater than 0 when metrics are enabled'' @
      concat (map validate_alert_rule (enumerate 0 (mn_alert_rules m))))"

definition validate_config :: "platform_config \<Rightarrow> validation_error list" where
  "validate_config c =
     validate_general c @ validate_llm c @ validate_security c @ validate_coding c @
     validate_scheduler c @ validate_web c @ validate_api c @ validate_monitoring c"

subsection \<open>What a valid configuration satisfies\<close>

definition provider_ok :: "provider_config \<Rightarrow> bool" where
  "provider_ok p \<longleftrightarrow> \<not> blank (pc_name p) \<and> (is_cli_provider (pc_provider_type p) \<or> \<not> blank (pc_base_url p)) \<and>
     \<not> blank (pc_model p) \<and> (needs_api_key (pc_provider_type p) \<longrightarrow> pc_api_key p \<noteq> None) \<and>
     5 \<le> pc_timeout_seconds p \<and> pc_timeout_seconds p \<le> 120"

definition llm_ok :: "llm_config \<Rightarrow> bool" where
  "llm_ok l \<longleftrightarrow> lc_providers l \<noteq> [] \<and> length (lc_providers l) \<le> 10 \<and>
     list_all provider_ok (lc_providers l) \<and> distinct (map pc_priority (lc_providers l))"

definition security_ok :: "security_config \<Rightarrow> bool" where
  "security_ok s \<longleftrightarrow> sy_session_timeout_minutes s \<noteq> 0 \<and> sy_max_failed_attempts s \<noteq> 0 \<and> sy_lockout_minutes s \<noteq> 0 \<and>
     rs_max_memory_mb (sy_resource_limits s) \<noteq> 0 \<and> rs_max_cpu_percent (sy_resource_limits s) \<noteq> 0 \<and>
     rs_max_cpu_percent (sy_resource_limits s) \<le> 100 \<and> rs_max_processes (sy_resource_limits s) \<noteq> 0"

definition coding_ok :: "coding_config \<Rightarrow> bool" where
  "coding_ok d \<longleftrightarrow> co_workspace_dirs d \<noteq> [] \<and> co_max_file_size_mb d \<noteq> 0 \<and> co_max_concurrent_shells d \<noteq> 0 \<and>
     co_shell_timeout_seconds d \<noteq> 0 \<and> co_undo_history_size d \<noteq> 0 \<and>
     list_all (\<lambda>l. \<not> blank (lsp_language l) \<and> \<not> blank (lsp_command l)) (co_language_servers d)"

definition task_limits_ok :: "task_limits \<Rightarrow> bool" where
  "task_limits_ok s \<longleftrightarrow> tl_max_concurrent_tasks s \<noteq> 0 \<and> tl_default_timeout_seconds s \<noteq> 0 \<and> tl_max_dependency_depth s \<noteq> 0"

definition web_ok :: "web_config \<Rightarrow> bool" where
  "web_ok w \<longleftrightarrow> (wb_enabled w \<longrightarrow> \<not> blank (wb_host w) \<and> wb_port w \<noteq> 0 \<and> (wb_tls_cert w = None \<longleftrightarrow> wb_tls_key w = None))"

definition api_ok :: "api_config \<Rightarrow> bool" where
  "api_ok a \<longleftrightarrow> \<not> blank (ap_host a) \<and> ap_port a \<noteq> 0 \<and> ap_rate_limit_per_minute a \<noteq> 0"

definition alert_rule_ok :: "alert_rule \<Rightarrow> bool" where
  "alert_rule_ok r \<longleftrightarrow> \<not> blank (ar_name r) \<and> \<not> blank (ar_metric r)"

definition monitoring_ok :: "monitoring_config \<Rightarrow> bool" where
  "monitoring_ok m \<longleftrightarrow> mn_log_retention_days m \<noteq> 0 \<and> mn_log_retention_days m \<le> 365 \<and>
     mn_max_log_file_size_mb m \<noteq> 0 \<and> (mn_metrics_enabled m \<longrightarrow> mn_metrics_port m \<noteq> 0) \<and>
     list_all alert_rule_ok (mn_alert_rules m)"

definition config_ok :: "platform_config \<Rightarrow> bool" where
  "config_ok c \<longleftrightarrow> \<not> blank (gc_agent_name (cf_general c)) \<and> llm_ok (cf_llm c) \<and> security_ok (cf_security c) \<and>
     (\<forall>d. cf_coding c = Some d \<longrightarrow> coding_ok d) \<and> task_limits_ok (cf_scheduler c) \<and> web_ok (cf_web c) \<and>
     api_ok (cf_api c) \<and> monitoring_ok (cf_monitoring c)"

lemma err_if_Nil [simp]: "err_if b s r = [] \<longleftrightarrow> \<not> b"
  by (simp add: err_if_def)

lemma enumerate_concat_Nil:
  assumes "\<And>i x. f (i, x) = [] \<longleftrightarrow> P x"
  shows "concat (map f (enumerate n xs)) = [] \<longleftrightarrow> list_all P xs"
  by (induction xs arbitrary: n) (simp_all add: assms)

lemma validate_provider_Nil: "validate_provider prefix p = [] \<longleftrightarrow> provider_ok p"
  by (auto simp: validate_provider_def provider_ok_def not_less)

lemma validate_providers_Nil:
  "validate_providers i seen ps = [] \<longleftrightarrow>
     list_all provider_ok ps \<and> distinct (map pc_priority ps) \<and> pc_priority ` set ps \<inter> seen = {}"
  by (induction i seen ps rule: validate_providers.induct) (auto simp: validate_provider_Nil Let_def)

lemma validate_llm_Nil: "validate_llm c = [] \<longleftrightarrow> llm_ok (cf_llm c)"
  by (auto simp: validate_llm_def llm_ok_def Let_def validate_providers_Nil)

lemma validate_security_Nil: "validate_security c = [] \<longleftrightarrow> security_ok (cf_security c)"
  by (auto simp: validate_security_def security_ok_def Let_def not_less)

lemma validate_coding_Nil: "validate_coding c = [] \<longleftrightarrow> (\<forall>d. cf_coding c = Some d \<longrightarrow> coding_ok d)"
proof -
  have "concat (map validate_lsp (enumerate 0 ls)) = [] \<longleftrightarrow>
      list_all (\<lambda>l. \<not> blank (lsp_language l) \<and> \<not> blank (lsp_command l)) ls" for ls
    by (rule enumerate_concat_Nil) (simp add: validate_lsp_def)
  then show ?thesis
    by (simp add: validate_coding_def coding_ok_def del: concat_eq_Nil_conv split: option.split)
qed

lemma validate_web_Nil: "validate_web c = [] \<longleftrightarrow> web_ok (cf_web c)"
  by (auto simp: validate_web_def web_ok_def Let_def split: option.split)

lemma validate_alert_rules_Nil:
  "concat (map validate_alert_rule (enumerate 0 rs)) = [] \<longleftrightarrow> list_all alert_rule_ok rs"
  by (rule enumerate_concat_Nil) (simp add: validate_alert_rule_def alert_rule_ok_def)

lemma validate_monitoring_Nil: "validate_monitoring c = [] \<longleftrightarrow> monitoring_ok (cf_monitoring c)"
  using validate_alert_rules_Nil [of "mn_alert_rules (cf_monitoring c)"]
  by (simp add: validate_monitoring_def monitoring_ok_def retention_error_def Let_def not_less del: concat_eq_Nil_conv)

lemma validate_config_Nil: "validate_config c = [] \<longleftrightarrow> config_ok c"
  unfolding validate_config_def append_is_Nil_conv validate_llm_Nil validate_security_Nil validate_coding_Nil
    validate_web_Nil validate_monitoring_Nil config_ok_def
  by (simp add: validate_general_def validate_scheduler_def validate_api_def task_limits_ok_def api_ok_def Let_def)

end
