(* ===== verification/Config_Load.thy ===== *)
theory Config_Load
  imports Config_Validation
begin

text \<open>
  Loading and reloading (\<^verbatim>\<open>crates/common/src/config/mod.rs\<close>, \<^verbatim>\<open>reload.rs\<close> and
  \<^verbatim>\<open>signal.rs\<close>). The \<^verbatim>\<open>toml\<close> crate is the parameter \<open>toml_from_str\<close>; reading the file gives
  its content, the fact that it does not exist, or another error. Log messages are the list
  of change descriptions that \<open>apply_reload\<close> builds.
\<close>

type_synonym toml = "string \<Rightarrow> string + platform_config"

datatype file_read = FileContent string | FileMissing | FileError string

subsection \<open>Environment overrides\<close>

text \<open>\<^verbatim>\<open>str::parse\<close> for \<open>bool\<close>.\<close>

definition parse_bool :: "string \<Rightarrow> bool option" where
  "parse_bool s = (if s = ''true'' then Some True else if s = ''false'' then Some False else None)"

text \<open>\<^verbatim>\<open>if let Ok(val) = env::var(..) { if let Ok(v) = val.parse() { .. } }\<close>\<close>

definition env_str :: "env_vars \<Rightarrow> string \<Rightarrow> (string \<Rightarrow> 'c \<Rightarrow> 'c) \<Rightarrow> 'c \<Rightarrow> 'c" where
  "env_str env_var name set_field c = (case env_var name of Some v \<Rightarrow> set_field v c | None \<Rightarrow> c)"

definition env_parsed :: "env_vars \<Rightarrow> string \<Rightarrow> (string \<Rightarrow> 'v option) \<Rightarrow> ('v \<Rightarrow> 'c \<Rightarrow> 'c) \<Rightarrow> 'c \<Rightarrow> 'c" where
  "env_parsed env_var name parse set_field c =
     (case env_var name of
        Some s \<Rightarrow> (case parse s of Some v \<Rightarrow> set_field v c | None \<Rightarrow> c)
      | None \<Rightarrow> c)"

definition parse_word :: "string \<Rightarrow> 'a :: len word option" where
  "parse_word s = map_option of_nat (parse_uint LENGTH('a) s)"

definition parse_ok :: "(string \<Rightarrow> string + 'v) \<Rightarrow> string \<Rightarrow> 'v option" where
  "parse_ok f s = (case f s of Inr v \<Rightarrow> Some v | Inl _ \<Rightarrow> None)"

definition provider_env :: "env_vars \<Rightarrow> nat \<times> provider_config \<Rightarrow> provider_config" where
  "provider_env ev = (\<lambda>(i, p).
     let name = (\<lambda>field. ''XENOCLAW_LLM__PROVIDERS__'' @ show_nat i @ ''__'' @ field);
         p1 = env_str ev (name ''NAME'') (\<lambda>v p. p\<lparr>pc_name := v\<rparr>) p;
         p2 = env_parsed ev (name ''PROVIDER_TYPE'') (parse_ok provider_type_of_str) (\<lambda>v p. p\<lparr>pc_provider_type := v\<rparr>) p1;
         p3 = env_str ev (name ''API_KEY'') (\<lambda>v p. p\<lparr>pc_api_key := Some v\<rparr>) p2;
         p4 = env_str ev (name ''BASE_URL'') (\<lambda>v p. p\<lparr>pc_base_url := v\<rparr>) p3;
         p5 = env_str ev (name ''MODEL'') (\<lambda>v p. p\<lparr>pc_model := v\<rparr>) p4;
         p6 = env_parsed ev (name ''PRIORITY'') parse_word (\<lambda>v p. p\<lparr>pc_priority := v\<rparr>) p5;
         p7 = env_parsed ev (name ''TIMEOUT_SECONDS'') parse_word (\<lambda>v p. p\<lparr>pc_timeout_seconds := v\<rparr>) p6
     in env_parsed ev (name ''MAX_TOKENS'') parse_word (\<lambda>v p. p\<lparr>pc_max_tokens := Some v\<rparr>) p7)"

definition apply_llm_env_overrides :: "env_vars \<Rightarrow> platform_config \<Rightarrow> platform_config" where
  "apply_llm_env_overrides ev c =
     c\<lparr>cf_llm := (cf_llm c)\<lparr>lc_providers := map (provider_env ev) (enumerate 0 (lc_providers (cf_llm c)))\<rparr>\<rparr>"

definition security_env :: "env_vars \<Rightarrow> security_config \<Rightarrow> security_config" where
  "security_env ev s =
     (let s1 = env_parsed ev ''XENOCLAW_SECURITY__SESSION_TIMEOUT_MINUTES'' parse_word
                 (\<lambda>v s. s\<lparr>sy_session_timeout_minutes := v\<rparr>) s;
          s2 = env_parsed ev ''XENOCLAW_SECURITY__MAX_FAILED_ATTEMPTS'' parse_word
                 (\<lambda>v s. s\<lparr>sy_max_failed_attempts := v\<rparr>) s1;
          s3 = env_parsed ev ''XENOCLAW_SECURITY__LOCKOUT_MINUTES'' parse_word
                 (\<lambda>v s. s\<lparr>sy_lockout_minutes := v\<rparr>) s2;
          s4 = env_parsed ev ''XENOCLAW_SECURITY__RESOURCE_LIMITS__MAX_MEMORY_MB'' parse_word
                 (\<lambda>v s. s\<lparr>sy_resource_limits := (sy_resource_limits s)\<lparr>rs_max_memory_mb := v\<rparr>\<rparr>) s3;
          s5 = env_parsed ev ''XENOCLAW_SECURITY__RESOURCE_LIMITS__MAX_CPU_PERCENT'' parse_word
                 (\<lambda>v s. s\<lparr>sy_resource_limits := (sy_resource_limits s)\<lparr>rs_max_cpu_percent := v\<rparr>\<rparr>) s4
      in env_parsed ev ''XENOCLAW_SECURITY__RESOURCE_LIMITS__MAX_PROCESSES'' parse_word
           (\<lambda>v s. s\<lparr>sy_resource_limits := (sy_resource_limits s)\<lparr>rs_max_processes := v\<rparr>\<rparr>) s5)"

definition apply_security_env_overrides :: "env_vars \<Rightarrow> platform_config \<Rightarrow> platform_config" where
  "apply_security_env_overrides ev c = c\<lparr>cf_security := security_env ev (cf_security c)\<rparr>"

definition coding_env :: "env_vars \<Rightarrow> coding_config \<Rightarrow> coding_config" where
  "coding_env ev d =
     (let d1 = env_parsed ev ''XENOCLAW_CODING__MAX_FILE_SIZE_MB'' parse_word (\<lambda>v d. d\<lparr>co_max_file_size_mb := v\<rparr>) d;
          d2 = env_parsed ev ''XENOCLAW_CODING__MAX_CONCURRENT_SHELLS'' parse_word
                 (\<lambda>v d. d\<lparr>co_max_concurrent_shells := v\<rparr>) d1;
          d3 = env_parsed ev ''XENOCLAW_CODING__SHELL_TIMEOUT_SECONDS'' parse_word
                 (\<lambda>v d. d\<lparr>co_shell_timeout_seconds := v\<rparr>) d2
      in env_parsed ev ''XENOCLAW_CODING__UNDO_HISTORY_SIZE'' (parse_uint 64) (\<lambda>v d. d\<lparr>co_undo_history_size := v\<rparr>) d3)"

definition apply_coding_env_overrides :: "env_vars \<Rightarrow> platform_config \<Rightarrow> platform_config" where
  "apply_coding_env_overrides ev c = c\<lparr>cf_coding := map_option (coding_env ev) (cf_coding c)\<rparr>"

definition monitoring_env :: "env_vars \<Rightarrow> monitoring_config \<Rightarrow> monitoring_config" where
  "monitoring_env ev m =
     (let m1 = env_parsed ev ''XENOCLAW_MONITORING__LOG_LEVEL'' (parse_ok log_level_of_str) (\<lambda>v m. m\<lparr>mn_log_level := v\<rparr>) m;
          m2 = env_parsed ev ''XENOCLAW_MONITORING__LOG_RETENTION_DAYS'' parse_word
                 (\<lambda>v m. m\<lparr>mn_log_retention_days := v\<rparr>) m1;
          m3 = env_parsed ev ''XENOCLAW_MONITORING__MAX_LOG_FILE_SIZE_MB'' parse_word
                 (\<lambda>v m. m\<lparr>mn_max_log_file_size_mb := v\<rparr>) m2;
          m4 = env_parsed ev ''XENOCLAW_MONITORING__METRICS_ENABLED'' parse_bool
                 (\<lambda>v m. m\<lparr>mn_metrics_enabled := v\<rparr>) m3
      in env_parsed ev ''XENOCLAW_MONITORING__METRICS_PORT'' parse_word (\<lambda>v m. m\<lparr>mn_metrics_port := v\<rparr>) m4)"

definition apply_monitoring_env_overrides :: "env_vars \<Rightarrow> platform_config \<Rightarrow> platform_config" where
  "apply_monitoring_env_overrides ev c = c\<lparr>cf_monitoring := monitoring_env ev (cf_monitoring c)\<rparr>"

definition general_env :: "env_vars \<Rightarrow> general_config \<Rightarrow> general_config" where
  "general_env ev g =
     env_str ev ''XENOCLAW_GENERAL__LOG_DIR'' (\<lambda>v g. g\<lparr>gc_log_dir := path_from_str v\<rparr>)
       (env_str ev ''XENOCLAW_GENERAL__DATA_DIR'' (\<lambda>v g. g\<lparr>gc_data_dir := path_from_str v\<rparr>)
         (env_str ev ''XENOCLAW_GENERAL__AGENT_NAME'' (\<lambda>v g. g\<lparr>gc_agent_name := v\<rparr>) g))"

definition task_limits_env :: "env_vars \<Rightarrow> task_limits \<Rightarrow> task_limits" where
  "task_limits_env ev s =
     env_parsed ev ''XENOCLAW_SCHEDULER__DEFAULT_TIMEOUT_SECONDS'' parse_word (\<lambda>v s. s\<lparr>tl_default_timeout_seconds := v\<rparr>)
       (env_parsed ev ''XENOCLAW_SCHEDULER__MAX_CONCURRENT_TASKS'' parse_word (\<lambda>v s. s\<lparr>tl_max_concurrent_tasks := v\<rparr>) s)"

definition web_env :: "env_vars \<Rightarrow> web_config \<Rightarrow> web_config" where
  "web_env ev w =
     env_parsed ev ''XENOCLAW_WEB__PORT'' parse_word (\<lambda>v w. w\<lparr>wb_port := v\<rparr>)
       (env_str ev ''XENOCLAW_WEB__HOST'' (\<lambda>v w. w\<lparr>wb_host := v\<rparr>)
         (env_parsed ev ''XENOCLAW_WEB__ENABLED'' parse_bool (\<lambda>v w. w\<lparr>wb_enabled := v\<rparr>) w))"

definition api_env :: "env_vars \<Rightarrow> api_config \<Rightarrow> api_config" where
  "api_env ev a =
     env_parsed ev ''XENOCLAW_API__RATE_LIMIT_PER_MINUTE'' parse_word (\<lambda>v a. a\<lparr>ap_rate_limit_per_minute := v\<rparr>)
       (env_parsed ev ''XENOCLAW_API__PORT'' parse_word (\<lambda>v a. a\<lparr>ap_port := v\<rparr>)
         (env_str ev ''XENOCLAW_API__HOST'' (\<lambda>v a. a\<lparr>ap_host := v\<rparr>) a))"

definition plugin_env :: "env_vars \<Rightarrow> plugin_config \<Rightarrow> plugin_config" where
  "plugin_env ev p =
     env_str ev ''XENOCLAW_PLUGINS__DIRECTORY'' (\<lambda>v p. p\<lparr>pl_directory := path_from_str v\<rparr>)
       (env_parsed ev ''XENOCLAW_PLUGINS__ENABLED'' parse_bool (\<lambda>v p. p\<lparr>pl_enabled := v\<rparr>) p)"

definition apply_env_overrides :: "env_vars \<Rightarrow> platform_config \<Rightarrow> platform_config" where
  "apply_env_overrides ev c =
     (let c1 = c\<lparr>cf_general := general_env ev (cf_general c)\<rparr>;
          c2 = apply_llm_env_overrides ev c1;
          c3 = apply_security_env_overrides ev c2;
          c4 = apply_coding_env_overrides ev c3;
          c5 = apply_monitoring_env_overrides ev c4
      in c5\<lparr>cf_scheduler := task_limits_env ev (cf_scheduler c5), cf_web := web_env ev (cf_web c5),
            cf_api := api_env ev (cf_api c5), cf_plugins := plugin_env ev (cf_plugins c5)\<rparr>)"

subsection \<open>Loading\<close>

definition load_config_from_str :: "toml \<Rightarrow> env_vars \<Rightarrow> string \<Rightarrow> config_error + platform_config" where
  "load_config_from_str toml_from_str ev content =
     (case toml_from_str content of
        Inl e \<Rightarrow> Inl (ConfigParseError e)
      | Inr c \<Rightarrow>
          let c' = apply_env_overrides ev c;
              errors = validate_config c'
          in if errors \<noteq> [] then Inl (ConfigInvalid errors) else Inr c')"

definition load_config :: "toml \<Rightarrow> env_vars \<Rightarrow> (path \<Rightarrow> file_read) \<Rightarrow> path \<Rightarrow> config_error + platform_config" where
  "load_config toml_from_str ev read_file p =
     (case read_file p of
        FileMissing \<Rightarrow> Inl (ConfigFileNotFound p)
      | FileError e \<Rightarrow> Inl (ConfigIoError e)
      | FileContent content \<Rightarrow> load_config_from_str toml_from_str ev content)"

subsection \<open>Reloading\<close>

record reloadable_config =
  rc_rate_limit_requests_per_minute :: u32
  rc_rate_limit_burst :: u32
  rc_log_level :: log_level
  rc_plugin_enabled :: bool
  rc_log_retention_days :: u16
  rc_max_log_file_size_mb :: u32
  rc_metrics_enabled :: bool
  rc_alert_rules :: "alert_rule list"
  rc_mcp_server_enabled :: bool
  rc_mcp_servers :: "mcp_server_config list"

definition extract_reloadable :: "platform_config \<Rightarrow> reloadable_config" where
  "extract_reloadable c = \<lparr>
     rc_rate_limit_requests_per_minute = ap_rate_limit_per_minute (cf_api c),
     rc_rate_limit_burst = ap_rate_limit_per_minute (cf_api c),
     rc_log_level = mn_log_level (cf_monitoring c),
     rc_plugin_enabled = pl_enabled (cf_plugins c),
     rc_log_retention_days = mn_log_retention_days (cf_monitoring c),
     rc_max_log_file_size_mb = mn_max_log_file_size_mb (cf_monitoring c),
     rc_metrics_enabled = mn_metrics_enabled (cf_monitoring c),
     rc_alert_rules = mn_alert_rules (cf_monitoring c),
     rc_mcp_server_enabled = mc_server_enabled (cf_mcp c),
     rc_mcp_servers = mc_servers (cf_mcp c)\<rparr>"

definition reloadable_errors :: "reloadable_config \<Rightarrow> validation_error list" where
  "reloadable_errors r =
     err_if (rc_rate_limit_requests_per_minute r = 0) ''api.rate_limit_per_minute'' ''rate limit must be greater than 0'' @
     retention_error (rc_log_retention_days r) @
     err_if (rc_max_log_file_size_mb r = 0) ''monitoring.max_log_file_size_mb'' ''max log file size must be greater than 0'' @
     concat (map validate_alert_rule (enumerate 0 (rc_alert_rules r)))"

definition validate_reloadable :: "reloadable_config \<Rightarrow> config_error + unit" where
  "validate_reloadable r =
     (let errors = reloadable_errors r in if errors = [] then Inr () else Inl (ConfigInvalid errors))"

definition reload_config_from_str :: "toml \<Rightarrow> string \<Rightarrow> config_error + reloadable_config" where
  "reload_config_from_str toml_from_str content =
     (case toml_from_str content of
        Inl e \<Rightarrow> Inl (ConfigParseError e)
      | Inr c \<Rightarrow>
          let r = extract_reloadable c
          in (case validate_reloadable r of Inl e \<Rightarrow> Inl e | Inr _ \<Rightarrow> Inr r))"

definition reload_config :: "toml \<Rightarrow> (path \<Rightarrow> file_read) \<Rightarrow> path \<Rightarrow> config_error + reloadable_config" where
  "reload_config toml_from_str read_file p =
     (case read_file p of
        FileMissing \<Rightarrow> Inl (ConfigFileNotFound p)
      | FileError e \<Rightarrow> Inl (ConfigIoError e)
      | FileContent content \<Rightarrow> reload_config_from_str toml_from_str content)"

definition show_bool :: "bool \<Rightarrow> string" where
  "show_bool b = (if b then ''true'' else ''false'')"

definition change_if :: "bool \<Rightarrow> string \<Rightarrow> string \<Rightarrow> string \<Rightarrow> string list" where
  "change_if b setting old new = (if b then [setting @ '': '' @ old @ '' -> '' @ new] else [])"

text \<open>The change descriptions, but for the two lists of MCP server names, which the source
  formats with the debug printer.\<close>

definition reload_changes :: "platform_config \<Rightarrow> reloadable_config \<Rightarrow> string list" where
  "reload_changes c r =
     (let m = cf_monitoring c in
      change_if (ap_rate_limit_per_minute (cf_api c) \<noteq> rc_rate_limit_requests_per_minute r) ''api.rate_limit_per_minute''
        (show_nat (unat (ap_rate_limit_per_minute (cf_api c)))) (show_nat (unat (rc_rate_limit_requests_per_minute r))) @
      change_if (mn_log_level m \<noteq> rc_log_level r) ''monitoring.log_level''
        (log_level_str (mn_log_level m)) (log_level_str (rc_log_level r)) @
      change_if (pl_enabled (cf_plugins c) \<noteq> rc_plugin_enabled r) ''plugins.enabled''
        (show_bool (pl_enabled (cf_plugins c))) (show_bool (rc_plugin_enabled r)) @
      change_if (mn_log_retention_days m \<noteq> rc_log_retention_days r) ''monitoring.log_retention_days''
        (show_nat (unat (mn_log_retention_days m))) (show_nat (unat (rc_log_retention_days r))) @
      change_if (mn_max_log_file_size_mb m \<noteq> rc_max_log_file_size_mb r) ''monitoring.max_log_file_size_mb''
        (show_nat (unat (mn_max_log_file_size_mb m))) (show_nat (unat (rc_max_log_file_size_mb r))) @
      change_if (mn_metrics_enabled m \<noteq> rc_metrics_enabled r) ''monitoring.metrics_enabled''
        (show_bool (mn_metrics_enabled m)) (show_bool (rc_metrics_enabled r)) @
      change_if (length (mn_alert_rules m) \<noteq> length (rc_alert_rules r)) ''monitoring.alert_rules''
        (show_nat (length (mn_alert_rules m)) @ '' rules'') (show_nat (length (rc_alert_rules r)) @ '' rules'') @
      change_if (mc_server_enabled (cf_mcp c) \<noteq> rc_mcp_server_enabled r) ''mcp.server_enabled''
        (show_bool (mc_server_enabled (cf_mcp c))) (show_bool (rc_mcp_server_enabled r)))"

definition apply_reload :: "platform_config \<Rightarrow> reloadable_config \<Rightarrow> platform_config" where
  "apply_reload c r =
     c\<lparr>cf_api := (cf_api c)\<lparr>ap_rate_limit_per_minute := rc_rate_limit_requests_per_minute r\<rparr>,
       cf_monitoring := (cf_monitoring c)\<lparr>mn_log_level := rc_log_level r, mn_log_retention_days := rc_log_retention_days r,
          mn_max_log_file_size_mb := rc_max_log_file_size_mb r, mn_metrics_enabled := rc_metrics_enabled r,
          mn_alert_rules := rc_alert_rules r\<rparr>,
       cf_plugins := (cf_plugins c)\<lparr>pl_enabled := rc_plugin_enabled r\<rparr>,
       cf_mcp := (cf_mcp c)\<lparr>mc_server_enabled := rc_mcp_server_enabled r, mc_servers := rc_mcp_servers r\<rparr>\<rparr>"

text \<open>One round of the SIGHUP handler, and the call of the API.\<close>

definition on_sighup :: "toml \<Rightarrow> (path \<Rightarrow> file_read) \<Rightarrow> path \<Rightarrow> platform_config \<Rightarrow> platform_config" where
  "on_sighup toml_from_str read_file p c =
     (case reload_config toml_from_str read_file p of
        Inr r \<Rightarrow> apply_reload c r
      | Inl _ \<Rightarrow> c)"

definition trigger_reload :: "toml \<Rightarrow> (path \<Rightarrow> file_read) \<Rightarrow> path \<Rightarrow> platform_config \<Rightarrow> platform_config \<times> (string + unit)" where
  "trigger_reload toml_from_str read_file p c =
     (case reload_config toml_from_str read_file p of
        Inr r \<Rightarrow> (apply_reload c r, Inr ())
      | Inl e \<Rightarrow> (c, Inl (''Configuration reload failed: '' @ config_error_text e)))"

end
