(* ===== verification/Config_Props.thy ===== *)
theory Config_Props
  imports Config_Load
begin

text \<open>The properties of loading and reloading a configuration.\<close>

subsection \<open>Lemmas\<close>

lemma reloadable_errors_Nil:
  "reloadable_errors r = [] \<longleftrightarrow> rc_rate_limit_requests_per_minute r \<noteq> 0 \<and> rc_log_retention_days r \<noteq> 0 \<and>
     rc_log_retention_days r \<le> 365 \<and> rc_max_log_file_size_mb r \<noteq> 0 \<and> list_all alert_rule_ok (rc_alert_rules r)"
  using validate_alert_rules_Nil [of "rc_alert_rules r"]
  by (auto simp: reloadable_errors_def retention_error_def not_less simp del: concat_eq_Nil_conv)

lemma reload_config_from_str_Inr:
  "reload_config_from_str toml content = Inr r \<longleftrightarrow>
     (\<exists>c. toml content = Inr c \<and> r = extract_reloadable c \<and> reloadable_errors r = [])"
  by (auto simp: reload_config_from_str_def validate_reloadable_def Let_def split: sum.splits if_splits)

text \<open>Reloading is idempotent, and extracting what was applied gives it back.\<close>

lemma apply_reload_twice: "apply_reload (apply_reload c r) r' = apply_reload c r'"
  by (simp add: apply_reload_def)

lemma apply_extract: "apply_reload c (extract_reloadable c) = c"
  by (simp add: apply_reload_def extract_reloadable_def)

lemma extract_apply: "rc_rate_limit_burst r = rc_rate_limit_requests_per_minute r \<Longrightarrow> extract_reloadable (apply_reload c r) = r"
  by (simp add: apply_reload_def extract_reloadable_def)

text \<open>Without overrides in the environment the settings stay as they are.\<close>

lemma no_env_overrides: "apply_env_overrides (\<lambda>_. None) c = c"
proof -
  have "provider_env (\<lambda>_. None) = snd"
    by (auto simp: provider_env_def env_str_def env_parsed_def Let_def)
  moreover have "coding_env (\<lambda>_. None) = (\<lambda>d. d)"
    by (auto simp: coding_env_def env_parsed_def Let_def)
  ultimately show ?thesis
    by (simp add: apply_env_overrides_def apply_llm_env_overrides_def apply_security_env_overrides_def
        apply_coding_env_overrides_def apply_monitoring_env_overrides_def general_env_def security_env_def
        monitoring_env_def task_limits_env_def web_env_def api_env_def plugin_env_def
        env_str_def env_parsed_def Let_def option.map_ident)
qed

subsection \<open>A configuration\<close>

definition sample_provider :: provider_config where
  "sample_provider = \<lparr>pc_name = ''local'', pc_provider_type = Ollama, pc_api_key = None,
     pc_base_url = ''http://localhost:11434'', pc_model = ''llama3'', pc_priority = 1,
     pc_timeout_seconds = 30, pc_max_tokens = None\<rparr>"

definition sample_config :: platform_config where
  "sample_config = (default_platform_config (\<lambda>_. None))\<lparr>cf_llm := \<lparr>lc_providers = [sample_provider]\<rparr>\<rparr>"

lemmas sample_defs = sample_config_def sample_provider_def default_platform_config_def default_general_config_def
  default_security_config_def default_resource_limits_def default_task_limits_def default_web_config_def
  default_api_config_def default_monitoring_config_def default_plugin_config_def default_mcp_config_def

lemma not_blank_Cons: "\<not> is_ws c \<Longrightarrow> \<not> blank (c # s)"
  unfolding blank_def str_trim_def by (simp add: dropWhile_eq_Nil_conv)

lemma sample_config_ok: "config_ok sample_config"
proof -
  have "\<not> blank ''xenoclaw''" "\<not> blank ''local''" "\<not> blank ''http://localhost:11434''" "\<not> blank ''llama3''"
      "\<not> blank ''0.0.0.0''"
    by (rule not_blank_Cons, simp add: is_ws_def)+
  then show ?thesis
    by (simp add: config_ok_def llm_ok_def provider_ok_def security_ok_def task_limits_ok_def web_ok_def api_ok_def
        monitoring_ok_def sample_defs needs_api_key_def)
qed

subsection \<open>Properties\<close>

text \<open>
  Loading succeeds exactly when the file parses and the settings that result from the
  environment overrides satisfy every rule of the validation, and the result is those
  settings; otherwise the error carries all violated rules at once.
\<close>

theorem load_config_exact:
  "load_config_from_str toml ev content =
     (case toml content of
        Inl e \<Rightarrow> Inl (ConfigParseError e)
      | Inr c \<Rightarrow>
          if config_ok (apply_env_overrides ev c) then Inr (apply_env_overrides ev c)
          else Inl (ConfigInvalid (validate_config (apply_env_overrides ev c))))"
  by (auto simp: load_config_from_str_def Let_def validate_config_Nil split: sum.split)

text \<open>
  Reloading a validated file into a valid running configuration keeps it valid exactly
  when it does not enable metrics while the running metrics port is 0: the reload checks
  leave out the one rule that ties a reloadable setting to one that is not.
\<close>

theorem reload_keeps_valid_iff:
  assumes "config_ok c" and "reload_config_from_str toml content = Inr r"
  shows "config_ok (apply_reload c r) \<longleftrightarrow> (rc_metrics_enabled r \<longrightarrow> mn_metrics_port (cf_monitoring c) \<noteq> 0)"
proof -
  have "reloadable_errors r = []" using assms(2) unfolding reload_config_from_str_Inr by blast
  then show ?thesis
    using assms(1) unfolding reloadable_errors_Nil config_ok_def
    by (simp add: apply_reload_def api_ok_def monitoring_ok_def)
qed

definition metrics_off :: platform_config where
  "metrics_off = sample_config\<lparr>cf_monitoring := default_monitoring_config\<lparr>mn_metrics_enabled := False, mn_metrics_port := 0\<rparr>\<rparr>"

theorem reload_keeps_valid_iff_witness:
  "config_ok metrics_off \<and>
   (let r = extract_reloadable sample_config
    in reload_config_from_str (\<lambda>_. Inr sample_config) [] = Inr r \<and> \<not> config_ok (apply_reload metrics_off r))"
proof -
  let ?r = "extract_reloadable sample_config"
  have ok: "config_ok metrics_off"
    using sample_config_ok by (simp add: config_ok_def metrics_off_def monitoring_ok_def default_monitoring_config_def)
  have r: "reload_config_from_str (\<lambda>_. Inr sample_config) [] = Inr ?r"
    unfolding reload_config_from_str_Inr reloadable_errors_Nil by (simp add: extract_reloadable_def sample_defs)
  from reload_keeps_valid_iff [OF ok r] ok r show ?thesis
    by (simp add: metrics_off_def default_monitoring_config_def extract_reloadable_def sample_defs)
qed

text \<open>
  Reloading drops the environment overrides: after a configuration has been loaded with
  overrides in force, a reload of the same unchanged file sets the rate limit, the log level
  and the metrics switch to the values in the file.
\<close>

theorem reload_drops_env_overrides:
  assumes "load_config_from_str toml ev content = Inr c" and "toml content = Inr file"
    and "reload_config_from_str toml content = Inr r"
  shows "ap_rate_limit_per_minute (cf_api (apply_reload c r)) = ap_rate_limit_per_minute (cf_api file) \<and>
    mn_log_level (cf_monitoring (apply_reload c r)) = mn_log_level (cf_monitoring file) \<and>
    mn_metrics_enabled (cf_monitoring (apply_reload c r)) = mn_metrics_enabled (cf_monitoring file)"
  using assms by (simp add: reload_config_from_str_Inr apply_reload_def extract_reloadable_def)

definition rate_env :: env_vars where
  "rate_env n = (if n = ''XENOCLAW_API__RATE_LIMIT_PER_MINUTE'' then Some ''7'' else None)"

lemma rate_env_None: "n \<noteq> ''XENOCLAW_API__RATE_LIMIT_PER_MINUTE'' \<Longrightarrow> rate_env n = None"
  by (simp add: rate_env_def)

lemma sample_overridden:
  "apply_env_overrides rate_env sample_config = sample_config\<lparr>cf_api := default_api_config\<lparr>ap_rate_limit_per_minute := 7\<rparr>\<rparr>"
  by (simp add: apply_env_overrides_def apply_llm_env_overrides_def apply_security_env_overrides_def
      apply_coding_env_overrides_def apply_monitoring_env_overrides_def general_env_def security_env_def
      monitoring_env_def task_limits_env_def web_env_def api_env_def plugin_env_def provider_env_def
      env_str_def env_parsed_def rate_env_def sample_defs Let_def parse_word_def parse_uint_def digit_val_def)

theorem reload_drops_env_overrides_witness:
  "load_config_from_str (\<lambda>_. Inr sample_config) rate_env [] =
     Inr (sample_config\<lparr>cf_api := default_api_config\<lparr>ap_rate_limit_per_minute := 7\<rparr>\<rparr>) \<and>
   ap_rate_limit_per_minute (cf_api (apply_reload
     (sample_config\<lparr>cf_api := default_api_config\<lparr>ap_rate_limit_per_minute := 7\<rparr>\<rparr>) (extract_reloadable sample_config))) = 100"
proof -
  let ?c = "sample_config\<lparr>cf_api := default_api_config\<lparr>ap_rate_limit_per_minute := 7\<rparr>\<rparr>"
  have ok: "config_ok ?c"
    using sample_config_ok by (simp add: config_ok_def api_ok_def default_api_config_def sample_defs)
  have l: "load_config_from_str (\<lambda>_. Inr sample_config) rate_env [] = Inr ?c"
    using ok by (simp add: load_config_from_str_def sample_overridden validate_config_Nil Let_def)
  have r: "reload_config_from_str (\<lambda>_. Inr sample_config) [] = Inr (extract_reloadable sample_config)"
    unfolding reload_config_from_str_Inr reloadable_errors_Nil by (simp add: extract_reloadable_def sample_defs)
  from reload_drops_env_overrides [OF l refl r] l show ?thesis by (simp add: sample_defs)
qed

end
