(* ===== verification/Event_Bus.thy ===== *)
theory Event_Bus
  imports Models
begin

text \<open>
  The event bus (\<^verbatim>\<open>crates/agent-core/src/event_bus.rs\<close>). The broadcast channel is tokio's:
  the bus keeps the events handed to it and the number of receivers that are alive, and what
  a receiver gets from the channel is an argument of its two loops, the list of outcomes of
  successive calls of the channel's own \<open>recv\<close> or \<open>try_recv\<close>. The identifier and time of
  an event are arguments of \<open>event_new\<close>.
\<close>

datatype event_type =
    ToolRegistered | ToolUnregistered | TaskCompleted | TaskFailed
  | MessageReceived | AgentModeChanged | PluginLoaded | PluginUnloaded

fun event_type_str :: "event_type \<Rightarrow> string" where
  "event_type_str ToolRegistered = ''tool_registered''"
| "event_type_str ToolUnregistered = ''tool_unregistered''"
| "event_type_str TaskCompleted = ''task_completed''"
| "event_type_str TaskFailed = ''task_failed''"
| "event_type_str MessageReceived = ''message_received''"
| "event_type_str AgentModeChanged = ''agent_mode_changed''"
| "event_type_str PluginLoaded = ''plugin_loaded''"
| "event_type_str PluginUnloaded = ''plugin_unloaded''"

record event =
  ev_id :: uuid
  ev_type :: event_type
  ev_payload :: json
  ev_timestamp :: timestamp

definition event_new :: "uuid \<Rightarrow> timestamp \<Rightarrow> event_type \<Rightarrow> json \<Rightarrow> event" where
  "event_new i now ty payload = \<lparr>ev_id = i, ev_type = ty, ev_payload = payload, ev_timestamp = now\<rparr>"

definition event_empty :: "uuid \<Rightarrow> timestamp \<Rightarrow> event_type \<Rightarrow> event" where
  "event_empty i now ty = event_new i now ty JNull"

record event_bus =
  eb_sent :: "event list"
  eb_receivers :: nat
  eb_subscriber_counts :: "(event_type, nat) hashmap"

definition eb_new :: event_bus where
  "eb_new = \<lparr>eb_sent = [], eb_receivers = 0, eb_subscriber_counts = hm_empty\<rparr>"

text \<open>\<^verbatim>\<open>send\<close> fails exactly when no receiver is alive, and \<open>publish\<close> then answers 0.\<close>

definition publish :: "event \<Rightarrow> event_bus \<Rightarrow> nat \<times> event_bus" where
  "publish ev bus =
     (if eb_receivers bus = 0 then (0, bus)
      else (eb_receivers bus, bus\<lparr>eb_sent := eb_sent bus @ [ev]\<rparr>))"

text \<open>\<open>subscribe\<close> registers the receiver at once; the count per type is bumped by a spawned
  task, the separate step \<open>count_subscriber\<close>.\<close>

definition subscribe :: "event_type \<Rightarrow> event_bus \<Rightarrow> event_type \<times> event_bus" where
  "subscribe ty bus = (ty, bus\<lparr>eb_receivers := Suc (eb_receivers bus)\<rparr>)"

definition count_subscriber :: "event_type \<Rightarrow> event_bus \<Rightarrow> event_bus" where
  "count_subscriber ty bus =
     bus\<lparr>eb_subscriber_counts :=
       hm_insert ty (Suc (case hm_get (eb_subscriber_counts bus) ty of Some n \<Rightarrow> n | None \<Rightarrow> 0)) (eb_subscriber_counts bus)\<rparr>"

definition receiver_count :: "event_bus \<Rightarrow> nat" where
  "receiver_count bus = eb_receivers bus"

datatype recv_error = Closed
datatype chan_error = ChanLagged u64 | ChanClosed | ChanEmpty

text \<open>
  \<open>recv\<close> on the outcomes of the channel's \<open>recv\<close>: the result and the outcomes not used
  yet; \<open>None\<close> when the outcomes end before one is returned, that is, while it still waits.
  The channel's \<open>recv\<close> never reports \<open>ChanEmpty\<close>.
\<close>

fun ev_recv :: "event_type \<Rightarrow> (chan_error + event) list \<Rightarrow> ((recv_error + event) \<times> (chan_error + event) list) option" where
  "ev_recv ty [] = None"
| "ev_recv ty (Inr ev # os) = (if ev_type ev = ty then Some (Inr ev, os) else ev_recv ty os)"
| "ev_recv ty (Inl (ChanLagged n) # os) = ev_recv ty os"
| "ev_recv ty (Inl ChanClosed # os) = Some (Inl Closed, os)"
| "ev_recv ty (Inl ChanEmpty # os) = ev_recv ty os"

text \<open>\<open>try_recv\<close>: every error of the channel ends it with \<open>None\<close>, lagging included. The
  outer option is absent when the outcomes end before the loop does.\<close>

fun ev_try_recv :: "event_type \<Rightarrow> (chan_error + event) list \<Rightarrow> (event option \<times> (chan_error + event) list) option" where
  "ev_try_recv ty [] = None"
| "ev_try_recv ty (Inr ev # os) = (if ev_type ev = ty then Some (Some ev, os) else ev_try_recv ty os)"
| "ev_try_recv ty (Inl e # os) = Some (None, os)"

subsection \<open>Lemmas\<close>

lemma event_type_str_inj: "event_type_str a = event_type_str b \<Longrightarrow> a = b"
  by (cases a; cases b; simp)

lemma publish_sent:
  "eb_sent (snd (publish ev bus)) = eb_sent bus @ (if fst (publish ev bus) = 0 then [] else [ev])"
  by (simp add: publish_def)

text \<open>A blocking receiver returns the first event of its type, whatever it lagged behind
  before, and only a closed channel makes it fail.\<close>

lemma ev_recv_first:
  assumes "ev_recv ty os = Some (Inr ev, rest)"
  shows "\<exists>pre. os = pre @ Inr ev # rest \<and> ev_type ev = ty \<and>
    (\<forall>x \<in> set pre. x \<noteq> Inl ChanClosed \<and> (\<forall>e. x = Inr e \<longrightarrow> ev_type e \<noteq> ty))"
  using assms
proof (induction ty os rule: ev_recv.induct)
  case (2 ty ev' os)
  show ?case
  proof (cases "ev_type ev' = ty")
    case True
    then show ?thesis using 2 by (intro exI [of _ "[]"]) auto
  next
    case False
    with 2 obtain pre where "os = pre @ Inr ev # rest" "ev_type ev = ty"
      "\<forall>x \<in> set pre. x \<noteq> Inl ChanClosed \<and> (\<forall>e. x = Inr e \<longrightarrow> ev_type e \<noteq> ty)" by auto
    then show ?thesis using False by (intro exI [of _ "Inr ev' # pre"]) auto
  qed
next
  case (3 ty n os)
  then obtain pre where "os = pre @ Inr ev # rest" "ev_type ev = ty"
    "\<forall>x \<in> set pre. x \<noteq> Inl ChanClosed \<and> (\<forall>e. x = Inr e \<longrightarrow> ev_type e \<noteq> ty)" by auto
  then show ?case by (intro exI [of _ "Inl (ChanLagged n) # pre"]) auto
next
  case (5 ty os)
  then obtain pre where "os = pre @ Inr ev # rest" "ev_type ev = ty"
    "\<forall>x \<in> set pre. x \<noteq> Inl ChanClosed \<and> (\<forall>e. x = Inr e \<longrightarrow> ev_type e \<noteq> ty)" by auto
  then show ?case by (intro exI [of _ "Inl ChanEmpty # pre"]) auto
qed auto

text \<open>A lagging receiver's \<open>try_recv\<close> reports no event although the next call returns
  one.\<close>

lemma ev_try_recv_lagged:
  "ev_type ev = ty \<Longrightarrow> ev_try_recv ty (Inl (ChanLagged n) # Inr ev # os) = Some (None, Inr ev # os) \<and>
     ev_try_recv ty (Inr ev # os) = Some (Some ev, os)"
  by simp

end
