(* ===== verification/Llm_Types.thy ===== *)
theory Llm_Types
  imports Models
begin

text \<open>
  The request and response types of the LLM providers
  (\<^verbatim>\<open>crates/llm-router/src/types.rs\<close>). A sampling temperature is its 32-bit pattern.
\<close>

definition IMAGE_SENTINEL_KEY :: string where
  "IMAGE_SENTINEL_KEY = ''__xeno_image__''"

record image_content =
  ic_media_type :: string
  ic_data :: string

datatype chat_role = ChatSystem | ChatUser | ChatAssistant | ChatTool

record chat_message =
  cm_role :: chat_role
  cm_content :: string
  cm_images :: "image_content list"

definition chat_text :: "chat_role \<Rightarrow> string \<Rightarrow> chat_message" where
  "chat_text role content = \<lparr>cm_role = role, cm_content = content, cm_images = []\<rparr>"

definition chat_with_images :: "chat_role \<Rightarrow> string \<Rightarrow> image_content list \<Rightarrow> chat_message" where
  "chat_with_images role content images = \<lparr>cm_role = role, cm_content = content, cm_images = images\<rparr>"

record tool_definition =
  td_name :: string
  td_description :: string
  td_parameters :: json

record completion_request =
  cr_messages :: "chat_message list"
  cr_tools :: "tool_definition list"
  cr_max_tokens :: "u32 option"
  cr_temperature :: "32 word option"
  cr_stream :: bool

record llm_tool_call =
  lt_id :: string
  lt_name :: string
  lt_arguments :: string

record token_usage =
  tu_prompt_tokens :: u32
  tu_completion_tokens :: u32
  tu_total_tokens :: u32

record completion_response =
  cp_content :: string
  cp_tool_calls :: "llm_tool_call list"
  cp_usage :: token_usage
  cp_model :: string

record completion_chunk =
  ck_delta_content :: "string option"
  ck_delta_tool_calls :: "llm_tool_call list"
  ck_done :: bool
  ck_usage :: "token_usage option"

lemma chat_role_simps [simp]:
  "cm_role (chat_text r c) = r" "cm_role (chat_with_images r c is) = r" "cm_content (chat_text r c) = c"
  by (simp_all add: chat_text_def chat_with_images_def)

end
