(* ===== verification/Tool_Registry.thy ===== *)
theory Tool_Registry
  imports Event_Bus Llm_Types
begin

text \<open>
  The tool registry (\<^verbatim>\<open>crates/agent-core/src/tool_registry.rs\<close>): the tools by name, an
  index from plugins to the tools they registered, and the lifecycle events. A tool's
  \<open>execute\<close> acts on a world \<open>'w\<close>. The events need identifiers and times: \<open>stamp n\<close> gives
  those of the \<open>n\<close>-th event the registry makes. A \<^verbatim>\<open>HashSet\<close> of names is a list without
  duplicates; the order in which it is walked is the order of that list.
\<close>

record 'w tool =
  tool_name :: string
  tool_description :: string
  tool_parameters_schema :: json
  tool_execute :: "json \<Rightarrow> 'w \<Rightarrow> (string + string) \<times> 'w"
  tool_coding_only :: bool
  tool_is_destructive :: bool

record 'w tool_entry =
  te_tool :: "'w tool"
  te_plugin_name :: "string option"

record 'w tool_registry =
  tr_tools :: "(string, 'w tool_entry) hashmap"
  tr_plugin_tools :: "(string, string list) hashmap"
  tr_event_bus :: "event_bus option"
  tr_stamps :: nat

type_synonym stamps = "nat \<Rightarrow> uuid \<times> timestamp"

definition tr_new :: "'w tool_registry" where
  "tr_new = \<lparr>tr_tools = hm_empty, tr_plugin_tools = hm_empty, tr_event_bus = None, tr_stamps = 0\<rparr>"

definition with_event_bus :: "event_bus \<Rightarrow> 'w tool_registry" where
  "with_event_bus bus = tr_new\<lparr>tr_event_bus := Some bus\<rparr>"

definition set_event_bus :: "event_bus \<Rightarrow> 'w tool_registry \<Rightarrow> 'w tool_registry" where
  "set_event_bus bus reg = reg\<lparr>tr_event_bus := Some bus\<rparr>"

definition tool_payload :: "string \<Rightarrow> string option \<Rightarrow> json" where
  "tool_payload name plugin =
     JObject [(''tool_name'', JString name), (''plugin'', case plugin of Some p \<Rightarrow> JString p | None \<Rightarrow> JNull)]"

definition emit_event :: "stamps \<Rightarrow> event_type \<Rightarrow> string \<Rightarrow> string option \<Rightarrow> 'w tool_registry \<Rightarrow> 'w tool_registry" where
  "emit_event stamp ty name plugin reg =
     (case tr_event_bus reg of
        None \<Rightarrow> reg
      | Some bus \<Rightarrow>
          let (i, now) = stamp (tr_stamps reg);
              (_, bus') = publish (event_new i now ty (tool_payload name plugin)) bus
          in reg\<lparr>tr_event_bus := Some bus', tr_stamps := Suc (tr_stamps reg)\<rparr>)"

definition emit_tool_registered :: "stamps \<Rightarrow> string \<Rightarrow> string option \<Rightarrow> 'w tool_registry \<Rightarrow> 'w tool_registry" where
  "emit_tool_registered stamp = emit_event stamp ToolRegistered"

definition emit_tool_unregistered :: "stamps \<Rightarrow> string \<Rightarrow> string option \<Rightarrow> 'w tool_registry \<Rightarrow> 'w tool_registry" where
  "emit_tool_unregistered stamp = emit_event stamp ToolUnregistered"

definition register_tool :: "stamps \<Rightarrow> 'w tool \<Rightarrow> 'w tool_registry \<Rightarrow> bool \<times> 'w tool_registry" where
  "register_tool stamp t reg =
     (if hm_contains (tr_tools reg) (tool_name t) then (False, reg)
      else (True, emit_tool_registered stamp (tool_name t) None
              (reg\<lparr>tr_tools := hm_insert (tool_name t) \<lparr>te_tool = t, te_plugin_name = None\<rparr> (tr_tools reg)\<rparr>)))"

text \<open>\<^verbatim>\<open>entry(plugin).or_default().insert(name)\<close>\<close>

definition index_tool :: "string \<Rightarrow> string \<Rightarrow> (string, string list) hashmap \<Rightarrow> (string, string list) hashmap" where
  "index_tool plugin name idx =
     hm_insert plugin (List.insert name (case hm_get idx plugin of Some ns \<Rightarrow> ns | None \<Rightarrow> [])) idx"

definition register_plugin_tool :: "stamps \<Rightarrow> string \<Rightarrow> 'w tool \<Rightarrow> 'w tool_registry \<Rightarrow> bool \<times> 'w tool_registry" where
  "register_plugin_tool stamp plugin t reg =
     (case hm_get (tr_tools reg) (tool_name t) of
        Some _ \<Rightarrow> (False, reg)
      | None \<Rightarrow>
          (True, emit_tool_registered stamp (tool_name t) (Some plugin)
             (reg\<lparr>tr_tools := hm_insert (tool_name t) \<lparr>te_tool = t, te_plugin_name = Some plugin\<rparr> (tr_tools reg),
                  tr_plugin_tools := index_tool plugin (tool_name t) (tr_plugin_tools reg)\<rparr>)))"

definition unindex_tool :: "string option \<Rightarrow> string \<Rightarrow> (string, string list) hashmap \<Rightarrow> (string, string list) hashmap" where
  "unindex_tool plugin name idx =
     (case plugin of
        None \<Rightarrow> idx
      | Some p \<Rightarrow>
          (case hm_get idx p of
             None \<Rightarrow> idx
           | Some ns \<Rightarrow>
               let ns' = remove1 name ns in if ns' = [] then hm_remove p idx else hm_insert p ns' idx))"

definition unregister_tool :: "stamps \<Rightarrow> string \<Rightarrow> 'w tool_registry \<Rightarrow> bool \<times> 'w tool_registry" where
  "unregister_tool stamp name reg =
     (case hm_get (tr_tools reg) name of
        None \<Rightarrow> (False, reg)
      | Some entry \<Rightarrow>
          (True, emit_tool_unregistered stamp name (te_plugin_name entry)
             (reg\<lparr>tr_tools := hm_remove name (tr_tools reg),
                  tr_plugin_tools := unindex_tool (te_plugin_name entry) name (tr_plugin_tools reg)\<rparr>)))"

text \<open>The loop of \<open>unregister_plugin_tools\<close> over the plugin's names.\<close>

fun remove_tools :: "stamps \<Rightarrow> string \<Rightarrow> string list \<Rightarrow> 'w tool_registry \<Rightarrow> string list \<times> 'w tool_registry" where
  "remove_tools stamp plugin [] reg = ([], reg)"
| "remove_tools stamp plugin (n # ns) reg =
     (if hm_contains (tr_tools reg) n then
        let reg1 = emit_tool_unregistered stamp n (Some plugin) (reg\<lparr>tr_tools := hm_remove n (tr_tools reg)\<rparr>);
            (removed, reg2) = remove_tools stamp plugin ns reg1
        in (n # removed, reg2)
      else remove_tools stamp plugin ns reg)"

definition unregister_plugin_tools :: "stamps \<Rightarrow> string \<Rightarrow> 'w tool_registry \<Rightarrow> string list \<times> 'w tool_registry" where
  "unregister_plugin_tools stamp plugin reg =
     (case hm_get (tr_plugin_tools reg) plugin of
        None \<Rightarrow> ([], reg)
      | Some names \<Rightarrow>
          remove_tools stamp plugin names (reg\<lparr>tr_plugin_tools := hm_remove plugin (tr_plugin_tools reg)\<rparr>))"

definition tr_get :: "'w tool_registry \<Rightarrow> string \<Rightarrow> 'w tool option" where
  "tr_get reg name = map_option te_tool (hm_get (tr_tools reg) name)"

definition tool_plugin :: "'w tool_registry \<Rightarrow> string \<Rightarrow> string option" where
  "tool_plugin reg name = Option.bind (hm_get (tr_tools reg) name) te_plugin_name"

definition tools_for_plugin :: "'w tool_registry \<Rightarrow> string \<Rightarrow> string list" where
  "tools_for_plugin reg plugin = (case hm_get (tr_plugin_tools reg) plugin of Some ns \<Rightarrow> ns | None \<Rightarrow> [])"

definition registered_plugins :: "'w tool_registry \<Rightarrow> string list" where
  "registered_plugins reg = map fst (tr_plugin_tools reg)"

definition tool_definitions :: "'w tool_registry \<Rightarrow> bool \<Rightarrow> bool \<Rightarrow> tool_definition list" where
  "tool_definitions reg include_coding plan_only =
     map (\<lambda>e. \<lparr>td_name = tool_name (te_tool e), td_description = tool_description (te_tool e),
               td_parameters = tool_parameters_schema (te_tool e)\<rparr>)
       (filter (\<lambda>e. \<not> plan_only \<or> \<not> tool_is_destructive (te_tool e))
         (filter (\<lambda>e. include_coding \<or> \<not> tool_coding_only (te_tool e)) (map snd (tr_tools reg))))"

definition execute_tool_call :: "'w tool_registry \<Rightarrow> string \<Rightarrow> string \<Rightarrow> json \<Rightarrow> 'w \<Rightarrow> tool_result \<times> 'w" where
  "execute_tool_call reg cid name arguments w =
     (case hm_get (tr_tools reg) name of
        Some entry \<Rightarrow>
          (case tool_execute (te_tool entry) arguments w of
             (Inr output, w') \<Rightarrow> (\<lparr>res_call_id = cid, res_output = output, res_is_error = False\<rparr>, w')
           | (Inl err, w') \<Rightarrow> (\<lparr>res_call_id = cid, res_output = err, res_is_error = True\<rparr>, w'))
      | None \<Rightarrow>
          (\<lparr>res_call_id = cid, res_output = ''Tool '' @ [CHR 0x27] @ name @ [CHR 0x27] @ '' not found'', res_is_error = True\<rparr>, w))"

definition tool_count :: "'w tool_registry \<Rightarrow> nat" where
  "tool_count reg = hm_len (tr_tools reg)"

definition tool_names :: "'w tool_registry \<Rightarrow> string list" where
  "tool_names reg = map fst (tr_tools reg)"

subsection \<open>Invariant\<close>

text \<open>The two maps: the plugin a name belongs to, and the names the index gives a plugin.\<close>

definition owner :: "(string, 'w tool_entry) hashmap \<Rightarrow> string \<Rightarrow> string option" where
  "owner ts n = Option.bind (hm_get ts n) te_plugin_name"

definition indexed :: "(string, string list) hashmap \<Rightarrow> string \<Rightarrow> string list" where
  "indexed idx p = (case hm_get idx p of Some ns \<Rightarrow> ns | None \<Rightarrow> [])"

lemma registry_views: "tool_plugin reg n = owner (tr_tools reg) n" "tools_for_plugin reg p = indexed (tr_plugin_tools reg) p"
  by (simp_all add: tool_plugin_def owner_def tools_for_plugin_def indexed_def)

lemma owner_update [simp]:
  "owner (hm_insert k e ts) n = (if n = k then te_plugin_name e else owner ts n)"
  "owner (hm_remove k ts) n = (if n = k then None else owner ts n)"
  by (simp_all add: owner_def)

lemma indexed_update [simp]:
  "indexed (index_tool q k idx) p = (if p = q then List.insert k (indexed idx p) else indexed idx p)"
  "indexed (hm_remove q idx) p = (if p = q then [] else indexed idx p)"
  "indexed (unindex_tool pl k idx) p = (if pl = Some p then remove1 k (indexed idx p) else indexed idx p)"
  by (auto simp: indexed_def index_tool_def unindex_tool_def Let_def split: option.splits)

text \<open>The registry keeps its tools under their names, and the index lists exactly the tools
  whose entries name the plugin, each once, with no empty list.\<close>

definition tools_inv :: "(string, 'w tool_entry) hashmap \<Rightarrow> bool" where
  "tools_inv ts \<longleftrightarrow> hm_inv ts \<and> (\<forall>n e. hm_get ts n = Some e \<longrightarrow> tool_name (te_tool e) = n)"

definition index_inv :: "(string, string list) hashmap \<Rightarrow> bool" where
  "index_inv idx \<longleftrightarrow> hm_inv idx \<and> (\<forall>p. hm_get idx p \<noteq> Some [] \<and> distinct (indexed idx p))"

definition registry_inv :: "'w tool_registry \<Rightarrow> bool" where
  "registry_inv reg \<longleftrightarrow> tools_inv (tr_tools reg) \<and> index_inv (tr_plugin_tools reg) \<and>
     (\<forall>p n. n \<in> set (indexed (tr_plugin_tools reg) p) \<longleftrightarrow> owner (tr_tools reg) n = Some p)"

lemma tools_inv_update [simp]:
  "tools_inv ts \<Longrightarrow> tools_inv (hm_insert (tool_name t) \<lparr>te_tool = t, te_plugin_name = p\<rparr> ts)"
  "tools_inv ts \<Longrightarrow> tools_inv (hm_remove k ts)"
  by (auto simp: tools_inv_def)

lemma index_inv_update [simp]:
  "index_inv idx \<Longrightarrow> index_inv (index_tool p k idx)"
  "index_inv idx \<Longrightarrow> index_inv (hm_remove p idx)"
  "index_inv idx \<Longrightarrow> index_inv (unindex_tool pl k idx)"
proof -
  assume inv: "index_inv idx"
  have ins: "List.insert x xs \<noteq> []" for x :: string and xs by (metis insert_not_empty list.set(1) set_insert)
  show "index_inv (index_tool p k idx)"
    using inv ins by (auto simp: index_inv_def) (simp_all add: index_tool_def)
  show "index_inv (hm_remove p idx)"
    using inv by (auto simp: index_inv_def)
  show "index_inv (unindex_tool pl k idx)"
    using inv by (auto simp: index_inv_def) (auto simp: unindex_tool_def Let_def split: option.splits if_splits)
qed

lemma emit_event_fields [simp]:
  "tr_tools (emit_event stamp ty n p reg) = tr_tools reg"
  "tr_plugin_tools (emit_event stamp ty n p reg) = tr_plugin_tools reg"
  by (auto simp: emit_event_def split: option.splits prod.splits)

lemmas emit_defs = emit_tool_registered_def emit_tool_unregistered_def

lemma registry_inv_new [simp]: "registry_inv tr_new"
  by (simp add: registry_inv_def tools_inv_def index_inv_def tr_new_def owner_def indexed_def)

lemma registry_inv_register: "registry_inv reg \<Longrightarrow> registry_inv (snd (register_tool stamp t reg))"
  by (auto simp: registry_inv_def register_tool_def emit_defs hm_contains_def owner_def)

lemma registry_inv_register_plugin: "registry_inv reg \<Longrightarrow> registry_inv (snd (register_plugin_tool stamp p t reg))"
  by (auto simp: registry_inv_def register_plugin_tool_def emit_defs owner_def split: option.split)

lemma index_inv_distinct: "index_inv idx \<Longrightarrow> distinct (indexed idx p)"
  by (simp add: index_inv_def)

lemma registry_inv_unregister: "registry_inv reg \<Longrightarrow> registry_inv (snd (unregister_tool stamp n reg))"
  by (auto simp: registry_inv_def unregister_tool_def emit_defs owner_def index_inv_distinct split: option.split)

text \<open>The bulk removal: exactly the listed names that are registered go, and nothing of the
  index.\<close>

lemma remove_tools_exact:
  assumes "remove_tools stamp p ns reg = (removed, reg')" "distinct ns"
  shows "removed = filter (hm_contains (tr_tools reg)) ns"
    and "hm_get (tr_tools reg') n = (if n \<in> set ns then None else hm_get (tr_tools reg) n)"
    and "tr_plugin_tools reg' = tr_plugin_tools reg"
    and "tools_inv (tr_tools reg) \<Longrightarrow> tools_inv (tr_tools reg')"
proof -
  have "removed = filter (hm_contains (tr_tools reg)) ns \<and>
      (\<forall>n. hm_get (tr_tools reg') n = (if n \<in> set ns then None else hm_get (tr_tools reg) n)) \<and>
      tr_plugin_tools reg' = tr_plugin_tools reg \<and> (tools_inv (tr_tools reg) \<longrightarrow> tools_inv (tr_tools reg'))"
    using assms
  proof (induction stamp p ns reg arbitrary: removed rule: remove_tools.induct)
    case (2 stamp p m ns reg)
    let ?r1 = "emit_tool_unregistered stamp m (Some p) (reg\<lparr>tr_tools := hm_remove m (tr_tools reg)\<rparr>)"
    show ?case
    proof (cases "hm_contains (tr_tools reg) m")
      case True
      then obtain rem where rem: "remove_tools stamp p ns ?r1 = (rem, reg')" "removed = m # rem"
        using 2(3) by (auto simp: Let_def split: prod.splits)
      have "filter (hm_contains (hm_remove m (tr_tools reg))) ns = filter (hm_contains (tr_tools reg)) ns"
        using 2(4) by (intro filter_cong) (auto simp: hm_contains_def)
      then show ?thesis using 2(1) [OF True refl rem(1)] 2(4) rem(2) True by (auto simp: emit_defs)
    next
      case False
      then show ?thesis using 2 by (auto simp: hm_contains_def)
    qed
  qed simp
  then show "removed = filter (hm_contains (tr_tools reg)) ns"
    "hm_get (tr_tools reg') n = (if n \<in> set ns then None else hm_get (tr_tools reg) n)"
    "tr_plugin_tools reg' = tr_plugin_tools reg" "tools_inv (tr_tools reg) \<Longrightarrow> tools_inv (tr_tools reg')"
    by blast+
qed

lemma unregister_plugin_effect:
  assumes inv: "registry_inv reg" and run: "unregister_plugin_tools stamp p reg = (removed, reg')"
  shows "removed = indexed (tr_plugin_tools reg) p"
    and "hm_get (tr_tools reg') n = (if owner (tr_tools reg) n = Some p then None else hm_get (tr_tools reg) n)"
    and "indexed (tr_plugin_tools reg') q = (if q = p then [] else indexed (tr_plugin_tools reg) q)"
    and "registry_inv reg'"
proof -
  note idx = inv [unfolded registry_inv_def]
  have facts: "removed = indexed (tr_plugin_tools reg) p \<and>
      (\<forall>n. hm_get (tr_tools reg') n = (if owner (tr_tools reg) n = Some p then None else hm_get (tr_tools reg) n)) \<and>
      (\<forall>q. indexed (tr_plugin_tools reg') q = (if q = p then [] else indexed (tr_plugin_tools reg) q)) \<and>
      tools_inv (tr_tools reg') \<and> index_inv (tr_plugin_tools reg')"
  proof (cases "hm_get (tr_plugin_tools reg) p")
    case None
    then have "indexed (tr_plugin_tools reg) p = []" by (simp add: indexed_def)
    moreover have "removed = []" "reg' = reg" using run None by (simp_all add: unregister_plugin_tools_def)
    ultimately show ?thesis using idx by (metis empty_iff list.set(1))
  next
    case (Some ns)
    then have ns: "indexed (tr_plugin_tools reg) p = ns" by (simp add: indexed_def)
    have dist: "distinct ns" using idx ns index_inv_distinct by metis
    have mem: "n \<in> set ns \<longleftrightarrow> owner (tr_tools reg) n = Some p" for n using idx ns by metis
    have reg: "\<forall>n \<in> set ns. hm_contains (tr_tools reg) n"
      using mem by (auto simp: owner_def hm_contains_def Option.bind_eq_Some_conv)
    have run': "remove_tools stamp p ns (reg\<lparr>tr_plugin_tools := hm_remove p (tr_plugin_tools reg)\<rparr>) = (removed, reg')"
      using run Some by (simp add: unregister_plugin_tools_def)
    show ?thesis using remove_tools_exact [OF run' dist] reg mem ns idx by (simp add: filter_id_conv)
  qed
  then show "removed = indexed (tr_plugin_tools reg) p"
    "hm_get (tr_tools reg') n = (if owner (tr_tools reg) n = Some p then None else hm_get (tr_tools reg) n)"
    "indexed (tr_plugin_tools reg') q = (if q = p then [] else indexed (tr_plugin_tools reg) q)" by blast+
  have "owner (tr_tools reg') n = (if owner (tr_tools reg) n = Some p then None else owner (tr_tools reg) n)" for n
    using facts by (simp add: owner_def)
  then show "registry_inv reg'" using facts idx by (auto simp: registry_inv_def)
qed

text \<open>Any sequence of the operations.\<close>

datatype 'w reg_call =
    RegBuiltin "'w tool" | RegPlugin string "'w tool" | Unreg string | UnregPlugin string | SetBus event_bus

fun reg_apply :: "stamps \<Rightarrow> 'w reg_call \<Rightarrow> 'w tool_registry \<Rightarrow> 'w tool_registry" where
  "reg_apply stamp (RegBuiltin t) reg = snd (register_tool stamp t reg)"
| "reg_apply stamp (RegPlugin p t) reg = snd (register_plugin_tool stamp p t reg)"
| "reg_apply stamp (Unreg n) reg = snd (unregister_tool stamp n reg)"
| "reg_apply stamp (UnregPlugin p) reg = snd (unregister_plugin_tools stamp p reg)"
| "reg_apply stamp (SetBus bus) reg = set_event_bus bus reg"

lemma registry_inv_apply: "registry_inv reg \<Longrightarrow> registry_inv (reg_apply stamp c reg)"
proof (cases c)
  case (UnregPlugin p)
  assume "registry_inv reg"
  then show ?thesis using UnregPlugin unregister_plugin_effect(4) by (metis prod.collapse reg_apply.simps(4))
next
  case (SetBus bus)
  assume "registry_inv reg"
  then show ?thesis using SetBus by (simp add: set_event_bus_def registry_inv_def)
qed (simp_all add: registry_inv_register registry_inv_register_plugin registry_inv_unregister)

lemma registry_inv_run: "registry_inv reg \<Longrightarrow> registry_inv (fold (reg_apply stamp) calls reg)"
  by (induction calls arbitrary: reg) (auto simp: registry_inv_apply)

subsection \<open>Properties\<close>

text \<open>
  Unloading a plugin removes exactly its tools. After any sequence of registrations and
  removals, the bulk removal returns each name the plugin owns once, no tool of that plugin is
  left, every other tool, built-in or of another plugin, is found as before, and the index
  keeps mirroring the tools.
\<close>

theorem plugin_unload_exact:
  assumes "reg = fold (reg_apply stamp) calls tr_new"
    and "unregister_plugin_tools stamp p reg = (removed, reg')"
  shows "distinct removed \<and> set removed = {n. tool_plugin reg n = Some p} \<and>
    (\<forall>n. tr_get reg' n = (if tool_plugin reg n = Some p then None else tr_get reg n)) \<and>
    (\<forall>q n. n \<in> set (tools_for_plugin reg' q) \<longleftrightarrow> tool_plugin reg' n = Some q)"
proof -
  have inv: "registry_inv reg" unfolding assms(1) by (rule registry_inv_run) simp
  note eff = unregister_plugin_effect [OF inv assms(2)]
  have "distinct removed \<and> set removed = {n. tool_plugin reg n = Some p}"
    using inv index_inv_distinct eff(1) by (auto simp: registry_inv_def registry_views)
  moreover have "tr_get reg' n = (if tool_plugin reg n = Some p then None else tr_get reg n)" for n
    using eff(2) by (simp add: tr_get_def registry_views)
  moreover have "n \<in> set (tools_for_plugin reg' q) \<longleftrightarrow> tool_plugin reg' n = Some q" for q n
    using eff(4) by (simp add: registry_inv_def registry_views)
  ultimately show ?thesis by blast
qed

definition example_tool :: "string \<Rightarrow> unit tool" where
  "example_tool n = \<lparr>tool_name = n, tool_description = [], tool_parameters_schema = JNull,
     tool_execute = (\<lambda>_ w. (Inr [], w)), tool_coding_only = False, tool_is_destructive = False\<rparr>"

definition example_calls :: "unit reg_call list" where
  "example_calls = [RegBuiltin (example_tool ''read''), RegPlugin ''p'' (example_tool ''a''),
     RegPlugin ''p'' (example_tool ''b''), RegPlugin ''q'' (example_tool ''a''), RegPlugin ''q'' (example_tool ''c'')]"

theorem plugin_unload_exact_witness:
  "\<exists>reg'. unregister_plugin_tools (\<lambda>n. (n, 0)) ''p'' (fold (reg_apply (\<lambda>n. (n, 0))) example_calls tr_new) = ([''b'', ''a''], reg') \<and>
     tr_get reg' ''a'' = None \<and> tr_get reg' ''c'' = Some (example_tool ''c'')"
proof -
  let ?reg = "fold (reg_apply (\<lambda>n. (n, 0))) example_calls tr_new"
  have ex: "fst (unregister_plugin_tools (\<lambda>n. (n, 0)) ''p'' ?reg) = [''b'', ''a'']"
    "tool_plugin ?reg ''a'' = Some ''p''" "tool_plugin ?reg ''c'' = Some ''q''"
    "tr_get ?reg ''c'' = Some (example_tool ''c'')"
    by (simp_all add: example_calls_def example_tool_def tr_new_def hm_empty_def register_tool_def register_plugin_tool_def
        emit_defs emit_event_def hm_contains_def hm_insert_def hm_remove_def index_tool_def unregister_plugin_tools_def
        tool_plugin_def tr_get_def Let_def List.insert_def)
  obtain reg' where reg': "unregister_plugin_tools (\<lambda>n. (n, 0)) ''p'' ?reg = ([''b'', ''a''], reg')"
    using ex(1) by (metis prod.collapse)
  from plugin_unload_exact [OF refl reg'] show ?thesis using reg' ex by auto
qed

end
