(* ===== verification/Router.thy ===== *)
theory Router
  imports Config "HOL-Library.Multiset"
begin

text \<open>
  The LLM router (\<^verbatim>\<open>crates/llm-router/src/router.rs\<close>): providers sorted by priority and
  tried in turn. A provider client \<open>'c\<close> is made from its configuration by the parameter
  \<open>pv_create\<close>; its two calls act on a world \<open>'w\<close> and fail with the text of their error;
  \<open>pv_instant\<close> reads the monotonic clock in milliseconds. The log is a list of events.
\<close>

record ('c, 'req, 'resp, 'stream, 'w) provider_api =
  pv_create :: "provider_config \<Rightarrow> 'c"
  pv_complete :: "'c \<Rightarrow> 'req \<Rightarrow> 'w \<Rightarrow> (string + 'resp) \<times> 'w"
  pv_complete_stream :: "'c \<Rightarrow> 'req \<Rightarrow> 'w \<Rightarrow> (string + 'stream) \<times> 'w"
  pv_supports_vision :: "'c \<Rightarrow> bool"
  pv_instant :: "'w \<Rightarrow> nat \<times> 'w"

datatype provider_status = Healthy | Degraded string | Unavailable string

record provider_health =
  ph_name :: string
  ph_priority :: u8
  ph_status :: provider_status
  ph_last_latency_ms :: "u64 option"

record 'c provider_entry =
  pe_client :: 'c
  pe_priority :: u8
  pe_name :: string

record 'c llm_router =
  lr_providers :: "'c provider_entry list"

record provider_attempt =
  pa_provider :: string
  pa_error :: string
  pa_elapsed_ms :: u64

datatype llm_error = AllProvidersFailed "provider_attempt list"

datatype router_log =
    SucceededAfterFailover string u64 nat
  | FailedOver string string string u64
  | LastFailed string string u64

definition make_entry :: "('c, 'req, 'resp, 'stream, 'w) provider_api \<Rightarrow> provider_config \<Rightarrow> 'c provider_entry" where
  "make_entry api pc = \<lparr>pe_client = pv_create api pc, pe_priority = pc_priority pc, pe_name = pc_name pc\<rparr>"

text \<open>\<^verbatim>\<open>sort_by_key\<close> is stable.\<close>

definition router_from_config :: "('c, 'req, 'resp, 'stream, 'w) provider_api \<Rightarrow> llm_config \<Rightarrow> 'c llm_router" where
  "router_from_config api config =
     \<lparr>lr_providers = sort_key pe_priority (map (make_entry api) (lc_providers config))\<rparr>"

definition from_provider_configs :: "('c, 'req, 'resp, 'stream, 'w) provider_api \<Rightarrow> provider_config list \<Rightarrow> 'c llm_router" where
  "from_provider_configs api configs = router_from_config api \<lparr>lc_providers = configs\<rparr>"

definition router_reload_config :: "('c, 'req, 'resp, 'stream, 'w) provider_api \<Rightarrow> llm_config \<Rightarrow> 'c llm_router \<Rightarrow> 'c llm_router" where
  "router_reload_config api config r =
     r\<lparr>lr_providers := sort_key pe_priority (map (make_entry api) (lc_providers config))\<rparr>"

text \<open>
  The loop over the providers, for either call: \<open>call\<close> is the request to one client, and
  \<open>attempts\<close> the failures so far.
\<close>

fun route_loop :: "('w \<Rightarrow> nat \<times> 'w) \<Rightarrow> ('c \<Rightarrow> 'w \<Rightarrow> (string + 'r) \<times> 'w) \<Rightarrow> 'c provider_entry list \<Rightarrow>
    provider_attempt list \<Rightarrow> router_log list \<Rightarrow> 'w \<Rightarrow> (llm_error + 'r) \<times> router_log list \<times> 'w" where
  "route_loop clock call [] attempts log w = (Inl (AllProvidersFailed attempts), log, w)"
| "route_loop clock call (e # es) attempts log w =
     (let (start, w1) = clock w;
          (res, w2) = call (pe_client e) w1;
          (fin, w3) = clock w2;
          elapsed = of_nat (fin - start)
      in case res of
           Inr response \<Rightarrow>
             (Inr response,
              if attempts \<noteq> [] then log @ [SucceededAfterFailover (pe_name e) elapsed (length attempts)] else log,
              w3)
         | Inl err \<Rightarrow>
             let entry = (case es of
                            f # _ \<Rightarrow> FailedOver (pe_name e) err (pe_name f) elapsed
                          | [] \<Rightarrow> LastFailed (pe_name e) err elapsed)
             in route_loop clock call es
                  (attempts @ [\<lparr>pa_provider = pe_name e, pa_error = err, pa_elapsed_ms = elapsed\<rparr>])
                  (log @ [entry]) w3)"

definition complete :: "('c, 'req, 'resp, 'stream, 'w) provider_api \<Rightarrow> 'c llm_router \<Rightarrow> 'req \<Rightarrow> 'w \<Rightarrow>
    (llm_error + 'resp) \<times> router_log list \<times> 'w" where
  "complete api r req w =
     (if lr_providers r = [] then (Inl (AllProvidersFailed []), [], w)
      else route_loop (pv_instant api) (\<lambda>c. pv_complete api c req) (lr_providers r) [] [] w)"

definition complete_stream :: "('c, 'req, 'resp, 'stream, 'w) provider_api \<Rightarrow> 'c llm_router \<Rightarrow> 'req \<Rightarrow> 'w \<Rightarrow>
    (llm_error + 'stream) \<times> router_log list \<times> 'w" where
  "complete_stream api r req w =
     (if lr_providers r = [] then (Inl (AllProvidersFailed []), [], w)
      else route_loop (pv_instant api) (\<lambda>c. pv_complete_stream api c req) (lr_providers r) [] [] w)"

definition provider_status_of :: "'c llm_router \<Rightarrow> provider_health list" where
  "provider_status_of r =
     map (\<lambda>e. \<lparr>ph_name = pe_name e, ph_priority = pe_priority e, ph_status = Healthy, ph_last_latency_ms = None\<rparr>)
       (lr_providers r)"

definition provider_count :: "'c llm_router \<Rightarrow> nat" where
  "provider_count r = length (lr_providers r)"

definition router_supports_vision :: "('c, 'req, 'resp, 'stream, 'w) provider_api \<Rightarrow> 'c llm_router \<Rightarrow> bool" where
  "router_supports_vision api r =
     (case lr_providers r of e # _ \<Rightarrow> pv_supports_vision api (pe_client e) | [] \<Rightarrow> False)"

subsection \<open>Lemmas\<close>

text \<open>The same interface, with every call recorded in the world: the client and whether it
  succeeded.\<close>

type_synonym 'c calls = "('c \<times> bool) list"

definition logged_call :: "('c \<Rightarrow> 'w \<Rightarrow> (string + 'r) \<times> 'w) \<Rightarrow> 'c \<Rightarrow> 'w \<times> 'c calls \<Rightarrow> (string + 'r) \<times> 'w \<times> 'c calls" where
  "logged_call call c = (\<lambda>(w, l). let (r, w') = call c w in (r, (w', l @ [(c, \<not> isl r)])))"

definition logged_clock :: "('w \<Rightarrow> nat \<times> 'w) \<Rightarrow> 'w \<times> 'c calls \<Rightarrow> nat \<times> 'w \<times> 'c calls" where
  "logged_clock clock = (\<lambda>(w, l). let (t, w') = clock w in (t, (w', l)))"

definition logged_api :: "('c, 'req, 'resp, 'stream, 'w) provider_api \<Rightarrow> ('c, 'req, 'resp, 'stream, 'w \<times> 'c calls) provider_api" where
  "logged_api api = \<lparr>pv_create = pv_create api,
     pv_complete = (\<lambda>c req. logged_call (\<lambda>c. pv_complete api c req) c),
     pv_complete_stream = (\<lambda>c req. logged_call (\<lambda>c. pv_complete_stream api c req) c),
     pv_supports_vision = pv_supports_vision api, pv_instant = logged_clock (pv_instant api)\<rparr>"

text \<open>The calls of one request: the providers in order up to the first success, or all of
  them.\<close>

definition failover_calls :: "'c provider_entry list \<Rightarrow> (llm_error + 'r) \<Rightarrow> 'c calls \<Rightarrow> bool" where
  "failover_calls es res l \<longleftrightarrow>
     (case res of
        Inr _ \<Rightarrow> \<exists>k < length es. l = map (\<lambda>e. (pe_client e, False)) (take k es) @ [(pe_client (es ! k), True)]
      | Inl (AllProvidersFailed as) \<Rightarrow>
          l = map (\<lambda>e. (pe_client e, False)) es \<and> map pa_provider as = map pe_name es)"

lemma logged_clock_step: "logged_clock clock (w, l) = (fst (clock w), (snd (clock w), l))"
  by (simp add: logged_clock_def split: prod.splits)

lemma logged_call_step:
  "logged_call call c (w, l) = (fst (call c w), (snd (call c w), l @ [(c, \<not> isl (fst (call c w)))]))"
  by (simp add: logged_call_def split: prod.splits)

lemma route_loop_calls:
  assumes "route_loop (logged_clock clock) (logged_call call) es attempts log (w, l) = (res, log', (w', l'))"
  shows "\<exists>new. l' = l @ new \<and>
    (case res of
       Inr _ \<Rightarrow> \<exists>k < length es. new = map (\<lambda>e. (pe_client e, False)) (take k es) @ [(pe_client (es ! k), True)]
     | Inl (AllProvidersFailed as) \<Rightarrow>
         new = map (\<lambda>e. (pe_client e, False)) es \<and> map pa_provider as = map pa_provider attempts @ map pe_name es)"
  using assms
proof (induction es arbitrary: attempts log w l)
  case Nil
  then show ?case by auto
next
  case (Cons e es)
  obtain t1 w1 where c1: "clock w = (t1, w1)" by fastforce
  obtain r w2 where c2: "call (pe_client e) w1 = (r, w2)" by fastforce
  obtain t3 w3 where c3: "clock w2 = (t3, w3)" by fastforce
  note steps = logged_clock_step logged_call_step c1 c2 c3
  show ?case
  proof (cases r)
    case (Inr resp)
    then have "res = Inr resp" "l' = l @ [(pe_client e, True)]"
      using Cons.prems by (auto simp: steps Let_def)
    then show ?thesis by (auto intro: exI [of _ 0])
  next
    case (Inl err)
    let ?a = "attempts @ [\<lparr>pa_provider = pe_name e, pa_error = err, pa_elapsed_ms = of_nat (t3 - t1)\<rparr>]"
    obtain log1 where "route_loop (logged_clock clock) (logged_call call) es ?a log1 (w3, l @ [(pe_client e, False)]) =
        (res, log', (w', l'))"
      using Cons.prems Inl by (auto simp: steps Let_def)
    from Cons.IH [OF this] obtain new where new: "l' = l @ (pe_client e, False) # new"
      "case res of
         Inr _ \<Rightarrow> \<exists>k < length es. new = map (\<lambda>e. (pe_client e, False)) (take k es) @ [(pe_client (es ! k), True)]
       | Inl (AllProvidersFailed as) \<Rightarrow>
           new = map (\<lambda>e. (pe_client e, False)) es \<and> map pa_provider as = map pa_provider ?a @ map pe_name es"
      by auto
    have "\<exists>k < length (e # es). (pe_client e, False) # new =
        map (\<lambda>e. (pe_client e, False)) (take k (e # es)) @ [(pe_client ((e # es) ! k), True)]" if ok: "res = Inr x" for x
    proof -
      obtain k where "k < length es" "new = map (\<lambda>e. (pe_client e, False)) (take k es) @ [(pe_client (es ! k), True)]"
        using new(2) ok by auto
      then show ?thesis by (intro exI [of _ "Suc k"]) simp
    qed
    then show ?thesis using new by (auto split: sum.splits llm_error.splits)
  qed
qed

lemma sort_key_entries:
  "sorted (map pe_priority (lr_providers (router_from_config api config)))"
  "mset (lr_providers (router_from_config api config)) = mset (map (make_entry api) (lc_providers config))"
  by (simp_all add: router_from_config_def)

lemma unique_priorities_strict:
  assumes "distinct (map pc_priority (lc_providers config))"
  shows "sorted_wrt (<) (map pe_priority (lr_providers (router_from_config api config)))"
proof -
  have "mset (map pe_priority (lr_providers (router_from_config api config))) = mset (map pc_priority (lc_providers config))"
    using arg_cong [OF sort_key_entries(2) [of api config], of "image_mset pe_priority"]
    by (simp add: make_entry_def multiset.map_comp comp_def)
  then have "distinct (map pe_priority (lr_providers (router_from_config api config)))"
    using assms mset_eq_imp_distinct_iff by blast
  then show ?thesis using sort_key_entries(1) strict_sorted_iff by blast
qed

subsection \<open>Properties\<close>

text \<open>
  A request is routed as documented: the configured providers are called in the order of
  their priorities, each at most once and the next only after the one before has failed; the
  first success ends the request, and when all fail the error lists every provider in that
  order.
\<close>

theorem router_failover:
  assumes "r = router_from_config (logged_api api) config"
    and "complete (logged_api api) r req (w, []) = (res, log, (w', called))"
  shows "failover_calls (lr_providers r) res called \<and> sorted (map pe_priority (lr_providers r)) \<and>
    mset (map pe_name (lr_providers r)) = mset (map pc_name (lc_providers config))"
proof -
  have "mset (map pe_name (lr_providers r)) = mset (map pc_name (lc_providers config))"
    unfolding assms(1) using arg_cong [OF sort_key_entries(2) [of "logged_api api" config], of "image_mset pe_name"]
    by (simp add: make_entry_def multiset.map_comp comp_def)
  moreover have "failover_calls (lr_providers r) res called"
  proof (cases "lr_providers r = []")
    case True
    then show ?thesis using assms(2) by (auto simp: complete_def failover_calls_def)
  next
    case False
    then have "route_loop (logged_clock (pv_instant api)) (logged_call (\<lambda>c. pv_complete api c req)) (lr_providers r) [] [] (w, []) =
        (res, log, (w', called))"
      using assms(2) by (simp add: complete_def logged_api_def)
    from route_loop_calls [OF this] show ?thesis
      by (auto simp: failover_calls_def split: sum.splits llm_error.splits)
  qed
  ultimately show ?thesis using sort_key_entries(1) assms(1) by blast
qed

definition example_provider :: "string \<Rightarrow> u8 \<Rightarrow> provider_config" where
  "example_provider n p = \<lparr>pc_name = n, pc_provider_type = Ollama, pc_api_key = None, pc_base_url = [], pc_model = [],
     pc_priority = p, pc_timeout_seconds = 60, pc_max_tokens = None\<rparr>"

definition example_api :: "(string, unit, string, unit, nat) provider_api" where
  "example_api = \<lparr>pv_create = pc_name, pv_complete = (\<lambda>c _ w. (if c = ''up'' then Inr ''hi'' else Inl ''refused'', w + 10)),
     pv_complete_stream = (\<lambda>c _ w. (Inl ''no'', w)), pv_supports_vision = (\<lambda>_. False), pv_instant = (\<lambda>w. (w, w + 1))\<rparr>"

definition example_config :: llm_config where
  "example_config =
     \<lparr>lc_providers = [example_provider ''last'' 3, example_provider ''up'' 2, example_provider ''down'' 1]\<rparr>"

lemma example_order:
  "lr_providers (router_from_config (logged_api example_api) example_config) =
     [\<lparr>pe_client = ''down'', pe_priority = 1, pe_name = ''down''\<rparr>,
      \<lparr>pe_client = ''up'', pe_priority = 2, pe_name = ''up''\<rparr>,
      \<lparr>pe_client = ''last'', pe_priority = 3, pe_name = ''last''\<rparr>]"
  by (simp add: router_from_config_def make_entry_def example_config_def example_provider_def example_api_def
      logged_api_def word_le_nat_alt)

theorem router_failover_witness:
  "failover_calls (lr_providers (router_from_config (logged_api example_api) example_config))
     (Inr ''hi'') [(''down'', False), (''up'', True)]"
proof -
  have "complete (logged_api example_api) (router_from_config (logged_api example_api) example_config) () (0, []) =
     (Inr ''hi'', [FailedOver ''down'' ''refused'' ''up'' 11, SucceededAfterFailover ''up'' 11 1],
      (24, [(''down'', False), (''up'', True)]))"
    by (simp add: complete_def example_order)
      (simp add: example_api_def logged_api_def logged_clock_def logged_call_def)
  from router_failover [OF refl this] show ?thesis by simp
qed

end
