(* ===== verification/Agent_Loop.thy ===== *)
theory Agent_Loop
  imports Tool_Registry Router
begin

text \<open>
  The message loop of the agent (\<^verbatim>\<open>crates/agent-core/src/runtime.rs\<close>): a request to the
  LLM router, the tool calls of its answer, and again, until an answer has no tool calls or
  the iteration limit is reached. The router and the registry sit behind locks and are read
  anew in every iteration, so they are functions of the world; \<^verbatim>\<open>serde_json::from_str\<close> is
  the parameter \<open>ae_parse\<close>. The counter of iterations is a 32-bit integer that counts to
  one past the limit; the model counts the iterations left, which differs only for a limit of
  $2^{32}-1$.
\<close>

record ('c, 'stream, 'w) agent_env =
  ae_api :: "('c, completion_request, completion_response, 'stream, 'w) provider_api"
  ae_router :: "'w \<Rightarrow> 'c llm_router"
  ae_registry :: "'w \<Rightarrow> 'w tool_registry"
  ae_parse :: json_parser

record response_chunk =
  rc_content :: "string option"
  rc_done :: bool
  rc_tool_results :: "tool_result list option"

fun chat_role_of :: "message_role \<Rightarrow> chat_role" where
  "chat_role_of User = ChatUser"
| "chat_role_of Assistant = ChatAssistant"
| "chat_role_of System = ChatSystem"
| "chat_role_of ToolRole = ChatTool"

definition build_chat_messages :: "message list \<Rightarrow> chat_message list" where
  "build_chat_messages history = map (\<lambda>m. chat_text (chat_role_of (m_role m)) (m_content m)) history"

definition str_or :: "(string \<times> json) list \<Rightarrow> string \<Rightarrow> string \<Rightarrow> string" where
  "str_or m k dflt = (case Option.bind (map_of m k) as_str of Some s \<Rightarrow> s | None \<Rightarrow> dflt)"

definition tool_result_to_message :: "json_parser \<Rightarrow> string \<Rightarrow> chat_message" where
  "tool_result_to_message parse output =
     (case parse output of
        Some (JObject m) \<Rightarrow>
          (case Option.bind (map_of m IMAGE_SENTINEL_KEY) as_object of
             Some img \<Rightarrow>
               let media_type = str_or img ''media_type'' ''image/png'';
                   data = str_or img ''data'' [];
                   note = str_or img ''note'' ''Here is the requested image.''
               in if data \<noteq> [] then chat_with_images ChatTool note [\<lparr>ic_media_type = media_type, ic_data = data\<rparr>]
                  else chat_text ChatTool output
           | None \<Rightarrow> chat_text ChatTool output)
      | _ \<Rightarrow> chat_text ChatTool output)"

fun execute_calls :: "('c, 'stream, 'w) agent_env \<Rightarrow> llm_tool_call list \<Rightarrow> 'w \<Rightarrow> tool_result list \<times> 'w" where
  "execute_calls env [] w = ([], w)"
| "execute_calls env (c # cs) w =
     (let arguments = (case ae_parse env (lt_arguments c) of Some v \<Rightarrow> v | None \<Rightarrow> JNull);
          (r, w1) = execute_tool_call (ae_registry env w) (lt_id c) (lt_name c) arguments w;
          (rs, w2) = execute_calls env cs w1
      in (r # rs, w2))"

definition final_chunk :: "string \<Rightarrow> tool_result list \<Rightarrow> response_chunk" where
  "final_chunk content results =
     \<lparr>rc_content = Some content, rc_done = True, rc_tool_results = (if results = [] then None else Some results)\<rparr>"

definition limit_text :: string where
  "limit_text = ''I'' @ [CHR 0x27] @ ''ve reached the maximum number of tool call iterations. Here'' @ [CHR 0x27] @
     ''s what I have so far.''"

definition loop_request :: "('c, 'stream, 'w) agent_env \<Rightarrow> bool \<Rightarrow> bool \<Rightarrow> chat_message list \<Rightarrow> 'w \<Rightarrow> completion_request" where
  "loop_request env include_coding plan_only messages w =
     \<lparr>cr_messages = messages, cr_tools = tool_definitions (ae_registry env w) include_coding plan_only,
      cr_max_tokens = None, cr_temperature = None, cr_stream = False\<rparr>"

fun message_loop :: "('c, 'stream, 'w) agent_env \<Rightarrow> bool \<Rightarrow> bool \<Rightarrow> nat \<Rightarrow> chat_message list \<Rightarrow> tool_result list \<Rightarrow> 'w \<Rightarrow>
    (llm_error + response_chunk \<times> nat \<times> chat_message list) \<times> 'w" where
  "message_loop env ic po 0 messages results w = (Inr (final_chunk limit_text results, length results, messages), w)"
| "message_loop env ic po (Suc n) messages results w =
     (case complete (ae_api env) (ae_router env w) (loop_request env ic po messages w) w of
        (Inl e, _, w1) \<Rightarrow> (Inl e, w1)
      | (Inr response, _, w1) \<Rightarrow>
          let messages1 = messages @ [chat_text ChatAssistant (cp_content response)]
          in if cp_tool_calls response = []
             then (Inr (final_chunk (cp_content response) results, length results, messages1), w1)
             else let (rs, w2) = execute_calls env (cp_tool_calls response) w1
                  in message_loop env ic po n
                       (messages1 @ map (\<lambda>r. tool_result_to_message (ae_parse env) (res_output r)) rs) (results @ rs) w2)"

fun mode_flags :: "agent_mode \<Rightarrow> bool \<times> bool" where
  "mode_flags General = (False, False)"
| "mode_flags (Coding ws plan_only) = (True, plan_only)"

definition initial_messages :: "string option \<Rightarrow> message list \<Rightarrow> message \<Rightarrow> chat_message list" where
  "initial_messages system_prompt history user_message =
     (case system_prompt of Some p \<Rightarrow> [chat_text ChatSystem p] | None \<Rightarrow> []) @
     build_chat_messages history @ [chat_text ChatUser (m_content user_message)]"

definition run_message_loop :: "('c, 'stream, 'w) agent_env \<Rightarrow> agent_mode \<Rightarrow> u32 \<Rightarrow> string option \<Rightarrow> message list \<Rightarrow> message \<Rightarrow> 'w \<Rightarrow>
    (llm_error + response_chunk \<times> nat \<times> chat_message list) \<times> 'w" where
  "run_message_loop env mode max_iterations system_prompt history user_message w =
     (let (include_coding, plan_only) = mode_flags mode
      in message_loop env include_coding plan_only (unat max_iterations)
           (initial_messages system_prompt history user_message) [] w)"

subsection \<open>Lemmas\<close>

lemma tool_message_role [simp]: "cm_role (tool_result_to_message parse output) = ChatTool"
  by (auto simp: tool_result_to_message_def Let_def split: option.splits json.splits)

lemma execute_calls_length: "length (fst (execute_calls env cs w)) = length cs"
  by (induction cs arbitrary: w) (auto simp: Let_def split: prod.splits, metis fst_conv)

text \<open>The turns one run of the loop appends to the conversation.\<close>

definition role_count :: "chat_role \<Rightarrow> chat_message list \<Rightarrow> nat" where
  "role_count r ms = length (filter (\<lambda>m. cm_role m = r) ms)"

lemma role_count_simps [simp]:
  "role_count r [] = 0"
  "role_count r (m # ms) = (if cm_role m = r then Suc (role_count r ms) else role_count r ms)"
  "role_count r (ms @ ms') = role_count r ms + role_count r ms'"
  by (simp_all add: role_count_def)

lemma role_count_tools:
  "role_count r (map (\<lambda>x. tool_result_to_message parse (res_output x)) rs) = (if r = ChatTool then length rs else 0)"
  by (induction rs) auto

definition turns_ok :: "nat \<Rightarrow> response_chunk \<Rightarrow> nat \<Rightarrow> tool_result list \<Rightarrow> tool_result list \<Rightarrow> chat_message list \<Rightarrow> bool" where
  "turns_ok n chunk k before new turns \<longleftrightarrow>
     k = length (before @ new) \<and> role_count ChatTool turns = length new \<and> role_count ChatAssistant turns \<le> n \<and>
     (\<exists>answer. chunk = final_chunk answer (before @ new) \<and>
        (if turns \<noteq> [] \<and> cm_role (last turns) = ChatAssistant then cm_content (last turns) = answer
         else answer = limit_text \<and> role_count ChatAssistant turns = n))"

lemma message_loop_turns:
  assumes "message_loop env ic po n ms before w = (Inr (chunk, k, transcript), w')"
  shows "\<exists>turns new. transcript = ms @ turns \<and> turns_ok n chunk k before new turns"
  using assms
proof (induction n arbitrary: ms before w)
  case 0
  then show ?case by (auto simp: turns_ok_def intro!: exI [of _ "[]"])
next
  case (Suc n)
  obtain r log w1 where c: "complete (ae_api env) (ae_router env w) (loop_request env ic po ms w) w = (Inr r, log, w1)"
    using Suc.prems by (auto split: prod.splits sum.splits)
  let ?a = "chat_text ChatAssistant (cp_content r)"
  show ?case
  proof (cases "cp_tool_calls r = []")
    case True
    then have "chunk = final_chunk (cp_content r) before" "k = length before" "transcript = ms @ [?a]"
      using Suc.prems c by auto
    then show ?thesis by (intro exI [of _ "[?a]"] exI [of _ "[]"]) (simp add: turns_ok_def)
  next
    case False
    obtain rs w2 where e: "execute_calls env (cp_tool_calls r) w1 = (rs, w2)" by fastforce
    let ?t = "map (\<lambda>x. tool_result_to_message (ae_parse env) (res_output x)) rs"
    have ne: "?t \<noteq> []" using execute_calls_length [of env "cp_tool_calls r" w1] e False by auto
    have "message_loop env ic po n (ms @ [?a] @ ?t) (before @ rs) w2 = (Inr (chunk, k, transcript), w')"
      using Suc.prems c e False by simp
    from Suc.IH [OF this] obtain turns new where t: "transcript = (ms @ [?a] @ ?t) @ turns"
      "turns_ok n chunk k (before @ rs) new turns" by blast
    obtain answer where answer: "chunk = final_chunk answer (before @ rs @ new)"
      "if turns \<noteq> [] \<and> cm_role (last turns) = ChatAssistant then cm_content (last turns) = answer
       else answer = limit_text \<and> role_count ChatAssistant turns = n"
      using t(2) by (auto simp: turns_ok_def)
    have "cm_role (last ?t) = ChatTool" using ne by (simp add: last_map)
    then have "turns_ok (Suc n) chunk k before (rs @ new) (?a # ?t @ turns)"
      using t(2) ne answer(2) unfolding turns_ok_def
      by (intro conjI exI [of _ answer]) (auto simp: role_count_tools last_append answer(1))
    then show ?thesis using t(1) by (intro exI [of _ "?a # ?t @ turns"] exI [of _ "rs @ new"]) simp
  qed
qed

lemma tool_definitions_mem:
  "d \<in> set (tool_definitions reg ic po) \<longleftrightarrow>
     (\<exists>e \<in> snd ` set (tr_tools reg). (ic \<or> \<not> tool_coding_only (te_tool e)) \<and> (po \<longrightarrow> \<not> tool_is_destructive (te_tool e)) \<and>
        d = \<lparr>td_name = tool_name (te_tool e), td_description = tool_description (te_tool e),
             td_parameters = tool_parameters_schema (te_tool e)\<rparr>)"
  by (auto simp: tool_definitions_def)

subsection \<open>Properties\<close>


text \<open>
  Plan mode restricts what is offered, not what is done. In plan mode no destructive tool
  is in the request of an iteration, but when the model answers with a call of a registered
  destructive tool, that tool is executed and its effect on the world stays.
\<close>

theorem plan_mode_executes_destructive:
  assumes inv: "registry_inv (ae_registry env w)"
    and tool: "hm_get (tr_tools (ae_registry env w1)) n = Some e" "tool_is_destructive (te_tool e)"
    and req: "req = loop_request env True True (initial_messages prompt history msg) w"
    and ans: "complete (ae_api env) (ae_router env w) req w = (Inr resp, log, w1)"
    and call: "cp_tool_calls resp = [\<lparr>lt_id = i, lt_name = n, lt_arguments = args\<rparr>]"
    and parsed: "ae_parse env args = Some v"
    and run: "tool_execute (te_tool e) v w1 = (Inr out, w2)"
  shows "(\<forall>d \<in> set (cr_tools req). \<forall>t. hm_get (tr_tools (ae_registry env w)) (td_name d) = Some t \<longrightarrow>
      \<not> tool_is_destructive (te_tool t)) \<and>
    (\<exists>transcript. run_message_loop env (Coding ws True) 1 prompt history msg w =
       (Inr (final_chunk limit_text [\<lparr>res_call_id = i, res_output = out, res_is_error = False\<rparr>], 1, transcript), w2))"
proof -
  have names: "hm_inv (tr_tools (ae_registry env w))"
    "\<And>n t. hm_get (tr_tools (ae_registry env w)) n = Some t \<Longrightarrow> tool_name (te_tool t) = n"
    using inv by (auto simp: registry_inv_def tools_inv_def)
  have "\<not> tool_is_destructive (te_tool t)"
    if d: "d \<in> set (cr_tools req)" and t: "hm_get (tr_tools (ae_registry env w)) (td_name d) = Some t" for d t
  proof -
    obtain k x where kx: "(k, x) \<in> set (tr_tools (ae_registry env w))" "\<not> tool_is_destructive (te_tool x)"
      "td_name d = tool_name (te_tool x)"
      using d by (auto simp: req loop_request_def tool_definitions_mem)
    then have x: "hm_get (tr_tools (ae_registry env w)) k = Some x" using names(1) by (simp add: hm_get_mem)
    then show ?thesis using names(2) [OF x] kx t by simp
  qed
  moreover have "execute_calls env (cp_tool_calls resp) w1 = ([\<lparr>res_call_id = i, res_output = out, res_is_error = False\<rparr>], w2)"
    using call parsed tool(1) run by (simp add: execute_tool_call_def)
  then have "\<exists>transcript. run_message_loop env (Coding ws True) 1 prompt history msg w =
       (Inr (final_chunk limit_text [\<lparr>res_call_id = i, res_output = out, res_is_error = False\<rparr>], 1, transcript), w2)"
    using ans call by (simp add: run_message_loop_def req)
  ultimately show ?thesis by blast
qed

text \<open>An agent with one destructive tool, which counts the files it writes, and a model that
  calls it in every answer.\<close>

definition demo_tool :: "nat tool" where
  "demo_tool = \<lparr>tool_name = ''file_write'', tool_description = [], tool_parameters_schema = JNull,
     tool_execute = (\<lambda>_ w. (Inr ''ok'', Suc w)), tool_coding_only = True, tool_is_destructive = True\<rparr>"

definition demo_answer :: completion_response where
  "demo_answer = \<lparr>cp_content = ''writing'', cp_tool_calls = [\<lparr>lt_id = ''1'', lt_name = ''file_write'', lt_arguments = []\<rparr>],
     cp_usage = \<lparr>tu_prompt_tokens = 0, tu_completion_tokens = 0, tu_total_tokens = 0\<rparr>, cp_model = []\<rparr>"

definition agent_demo_env :: "(unit, unit, nat) agent_env" where
  "agent_demo_env = \<lparr>ae_api = \<lparr>pv_create = (\<lambda>_. ()), pv_complete = (\<lambda>_ _ w. (Inr demo_answer, w)),
      pv_complete_stream = (\<lambda>_ _ w. (Inl [], w)), pv_supports_vision = (\<lambda>_. False), pv_instant = (\<lambda>w. (0, w))\<rparr>,
     ae_router = (\<lambda>_. \<lparr>lr_providers = [\<lparr>pe_client = (), pe_priority = 0, pe_name = []\<rparr>]\<rparr>),
     ae_registry = (\<lambda>_. snd (register_tool (\<lambda>n. (n, 0)) demo_tool tr_new)), ae_parse = (\<lambda>_. Some JNull)\<rparr>"

definition demo_message :: message where
  "demo_message = \<lparr>m_id = 0, m_session_id = 0, m_role = User, m_content = ''plan it'', m_tool_calls = None,
     m_tool_results = None, m_timestamp = 0, m_token_count = 2\<rparr>"

lemma demo_facts:
  "registry_inv (ae_registry agent_demo_env w)"
  "hm_get (tr_tools (ae_registry agent_demo_env w)) ''file_write'' = Some \<lparr>te_tool = demo_tool, te_plugin_name = None\<rparr>"
  "complete (ae_api agent_demo_env) (ae_router agent_demo_env w) req w = (Inr demo_answer, [], w)"
  by (simp_all add: agent_demo_env_def registry_inv_register)
    (simp_all add: demo_tool_def register_tool_def tr_new_def hm_contains_def emit_defs complete_def)

theorem plan_mode_executes_destructive_witness:
  "\<exists>transcript. run_message_loop agent_demo_env (Coding [] True) 1 None [] demo_message 0 =
     (Inr (final_chunk limit_text [\<lparr>res_call_id = ''1'', res_output = ''ok'', res_is_error = False\<rparr>], 1, transcript), 1)"
proof -
  have "cp_tool_calls demo_answer = [\<lparr>lt_id = ''1'', lt_name = ''file_write'', lt_arguments = []\<rparr>]"
    "ae_parse agent_demo_env [] = Some JNull" "tool_is_destructive demo_tool"
    "tool_execute demo_tool JNull 0 = (Inr ''ok'', 1)"
    by (simp_all add: demo_answer_def agent_demo_env_def demo_tool_def)
  then show ?thesis
    using plan_mode_executes_destructive [OF demo_facts(1) demo_facts(2) _ refl demo_facts(3)] by simp
qed


end
