(* ===== verification/Agent_Core.thy ===== *)
theory Agent_Core
  imports Agent_Loop
begin

text \<open>
  The lifecycle of the agent (\<^verbatim>\<open>crates/agent-core/src/runtime.rs\<close> and \<^verbatim>\<open>types.rs\<close>):
  status, mode, the number of requests in flight and whether new ones are accepted. Every
  field has a lock of its own, so an operation is several atomic steps, and a request is three
  steps until its response stream is returned and, when the stream is polled, four more.
  The step relation at the end interleaves them.
\<close>

datatype agent_status = Idle | Working string "32 word option" | Error string | ShuttingDown | Starting

definition default_agent_status :: agent_status where
  "default_agent_status = Idle"

datatype mode_error = NotAvailable string | AgentBusy
datatype shutdown_error = ShutdownTimeout nat nat | StatePersistFailed string

record agent_core_config =
  cc_max_tool_iterations :: u32
  cc_message_timeout_seconds :: u64
  cc_shutdown_timeout_seconds :: u64
  cc_context_history_limit :: nat
  cc_system_prompt :: "string option"

definition default_agent_core_config :: agent_core_config where
  "default_agent_core_config = \<lparr>cc_max_tool_iterations = 20, cc_message_timeout_seconds = 300,
     cc_shutdown_timeout_seconds = 30, cc_context_history_limit = 50, cc_system_prompt = None\<rparr>"

record agent_core =
  ac_status :: agent_status
  ac_mode :: agent_mode
  ac_in_flight :: nat
  ac_accepting :: bool
  ac_config :: agent_core_config
  ac_system_prompt :: "string option"

definition ac_new :: "agent_core_config \<Rightarrow> agent_core" where
  "ac_new config = \<lparr>ac_status = Starting, ac_mode = General, ac_in_flight = 0, ac_accepting = False,
     ac_config = config, ac_system_prompt = cc_system_prompt config\<rparr>"

definition ac_start :: "agent_core \<Rightarrow> agent_core" where
  "ac_start ac = ac\<lparr>ac_status := Idle, ac_accepting := True\<rparr>"

text \<open>\<open>shutdown\<close>: the two writes at its start, and its loop on what the polls see: the
  requests in flight, the time since the start in nanoseconds, and the seconds reported.\<close>

definition shutdown_begin :: "agent_core \<Rightarrow> agent_core" where
  "shutdown_begin ac = ac\<lparr>ac_accepting := False, ac_status := ShuttingDown\<rparr>"

fun shutdown_loop :: "nat \<Rightarrow> (nat \<times> nat \<times> nat) list \<Rightarrow> (shutdown_error + unit) option" where
  "shutdown_loop timeout [] = None"
| "shutdown_loop timeout ((pending, elapsed, secs) # polls) =
     (if pending = 0 then Some (Inr ())
      else if elapsed \<ge> timeout then Some (Inl (ShutdownTimeout secs pending))
      else shutdown_loop timeout polls)"

definition shutdown_timeout :: "agent_core \<Rightarrow> nat" where
  "shutdown_timeout ac = unat (cc_shutdown_timeout_seconds (ac_config ac)) * 1000000000"

text \<open>\<open>restart\<close>: only a successful shutdown is followed by a start.\<close>

definition ac_restart :: "(shutdown_error + unit) \<Rightarrow> agent_core \<Rightarrow> (shutdown_error + unit) \<times> agent_core" where
  "ac_restart shutdown_result ac =
     (case shutdown_result of Inl e \<Rightarrow> (Inl e, ac) | Inr _ \<Rightarrow> (Inr (), ac_start ac))"

fun is_working :: "agent_status \<Rightarrow> bool" where
  "is_working (Working t p) = True"
| "is_working _ = False"

definition set_mode :: "agent_mode \<Rightarrow> agent_core \<Rightarrow> (mode_error + unit) \<times> agent_core" where
  "set_mode m ac = (if is_working (ac_status ac) then (Inl AgentBusy, ac) else (Inr (), ac\<lparr>ac_mode := m\<rparr>))"

definition set_system_prompt :: "string option \<Rightarrow> agent_core \<Rightarrow> agent_core" where
  "set_system_prompt p ac = ac\<lparr>ac_system_prompt := p\<rparr>"

text \<open>The steps of \<open>process_message\<close> before the stream is returned.\<close>

definition request_accepted :: "agent_core \<Rightarrow> bool" where
  "request_accepted ac = ac_accepting ac"

definition request_count :: "agent_core \<Rightarrow> agent_core" where
  "request_count ac = ac\<lparr>ac_in_flight := Suc (ac_in_flight ac)\<rparr>"

definition request_working :: "string \<Rightarrow> agent_core \<Rightarrow> agent_core" where
  "request_working task ac = ac\<lparr>ac_status := Working task None\<rparr>"

text \<open>The body of the stream: the message loop, the post-task hook, and the two updates at
  the end. \<open>hook_call\<close> is what the hook is called with, if at all.\<close>

definition stream_outcome :: "('c, 'stream, 'w) agent_env \<Rightarrow> agent_core \<Rightarrow> bool \<Rightarrow> string option \<Rightarrow> message list \<Rightarrow> message \<Rightarrow> 'w \<Rightarrow>
    (llm_error + response_chunk) \<times> (nat \<times> chat_message list) option \<times> 'w" where
  "stream_outcome env ac has_hook prompt history msg w =
     (case run_message_loop env (ac_mode ac) (cc_max_tool_iterations (ac_config ac)) prompt history msg w of
        (Inl e, w') \<Rightarrow> (Inl e, None, w')
      | (Inr (chunk, calls, transcript), w') \<Rightarrow>
          (Inr chunk, if calls > 0 \<and> has_hook then Some (calls, transcript) else None, w'))"

definition request_done :: "agent_core \<Rightarrow> agent_core" where
  "request_done ac = ac\<lparr>ac_in_flight := ac_in_flight ac - 1\<rparr>"

definition request_idle :: "agent_core \<Rightarrow> agent_core" where
  "request_idle ac = ac\<lparr>ac_status := Idle\<rparr>"

text \<open>A request refused because the agent does not accept any answers with this error.\<close>

definition not_accepting_error :: llm_error where
  "not_accepting_error = AllProvidersFailed []"

subsection \<open>The interleaved system\<close>

text \<open>
  The agent with the requests by how far they are: \<open>as_checked\<close> have passed the check,
  \<open>as_counted\<close> are counted, \<open>as_streams\<close> have returned a stream that has not finished,
  \<open>as_ending\<close> have decremented the counter, \<open>as_idling\<close> have then read it as zero, and
  \<open>as_dropped\<close> are streams dropped unfinished, as when a client disconnects. \<open>as_closing\<close> holds from the
  start of a shutdown until the next start; \<open>as_closed\<close> is the number of requests that had
  passed the check when the shutdown returned successfully, if one has since.
\<close>

record agent_sys =
  as_core :: agent_core
  as_checked :: nat
  as_counted :: nat
  as_streams :: nat
  as_ending :: nat
  as_idling :: nat
  as_dropped :: nat
  as_closing :: bool
  as_closed :: "nat option"

definition sys_new :: "agent_core_config \<Rightarrow> agent_sys" where
  "sys_new config = \<lparr>as_core = ac_new config, as_checked = 0, as_counted = 0, as_streams = 0, as_ending = 0,
     as_idling = 0, as_dropped = 0, as_closing = False, as_closed = None\<rparr>"

inductive agent_step :: "agent_sys \<Rightarrow> agent_sys \<Rightarrow> bool" where
  st_start: "agent_step s (s\<lparr>as_core := ac_start (as_core s), as_closing := False, as_closed := None\<rparr>)"
| st_shutdown: "agent_step s (s\<lparr>as_core := shutdown_begin (as_core s), as_closing := True\<rparr>)"
| st_drained: "as_closing s \<Longrightarrow> ac_in_flight (as_core s) = 0 \<Longrightarrow> agent_step s (s\<lparr>as_closed := Some (as_checked s)\<rparr>)"
| st_mode: "agent_step s (s\<lparr>as_core := snd (set_mode m (as_core s))\<rparr>)"
| st_prompt: "agent_step s (s\<lparr>as_core := set_system_prompt p (as_core s)\<rparr>)"
| st_check: "request_accepted (as_core s) \<Longrightarrow> agent_step s (s\<lparr>as_checked := Suc (as_checked s)\<rparr>)"
| st_count: "as_checked s = Suc n \<Longrightarrow>
    agent_step s (s\<lparr>as_core := request_count (as_core s), as_checked := n, as_counted := Suc (as_counted s)\<rparr>)"
| st_working: "as_counted s = Suc n \<Longrightarrow>
    agent_step s (s\<lparr>as_core := request_working t (as_core s), as_counted := n, as_streams := Suc (as_streams s)\<rparr>)"
| st_done: "as_streams s = Suc n \<Longrightarrow>
    agent_step s (s\<lparr>as_core := request_done (as_core s), as_streams := n, as_ending := Suc (as_ending s)\<rparr>)"
| st_zero: "as_ending s = Suc n \<Longrightarrow> ac_in_flight (as_core s) = 0 \<Longrightarrow>
    agent_step s (s\<lparr>as_ending := n, as_idling := Suc (as_idling s)\<rparr>)"
| st_busy: "as_ending s = Suc n \<Longrightarrow> ac_in_flight (as_core s) \<noteq> 0 \<Longrightarrow> agent_step s (s\<lparr>as_ending := n\<rparr>)"
| st_idle: "as_idling s = Suc n \<Longrightarrow> agent_step s (s\<lparr>as_core := request_idle (as_core s), as_idling := n\<rparr>)"
| st_drop: "as_streams s = Suc n \<Longrightarrow> agent_step s (s\<lparr>as_streams := n, as_dropped := Suc (as_dropped s)\<rparr>)"
| st_drop_ending: "as_ending s = Suc n \<Longrightarrow> agent_step s (s\<lparr>as_ending := n\<rparr>)"

abbreviation agent_steps :: "agent_sys \<Rightarrow> agent_sys \<Rightarrow> bool" where
  "agent_steps \<equiv> agent_step\<^sup>*\<^sup>*"

subsection \<open>Lemmas\<close>

lemmas core_defs = ac_start_def shutdown_begin_def set_mode_def set_system_prompt_def request_count_def
  request_working_def request_done_def request_idle_def request_accepted_def

text \<open>The counter is exact: it counts the requests that are counted and not finished, the
  dropped streams included.\<close>

definition sys_inv :: "agent_sys \<Rightarrow> bool" where
  "sys_inv s \<longleftrightarrow> ac_in_flight (as_core s) = as_counted s + as_streams s + as_dropped s \<and>
     (as_closing s \<longrightarrow> \<not> ac_accepting (as_core s)) \<and>
     (\<forall>k. as_closed s = Some k \<longrightarrow> as_closing s \<and> as_checked s + as_counted s + as_streams s + as_dropped s \<le> k)"

lemma sys_inv_new [simp]: "sys_inv (sys_new config)"
  by (simp add: sys_inv_def sys_new_def ac_new_def)

lemma sys_inv_step: "agent_step s s' \<Longrightarrow> sys_inv s \<Longrightarrow> sys_inv s'"
  by (induction rule: agent_step.induct) (auto simp: sys_inv_def core_defs)

lemma sys_inv_steps: "agent_steps s s' \<Longrightarrow> sys_inv s \<Longrightarrow> sys_inv s'"
  by (induction rule: rtranclp_induct) (auto simp: sys_inv_step)

lemmas reachable_inv = sys_inv_steps [OF _ sys_inv_new]

lemma dropped_mono: "agent_steps s s' \<Longrightarrow> as_dropped s \<le> as_dropped s'"
proof (induction rule: rtranclp_induct)
  case (step b c)
  have "as_dropped b \<le> as_dropped c" using step(2) by (induction rule: agent_step.induct) auto
  then show ?case using step(3) by simp
qed simp

lemma shutdown_loop_pending:
  "\<forall>x \<in> set polls. fst x \<noteq> 0 \<Longrightarrow> shutdown_loop timeout polls \<noteq> Some (Inr ())"
  by (induction timeout polls rule: shutdown_loop.induct) auto

lemma shutdown_loop_timeout:
  assumes "\<exists>x \<in> set polls. fst (snd x) \<ge> timeout"
  shows "\<exists>r. shutdown_loop timeout polls = Some r"
  using assms by (induction timeout polls rule: shutdown_loop.induct) auto

subsection \<open>Properties\<close>


text \<open>A run: a request passes the check, the agent shuts down and finds nothing in flight,
  and the request goes on.\<close>

definition race_config :: agent_core_config where
  "race_config = default_agent_core_config"

lemma race_run:
  "\<exists>s. agent_steps (sys_new race_config) s \<and> as_closed s = Some 1 \<and> as_streams s = 1 \<and> is_working (ac_status (as_core s))"
proof -
  let ?s0 = "sys_new race_config"
  let ?s1 = "?s0\<lparr>as_core := ac_start (as_core ?s0), as_closing := False, as_closed := None\<rparr>"
  let ?s2 = "?s1\<lparr>as_checked := Suc (as_checked ?s1)\<rparr>"
  let ?s3 = "?s2\<lparr>as_core := shutdown_begin (as_core ?s2), as_closing := True\<rparr>"
  let ?s4 = "?s3\<lparr>as_closed := Some (as_checked ?s3)\<rparr>"
  let ?s5 = "?s4\<lparr>as_core := request_count (as_core ?s4), as_checked := 0, as_counted := Suc (as_counted ?s4)\<rparr>"
  let ?s6 = "?s5\<lparr>as_core := request_working [] (as_core ?s5), as_counted := 0, as_streams := Suc (as_streams ?s5)\<rparr>"
  have 1: "agent_step ?s0 ?s1" by (rule st_start)
  have 2: "agent_step ?s1 ?s2" by (rule st_check) (simp add: core_defs)
  have 3: "agent_step ?s2 ?s3" by (rule st_shutdown)
  have 4: "agent_step ?s3 ?s4" by (rule st_drained) (simp_all add: core_defs sys_new_def ac_new_def)
  have 5: "agent_step ?s4 ?s5" by (rule st_count) (simp add: sys_new_def)
  have 6: "agent_step ?s5 ?s6" by (rule st_working) (simp add: sys_new_def)
  have "agent_steps ?s0 ?s6" using 1 2 3 4 5 6 by (meson converse_rtranclp_into_rtranclp rtranclp.rtrancl_refl)
  moreover have "as_closed ?s6 = Some 1" "as_streams ?s6 = 1" "is_working (ac_status (as_core ?s6))"
    by (simp_all add: sys_new_def core_defs)
  ultimately show ?thesis by blast
qed




end
