(* ===== verification/Session_State.thy ===== *)
theory Session_State
  imports Config
begin

text \<open>
  Persistence of session states (\<^verbatim>\<open>crates/memory-store/src/session_state.rs\<close>) and the
  in-memory fallback used while the database cannot be reached. SQLite and serde are the
  parameter \<open>state_db\<close> over an abstract database \<open>'d\<close>: the upsert and whether it succeeded,
  the select (\<open>None\<close> for a failed query), the availability query, and the two JSON
  conversions with their error texts; \<open>db_env\<close> is how the database can change on its own,
  by becoming reachable or unreachable.
\<close>

record session_state =
  ss_session_id :: session_id
  ss_task_queue :: "task_id list"
  ss_conversation_context :: string
  ss_scheduler_config :: task_limits
  ss_persisted_at :: timestamp
  ss_metadata :: "(string, string) hashmap"

definition session_state_new :: "timestamp \<Rightarrow> session_id \<Rightarrow> task_id list \<Rightarrow> string \<Rightarrow> task_limits \<Rightarrow> session_state" where
  "session_state_new now sid queue context config =
     \<lparr>ss_session_id = sid, ss_task_queue = queue, ss_conversation_context = context, ss_scheduler_config = config,
      ss_persisted_at = now, ss_metadata = hm_empty\<rparr>"

datatype store_error =
    Unavailable | CapacityFull | EntryNotFound string | ContentTooLarge nat nat | CorruptedData string

record 'd state_db =
  db_upsert :: "session_id \<Rightarrow> string \<Rightarrow> timestamp \<Rightarrow> 'd \<Rightarrow> bool \<times> 'd"
  db_select :: "session_id \<Rightarrow> 'd \<Rightarrow> string option option"
  db_ping :: "'d \<Rightarrow> bool"
  db_env :: "'d \<Rightarrow> 'd \<Rightarrow> bool"
  db_to_json :: "session_state \<Rightarrow> string + string"
  db_from_json :: "string \<Rightarrow> string + session_state"

definition save_session_state :: "'d state_db \<Rightarrow> session_state \<Rightarrow> 'd \<Rightarrow> (store_error + unit) \<times> 'd" where
  "save_session_state db st d =
     (case db_to_json db st of
        Inl e \<Rightarrow> (Inl (CorruptedData (''failed to serialize session state: '' @ e)), d)
      | Inr j \<Rightarrow>
          (case db_upsert db (ss_session_id st) j (ss_persisted_at st) d of
             (ok, d') \<Rightarrow> (if ok then Inr () else Inl Unavailable, d')))"

definition restore_session_state :: "'d state_db \<Rightarrow> session_id \<Rightarrow> 'd \<Rightarrow> store_error + session_state option" where
  "restore_session_state db sid d =
     (case db_select db sid d of
        None \<Rightarrow> Inl Unavailable
      | Some None \<Rightarrow> Inr None
      | Some (Some j) \<Rightarrow>
          (case db_from_json db j of
             Inl e \<Rightarrow> Inl (CorruptedData (''failed to deserialize session state: '' @ e))
           | Inr st \<Rightarrow> Inr (Some st)))"

definition RETRY_INTERVAL :: nat where
  "RETRY_INTERVAL = 30 * 1000000000"

subsection \<open>The fallback\<close>

text \<open>A spawned retry loop sleeps, or flushes a snapshot of the cache: the states still to be
  written and whether all writes so far succeeded.\<close>

datatype retry_loop = Sleeping | Flushing "session_state list" bool

record 'd fallback =
  fb_db :: 'd
  fb_cache :: "(session_id, session_state) hashmap"
  fb_available :: bool
  fb_loops :: "retry_loop list"

definition start_retry_loop :: "'d fallback \<Rightarrow> 'd fallback" where
  "start_retry_loop f = f\<lparr>fb_loops := fb_loops f @ [Sleeping]\<rparr>"

definition check_store_available :: "'d state_db \<Rightarrow> 'd \<Rightarrow> bool" where
  "check_store_available db d = db_ping db d"

definition fallback_new :: "'d state_db \<Rightarrow> 'd \<Rightarrow> 'd fallback" where
  "fallback_new db d =
     (let available = check_store_available db d;
          f = \<lparr>fb_db = d, fb_cache = hm_empty, fb_available = available, fb_loops = []\<rparr>
      in if available then f else start_retry_loop f)"

definition fallback_save :: "'d state_db \<Rightarrow> session_state \<Rightarrow> 'd fallback \<Rightarrow> (store_error + unit) \<times> 'd fallback" where
  "fallback_save db st f =
     (let f1 = f\<lparr>fb_cache := hm_insert (ss_session_id st) st (fb_cache f)\<rparr>
      in if fb_available f1 then
           (case save_session_state db st (fb_db f1) of
              (Inr _, d) \<Rightarrow> (Inr (), f1\<lparr>fb_db := d\<rparr>)
            | (Inl _, d) \<Rightarrow> (Inr (), start_retry_loop (f1\<lparr>fb_db := d, fb_available := False\<rparr>)))
         else (Inr (), f1))"

definition fallback_restore :: "'d state_db \<Rightarrow> session_id \<Rightarrow> 'd fallback \<Rightarrow> (store_error + session_state option) \<times> 'd fallback" where
  "fallback_restore db sid f =
     (case hm_get (fb_cache f) sid of
        Some st \<Rightarrow> (Inr (Some st), f)
      | None \<Rightarrow>
          if fb_available f then
            (case restore_session_state db sid (fb_db f) of
               Inr st \<Rightarrow> (Inr st, f)
             | Inl _ \<Rightarrow> (Inr None, start_retry_loop (f\<lparr>fb_available := False\<rparr>)))
          else (Inr None, f))"

definition is_store_available :: "'d fallback \<Rightarrow> bool" where
  "is_store_available f = fb_available f"

text \<open>One step of a retry loop: waking up with the database reachable takes the snapshot, then
  the states are written one by one, and the loop ends with the store available or sleeps
  again. \<open>None\<close> is the end of the loop.\<close>

fun retry_step :: "'d state_db \<Rightarrow> retry_loop \<Rightarrow> 'd fallback \<Rightarrow> retry_loop option \<times> 'd fallback" where
  "retry_step db Sleeping f =
     (if check_store_available db (fb_db f) then (Some (Flushing (map snd (fb_cache f)) True), f) else (Some Sleeping, f))"
| "retry_step db (Flushing (st # sts) ok) f =
     (case save_session_state db st (fb_db f) of
        (Inr _, d) \<Rightarrow> (Some (Flushing sts ok), f\<lparr>fb_db := d\<rparr>)
      | (Inl _, d) \<Rightarrow> (Some (Flushing sts False), f\<lparr>fb_db := d\<rparr>))"
| "retry_step db (Flushing [] ok) f = (if ok then (None, f\<lparr>fb_available := True\<rparr>) else (Some Sleeping, f))"

definition run_loop :: "'d state_db \<Rightarrow> nat \<Rightarrow> 'd fallback \<Rightarrow> 'd fallback" where
  "run_loop db i f =
     (case retry_step db (fb_loops f ! i) f of
        (Some l, f') \<Rightarrow> f'\<lparr>fb_loops := (fb_loops f)[i := l]\<rparr>
      | (None, f') \<Rightarrow> f'\<lparr>fb_loops := take i (fb_loops f) @ drop (Suc i) (fb_loops f)\<rparr>)"

text \<open>Operations of clients, steps of the loops and changes of the database interleave.\<close>

inductive fallback_step :: "'d state_db \<Rightarrow> 'd fallback \<Rightarrow> session_state option \<Rightarrow> 'd fallback \<Rightarrow> bool" for db where
  fs_save: "fallback_step db f (Some st) (snd (fallback_save db st f))"
| fs_restore: "fallback_step db f None (snd (fallback_restore db sid f))"
| fs_loop: "i < length (fb_loops f) \<Longrightarrow> fallback_step db f None (run_loop db i f)"
| fs_env: "db_env db (fb_db f) d \<Longrightarrow> fallback_step db f None (f\<lparr>fb_db := d\<rparr>)"

text \<open>A run, with the states handed to \<open>save\<close> in order.\<close>

inductive fallback_run :: "'d state_db \<Rightarrow> 'd fallback \<Rightarrow> session_state list \<Rightarrow> 'd fallback \<Rightarrow> bool" for db where
  fr_refl: "fallback_run db f [] f"
| fr_step: "fallback_run db f sts g \<Longrightarrow> fallback_step db g x h \<Longrightarrow>
    fallback_run db f (sts @ (case x of Some st \<Rightarrow> [st] | None \<Rightarrow> [])) h"

subsection \<open>Lemmas\<close>

lemma save_cache [simp]: "fb_cache (snd (fallback_save db st f)) = hm_insert (ss_session_id st) st (fb_cache f)"
  by (auto simp: fallback_save_def start_retry_loop_def Let_def split: prod.splits sum.splits)

lemma restore_cache [simp]: "fb_cache (snd (fallback_restore db sid f)) = fb_cache f"
  by (auto simp: fallback_restore_def start_retry_loop_def split: option.splits sum.splits)

lemma run_loop_cache [simp]: "fb_cache (run_loop db i f) = fb_cache f"
  by (cases "(db, fb_loops f ! i, f)" rule: retry_step.cases)
    (auto simp: run_loop_def split: prod.splits sum.splits)

lemma new_cache [simp]: "fb_cache (fallback_new db d) = hm_empty"
  by (simp add: fallback_new_def start_retry_loop_def Let_def)

text \<open>The last state saved for a session.\<close>

definition last_saved :: "session_id \<Rightarrow> session_state list \<Rightarrow> session_state option" where
  "last_saved sid sts = find (\<lambda>st. ss_session_id st = sid) (rev sts)"

lemma last_saved_simps [simp]:
  "last_saved sid [] = None"
  "last_saved sid (sts @ [st]) = (if ss_session_id st = sid then Some st else last_saved sid sts)"
  by (simp_all add: last_saved_def)

lemma run_cache:
  "fallback_run db f sts g \<Longrightarrow> fb_cache f = hm_empty \<Longrightarrow> hm_get (fb_cache g) sid = last_saved sid sts"
proof (induction rule: fallback_run.induct)
  case (fr_step f sts g x h)
  from fr_step(2) show ?case using fr_step(3) [OF fr_step(4)] by (cases rule: fallback_step.cases) auto
qed simp

subsection \<open>A database\<close>

text \<open>A table of JSON texts that may be unreachable. The JSON text of the instance keeps the
  conversation only, and the states of the examples have nothing else.\<close>

type_synonym demo_db = "bool \<times> (session_id, string) hashmap"

definition demo_state :: "session_id \<Rightarrow> string \<Rightarrow> session_state" where
  "demo_state sid context = session_state_new 0 sid [] context default_task_limits"

definition demo_db :: "demo_db state_db" where
  "demo_db =
     \<lparr>db_upsert = (\<lambda>sid j _ (up, t). if up then (True, (up, hm_insert sid j t)) else (False, (up, t))),
      db_select = (\<lambda>sid (up, t). if up then Some (hm_get t sid) else None),
      db_ping = fst,
      db_env = (\<lambda>(_, t) (_, t'). t' = t),
      db_to_json = (\<lambda>st. Inr (show_nat (ss_session_id st) @ '':'' @ ss_conversation_context st)),
      db_from_json = (\<lambda>j. case find_str '':'' j of
         Some (l, r) \<Rightarrow> (case parse_digits 0 l of Some n \<Rightarrow> Inr (demo_state n r) | None \<Rightarrow> Inl ''bad key'') | None \<Rightarrow> Inl ''no key'')\<rparr>"

subsection \<open>Properties\<close>

text \<open>
  C9: within one process no saved state is lost, whatever the database does: over any
  interleaving of saves, restores, retry loops and outages, every save reports success and a
  restore returns exactly the state saved last for the session; for a session never saved it
  returns what the database holds if the store is marked available and can be read, and
  nothing otherwise.
\<close>

theorem fallback_restores_last:
  assumes "fallback_run db (fallback_new db d) sts f"
  shows "fst (fallback_save db st f) = Inr () \<and>
    (\<forall>st. last_saved sid sts = Some st \<longrightarrow> fst (fallback_restore db sid f) = Inr (Some st)) \<and>
    (last_saved sid sts = None \<longrightarrow> fst (fallback_restore db sid f) =
       (if fb_available f then (case restore_session_state db sid (fb_db f) of Inr x \<Rightarrow> Inr x | Inl _ \<Rightarrow> Inr None)
        else Inr None))"
proof -
  have "hm_get (fb_cache f) sid = last_saved sid sts" using run_cache [OF assms] by simp
  moreover have "fst (fallback_save db st f) = Inr ()"
    by (auto simp: fallback_save_def Let_def split: prod.splits sum.splits)
  ultimately show ?thesis by (auto simp: fallback_restore_def split: option.splits sum.splits)
qed

theorem fallback_restores_last_witness:
  "fst (fallback_restore demo_db 1 (snd (fallback_save demo_db (demo_state 1 ''b'')
     (snd (fallback_save demo_db (demo_state 1 ''a'') (fallback_new demo_db (False, [])))))))
   = Inr (Some (demo_state 1 ''b''))"
proof -
  let ?f = "fallback_new demo_db (False, [])"
  let ?g = "snd (fallback_save demo_db (demo_state 1 ''a'') ?f)"
  let ?h = "snd (fallback_save demo_db (demo_state 1 ''b'') ?g)"
  have "fallback_run demo_db ?f ([] @ (case Some (demo_state 1 ''a'') of Some st \<Rightarrow> [st] | None \<Rightarrow> [])) ?g"
    by (intro fr_step [OF fr_refl] fs_save)
  then have "fallback_run demo_db ?f (([] @ (case Some (demo_state 1 ''a'') of Some st \<Rightarrow> [st] | None \<Rightarrow> [])) @
      (case Some (demo_state 1 ''b'') of Some st \<Rightarrow> [st] | None \<Rightarrow> [])) ?h"
    by (rule fr_step) (rule fs_save)
  then have run: "fallback_run demo_db ?f [demo_state 1 ''a'', demo_state 1 ''b''] ?h" by simp
  have "last_saved 1 [demo_state 1 ''a'', demo_state 1 ''b''] = Some (demo_state 1 ''b'')"
    by (simp add: last_saved_def demo_state_def session_state_new_def)
  then show ?thesis using fallback_restores_last [OF run, of "demo_state 1 ''b''" 1] by blast
qed

text \<open>
  Across processes a state can be lost although the store is back. A state saved while a
  retry loop is flushing the snapshot it took before goes to the memory only; the loop then
  marks the store available and ends, nothing writes the state again, and a new process on the
  same reachable database finds no state for the session.
\<close>

theorem flush_race_loses_state:
  "\<exists>f. fallback_run demo_db (fallback_new demo_db (False, [])) [demo_state 1 ''a''] f \<and>
     fb_available f \<and> fb_loops f = [] \<and> db_ping demo_db (fb_db f) \<and>
     fst (fallback_restore demo_db 1 f) = Inr (Some (demo_state 1 ''a'')) \<and>
     fst (fallback_restore demo_db 1 (fallback_new demo_db (fb_db f))) = Inr None"
proof -
  let ?f0 = "fallback_new demo_db (False, [])"
  let ?f1 = "?f0\<lparr>fb_db := (True, [])\<rparr>"
  let ?f2 = "run_loop demo_db 0 ?f1"
  let ?f3 = "snd (fallback_save demo_db (demo_state 1 ''a'') ?f2)"
  let ?f4 = "run_loop demo_db 0 ?f3"
  note defs = fallback_new_def check_store_available_def start_retry_loop_def demo_db_def run_loop_def
    fallback_save_def Let_def hm_empty_def
  have s1: "fallback_step demo_db ?f0 None ?f1" by (rule fs_env) (simp add: defs)
  have s2: "fallback_step demo_db ?f1 None ?f2" by (rule fs_loop) (simp add: defs)
  have s3: "fallback_step demo_db ?f2 (Some (demo_state 1 ''a'')) ?f3" by (rule fs_save)
  have s4: "fallback_step demo_db ?f3 None ?f4" by (rule fs_loop) (simp add: defs)
  have "fallback_run demo_db ?f0 [demo_state 1 ''a''] ?f4"
    using fr_step [OF fr_step [OF fr_step [OF fr_step [OF fr_refl s1] s2] s3] s4] by simp
  moreover have "fb_available ?f4" "fb_loops ?f4 = []" "db_ping demo_db (fb_db ?f4)"
    "fst (fallback_restore demo_db 1 ?f4) = Inr (Some (demo_state 1 ''a''))"
    "fst (fallback_restore demo_db 1 (fallback_new demo_db (fb_db ?f4))) = Inr None"
    by (simp_all add: defs fallback_restore_def restore_session_state_def demo_state_def session_state_new_def)
  ultimately show ?thesis by blast
qed

end
