(* ===== verification/Session_Context.thy ===== *)
theory Session_Context
  imports Session_State
begin

text \<open>
  The session contexts of the agent (\<^verbatim>\<open>crates/agent-core/src/session_manager.rs\<close>): the
  messages of each session, their token count, and the summary that replaces older messages
  when the count passes 80 percent of the limit. Message texts are UTF-8 byte strings here,
  since the code cuts them at byte positions: cutting inside a character panics. An operation
  gives \<open>None\<close> for a panic, together with the state it leaves. Token counts are 32-bit and
  wrap, as in a release build. The identifier and time of a new message are arguments.
\<close>

definition PRESERVED_TURNS :: nat where
  "PRESERVED_TURNS = 10"

definition MAX_CONCURRENT_SESSIONS :: nat where
  "MAX_CONCURRENT_SESSIONS = 50"

datatype session_error = MaxSessionsReached nat | SessionNotFound session_id

record session_manager_config =
  mc_token_limit :: u32
  mc_max_sessions :: nat

definition default_session_manager_config :: session_manager_config where
  "default_session_manager_config = \<lparr>mc_token_limit = 128000, mc_max_sessions = MAX_CONCURRENT_SESSIONS\<rparr>"

record knowledge_entry =
  ke_title :: string
  ke_content :: string

record session_context =
  sx_messages :: "message list"
  sx_knowledge :: "knowledge_entry list"
  sx_total_tokens :: u32
  sx_has_summary :: bool

definition sx_new :: session_context where
  "sx_new = \<lparr>sx_messages = [], sx_knowledge = [], sx_total_tokens = 0, sx_has_summary = False\<rparr>"

record context_manager =
  xm_sessions :: "(session_id, session_context) hashmap"
  xm_config :: session_manager_config

definition xm_new :: "session_manager_config \<Rightarrow> context_manager" where
  "xm_new config = \<lparr>xm_sessions = hm_empty, xm_config = config\<rparr>"

text \<open>\<^verbatim>\<open>&s[..n]\<close>: a position inside a character, one before a continuation byte, panics.\<close>

definition is_char_boundary :: "string \<Rightarrow> nat \<Rightarrow> bool" where
  "is_char_boundary s n \<longleftrightarrow>
     n = length s \<or> (n < length s \<and> (n = 0 \<or> (let b = of_char (s ! n) :: nat in b < 128 \<or> 192 \<le> b)))"

definition slice_to :: "string \<Rightarrow> nat \<Rightarrow> string option" where
  "slice_to s n = (if is_char_boundary s n then Some (take n s) else None)"

definition truncate_content :: "string \<Rightarrow> nat \<Rightarrow> string option" where
  "truncate_content s max_len =
     (if length s \<le> max_len then Some s else map_option (\<lambda>p. p @ ''...'') (slice_to s max_len))"

text \<open>\<^verbatim>\<open>(text.len() as f64 / 4.0).ceil() as u32\<close>, exact for lengths below $2^{53}$.\<close>

definition estimate_tokens :: "string \<Rightarrow> u32" where
  "estimate_tokens s = of_nat (min ((length s + 3) div 4) (2 ^ 32 - 1))"

text \<open>\<^verbatim>\<open>(token_limit as f64 * 0.80) as u32\<close>. The product with the double next to 0.8 is off by
  less than half a unit in the last place, so its whole part is that of the exact product.\<close>

definition summarization_threshold :: "context_manager \<Rightarrow> u32" where
  "summarization_threshold xm = of_nat (4 * unat (mc_token_limit (xm_config xm)) div 5)"

definition create_context :: "session_id \<Rightarrow> context_manager \<Rightarrow> (session_error + unit) \<times> context_manager" where
  "create_context sid xm =
     (if hm_contains (xm_sessions xm) sid then (Inr (), xm)
      else if hm_len (xm_sessions xm) \<ge> mc_max_sessions (xm_config xm)
      then (Inl (MaxSessionsReached (mc_max_sessions (xm_config xm))), xm)
      else (Inr (), xm\<lparr>xm_sessions := hm_insert sid sx_new (xm_sessions xm)\<rparr>))"

definition get_context :: "session_id \<Rightarrow> context_manager \<Rightarrow> (session_error + session_context) \<times> context_manager" where
  "get_context sid xm =
     (case hm_get (xm_sessions xm) sid of
        Some ctx \<Rightarrow> (Inr ctx, xm)
      | None \<Rightarrow>
          (case create_context sid xm of
             (Inl e, xm') \<Rightarrow> (Inl e, xm')
           | (Inr _, xm') \<Rightarrow>
               (Inr (case hm_get (xm_sessions xm') sid of Some ctx \<Rightarrow> ctx | None \<Rightarrow> sx_new), xm')))"

definition with_role :: "message_role \<Rightarrow> message list \<Rightarrow> message list" where
  "with_role r ms = filter (\<lambda>m. m_role m = r) ms"

definition abbreviate :: "string \<Rightarrow> string option" where
  "abbreviate c = (if length c > 100 then map_option (\<lambda>p. p @ ''...'') (slice_to c 100) else Some c)"

fun all_some :: "'a option list \<Rightarrow> 'a list option" where
  "all_some [] = Some []"
| "all_some (x # xs) = Option.bind x (\<lambda>a. map_option (\<lambda>as. a # as) (all_some xs))"

fun join_lines :: "string list \<Rightarrow> string" where
  "join_lines [] = []"
| "join_lines [l] = l"
| "join_lines (l # ls) = l @ [CHR 0x0A] @ join_lines ls"

definition user_lines :: "message list \<Rightarrow> string list option" where
  "user_lines us =
     (if us = [] then Some []
      else map_option
        (\<lambda>ls. (''User discussed '' @ show_nat (length us) @ '' topic(s):'') # map (\<lambda>l. ''- '' @ l) ls @
           (if length us > 20 then [''  ...and '' @ show_nat (length us - 20) @ '' more messages''] else []))
        (all_some (map (\<lambda>m. abbreviate (m_content m)) (take 20 us))))"

definition generate_summary :: "message list \<Rightarrow> string option" where
  "generate_summary ms =
     map_option
       (\<lambda>us. join_lines
          ([''[Context Summary] The following is a summary of the earlier conversation:''] @ us @
           (if with_role Assistant ms \<noteq> []
            then [''Assistant provided '' @ show_nat (length (with_role Assistant ms)) @ '' response(s).''] else []) @
           (if with_role ToolRole ms \<noteq> []
            then [show_nat (length (with_role ToolRole ms)) @ '' tool execution(s) were performed.''] else [])))
       (user_lines (with_role User ms))"

definition summary_message :: "message_id \<Rightarrow> timestamp \<Rightarrow> session_id \<Rightarrow> string \<Rightarrow> message" where
  "summary_message mid now sid summary =
     \<lparr>m_id = mid, m_session_id = sid, m_role = System, m_content = summary, m_tool_calls = None,
      m_tool_results = None, m_timestamp = now, m_token_count = estimate_tokens summary\<rparr>"

text \<open>The older messages are drained before the summary is made, so they are gone when that
  panics.\<close>

definition summarize_context :: "message_id \<Rightarrow> timestamp \<Rightarrow> session_id \<Rightarrow> context_manager \<Rightarrow> unit option \<times> context_manager" where
  "summarize_context mid now sid xm =
     (case hm_get (xm_sessions xm) sid of
        None \<Rightarrow> (Some (), xm)
      | Some ctx \<Rightarrow>
          if length (sx_messages ctx) \<le> PRESERVED_TURNS then (Some (), xm)
          else let split_point = length (sx_messages ctx) - PRESERVED_TURNS;
                   older = take split_point (sx_messages ctx);
                   recent = drop split_point (sx_messages ctx)
               in case generate_summary older of
                    None \<Rightarrow> (None, xm\<lparr>xm_sessions := hm_insert sid (ctx\<lparr>sx_messages := recent\<rparr>) (xm_sessions xm)\<rparr>)
                  | Some summary \<Rightarrow>
                      let n = estimate_tokens summary; msg = summary_message mid now sid summary
                      in (Some (), xm\<lparr>xm_sessions := hm_insert sid
                            (ctx\<lparr>sx_messages := msg # recent, sx_total_tokens := n + sum_list (map m_token_count recent),
                                 sx_has_summary := True\<rparr>) (xm_sessions xm)\<rparr>))"

definition maybe_summarize :: "message_id \<Rightarrow> timestamp \<Rightarrow> session_id \<Rightarrow> context_manager \<Rightarrow> unit option \<times> context_manager" where
  "maybe_summarize mid now sid xm =
     (if (case hm_get (xm_sessions xm) sid of
            Some ctx \<Rightarrow> sx_total_tokens ctx > summarization_threshold xm \<and> length (sx_messages ctx) > PRESERVED_TURNS
          | None \<Rightarrow> False)
      then summarize_context mid now sid xm else (Some (), xm))"

definition push_message :: "message \<Rightarrow> session_context \<Rightarrow> session_context" where
  "push_message m ctx =
     ctx\<lparr>sx_total_tokens := sx_total_tokens ctx + m_token_count m, sx_messages := sx_messages ctx @ [m]\<rparr>"

definition add_message :: "message_id \<Rightarrow> timestamp \<Rightarrow> session_id \<Rightarrow> message \<Rightarrow> context_manager \<Rightarrow>
    (session_error + unit) option \<times> context_manager" where
  "add_message mid now sid m xm =
     (case (if hm_contains (xm_sessions xm) sid then (Inr (), xm) else create_context sid xm) of
        (Inl e, xm1) \<Rightarrow> (Some (Inl e), xm1)
      | (Inr _, xm1) \<Rightarrow>
          (case maybe_summarize mid now sid (xm1\<lparr>xm_sessions := hm_modify sid (push_message m) (xm_sessions xm1)\<rparr>) of
             (None, xm2) \<Rightarrow> (None, xm2)
           | (Some _, xm2) \<Rightarrow> (Some (Inr ()), xm2)))"

definition get_token_count :: "session_id \<Rightarrow> context_manager \<Rightarrow> u32" where
  "get_token_count sid xm = (case hm_get (xm_sessions xm) sid of Some ctx \<Rightarrow> sx_total_tokens ctx | None \<Rightarrow> 0)"

definition add_knowledge :: "session_id \<Rightarrow> knowledge_entry \<Rightarrow> context_manager \<Rightarrow> (session_error + unit) \<times> context_manager" where
  "add_knowledge sid k xm =
     (case hm_get (xm_sessions xm) sid of
        Some ctx \<Rightarrow>
          (Inr (), xm\<lparr>xm_sessions := hm_insert sid (ctx\<lparr>sx_knowledge := sx_knowledge ctx @ [k]\<rparr>) (xm_sessions xm)\<rparr>)
      | None \<Rightarrow> (Inl (SessionNotFound sid), xm))"

definition active_context_count :: "context_manager \<Rightarrow> nat" where
  "active_context_count xm = hm_len (xm_sessions xm)"

definition remove_session :: "session_id \<Rightarrow> context_manager \<Rightarrow> bool \<times> context_manager" where
  "remove_session sid xm =
     (hm_contains (xm_sessions xm) sid, xm\<lparr>xm_sessions := hm_remove sid (xm_sessions xm)\<rparr>)"

subsection \<open>Persistence\<close>

fun role_debug :: "message_role \<Rightarrow> string" where
  "role_debug User = ''User''"
| "role_debug Assistant = ''Assistant''"
| "role_debug System = ''System''"
| "role_debug ToolRole = ''Tool''"

definition context_lines :: "message list \<Rightarrow> string option" where
  "context_lines ms =
     map_option join_lines
       (all_some (map (\<lambda>m. map_option (\<lambda>c. ''['' @ role_debug (m_role m) @ ''] '' @ c) (truncate_content (m_content m) 200))
          (take 5 ms)))"

text \<open>\<open>persist_session\<close> with the pool, when there is one: what it does to the database, or a
  panic.\<close>

definition persist_session :: "('d state_db \<times> 'd) option \<Rightarrow> timestamp \<Rightarrow> session_id \<Rightarrow> context_manager \<Rightarrow> 'd option option" where
  "persist_session pool now sid xm =
     (case pool of
        None \<Rightarrow> Some None
      | Some (db, d) \<Rightarrow>
          (case hm_get (xm_sessions xm) sid of
             None \<Rightarrow> Some (Some d)
           | Some ctx \<Rightarrow>
               map_option (\<lambda>c. Some (snd (save_session_state db (session_state_new now sid [] c default_task_limits) d)))
                 (context_lines (sx_messages ctx))))"

definition restored_message :: "message_id \<Rightarrow> timestamp \<Rightarrow> session_id \<Rightarrow> string \<Rightarrow> message" where
  "restored_message mid now sid context =
     \<lparr>m_id = mid, m_session_id = sid, m_role = System, m_content = ''[Restored Context] '' @ context, m_tool_calls = None,
      m_tool_results = None, m_timestamp = now, m_token_count = estimate_tokens context\<rparr>"

definition restore_session :: "('d state_db \<times> 'd) option \<Rightarrow> message_id \<Rightarrow> timestamp \<Rightarrow> session_id \<Rightarrow> context_manager \<Rightarrow> bool \<times> context_manager" where
  "restore_session pool mid now sid xm =
     (case pool of
        None \<Rightarrow> (False, xm)
      | Some (db, d) \<Rightarrow>
          (case restore_session_state db sid d of
             Inr (Some st) \<Rightarrow>
               (case create_context sid xm of
                  (Inl _, xm1) \<Rightarrow> (False, xm1)
                | (Inr _, xm1) \<Rightarrow>
                    (True,
                     if ss_conversation_context st = [] then xm1
                     else xm1\<lparr>xm_sessions :=
                       hm_modify sid (push_message (restored_message mid now sid (ss_conversation_context st))) (xm_sessions xm1)\<rparr>))
           | _ \<Rightarrow> (False, xm)))"

subsection \<open>Invariant\<close>

definition sx_inv :: "session_context \<Rightarrow> bool" where
  "sx_inv ctx \<longleftrightarrow> sx_total_tokens ctx = sum_list (map m_token_count (sx_messages ctx))"

definition xm_inv :: "context_manager \<Rightarrow> bool" where
  "xm_inv xm \<longleftrightarrow> hm_inv (xm_sessions xm) \<and> hm_len (xm_sessions xm) \<le> mc_max_sessions (xm_config xm) \<and>
     (\<forall>sid ctx. hm_get (xm_sessions xm) sid = Some ctx \<longrightarrow> sx_inv ctx)"

lemma hm_len_insert:
  "hm_inv m \<Longrightarrow> hm_len (hm_insert k v m) = (if k \<in> hm_keys m then hm_len m else Suc (hm_len m))"
  by (simp add: hm_len_card insert_absorb)

lemma hm_len_remove_le: "hm_inv m \<Longrightarrow> hm_len (hm_remove k m) \<le> hm_len m"
  by (simp add: hm_len_card card_mono)

lemma hm_len_modify: "hm_inv m \<Longrightarrow> hm_len (hm_modify k f m) = hm_len m"
  by (simp add: hm_len_card)

lemma xm_invD:
  assumes "xm_inv xm"
  shows "hm_inv (xm_sessions xm)" "hm_len (xm_sessions xm) \<le> mc_max_sessions (xm_config xm)"
    "hm_get (xm_sessions xm) sid = Some ctx \<Longrightarrow> sx_inv ctx"
  using assms unfolding xm_inv_def by blast+

text \<open>Replacing the context of a session that exists.\<close>

lemma xm_inv_replace:
  assumes "xm_inv xm" "hm_get (xm_sessions xm) sid = Some ctx" "sx_inv ctx'"
  shows "xm_inv (xm\<lparr>xm_sessions := hm_insert sid ctx' (xm_sessions xm)\<rparr>)"
proof -
  have "sid \<in> hm_keys (xm_sessions xm)" using assms(2) by (rule hm_get_SomeD)
  then show ?thesis using assms(1,3) by (auto simp: xm_inv_def hm_len_insert)
qed

lemma xm_inv_modify:
  assumes "xm_inv xm" "\<And>ctx. sx_inv ctx \<Longrightarrow> sx_inv (f ctx)"
  shows "xm_inv (xm\<lparr>xm_sessions := hm_modify sid f (xm_sessions xm)\<rparr>)"
  using assms by (auto simp: xm_inv_def hm_len_modify)

lemma xm_inv_new [simp]: "xm_inv (xm_new config)"
  by (simp add: xm_inv_def xm_new_def hm_empty_def hm_inv_def)

lemma sx_inv_new [simp]: "sx_inv sx_new"
  by (simp add: sx_inv_def sx_new_def)

lemma sx_inv_push [simp]: "sx_inv ctx \<Longrightarrow> sx_inv (push_message m ctx)"
  by (simp add: sx_inv_def push_message_def)

lemma xm_inv_create:
  assumes "xm_inv xm"
  shows "xm_inv (snd (create_context sid xm))"
proof (cases "hm_contains (xm_sessions xm) sid \<or> hm_len (xm_sessions xm) \<ge> mc_max_sessions (xm_config xm)")
  case True
  then show ?thesis using assms by (auto simp: create_context_def)
next
  case False
  then have "sid \<notin> hm_keys (xm_sessions xm)" by (simp add: hm_contains_iff)
  then show ?thesis using False assms by (auto simp: create_context_def xm_inv_def hm_len_insert)
qed

definition recent_messages :: "session_context \<Rightarrow> message list" where
  "recent_messages ctx = drop (length (sx_messages ctx) - PRESERVED_TURNS) (sx_messages ctx)"

definition older_messages :: "session_context \<Rightarrow> message list" where
  "older_messages ctx = take (length (sx_messages ctx) - PRESERVED_TURNS) (sx_messages ctx)"

lemma summarize_effect:
  assumes get: "hm_get (xm_sessions xm) sid = Some ctx" and long: "length (sx_messages ctx) > PRESERVED_TURNS"
  shows "summarize_context mid now sid xm =
    (case generate_summary (older_messages ctx) of
       None \<Rightarrow> (None, xm\<lparr>xm_sessions := hm_insert sid (ctx\<lparr>sx_messages := recent_messages ctx\<rparr>) (xm_sessions xm)\<rparr>)
     | Some summary \<Rightarrow>
         (Some (), xm\<lparr>xm_sessions := hm_insert sid
            (ctx\<lparr>sx_messages := summary_message mid now sid summary # recent_messages ctx,
                 sx_total_tokens := estimate_tokens summary + sum_list (map m_token_count (recent_messages ctx)),
                 sx_has_summary := True\<rparr>) (xm_sessions xm)\<rparr>))"
  using get long by (simp add: summarize_context_def Let_def recent_messages_def older_messages_def split: option.split)

lemma summary_message_tokens [simp]: "m_token_count (summary_message mid now sid t) = estimate_tokens t"
  by (simp add: summary_message_def)

lemma xm_inv_maybe_summarize:
  assumes inv: "xm_inv xm" and run: "maybe_summarize mid now sid xm = (Some (), xm')"
  shows "xm_inv xm'"
proof (cases "hm_get (xm_sessions xm) sid")
  case None
  then show ?thesis using assms by (simp add: maybe_summarize_def)
next
  case (Some ctx)
  show ?thesis
  proof (cases "sx_total_tokens ctx > summarization_threshold xm \<and> length (sx_messages ctx) > PRESERVED_TURNS")
    case True
    then have "summarize_context mid now sid xm = (Some (), xm')" using run Some by (simp add: maybe_summarize_def)
    then show ?thesis using summarize_effect [OF Some, of mid now] True xm_inv_replace [OF inv Some]
      by (auto simp: sx_inv_def split: option.splits)
  next
    case False
    then show ?thesis using assms Some by (auto simp: maybe_summarize_def split: if_splits)
  qed
qed

lemma xm_inv_add_message:
  assumes inv: "xm_inv xm" and run: "add_message mid now sid m xm = (Some r, xm')"
  shows "xm_inv xm'"
proof -
  obtain c xm1 where c: "(if hm_contains (xm_sessions xm) sid then (Inr (), xm) else create_context sid xm) = (c, xm1)"
    by fastforce
  have inv1: "xm_inv xm1" using c inv xm_inv_create [OF inv, of sid] by (auto split: if_splits)
  show ?thesis
  proof (cases c)
    case (Inl e)
    then show ?thesis using run c inv1 by (simp add: add_message_def)
  next
    case (Inr u)
    then have "maybe_summarize mid now sid (xm1\<lparr>xm_sessions := hm_modify sid (push_message m) (xm_sessions xm1)\<rparr>) = (Some (), xm')"
      using run c by (auto simp: add_message_def split: prod.splits option.splits)
    then show ?thesis using xm_inv_maybe_summarize xm_inv_modify [OF inv1] sx_inv_push by blast
  qed
qed

text \<open>A sequence of operations; \<open>None\<close> after a panic.\<close>

datatype context_call =
    AddMessage message_id timestamp session_id message
  | AddKnowledge session_id knowledge_entry
  | GetContext session_id
  | RemoveSession session_id

fun context_apply :: "context_call \<Rightarrow> context_manager \<Rightarrow> context_manager option" where
  "context_apply (AddMessage mid now sid m) xm = (case add_message mid now sid m xm of (r, xm') \<Rightarrow> map_option (\<lambda>_. xm') r)"
| "context_apply (AddKnowledge sid k) xm = Some (snd (add_knowledge sid k xm))"
| "context_apply (GetContext sid) xm = Some (snd (get_context sid xm))"
| "context_apply (RemoveSession sid) xm = Some (snd (remove_session sid xm))"

fun context_run :: "context_call list \<Rightarrow> context_manager \<Rightarrow> context_manager option" where
  "context_run [] xm = Some xm"
| "context_run (c # cs) xm = Option.bind (context_apply c xm) (context_run cs)"

lemma xm_inv_add_knowledge: "xm_inv xm \<Longrightarrow> xm_inv (snd (add_knowledge sid k xm))"
  using xm_inv_replace xm_invD(3) by (fastforce simp: add_knowledge_def sx_inv_def split: option.split)

lemma xm_inv_get_context: "xm_inv xm \<Longrightarrow> xm_inv (snd (get_context sid xm))"
  using xm_inv_create [of xm sid] by (auto simp: get_context_def split: option.split prod.split sum.split)

lemma xm_inv_remove: "xm_inv xm \<Longrightarrow> xm_inv (snd (remove_session sid xm))"
  using hm_len_remove_le by (fastforce simp: remove_session_def xm_inv_def split: if_splits intro: le_trans)

lemma xm_inv_apply: "xm_inv xm \<Longrightarrow> context_apply c xm = Some xm' \<Longrightarrow> xm_inv xm'"
  by (cases c) (auto simp: xm_inv_add_knowledge xm_inv_get_context xm_inv_remove dest: xm_inv_add_message split: prod.splits)

lemma xm_inv_run: "xm_inv xm \<Longrightarrow> context_run cs xm = Some xm' \<Longrightarrow> xm_inv xm'"
proof (induction cs arbitrary: xm)
  case (Cons c cs)
  then obtain y where "context_apply c xm = Some y" "context_run cs y = Some xm'" by (auto simp: Option.bind_eq_Some_conv)
  then show ?case using Cons xm_inv_apply by blast
qed simp

lemma config_fixed:
  "xm_config (snd (create_context sid xm)) = xm_config xm"
  "xm_config (snd (maybe_summarize mid now sid xm)) = xm_config xm"
  by (auto simp: create_context_def maybe_summarize_def summarize_context_def Let_def split: option.splits)

text \<open>The message handed over and the decision about the summary, for a session that exists.\<close>

definition needs_summary :: "context_manager \<Rightarrow> session_context \<Rightarrow> bool" where
  "needs_summary xm ctx \<longleftrightarrow>
     sx_total_tokens ctx > summarization_threshold xm \<and> length (sx_messages ctx) > PRESERVED_TURNS"

lemma add_message_existing:
  assumes "hm_get (xm_sessions xm) sid = Some ctx" "ctx1 = push_message m ctx"
    and "xm1 = xm\<lparr>xm_sessions := hm_modify sid (push_message m) (xm_sessions xm)\<rparr>"
  shows "add_message mid now sid m xm =
    (if needs_summary xm ctx1
     then (case summarize_context mid now sid xm1 of (r, xm2) \<Rightarrow> (map_option (\<lambda>_. Inr ()) r, xm2))
     else (Some (Inr ()), xm1))"
  using assms by (auto simp: add_message_def hm_contains_def maybe_summarize_def needs_summary_def summarization_threshold_def
      split: prod.splits option.splits)

lemma all_some_None: "None \<in> set xs \<Longrightarrow> all_some xs = None"
  by (induction xs) (auto split: option.splits simp: Option.bind_eq_None_conv)

lemma generate_summary_panics:
  assumes "u \<in> set (take 20 (with_role User ms))" "length (m_content u) > 100" "\<not> is_char_boundary (m_content u) 100"
  shows "generate_summary ms = None"
proof -
  have "abbreviate (m_content u) = None" using assms(2,3) by (simp add: abbreviate_def slice_to_def)
  then have "None \<in> set (map (\<lambda>m. abbreviate (m_content m)) (take 20 (with_role User ms)))" using assms(1) by force
  moreover have "with_role User ms \<noteq> []" using assms(1) by auto
  ultimately show ?thesis by (simp add: generate_summary_def user_lines_def all_some_None)
qed

subsection \<open>Properties\<close>

text \<open>
  C16: after any sequence of operations that does not panic, there are at most as many sessions
  as configured and each session's token count is the 32-bit sum of the counts of its messages;
  and a further message that is accepted for a session is the last of its messages, leaves its
  knowledge and all other sessions alone, and either is appended to what was there or, when
  the count passes the threshold and there are more than ten messages, the last ten are kept
  behind a single summary message.
\<close>

theorem add_message_keeps_recent:
  assumes run: "context_run cs (xm_new config) = Some xm"
    and get: "hm_get (xm_sessions xm) sid = Some ctx"
    and add: "add_message mid now sid m xm = (Some (Inr ()), xm')"
  shows "hm_len (xm_sessions xm) \<le> mc_max_sessions (xm_config xm) \<and> sx_inv ctx \<and>
    (\<forall>sid'. sid' \<noteq> sid \<longrightarrow> hm_get (xm_sessions xm') sid' = hm_get (xm_sessions xm) sid') \<and>
    (\<exists>ctx'. hm_get (xm_sessions xm') sid = Some ctx' \<and> sx_inv ctx' \<and> sx_knowledge ctx' = sx_knowledge ctx \<and>
       (if needs_summary xm (push_message m ctx)
        then sx_has_summary ctx' \<and> (\<exists>summary. m_role summary = System \<and>
               sx_messages ctx' = summary # drop (length (sx_messages ctx) + 1 - PRESERVED_TURNS) (sx_messages ctx @ [m]))
        else sx_messages ctx' = sx_messages ctx @ [m]))"
proof -
  let ?ctx1 = "push_message m ctx"
  have inv: "xm_inv xm" using xm_inv_run [OF _ run] by simp
  have inv': "xm_inv xm'" by (rule xm_inv_add_message [OF inv add])
  define xm1 where "xm1 = xm\<lparr>xm_sessions := hm_modify sid (push_message m) (xm_sessions xm)\<rparr>"
  note step = add_message_existing [OF get refl xm1_def, of mid now]
  have get1: "hm_get (xm_sessions xm1) sid = Some ?ctx1" using get by (simp add: xm1_def)
  have "(\<forall>sid'. sid' \<noteq> sid \<longrightarrow> hm_get (xm_sessions xm') sid' = hm_get (xm_sessions xm) sid') \<and>
    (\<exists>ctx'. hm_get (xm_sessions xm') sid = Some ctx' \<and> sx_knowledge ctx' = sx_knowledge ctx \<and>
       (if needs_summary xm ?ctx1
        then sx_has_summary ctx' \<and> (\<exists>summary. m_role summary = System \<and> sx_messages ctx' = summary # recent_messages ?ctx1)
        else sx_messages ctx' = sx_messages ctx @ [m]))"
  proof (cases "needs_summary xm ?ctx1")
    case True
    then have "length (sx_messages ?ctx1) > PRESERVED_TURNS" by (simp add: needs_summary_def)
    note sum = summarize_effect [OF get1 this, of mid now]
    have role: "m_role (summary_message mid now sid t) = System" for t by (simp add: summary_message_def)
    show ?thesis using add step True sum role
      by (auto simp: xm1_def push_message_def split: option.splits)
  next
    case False
    then show ?thesis using add step get by (auto simp: xm1_def push_message_def)
  qed
  then show ?thesis using xm_invD [OF inv] xm_invD(3) [OF inv'] get
    by (auto simp: recent_messages_def push_message_def)
qed

text \<open>Ten short messages, and a limit that the eleventh passes.\<close>

definition note_message :: "string \<Rightarrow> message" where
  "note_message c = \<lparr>m_id = 0, m_session_id = 7, m_role = User, m_content = c, m_tool_calls = None,
     m_tool_results = None, m_timestamp = 0, m_token_count = 1\<rparr>"

definition small_config :: session_manager_config where
  "small_config = \<lparr>mc_token_limit = 12, mc_max_sessions = 1\<rparr>"

definition ten_messages :: "context_call list" where
  "ten_messages = replicate 10 (AddMessage 0 0 7 (note_message ''hi''))"

definition ten_context :: session_context where
  "ten_context = \<lparr>sx_messages = replicate 10 (note_message ''hi''), sx_knowledge = [], sx_total_tokens = 10, sx_has_summary = False\<rparr>"

definition ten_manager :: context_manager where
  "ten_manager = \<lparr>xm_sessions = [(7, ten_context)], xm_config = small_config\<rparr>"

lemma ten_run: "context_run ten_messages (xm_new small_config) = Some ten_manager"
  by code_simp

lemma ten_needs_summary: "needs_summary ten_manager (push_message (note_message ''hi'') ten_context)"
  by code_simp

lemma eleventh: "fst (add_message 1 0 7 (note_message ''hi'') ten_manager) = Some (Inr ())"
proof -
  let ?c = "push_message (note_message ''hi'') ten_context"
  let ?x = "ten_manager\<lparr>xm_sessions := hm_modify 7 (push_message (note_message ''hi'')) (xm_sessions ten_manager)\<rparr>"
  have get: "hm_get (xm_sessions ten_manager) 7 = Some ten_context" by (simp add: ten_manager_def)
  have get1: "hm_get (xm_sessions ?x) 7 = Some ?c" using get by simp
  have long: "length (sx_messages ?c) > PRESERVED_TURNS" using ten_needs_summary by (simp add: needs_summary_def)
  have "older_messages ?c = [note_message ''hi'']"
    by (simp add: older_messages_def push_message_def ten_context_def PRESERVED_TURNS_def numeral_eq_Suc)
  then have "\<exists>t. generate_summary (older_messages ?c) = Some t"
    by (simp add: generate_summary_def user_lines_def with_role_def note_message_def abbreviate_def)
  then obtain t where "generate_summary (older_messages ?c) = Some t" ..
  then show ?thesis
    using add_message_existing [OF get refl refl, of 1 0 "note_message ''hi''"] summarize_effect [OF get1 long, of 1 0] ten_needs_summary
    by simp
qed

theorem add_message_keeps_recent_witness:
  "\<exists>xm' ctx' summary. add_message 1 0 7 (note_message ''hi'') ten_manager = (Some (Inr ()), xm') \<and>
     hm_get (xm_sessions xm') 7 = Some ctx' \<and> sx_messages ctx' = summary # replicate 10 (note_message ''hi'')"
proof -
  obtain xm' where add: "add_message 1 0 7 (note_message ''hi'') ten_manager = (Some (Inr ()), xm')"
    using eleventh by (metis prod.collapse)
  have get: "hm_get (xm_sessions ten_manager) 7 = Some ten_context" by (simp add: ten_manager_def)
  have ten: "drop (length (sx_messages ten_context) + 1 - PRESERVED_TURNS) (sx_messages ten_context @ [note_message ''hi'']) =
      replicate 10 (note_message ''hi'')" by code_simp
  from add_message_keeps_recent [OF ten_run get add] ten_needs_summary add show ?thesis unfolding ten by auto
qed

text \<open>
  The summary cuts texts at byte 100 and panics inside a character. When a message triggers
  the summary and one of the first twenty user messages to be summarised is longer than 100
  bytes with a character across that position, adding the message panics; the older messages
  are lost by then, no summary replaces them, and the token count stays above the threshold.
\<close>

theorem summary_panics_inside_character:
  assumes get: "hm_get (xm_sessions xm) sid = Some ctx" and ctx1: "ctx1 = push_message m ctx"
    and full: "needs_summary xm ctx1"
    and u: "u \<in> set (take 20 (with_role User (older_messages ctx1)))" "length (m_content u) > 100"
      "\<not> is_char_boundary (m_content u) 100"
  shows "\<exists>xm' ctx'. add_message mid now sid m xm = (None, xm') \<and> hm_get (xm_sessions xm') sid = Some ctx' \<and>
    sx_messages ctx' = recent_messages ctx1 \<and> sx_has_summary ctx' = sx_has_summary ctx \<and>
    sx_total_tokens ctx' = sx_total_tokens ctx1"
proof -
  define xm1 where "xm1 = xm\<lparr>xm_sessions := hm_modify sid (push_message m) (xm_sessions xm)\<rparr>"
  have get1: "hm_get (xm_sessions xm1) sid = Some ctx1" using get by (simp add: xm1_def ctx1)
  have "length (sx_messages ctx1) > PRESERVED_TURNS" using full by (simp add: needs_summary_def)
  from summarize_effect [OF get1 this, of mid now] generate_summary_panics [OF u]
  have "add_message mid now sid m xm =
      (None, xm1\<lparr>xm_sessions := hm_insert sid (ctx1\<lparr>sx_messages := recent_messages ctx1\<rparr>) (xm_sessions xm1)\<rparr>)"
    using add_message_existing [OF get ctx1 xm1_def, of mid now] full by simp
  then show ?thesis by (simp add: ctx1 push_message_def)
qed

definition long_message :: message where
  "long_message = note_message (replicate 99 (CHR ''a'') @ [CHR 0xC3, CHR 0xA9])"

definition long_context :: session_context where
  "long_context = \<lparr>sx_messages = long_message # replicate 9 (note_message ''hi''), sx_knowledge = [], sx_total_tokens = 10,
     sx_has_summary = False\<rparr>"

definition long_manager :: context_manager where
  "long_manager = \<lparr>xm_sessions = [(7, long_context)], xm_config = small_config\<rparr>"

theorem summary_panics_inside_character_witness:
  "fst (add_message 1 0 7 (note_message ''hi'') long_manager) = None"
proof -
  let ?c = "push_message (note_message ''hi'') long_context"
  have "hm_get (xm_sessions long_manager) 7 = Some long_context" by (simp add: long_manager_def)
  moreover have "needs_summary long_manager ?c" by code_simp
  moreover have "long_message \<in> set (take 20 (with_role User (older_messages ?c)))"
  proof -
    have "older_messages ?c = [long_message]"
      by (simp add: older_messages_def push_message_def long_context_def PRESERVED_TURNS_def)
    then show ?thesis by (simp add: with_role_def long_message_def note_message_def)
  qed
  moreover have "length (m_content long_message) > 100" by (simp add: long_message_def note_message_def)
  moreover have "\<not> is_char_boundary (m_content long_message) 100"
    by (simp add: is_char_boundary_def long_message_def note_message_def nth_append)
  ultimately show ?thesis using summary_panics_inside_character [of long_manager 7 long_context ?c "note_message ''hi''" long_message 1 0]
    by auto
qed

end
