(* ===== verification/Supervisor.thy ===== *)
theory Supervisor
  imports Expiring_Store Rust_Strings
begin

text \<open>
  The process supervisor (\<^verbatim>\<open>crates/process-supervisor/src\<close>): \<^verbatim>\<open>types.rs\<close>,
  \<^verbatim>\<open>health.rs\<close>, \<^verbatim>\<open>stats.rs\<close> and \<^verbatim>\<open>supervisor.rs\<close>. An \<^verbatim>\<open>Instant\<close> is a number of
  nanoseconds. The callbacks, the two clocks and the sleep act on a world \<open>'w\<close>; a health
  check answers \<open>None\<close> when its five seconds pass. The conversion of durations is chrono's,
  a parameter as in the expiring stores.
\<close>

subsection \<open>Types\<close>

record supervisor_config =
  vc_health_check_interval :: nat
  vc_unresponsive_timeout :: nat
  vc_restart_delay :: nat
  vc_boot_start_timeout :: nat
  vc_max_restart_history :: nat

definition default_supervisor_config :: supervisor_config where
  "default_supervisor_config = \<lparr>vc_health_check_interval = secs_std 15, vc_unresponsive_timeout = secs_std 60,
     vc_restart_delay = secs_std 5, vc_boot_start_timeout = secs_std 30, vc_max_restart_history = 10\<rparr>"

datatype supervisor_error =
    AlreadyRunning | NotRunning | AgentStartFailed string | RestartFailed string | StateRestoreFailed string | HealthCheckFailed string

datatype health_status = HsHealthy | HsDegraded string | Unresponsive timestamp | Terminated | HsStarting | Unknown

datatype restart_reason =
    UnresponsiveFor u64 | UnexpectedTermination | Manual string | InitialStart | ErrorState string

fun restart_reason_text :: "restart_reason \<Rightarrow> string" where
  "restart_reason_text (UnresponsiveFor n) = ''unresponsive for '' @ show_nat (unat n) @ ''s''"
| "restart_reason_text UnexpectedTermination = ''unexpected termination''"
| "restart_reason_text (Manual r) = ''manual: '' @ r"
| "restart_reason_text InitialStart = ''initial start''"
| "restart_reason_text (ErrorState m) = ''error state: '' @ m"

record restart_event =
  re_timestamp :: timestamp
  re_reason :: restart_reason
  re_success :: bool
  re_duration_ms :: u64

record supervisor_stats =
  vs_uptime :: nat
  vs_restart_count :: u32
  vs_last_restart :: "timestamp option"
  vs_last_restart_reason :: "string option"
  vs_restart_history :: "restart_event list"
  vs_current_health :: health_status

subsection \<open>Health\<close>

record health_monitor =
  hh_last_healthy_response :: "nat option"
  hh_unresponsive_timeout :: nat
  hh_agent_alive :: bool

definition hh_new :: "nat \<Rightarrow> health_monitor" where
  "hh_new timeout = \<lparr>hh_last_healthy_response = None, hh_unresponsive_timeout = timeout, hh_agent_alive = False\<rparr>"

definition record_healthy_response :: "nat \<Rightarrow> health_monitor \<Rightarrow> health_monitor" where
  "record_healthy_response now h = h\<lparr>hh_last_healthy_response := Some now\<rparr>"

definition mark_alive :: "nat \<Rightarrow> health_monitor \<Rightarrow> health_monitor" where
  "mark_alive now h = record_healthy_response now (h\<lparr>hh_agent_alive := True\<rparr>)"

definition mark_terminated :: "health_monitor \<Rightarrow> health_monitor" where
  "mark_terminated h = h\<lparr>hh_agent_alive := False\<rparr>"

definition current_status :: "chrono_api \<Rightarrow> nat \<Rightarrow> timestamp \<Rightarrow> health_monitor \<Rightarrow> health_status" where
  "current_status ch now utc h =
     (if \<not> hh_agent_alive h then Terminated
      else (case hh_last_healthy_response h of
              None \<Rightarrow> HsStarting
            | Some t \<Rightarrow>
                let elapsed = now - t
                in if elapsed \<le> hh_unresponsive_timeout h then HsHealthy
                   else Unresponsive (utc - (case from_std ch elapsed of Some x \<Rightarrow> x | None \<Rightarrow> 0))))"

definition is_unresponsive :: "chrono_api \<Rightarrow> nat \<Rightarrow> timestamp \<Rightarrow> health_monitor \<Rightarrow> bool" where
  "is_unresponsive ch now utc h = (case current_status ch now utc h of Unresponsive _ \<Rightarrow> True | _ \<Rightarrow> False)"

definition time_since_last_response :: "nat \<Rightarrow> health_monitor \<Rightarrow> nat option" where
  "time_since_last_response now h = map_option (\<lambda>t. now - t) (hh_last_healthy_response h)"

subsection \<open>Statistics\<close>

record stats_tracker =
  tk_started_at :: nat
  tk_restart_count :: u32
  tk_last_restart :: "timestamp option"
  tk_last_restart_reason :: "restart_reason option"
  tk_restart_history :: "restart_event list"
  tk_max_history :: nat

definition tk_new :: "nat \<Rightarrow> nat \<Rightarrow> stats_tracker" where
  "tk_new now max_history = \<lparr>tk_started_at = now, tk_restart_count = 0, tk_last_restart = None, tk_last_restart_reason = None,
     tk_restart_history = [], tk_max_history = max_history\<rparr>"

definition record_restart :: "timestamp \<Rightarrow> restart_reason \<Rightarrow> bool \<Rightarrow> u64 \<Rightarrow> stats_tracker \<Rightarrow> stats_tracker" where
  "record_restart utc reason success duration_ms t =
     (let event = \<lparr>re_timestamp = utc, re_reason = reason, re_success = success, re_duration_ms = duration_ms\<rparr>
      in t\<lparr>tk_restart_count := tk_restart_count t + 1, tk_last_restart := Some utc, tk_last_restart_reason := Some reason,
           tk_restart_history := push_bounded (tk_max_history t) event (tk_restart_history t)\<rparr>)"

definition stats_snapshot :: "nat \<Rightarrow> health_status \<Rightarrow> stats_tracker \<Rightarrow> supervisor_stats" where
  "stats_snapshot now health t =
     \<lparr>vs_uptime = now - tk_started_at t, vs_restart_count = tk_restart_count t, vs_last_restart = tk_last_restart t,
      vs_last_restart_reason = map_option restart_reason_text (tk_last_restart_reason t),
      vs_restart_history = tk_restart_history t, vs_current_health = health\<rparr>"

subsection \<open>The supervisor\<close>

record 'w supervisor_env =
  ve_start :: "('w \<Rightarrow> (string + unit) \<times> 'w) option"
  ve_check :: "('w \<Rightarrow> bool option \<times> 'w) option"
  ve_restore :: "('w \<Rightarrow> (string + unit) \<times> 'w) option"
  ve_instant :: "'w \<Rightarrow> nat"
  ve_utc :: "'w \<Rightarrow> timestamp"
  ve_sleep :: "nat \<Rightarrow> 'w \<Rightarrow> 'w"
  ve_chrono :: chrono_api

text \<open>The monitoring loops that were spawned, oldest first: whether the loop's shutdown signal
  is set.\<close>

record supervisor =
  sv_config :: supervisor_config
  sv_health :: health_monitor
  sv_stats :: stats_tracker
  sv_running :: bool
  sv_shutdown_tx :: "nat option"
  sv_loops :: "(nat \<times> bool) list"
  sv_spawned :: nat

definition sv_new :: "nat \<Rightarrow> supervisor_config \<Rightarrow> supervisor" where
  "sv_new now config = \<lparr>sv_config = config, sv_health = hh_new (vc_unresponsive_timeout config),
     sv_stats = tk_new now (vc_max_restart_history config), sv_running = False, sv_shutdown_tx = None, sv_loops = [], sv_spawned = 0\<rparr>"

definition perform_check :: "'w supervisor_env \<Rightarrow> health_monitor \<Rightarrow> 'w \<Rightarrow> health_status \<times> health_monitor \<times> 'w" where
  "perform_check env h w =
     (case ve_check env of
        None \<Rightarrow> (current_status (ve_chrono env) (ve_instant env w) (ve_utc env w) h, h, w)
      | Some check \<Rightarrow>
          if \<not> hh_agent_alive h then (Terminated, h, w)
          else (case check w of
                  (Some True, w') \<Rightarrow> (HsHealthy, record_healthy_response (ve_instant env w') h, w')
                | (_, w') \<Rightarrow> (current_status (ve_chrono env) (ve_instant env w') (ve_utc env w') h, h, w')))"

definition health_check :: "'w supervisor_env \<Rightarrow> supervisor \<Rightarrow> 'w \<Rightarrow> health_status \<times> supervisor \<times> 'w" where
  "health_check env s w = (case perform_check env (sv_health s) w of (st, h, w') \<Rightarrow> (st, s\<lparr>sv_health := h\<rparr>, w'))"

definition restore_state :: "'w supervisor_env \<Rightarrow> 'w \<Rightarrow> 'w" where
  "restore_state env w = (case ve_restore env of None \<Rightarrow> w | Some f \<Rightarrow> snd (f w))"

definition call_start :: "'w supervisor_env \<Rightarrow> 'w \<Rightarrow> (string + unit) \<times> 'w" where
  "call_start env w = (case ve_start env of None \<Rightarrow> (Inr (), w) | Some f \<Rightarrow> f w)"

text \<open>What follows the call of the start function in each of the three places that make it:
  the agent is marked alive, the event recorded and the state restored, or the failure is
  recorded.\<close>

definition after_start :: "'w supervisor_env \<Rightarrow> nat \<Rightarrow> restart_reason \<Rightarrow> string + unit \<Rightarrow> supervisor \<Rightarrow> 'w \<Rightarrow> supervisor \<times> 'w" where
  "after_start env start_time reason result s w =
     (let duration_ms = of_nat ((ve_instant env w - start_time) div 1000000)
      in case result of
           Inr _ \<Rightarrow>
             (s\<lparr>sv_health := mark_alive (ve_instant env w) (sv_health s),
                sv_stats := record_restart (ve_utc env w) reason True duration_ms (sv_stats s)\<rparr>, restore_state env w)
         | Inl e \<Rightarrow> (s\<lparr>sv_stats := record_restart (ve_utc env w) reason False duration_ms (sv_stats s)\<rparr>, w))"

definition start_agent :: "'w supervisor_env \<Rightarrow> restart_reason \<Rightarrow> supervisor \<Rightarrow> 'w \<Rightarrow> (supervisor_error + unit) \<times> supervisor \<times> 'w" where
  "start_agent env reason s w =
     (case call_start env w of
        (r, w1) \<Rightarrow> (case r of Inr _ \<Rightarrow> Inr () | Inl e \<Rightarrow> Inl (AgentStartFailed e), after_start env (ve_instant env w) reason r s w1))"

definition spawn_monitoring_loop :: "supervisor \<Rightarrow> supervisor" where
  "spawn_monitoring_loop s =
     s\<lparr>sv_loops := sv_loops s @ [(sv_spawned s, False)], sv_shutdown_tx := Some (sv_spawned s), sv_spawned := Suc (sv_spawned s)\<rparr>"

definition sv_start :: "'w supervisor_env \<Rightarrow> supervisor \<Rightarrow> 'w \<Rightarrow> (supervisor_error + unit) \<times> supervisor \<times> 'w" where
  "sv_start env s w =
     (if sv_running s then (Inl AlreadyRunning, s, w)
      else (case start_agent env InitialStart s w of
              (Inl e, s1, w1) \<Rightarrow> (Inl e, s1, w1)
            | (Inr _, s1, w1) \<Rightarrow> (Inr (), spawn_monitoring_loop (s1\<lparr>sv_running := True\<rparr>), w1)))"

text \<open>A restart: the agent is marked terminated and the delay slept (\<open>restart_begin\<close>), then
  the agent is started (\<open>restart_end\<close>). \<open>perform_restart\<close> and \<open>do_restart\<close> are the same
  but for the result.\<close>

definition restart_begin :: "supervisor \<Rightarrow> supervisor" where
  "restart_begin s = s\<lparr>sv_health := mark_terminated (sv_health s)\<rparr>"

definition restart_end :: "'w supervisor_env \<Rightarrow> nat \<Rightarrow> restart_reason \<Rightarrow> supervisor \<Rightarrow> 'w \<Rightarrow> (supervisor_error + unit) \<times> supervisor \<times> 'w" where
  "restart_end env start_time reason s w =
     (case call_start env w of
        (r, w1) \<Rightarrow> (case r of Inr _ \<Rightarrow> Inr () | Inl e \<Rightarrow> Inl (RestartFailed e), after_start env start_time reason r s w1))"

definition perform_restart :: "'w supervisor_env \<Rightarrow> restart_reason \<Rightarrow> supervisor \<Rightarrow> 'w \<Rightarrow> (supervisor_error + unit) \<times> supervisor \<times> 'w" where
  "perform_restart env reason s w =
     restart_end env (ve_instant env w) reason (restart_begin s) (ve_sleep env (vc_restart_delay (sv_config s)) w)"

definition do_restart :: "'w supervisor_env \<Rightarrow> restart_reason \<Rightarrow> supervisor \<Rightarrow> 'w \<Rightarrow> supervisor \<times> 'w" where
  "do_restart env reason s w = snd (perform_restart env reason s w)"

definition sv_restart :: "'w supervisor_env \<Rightarrow> string \<Rightarrow> supervisor \<Rightarrow> 'w \<Rightarrow> (supervisor_error + unit) \<times> supervisor \<times> 'w" where
  "sv_restart env reason s w =
     (if \<not> sv_running s then (Inl NotRunning, s, w) else perform_restart env (Manual reason) s w)"

definition sv_stop :: "supervisor \<Rightarrow> (supervisor_error + unit) \<times> supervisor" where
  "sv_stop s =
     (if \<not> sv_running s then (Inl NotRunning, s)
      else (Inr (), s\<lparr>sv_loops := map (\<lambda>(i, b). (i, b \<or> sv_shutdown_tx s = Some i)) (sv_loops s), sv_shutdown_tx := None,
             sv_running := False, sv_health := mark_terminated (sv_health s)\<rparr>))"

definition sv_stats_of :: "'w supervisor_env \<Rightarrow> supervisor \<Rightarrow> 'w \<Rightarrow> supervisor_stats" where
  "sv_stats_of env s w =
     stats_snapshot (ve_instant env w) (current_status (ve_chrono env) (ve_instant env w) (ve_utc env w) (sv_health s)) (sv_stats s)"

text \<open>One tick of a monitoring loop whose signal is not set: the check, and a restart when it
  calls for one.\<close>

definition monitor_reason :: "timestamp \<Rightarrow> health_status \<Rightarrow> restart_reason option" where
  "monitor_reason utc st =
     (case st of
        Unresponsive since \<Rightarrow> Some (UnresponsiveFor (of_int (num_seconds (utc - since))))
      | Terminated \<Rightarrow> Some UnexpectedTermination
      | _ \<Rightarrow> None)"

definition monitor_tick :: "'w supervisor_env \<Rightarrow> supervisor \<Rightarrow> 'w \<Rightarrow> supervisor \<times> 'w" where
  "monitor_tick env s w =
     (case health_check env s w of
        (st, s1, w1) \<Rightarrow>
          (case monitor_reason (ve_utc env w1) st of Some reason \<Rightarrow> do_restart env reason s1 w1 | None \<Rightarrow> (s1, w1)))"

text \<open>The end of a loop, once its signal is set: it clears \<open>running\<close>.\<close>

definition loop_exit :: "nat \<Rightarrow> supervisor \<Rightarrow> supervisor" where
  "loop_exit i s = s\<lparr>sv_loops := filter (\<lambda>(j, _). j \<noteq> i) (sv_loops s), sv_running := False\<rparr>"

subsection \<open>The interleaved system\<close>

text \<open>
  A restart sleeps between its two parts, so the system keeps the restarts that are in their
  delay: when they began, their reason and the loop they belong to (\<open>None\<close> for a manual
  one). A loop in such a restart does nothing else.
\<close>

type_synonym pending_restarts = "(nat \<times> restart_reason \<times> nat option) list"

inductive sup_step :: "'w supervisor_env \<Rightarrow> supervisor \<times> pending_restarts \<times> 'w \<Rightarrow> supervisor \<times> pending_restarts \<times> 'w \<Rightarrow> bool" for env where
  su_start: "sv_start env s w = (r, s', w') \<Longrightarrow> sup_step env (s, p, w) (s', p, w')"
| su_stop: "sup_step env (s, p, w) (snd (sv_stop s), p, w)"
| su_manual: "sv_running s \<Longrightarrow> sup_step env (s, p, w) (restart_begin s, p @ [(ve_instant env w, Manual reason, None)], w)"
| su_tick_ok: "(i, False) \<in> set (sv_loops s) \<Longrightarrow> \<forall>x \<in> set p. snd (snd x) \<noteq> Some i \<Longrightarrow> health_check env s w = (st, s', w') \<Longrightarrow>
    monitor_reason (ve_utc env w') st = None \<Longrightarrow> sup_step env (s, p, w) (s', p, w')"
| su_tick_restart: "(i, False) \<in> set (sv_loops s) \<Longrightarrow> \<forall>x \<in> set p. snd (snd x) \<noteq> Some i \<Longrightarrow> health_check env s w = (st, s', w') \<Longrightarrow>
    monitor_reason (ve_utc env w') st = Some reason \<Longrightarrow>
    sup_step env (s, p, w) (restart_begin s', p @ [(ve_instant env w', reason, Some i)], w')"
| su_end: "restart_end env t reason s w = (r, s', w') \<Longrightarrow> sup_step env (s, p @ (t, reason, o') # q, w) (s', p @ q, w')"
| su_exit: "(i, True) \<in> set (sv_loops s) \<Longrightarrow> \<forall>x \<in> set p. snd (snd x) \<noteq> Some i \<Longrightarrow> sup_step env (s, p, w) (loop_exit i s, p, w)"
| su_time: "sup_step env (s, p, w) (s, p, ve_sleep env n w)"

abbreviation sup_steps :: "'w supervisor_env \<Rightarrow> supervisor \<times> pending_restarts \<times> 'w \<Rightarrow> supervisor \<times> pending_restarts \<times> 'w \<Rightarrow> bool" where
  "sup_steps env \<equiv> (sup_step env)\<^sup>*\<^sup>*"

subsection \<open>Lemmas\<close>

text \<open>What an operation leaves of the fields that say who monitors.\<close>

lemma after_start_fields:
  assumes "after_start env t reason r s w = (s', w')"
  shows "sv_running s' = sv_running s" "sv_loops s' = sv_loops s" "sv_shutdown_tx s' = sv_shutdown_tx s"
    "sv_spawned s' = sv_spawned s" "sv_config s' = sv_config s"
  using assms by (auto simp: after_start_def Let_def split: sum.splits)

lemma start_agent_fields:
  assumes "start_agent env reason s w = (r, s', w')"
  shows "sv_running s' = sv_running s" "sv_loops s' = sv_loops s" "sv_shutdown_tx s' = sv_shutdown_tx s"
    "sv_spawned s' = sv_spawned s"
  using assms after_start_fields by (fastforce simp: start_agent_def split: prod.splits)+

lemma restart_end_fields:
  assumes "restart_end env t reason s w = (r, s', w')"
  shows "sv_running s' = sv_running s" "sv_loops s' = sv_loops s" "sv_shutdown_tx s' = sv_shutdown_tx s"
    "sv_spawned s' = sv_spawned s"
  using assms after_start_fields by (fastforce simp: restart_end_def split: prod.splits)+

lemma health_check_fields:
  assumes "health_check env s w = (st, s', w')"
  shows "sv_running s' = sv_running s" "sv_loops s' = sv_loops s" "sv_shutdown_tx s' = sv_shutdown_tx s"
    "sv_spawned s' = sv_spawned s" "sv_stats s' = sv_stats s"
  using assms by (auto simp: health_check_def split: prod.splits)

text \<open>Loops are numbered by their spawning, and a running supervisor has a live loop at the
  other end of its shutdown channel.\<close>

definition sup_inv :: "supervisor \<Rightarrow> bool" where
  "sup_inv s \<longleftrightarrow> distinct (map fst (sv_loops s)) \<and> (\<forall>x \<in> set (sv_loops s). fst x < sv_spawned s) \<and>
     (sv_running s \<longrightarrow> (\<exists>i. sv_shutdown_tx s = Some i \<and> (i, False) \<in> set (sv_loops s)))"

lemma sup_inv_cong:
  assumes "sv_running s' = sv_running s" "sv_loops s' = sv_loops s" "sv_shutdown_tx s' = sv_shutdown_tx s" "sv_spawned s' = sv_spawned s"
  shows "sup_inv s' = sup_inv s"
  using assms by (simp add: sup_inv_def)

lemma sup_inv_new [simp]: "sup_inv (sv_new now config)"
  by (simp add: sup_inv_def sv_new_def)

lemma sup_inv_start:
  assumes inv: "sup_inv s" and run: "sv_start env s w = (r, s', w')"
  shows "sup_inv s'"
proof (cases "sv_running s")
  case True
  then show ?thesis using assms by (simp add: sv_start_def)
next
  case False
  obtain q s1 w1 where st: "start_agent env InitialStart s w = (q, s1, w1)" by (metis prod_cases3)
  note f = start_agent_fields [OF st]
  show ?thesis
  proof (cases q)
    case (Inl e)
    then show ?thesis using run False st inv sup_inv_cong [OF f] by (simp add: sv_start_def)
  next
    case (Inr u)
    then have "s' = spawn_monitoring_loop (s1\<lparr>sv_running := True\<rparr>)" using run False st by (simp add: sv_start_def)
    then show ?thesis using inv f by (auto simp: sup_inv_def spawn_monitoring_loop_def)
  qed
qed

lemma sup_inv_stop: "sup_inv s \<Longrightarrow> sup_inv (snd (sv_stop s))"
  by (auto simp: sup_inv_def sv_stop_def comp_def case_prod_beta)

lemma sup_inv_exit: "sup_inv s \<Longrightarrow> sup_inv (loop_exit i s)"
  by (auto simp: sup_inv_def loop_exit_def distinct_map_filter)

lemma sup_inv_begin [simp]: "sup_inv (restart_begin s) = sup_inv s"
  by (rule sup_inv_cong) (simp_all add: restart_begin_def)

lemma sup_inv_step: "sup_step env x y \<Longrightarrow> sup_inv (fst x) \<Longrightarrow> sup_inv (fst y)"
proof (induction rule: sup_step.induct)
  case (su_tick_ok i s p w st s' w')
  then show ?case using sup_inv_cong [OF health_check_fields(1-4)] by fastforce
next
  case (su_tick_restart i s p w st s' w' reason)
  then show ?case using sup_inv_cong [OF health_check_fields(1-4)] by fastforce
next
  case (su_end t reason s w r s' w' p o' q)
  then show ?case using sup_inv_cong [OF restart_end_fields] by fastforce
qed (auto simp: sup_inv_start sup_inv_stop sup_inv_exit)

lemma sup_inv_steps: "sup_steps env x y \<Longrightarrow> sup_inv (fst x) \<Longrightarrow> sup_inv (fst y)"
  by (induction rule: rtranclp_induct) (auto simp: sup_inv_step)

lemma restart_count_end:
  assumes "restart_end env t reason s w = (r, s', w')"
  shows "tk_restart_count (sv_stats s') = tk_restart_count (sv_stats s) + 1"
    and "hh_agent_alive (sv_health s') = (hh_agent_alive (sv_health s) \<or> (\<exists>u. r = Inr u))"
    and "r = (case fst (call_start env w) of Inr _ \<Rightarrow> Inr () | Inl e \<Rightarrow> Inl (RestartFailed e))"
  using assms by (auto simp: restart_end_def after_start_def record_restart_def mark_alive_def record_healthy_response_def Let_def
      split: prod.splits sum.splits)

definition record_event :: "restart_event \<Rightarrow> stats_tracker \<Rightarrow> stats_tracker" where
  "record_event e = record_restart (re_timestamp e) (re_reason e) (re_success e) (re_duration_ms e)"

lemma record_event_fields [simp]:
  "tk_restart_history (record_event e t) = push_bounded (tk_max_history t) e (tk_restart_history t)"
  "tk_restart_count (record_event e t) = tk_restart_count t + 1"
  "tk_last_restart (record_event e t) = Some (re_timestamp e)"
  "tk_max_history (record_event e t) = tk_max_history t"
  by (cases e; simp add: record_event_def record_restart_def Let_def)+

subsection \<open>Properties\<close>

text \<open>
  A monitoring loop restarts the agent exactly when it is down. At a tick the agent is down
  when it is marked as terminated, or when its health check does not answer yes and the last
  healthy response is longer ago than the timeout. Then one restart is attempted and counted,
  and the agent is marked alive afterwards exactly when the start function succeeded; otherwise
  nothing is counted and the agent stays marked alive.
\<close>

theorem monitor_tick_exact:
  assumes check: "ve_check env = Some f" "f w = (answer, w1)"
    and tick: "monitor_tick env s w = (s', w')"
    and h: "h = sv_health s"
    and down: "down \<longleftrightarrow> \<not> hh_agent_alive h \<or>
      (answer \<noteq> Some True \<and> (\<exists>t. hh_last_healthy_response h = Some t \<and> ve_instant env w1 - t > hh_unresponsive_timeout h))"
  shows "tk_restart_count (sv_stats s') = tk_restart_count (sv_stats s) + (if down then 1 else 0) \<and>
    (down \<longrightarrow> (\<exists>v. hh_agent_alive (sv_health s') = (\<exists>u. fst (call_start env v) = Inr u))) \<and>
    (\<not> down \<longrightarrow> hh_agent_alive (sv_health s') \<and> w' = w1)"
proof -
  obtain st s1 v where hc: "health_check env s w = (st, s1, v)" by (metis prod_cases3)
  have reason: "monitor_reason (ve_utc env v) st \<noteq> None \<longleftrightarrow> down"
    and keep: "\<not> down \<Longrightarrow> hh_agent_alive (sv_health s1) \<and> v = w1" and stats: "sv_stats s1 = sv_stats s"
    using hc check h by (auto simp: down health_check_def perform_check_def current_status_def monitor_reason_def
        record_healthy_response_def Let_def split: if_splits option.splits bool.splits health_status.splits)
  show ?thesis
  proof (cases "monitor_reason (ve_utc env v) st")
    case None
    then have "s' = s1" "w' = v" "\<not> down" using tick hc reason by (auto simp: monitor_tick_def)
    then show ?thesis using keep stats by simp
  next
    case (Some x)
    let ?v = "ve_sleep env (vc_restart_delay (sv_config s1)) v"
    obtain r where e: "restart_end env (ve_instant env v) x (restart_begin s1) ?v = (r, s', w')"
      using tick hc Some by (auto simp: monitor_tick_def do_restart_def perform_restart_def) (metis prod.collapse)
    have beg: "\<not> hh_agent_alive (sv_health (restart_begin s1))" "sv_stats (restart_begin s1) = sv_stats s"
      using stats by (simp_all add: restart_begin_def mark_terminated_def)
    have "hh_agent_alive (sv_health s') = (\<exists>u. fst (call_start env ?v) = Inr u)"
      using restart_count_end(2,3) [OF e] beg(1) by (auto split: sum.splits)
    then show ?thesis using restart_count_end(1) [OF e] beg(2) reason Some by auto
  qed
qed

text \<open>An environment whose world is the time; the agent answers its checks before time 100.\<close>

definition plain_env :: "nat supervisor_env" where
  "plain_env = \<lparr>ve_start = None, ve_check = Some (\<lambda>w. (Some (w < 100), w)), ve_restore = None, ve_instant = id, ve_utc = int,
     ve_sleep = (\<lambda>n w. w + n), ve_chrono = \<lparr>from_std = (\<lambda>d. Some (int d)), to_std = (\<lambda>x. Some (nat x))\<rparr>\<rparr>"

definition plain_config :: supervisor_config where
  "plain_config = \<lparr>vc_health_check_interval = 10, vc_unresponsive_timeout = 50, vc_restart_delay = 5, vc_boot_start_timeout = 30,
     vc_max_restart_history = 10\<rparr>"

definition plain_supervisor :: supervisor where
  "plain_supervisor = fst (snd (sv_start plain_env (sv_new 0 plain_config) 0))"

theorem monitor_tick_exact_witness:
  "\<exists>s' w'. monitor_tick plain_env plain_supervisor 200 = (s', w') \<and> tk_restart_count (sv_stats s') = 2"
proof -
  obtain s' w' where tick: "monitor_tick plain_env plain_supervisor 200 = (s', w')" by fastforce
  have check: "ve_check plain_env = Some (\<lambda>w. (Some (w < 100), w))" by (simp add: plain_env_def)
  have s: "tk_restart_count (sv_stats plain_supervisor) = 1" "hh_last_healthy_response (sv_health plain_supervisor) = Some 0"
    "hh_unresponsive_timeout (sv_health plain_supervisor) = 50" "ve_instant plain_env 200 = 200"
    by (simp_all add: plain_supervisor_def sv_start_def start_agent_def call_start_def after_start_def plain_env_def sv_new_def
        spawn_monitoring_loop_def record_restart_def tk_new_def mark_alive_def record_healthy_response_def hh_new_def
        restore_state_def plain_config_def Let_def)
  from monitor_tick_exact [OF check refl tick refl, of True] s have "tk_restart_count (sv_stats s') = 1 + 1" by simp
  then show ?thesis using tick by simp
qed


lemmas plain_defs = sv_start_def start_agent_def call_start_def after_start_def plain_env_def sv_new_def plain_config_def
  spawn_monitoring_loop_def restore_state_def Let_def

lemma plain_start: "\<exists>s. sv_start plain_env (sv_new 0 plain_config) 0 = (Inr (), s, 0) \<and> sv_running s \<and> sv_loops s = [(0, False)] \<and>
    sv_shutdown_tx s = Some 0 \<and> sv_spawned s = 1"
  by (simp add: plain_defs)


text \<open>
  The converse fails: a stop followed by a start before the old loop has noticed leaves the
  new loop monitoring while the supervisor says it is not running, so that it can no longer
  be stopped. The old loop clears the flag of the new start when it exits.
\<close>

theorem stop_start_race:
  "\<exists>s. sup_steps plain_env (sv_new 0 plain_config, [], 0) (s, [], 0) \<and> sv_loops s = [(1, False)] \<and> \<not> sv_running s \<and>
     sv_stop s = (Inl NotRunning, s)"
proof -
  obtain s1 where s1: "sv_start plain_env (sv_new 0 plain_config) 0 = (Inr (), s1, 0)" "sv_running s1" "sv_loops s1 = [(0, False)]"
    "sv_shutdown_tx s1 = Some 0" "sv_spawned s1 = 1" using plain_start by blast
  let ?s2 = "snd (sv_stop s1)"
  have s2: "\<not> sv_running ?s2" "sv_loops ?s2 = [(0, True)]" "sv_spawned ?s2 = 1" using s1 by (simp_all add: sv_stop_def)
  obtain s3 where s3: "sv_start plain_env ?s2 0 = (Inr (), s3, 0)" "sv_loops s3 = [(0, True), (1, False)]"
    using s2 by (simp add: plain_defs)
  let ?s4 = "loop_exit 0 s3"
  have s4: "sv_loops ?s4 = [(1, False)]" "\<not> sv_running ?s4" using s3(2) by (simp_all add: loop_exit_def)
  have "sup_step plain_env (sv_new 0 plain_config, [], 0) (s1, [], 0)" using s1(1) by (rule su_start)
  moreover have "sup_step plain_env (s1, [], 0) (?s2, [], 0)" by (rule su_stop)
  moreover have "sup_step plain_env (?s2, [], 0) (s3, [], 0)" using s3(1) by (rule su_start)
  moreover have "sup_step plain_env (s3, [], 0) (?s4, [], 0)" by (rule su_exit) (simp_all add: s3(2))
  ultimately have "sup_steps plain_env (sv_new 0 plain_config, [], 0) (?s4, [], 0)"
    by (meson converse_rtranclp_into_rtranclp rtranclp.rtrancl_refl)
  then show ?thesis using s4 by (intro exI [of _ ?s4]) (simp add: sv_stop_def)
qed

text \<open>
  One manual restart can start the agent twice. The restart marks the agent as terminated
  and sleeps; a monitoring loop that ticks during the delay takes this for an unexpected
  termination and restarts the agent as well.
\<close>

theorem manual_restart_starts_twice:
  "\<exists>s w. sup_steps plain_env (plain_supervisor, [], 0) (s, [], w) \<and>
     map re_reason (tk_restart_history (sv_stats s)) = [InitialStart, Manual ''update'', UnexpectedTermination] \<and>
     list_all re_success (tk_restart_history (sv_stats s))"
proof -
  let ?s0 = plain_supervisor
  let ?s1 = "restart_begin ?s0"
  let ?s2 = "restart_begin ?s1"
  note defs = plain_supervisor_def plain_defs restart_begin_def mark_terminated_def record_restart_def mark_alive_def
    record_healthy_response_def tk_new_def hh_new_def push_bounded_def restart_end_def
  have hc: "health_check plain_env ?s1 0 = (Terminated, ?s1, 0)"
    by (simp add: health_check_def perform_check_def defs)
  have "sup_step plain_env (?s0, [], 0) (?s1, [] @ [(ve_instant plain_env 0, Manual ''update'', None)], 0)"
    by (rule su_manual) (simp add: defs)
  then have 1: "sup_step plain_env (?s0, [], 0) (?s1, [(0, Manual ''update'', None)], 0)" by (simp add: plain_env_def)
  have "sup_step plain_env (?s1, [(0, Manual ''update'', None)], 0)
      (?s2, [(0, Manual ''update'', None)] @ [(ve_instant plain_env 0, UnexpectedTermination, Some 0)], 0)"
    by (rule su_tick_restart [OF _ _ hc]) (simp_all add: defs monitor_reason_def)
  then have 2: "sup_step plain_env (?s1, [(0, Manual ''update'', None)], 0)
      (?s2, [(0, Manual ''update'', None), (0, UnexpectedTermination, Some 0)], 0)" by (simp add: plain_env_def)
  obtain s3 where s3: "restart_end plain_env 0 (Manual ''update'') ?s2 0 = (Inr (), s3, 0)"
    "tk_max_history (sv_stats s3) = 10"
    "map re_reason (tk_restart_history (sv_stats s3)) = [InitialStart, Manual ''update'']"
    "list_all re_success (tk_restart_history (sv_stats s3))" by (simp add: defs)
  obtain s4 where s4: "restart_end plain_env 0 UnexpectedTermination s3 0 = (Inr (), s4, 0)"
    "tk_restart_history (sv_stats s4) = push_bounded (tk_max_history (sv_stats s3))
       \<lparr>re_timestamp = 0, re_reason = UnexpectedTermination, re_success = True, re_duration_ms = 0\<rparr> (tk_restart_history (sv_stats s3))"
    by (simp add: restart_end_def call_start_def after_start_def plain_env_def restore_state_def record_restart_def)
  have "length (tk_restart_history (sv_stats s3)) = 2" using s3(3) by (metis length_Cons length_map list.size(3) numeral_2_eq_2)
  then have h4: "map re_reason (tk_restart_history (sv_stats s4)) = [InitialStart, Manual ''update'', UnexpectedTermination]"
    "list_all re_success (tk_restart_history (sv_stats s4))"
    using s3 s4(2) by (simp_all add: push_bounded_def)
  have 3: "sup_step plain_env (?s2, [(0, Manual ''update'', None), (0, UnexpectedTermination, Some 0)], 0)
      (s3, [(0, UnexpectedTermination, Some 0)], 0)" using su_end [OF s3(1), of "[]"] by simp
  have 4: "sup_step plain_env (s3, [(0, UnexpectedTermination, Some 0)], 0) (s4, [], 0)" using su_end [OF s4(1), of "[]" _ "[]"] by simp
  have "sup_steps plain_env (?s0, [], 0) (s4, [], 0)" using 1 2 3 4 by (meson converse_rtranclp_into_rtranclp rtranclp.rtrancl_refl)
  then show ?thesis using h4 by (intro exI [of _ s4] exI [of _ 0] conjI)
qed

text \<open>
  The restart statistics are those of the whole past: after any sequence of recorded
  restarts the history is the newest events, as many as configured and at least one, the
  count is their number modulo $2^{32}$, and the last restart is the last of them.
\<close>

theorem restart_history_newest:
  fixes now max_history and events :: "restart_event list"
  defines "t \<equiv> fold record_event events (tk_new now max_history)"
  shows "tk_restart_history t = drop (length events - max 1 max_history) events \<and>
    tk_restart_count t = of_nat (length events) \<and>
    tk_last_restart t = (if events = [] then None else Some (re_timestamp (last events)))"
proof -
  have hist: "push_bounded max_history e (drop (length xs - max 1 max_history) xs) =
      drop (length (xs @ [e]) - max 1 max_history) (xs @ [e])" for e :: restart_event and xs
  proof (cases "max_history = 0")
    case True
    then show ?thesis by (cases xs rule: rev_cases) (auto simp: push_bounded_def)
  next
    case False
    then show ?thesis using push_bounded_newest [of max_history e xs] by (simp add: max_def)
  qed
  have "tk_max_history t = max_history \<and> tk_restart_history t = drop (length events - max 1 max_history) events \<and>
    tk_restart_count t = of_nat (length events) \<and>
    tk_last_restart t = (if events = [] then None else Some (re_timestamp (last events)))"
    unfolding t_def
  proof (induction events rule: rev_induct)
    case Nil
    then show ?case by (simp add: tk_new_def)
  next
    case (snoc e xs)
    then show ?case using hist [of e xs] by simp
  qed
  then show ?thesis by blast
qed

end
