(* ===== verification/Rust_Fs.thy ===== *)
theory Rust_Fs
  imports Rust_Path Std_Collections
begin

text \<open>
  \<^verbatim>\<open>std::fs\<close>. The operations the sources use are a record over a world \<open>'w\<close>, since the
  operating system answers them; an error is its text. The locale \<open>file_system\<close> says what
  they promise about regular files reached by absolute paths without symbolic links
  (\<open>real\<close>): \<open>file_at\<close> is the content of such a file. Only successful calls promise
  anything, and no two paths name one file, so hard links are outside the contract. The
  interpretation is a file system with directories, files and symbolic links.
\<close>

record 'w fs_api =
  fs_canonicalize :: "'w \<Rightarrow> path \<Rightarrow> path option"
  fs_metadata_len :: "'w \<Rightarrow> path \<Rightarrow> u64 option"
  fs_read_to_string :: "'w \<Rightarrow> path \<Rightarrow> string + string"
  fs_write :: "path \<Rightarrow> string \<Rightarrow> 'w \<Rightarrow> (string + unit) \<times> 'w"
  fs_remove_file :: "path \<Rightarrow> 'w \<Rightarrow> (string + unit) \<times> 'w"
  fs_create_dir_all :: "path \<Rightarrow> 'w \<Rightarrow> (string + unit) \<times> 'w"

text \<open>\<^verbatim>\<open>Path::exists\<close> follows links, as \<open>canonicalize\<close> does.\<close>

definition fs_exists :: "'w fs_api \<Rightarrow> 'w \<Rightarrow> path \<Rightarrow> bool" where
  "fs_exists api w p \<longleftrightarrow> fs_canonicalize api w p \<noteq> None"

text \<open>An absolute path without dot components.\<close>

definition plain_path :: "path \<Rightarrow> bool" where
  "plain_path p \<longleftrightarrow> (\<exists>ns. p = RootDir # map Normal ns)"

locale file_system =
  fixes api :: "'w fs_api"
    and file_at :: "'w \<Rightarrow> path \<Rightarrow> string option"
    and real :: "'w \<Rightarrow> path \<Rightarrow> bool"
  assumes real_plain: "real w p \<Longrightarrow> plain_path p"
    and real_parent: "real w p \<Longrightarrow> path_parent p = Some q \<Longrightarrow> real w q"
    and canon_real: "real w p \<Longrightarrow> fs_canonicalize api w p = Some c \<Longrightarrow> c = p"
    and read_file: "real w p \<Longrightarrow> fs_read_to_string api w p = Inr s \<Longrightarrow> fs_canonicalize api w p = Some p \<and> file_at w p = Some s"
    and write_file: "real w p \<Longrightarrow> fs_write api p s w = (Inr u, w') \<Longrightarrow>
      fs_canonicalize api w' p = Some p \<and> file_at w' = (file_at w)(p \<mapsto> s)"
    and remove_file: "real w p \<Longrightarrow> fs_remove_file api p w = (Inr u, w') \<Longrightarrow> file_at w' = (file_at w)(p := None)"
    and create_dirs: "real w p \<Longrightarrow> fs_create_dir_all api p w = (Inr u, w') \<Longrightarrow> file_at w' = file_at w"
    and real_write: "real w q \<Longrightarrow> real w p \<Longrightarrow> fs_write api p s w = (Inr u, w') \<Longrightarrow> real w' q"
    and real_remove: "real w q \<Longrightarrow> real w p \<Longrightarrow> fs_remove_file api p w = (Inr u, w') \<Longrightarrow> real w' q"
    and real_dirs: "real w q \<Longrightarrow> real w p \<Longrightarrow> fs_create_dir_all api p w = (Inr u, w') \<Longrightarrow> real w' q"

subsection \<open>A file system\<close>

datatype fs_node = DirNode | FileNode string | LinkNode "string list"

type_synonym vfs = "(string list, fs_node) hashmap"

text \<open>The walk along a path follows every link, at most \<open>n\<close> of them (Linux follows 40), and
  ends at a node or at a name that does not exist in a directory that does. Link targets are
  absolute.\<close>

fun fs_walk :: "nat \<Rightarrow> vfs \<Rightarrow> string list \<Rightarrow> string list \<Rightarrow> string list option" where
  "fs_walk n fs cur [] = Some cur"
| "fs_walk n fs cur (c # cs) =
     (case hm_get fs (cur @ [c]) of
        None \<Rightarrow> if cs = [] then Some (cur @ [c]) else None
      | Some (FileNode _) \<Rightarrow> if cs = [] then Some (cur @ [c]) else None
      | Some DirNode \<Rightarrow> fs_walk n fs (cur @ [c]) cs
      | Some (LinkNode target) \<Rightarrow> (case n of 0 \<Rightarrow> None | Suc m \<Rightarrow> fs_walk m fs [] (target @ cs)))"

definition names_of :: "path \<Rightarrow> string list option" where
  "names_of p = (case p of RootDir # cs \<Rightarrow>
      if list_all (\<lambda>c. case c of Normal _ \<Rightarrow> True | _ \<Rightarrow> False) cs
      then Some (map (\<lambda>c. case c of Normal n \<Rightarrow> n | _ \<Rightarrow> []) cs) else None
    | _ \<Rightarrow> None)"

definition of_names :: "string list \<Rightarrow> path" where
  "of_names ns = RootDir # map Normal ns"

definition link_limit :: nat where
  "link_limit = 40"

definition vfs_walk :: "vfs \<Rightarrow> path \<Rightarrow> string list option" where
  "vfs_walk fs p = Option.bind (names_of p) (fs_walk link_limit fs [])"

definition vfs_canonicalize :: "vfs \<Rightarrow> path \<Rightarrow> path option" where
  "vfs_canonicalize fs p = (case vfs_walk fs p of
      Some t \<Rightarrow> if t = [] \<or> hm_get fs t \<noteq> None then Some (of_names t) else None
    | None \<Rightarrow> None)"

definition vfs_read :: "vfs \<Rightarrow> path \<Rightarrow> string + string" where
  "vfs_read fs p = (case vfs_walk fs p of
      Some t \<Rightarrow> (case hm_get fs t of Some (FileNode s) \<Rightarrow> Inr s | None \<Rightarrow> Inl ''not found'' | _ \<Rightarrow> Inl ''is a directory'')
    | None \<Rightarrow> Inl ''not found'')"

definition vfs_len :: "vfs \<Rightarrow> path \<Rightarrow> u64 option" where
  "vfs_len fs p = (case vfs_walk fs p of
      Some t \<Rightarrow> (case hm_get fs t of Some (FileNode s) \<Rightarrow> Some (of_nat (length s)) | None \<Rightarrow> None | _ \<Rightarrow> Some 4096)
    | None \<Rightarrow> None)"

definition vfs_write :: "path \<Rightarrow> string \<Rightarrow> vfs \<Rightarrow> (string + unit) \<times> vfs" where
  "vfs_write p s fs = (case vfs_walk fs p of
      Some t \<Rightarrow> if t = [] \<or> hm_get fs t = Some DirNode then (Inl ''is a directory'', fs) else (Inr (), hm_insert t (FileNode s) fs)
    | None \<Rightarrow> (Inl ''not found'', fs))"

text \<open>\<^verbatim>\<open>remove_file\<close> removes the entry itself, a link too.\<close>

definition vfs_remove :: "path \<Rightarrow> vfs \<Rightarrow> (string + unit) \<times> vfs" where
  "vfs_remove p fs = (case names_of p of
      None \<Rightarrow> (Inl ''not found'', fs)
    | Some ns \<Rightarrow>
        if ns = [] then (Inl ''is a directory'', fs)
        else (case fs_walk link_limit fs [] (butlast ns) of
                None \<Rightarrow> (Inl ''not found'', fs)
              | Some d \<Rightarrow>
                  (case hm_get fs (d @ [last ns]) of
                     None \<Rightarrow> (Inl ''not found'', fs)
                   | Some DirNode \<Rightarrow> (Inl ''is a directory'', fs)
                   | Some _ \<Rightarrow> (Inr (), hm_remove (d @ [last ns]) fs))))"

fun make_dirs :: "string list list \<Rightarrow> vfs \<Rightarrow> (string + unit) \<times> vfs" where
  "make_dirs [] fs = (Inr (), fs)"
| "make_dirs (q # qs) fs =
     (case fs_walk link_limit fs [] q of
        None \<Rightarrow> (Inl ''not found'', fs)
      | Some t \<Rightarrow>
          if t = [] then make_dirs qs fs
          else (case hm_get fs t of
                  None \<Rightarrow> make_dirs qs (hm_insert t DirNode fs)
                | Some DirNode \<Rightarrow> make_dirs qs fs
                | Some _ \<Rightarrow> (Inl ''file exists'', fs)))"

definition vfs_mkdirs :: "path \<Rightarrow> vfs \<Rightarrow> (string + unit) \<times> vfs" where
  "vfs_mkdirs p fs = (case names_of p of
      None \<Rightarrow> (Inl ''not found'', fs)
    | Some ns \<Rightarrow> make_dirs (map (\<lambda>k. take k ns) [1..<Suc (length ns)]) fs)"

definition vfs_api :: "vfs fs_api" where
  "vfs_api = \<lparr>fs_canonicalize = vfs_canonicalize, fs_metadata_len = vfs_len, fs_read_to_string = vfs_read,
     fs_write = vfs_write, fs_remove_file = vfs_remove, fs_create_dir_all = vfs_mkdirs\<rparr>"

definition vfs_file_at :: "vfs \<Rightarrow> path \<Rightarrow> string option" where
  "vfs_file_at fs p = (case names_of p of
      Some ns \<Rightarrow> (case hm_get fs ns of Some (FileNode s) \<Rightarrow> Some s | _ \<Rightarrow> None)
    | None \<Rightarrow> None)"

definition no_links :: "vfs \<Rightarrow> string list \<Rightarrow> bool" where
  "no_links fs ns \<longleftrightarrow> (\<forall>k \<le> length ns. \<forall>t. hm_get fs (take k ns) \<noteq> Some (LinkNode t))"

definition vfs_real :: "vfs \<Rightarrow> path \<Rightarrow> bool" where
  "vfs_real fs p \<longleftrightarrow> (\<exists>ns. p = of_names ns \<and> no_links fs ns)"

subsection \<open>Lemmas\<close>

lemma names_of_names [simp]: "names_of (of_names ns) = Some ns"
  by (simp add: names_of_def of_names_def list_all_iff comp_def)

lemma names_of_Some: "names_of p = Some ns \<longleftrightarrow> p = of_names ns"
proof
  assume "names_of p = Some ns"
  obtain cs where p: "p = RootDir # cs" and all: "list_all (\<lambda>c. case c of Normal _ \<Rightarrow> True | _ \<Rightarrow> False) cs"
    and ns: "ns = map (\<lambda>c. case c of Normal n \<Rightarrow> n | _ \<Rightarrow> []) cs"
  proof (cases p)
    case (Cons a cs)
    with \<open>names_of p = Some ns\<close> show ?thesis by (cases a) (auto simp: names_of_def intro: that split: if_splits)
  qed (use \<open>names_of p = Some ns\<close> in \<open>simp add: names_of_def\<close>)
  have "map Normal (map (\<lambda>c. case c of Normal n \<Rightarrow> n | _ \<Rightarrow> []) cs) = cs"
    using all by (induction cs) (auto split: component.splits)
  then show "p = of_names ns" by (simp add: p ns of_names_def)
qed simp

lemma of_names_inj [simp]: "of_names a = of_names b \<longleftrightarrow> a = b"
  by (simp add: of_names_def inj_map_eq_map inj_def)

lemma plain_of_names: "plain_path p \<longleftrightarrow> (\<exists>ns. p = of_names ns)"
  by (simp add: plain_path_def of_names_def)

text \<open>Without links the walk stays on the path.\<close>

lemma walk_no_links:
  assumes "no_links fs (cur @ cs)" "fs_walk n fs cur cs = Some t"
  shows "t = cur @ cs"
  using assms
proof (induction cs arbitrary: cur)
  case (Cons c cs)
  have "hm_get fs (cur @ [c]) \<noteq> Some (LinkNode u)" for u
    using Cons.prems(1) by (auto simp: no_links_def dest!: spec [of _ "Suc (length cur)"])
  moreover have "fs_walk n fs (cur @ [c]) cs = Some t \<Longrightarrow> t = cur @ c # cs"
    using Cons.IH [of "cur @ [c]"] Cons.prems(1) by simp
  ultimately show ?case using Cons.prems(2) by (auto split: option.splits fs_node.splits if_splits)
qed simp

text \<open>Storing a file where there was a file or nothing does not change any walk.\<close>

lemma walk_insert_file:
  assumes "hm_get fs t \<noteq> Some DirNode" "\<And>u. hm_get fs t \<noteq> Some (LinkNode u)"
  shows "fs_walk n (hm_insert t (FileNode s) fs) cur cs = fs_walk n fs cur cs"
  using assms
proof (induction n fs cur cs rule: fs_walk.induct)
  case (2 n fs cur c cs)
  show ?case
  proof (cases "t = cur @ [c]")
    case True
    then show ?thesis using 2(3,4) by (auto split: option.split fs_node.split)
  next
    case False
    then show ?thesis using 2 by (auto split: option.split fs_node.split nat.split)
  qed
qed simp

lemma walk_end_no_link:
  "fs_walk n fs cur cs = Some t \<Longrightarrow> cur = [] \<or> (\<forall>u. hm_get fs cur \<noteq> Some (LinkNode u)) \<Longrightarrow>
     t = [] \<or> (\<forall>u. hm_get fs t \<noteq> Some (LinkNode u))"
  by (induction n fs cur cs rule: fs_walk.induct) (auto split: option.splits fs_node.splits if_splits nat.splits)

lemma walk_of_names [simp]: "vfs_walk fs (of_names ns) = fs_walk link_limit fs [] ns"
  by (simp add: vfs_walk_def)

lemma walk_real: "no_links fs ns \<Longrightarrow> fs_walk n fs [] ns = Some t \<Longrightarrow> t = ns"
  using walk_no_links [of fs "[]" ns n t] by simp

lemma file_at_names [simp]:
  "vfs_file_at fs (of_names ns) = (case hm_get fs ns of Some (FileNode s) \<Rightarrow> Some s | _ \<Rightarrow> None)"
  by (simp add: vfs_file_at_def)

lemma vfs_file_at_eqI:
  assumes "\<And>ns. vfs_file_at fs (of_names ns) = f (of_names ns)" "\<And>p. names_of p = None \<Longrightarrow> f p = None"
  shows "vfs_file_at fs = f"
proof
  fix p
  show "vfs_file_at fs p = f p"
  proof (cases "names_of p")
    case None
    then show ?thesis using assms(2) by (simp add: vfs_file_at_def)
  next
    case (Some ns)
    then show ?thesis using assms(1) by (simp add: names_of_Some)
  qed
qed

lemma no_links_insert:
  "no_links fs ns \<Longrightarrow> \<forall>u. x \<noteq> LinkNode u \<Longrightarrow> no_links (hm_insert t x fs) ns"
  by (auto simp: no_links_def)

lemma no_links_remove: "no_links fs ns \<Longrightarrow> no_links (hm_remove t fs) ns"
  by (auto simp: no_links_def)

lemma no_links_butlast: "no_links fs ns \<Longrightarrow> no_links fs (butlast ns)"
  unfolding no_links_def by (metis butlast_conv_take diff_le_self le_trans length_butlast min.absorb1 take_take)

lemma write_vfs_real:
  assumes "no_links fs ns" "vfs_write (of_names ns) s fs = (Inr u, fs')"
  shows "fs' = hm_insert ns (FileNode s) fs" "ns \<noteq> []" "hm_get fs ns \<noteq> Some DirNode" "fs_walk link_limit fs [] ns = Some ns"
proof -
  obtain t where t: "fs_walk link_limit fs [] ns = Some t" "t \<noteq> []" "hm_get fs t \<noteq> Some DirNode" "fs' = hm_insert t (FileNode s) fs"
    using assms(2) by (auto simp: vfs_write_def split: option.splits if_splits)
  moreover have "t = ns" using walk_real assms(1) t(1) by blast
  ultimately show "fs' = hm_insert ns (FileNode s) fs" "ns \<noteq> []" "hm_get fs ns \<noteq> Some DirNode" "fs_walk link_limit fs [] ns = Some ns"
    by simp_all
qed

lemma make_dirs_keeps:
  assumes "make_dirs qs fs = (Inr u, fs')"
  shows "vfs_file_at fs' = vfs_file_at fs \<and> (\<forall>ns. no_links fs ns \<longrightarrow> no_links fs' ns)"
  using assms
proof (induction qs fs rule: make_dirs.induct)
  case (2 q qs fs)
  show ?case
  proof (cases "fs_walk link_limit fs [] q")
    case None
    then show ?thesis using 2(4) by simp
  next
    case (Some t)
    show ?thesis
    proof (cases "t \<noteq> [] \<and> hm_get fs t = None")
      case True
      then have "make_dirs qs (hm_insert t DirNode fs) = (Inr u, fs')" using 2(4) Some by simp
      from 2(2) [OF Some _ _ this] True have
        ih: "vfs_file_at fs' = vfs_file_at (hm_insert t DirNode fs)" "\<forall>ns. no_links (hm_insert t DirNode fs) ns \<longrightarrow> no_links fs' ns"
        by auto
      have "vfs_file_at (hm_insert t DirNode fs) = vfs_file_at fs"
        using True by (intro vfs_file_at_eqI) (auto simp: vfs_file_at_def)
      then show ?thesis using ih no_links_insert by auto
    next
      case False
      then have "make_dirs qs fs = (Inr u, fs')" using 2(4) Some by (auto split: option.splits fs_node.splits if_splits)
      then show ?thesis using 2(1,3) Some False 2(4) by (auto split: option.splits fs_node.splits if_splits)
    qed
  qed
qed simp

interpretation vfs: file_system vfs_api vfs_file_at vfs_real
proof unfold_locales
  fix w w' :: vfs and p q c :: path and s :: string and u :: unit
  show "vfs_real w p \<Longrightarrow> plain_path p" by (auto simp: vfs_real_def plain_of_names)
  show "vfs_real w p \<Longrightarrow> path_parent p = Some q \<Longrightarrow> vfs_real w q"
  proof -
    assume "vfs_real w p" "path_parent p = Some q"
    then obtain ns where ns: "p = of_names ns" "no_links w ns" "q = butlast p" "ns \<noteq> []"
      by (auto simp: vfs_real_def path_parent_def of_names_def split: if_splits)
    then have "q = of_names (butlast ns)" by (simp add: of_names_def map_butlast)
    then show "vfs_real w q" using no_links_butlast ns(2) by (auto simp: vfs_real_def)
  qed
  show "vfs_real w p \<Longrightarrow> fs_canonicalize vfs_api w p = Some c \<Longrightarrow> c = p"
    using walk_real by (auto simp: vfs_real_def vfs_api_def vfs_canonicalize_def split: option.splits if_splits)
  show "vfs_real w p \<Longrightarrow> fs_read_to_string vfs_api w p = Inr s \<Longrightarrow>
      fs_canonicalize vfs_api w p = Some p \<and> vfs_file_at w p = Some s"
    using walk_real by (fastforce simp: vfs_real_def vfs_api_def vfs_canonicalize_def vfs_read_def split: option.splits fs_node.splits if_splits)
  show "vfs_real w p \<Longrightarrow> fs_write vfs_api p s w = (Inr u, w') \<Longrightarrow>
      fs_canonicalize vfs_api w' p = Some p \<and> vfs_file_at w' = (vfs_file_at w)(p \<mapsto> s)"
  proof -
    assume "vfs_real w p" "fs_write vfs_api p s w = (Inr u, w')"
    then obtain ns where ns: "p = of_names ns" "no_links w ns" "vfs_write (of_names ns) s w = (Inr u, w')"
      by (auto simp: vfs_real_def vfs_api_def)
    note wr = write_vfs_real [OF ns(2,3)]
    have "hm_get w ns \<noteq> Some (LinkNode t)" for t using ns(2) by (auto simp: no_links_def dest: spec [of _ "length ns"])
    then have "fs_walk link_limit w' [] ns = Some ns" using walk_insert_file wr by metis
    then have "fs_canonicalize vfs_api w' p = Some p" by (simp add: vfs_api_def vfs_canonicalize_def ns(1) wr(1))
    moreover have "vfs_file_at w' = (vfs_file_at w)(p \<mapsto> s)"
      by (rule vfs_file_at_eqI) (auto simp: wr(1) ns(1) vfs_file_at_def)
    ultimately show ?thesis by blast
  qed
  show "vfs_real w p \<Longrightarrow> fs_remove_file vfs_api p w = (Inr u, w') \<Longrightarrow> vfs_file_at w' = (vfs_file_at w)(p := None)"
  proof -
    assume "vfs_real w p" "fs_remove_file vfs_api p w = (Inr u, w')"
    then obtain ns d where ns: "p = of_names ns" "no_links w ns" "ns \<noteq> []" "fs_walk link_limit w [] (butlast ns) = Some d"
      "w' = hm_remove (d @ [last ns]) w"
      by (auto simp: vfs_real_def vfs_api_def vfs_remove_def split: option.splits fs_node.splits if_splits)
    have "d @ [last ns] = ns" using walk_real [OF no_links_butlast [OF ns(2)] ns(4)] ns(3) by simp
    then show ?thesis by (intro vfs_file_at_eqI) (auto simp: ns vfs_file_at_def)
  qed
  show "vfs_real w p \<Longrightarrow> fs_create_dir_all vfs_api p w = (Inr u, w') \<Longrightarrow> vfs_file_at w' = vfs_file_at w"
    using make_dirs_keeps by (auto simp: vfs_real_def vfs_api_def vfs_mkdirs_def)
  show "vfs_real w q \<Longrightarrow> vfs_real w p \<Longrightarrow> fs_write vfs_api p s w = (Inr u, w') \<Longrightarrow> vfs_real w' q"
    using write_vfs_real(1) no_links_insert by (fastforce simp: vfs_real_def vfs_api_def)
  show "vfs_real w q \<Longrightarrow> vfs_real w p \<Longrightarrow> fs_remove_file vfs_api p w = (Inr u, w') \<Longrightarrow> vfs_real w' q"
    using no_links_remove by (fastforce simp: vfs_real_def vfs_api_def vfs_remove_def split: option.splits fs_node.splits if_splits)
  show "vfs_real w q \<Longrightarrow> vfs_real w p \<Longrightarrow> fs_create_dir_all vfs_api p w = (Inr u, w') \<Longrightarrow> vfs_real w' q"
    using make_dirs_keeps by (fastforce simp: vfs_real_def vfs_api_def vfs_mkdirs_def)
qed

end
