(* ===== verification/Sandbox.thy ===== *)
theory Sandbox
  imports Config Rust_Fs
begin

text \<open>
  The sandbox checks of \<^verbatim>\<open>crates/security-layer/src/sandbox.rs\<close>: file paths, network
  destinations and commands. \<^verbatim>\<open>std::fs::canonicalize\<close> asks the file system, so it is the
  parameter \<open>canon\<close>; \<open>canon_laws\<close> says what its documentation promises.
\<close>

subsection \<open>Paths\<close>

text \<open>The loop of \<open>normalize_path\<close>; the components so far are kept last first.\<close>

fun normalize_step :: "component \<Rightarrow> component list \<Rightarrow> component list" where
  "normalize_step CurDir acc = acc"
| "normalize_step ParentDir acc =
     (case acc of
        Normal _ # rest \<Rightarrow> rest
      | _ \<Rightarrow> ParentDir # acc)"
| "normalize_step c acc = c # acc"

definition normalize_path :: "path \<Rightarrow> path" where
  "normalize_path p = rev (fold normalize_step p [])"

definition canonicalize_path :: "(path \<Rightarrow> path option) \<Rightarrow> path \<Rightarrow> security_error + path" where
  "canonicalize_path canon p =
     (case canon p of
        Some c \<Rightarrow> Inr c
      | None \<Rightarrow>
          let normalized = normalize_path p in
          (case canon normalized of
             Some c \<Rightarrow> Inr c
           | None \<Rightarrow>
               (case path_parent normalized of
                  Some parent \<Rightarrow>
                    (case canon parent of
                       Some cp \<Rightarrow>
                         (case path_file_name normalized of
                            Some n \<Rightarrow> Inr (path_join cp n)
                          | None \<Rightarrow> Inl (SandboxViolation p Read))
                     | None \<Rightarrow> Inl (SandboxViolation p Read))
                | None \<Rightarrow> Inl (SandboxViolation p Read))))"

fun rule_permits :: "access_type \<Rightarrow> filesystem_rule \<Rightarrow> bool" where
  "rule_permits Read r = fr_read r"
| "rule_permits Write r = fr_write r"
| "rule_permits Execute r = fr_execute r"

fun rules_allow :: "(path \<Rightarrow> path option) \<Rightarrow> path \<Rightarrow> access_type \<Rightarrow> filesystem_rule list \<Rightarrow> bool" where
  "rules_allow canon c a [] = False"
| "rules_allow canon c a (r # rs) =
     (case canon (fr_path r) of
        None \<Rightarrow> rules_allow canon c a rs
      | Some rc \<Rightarrow>
          if path_starts_with c rc \<and> rule_permits a r then True else rules_allow canon c a rs)"

definition validate_path :: "(path \<Rightarrow> path option) \<Rightarrow> path \<Rightarrow> access_type \<Rightarrow> filesystem_rule list \<Rightarrow> security_error + path" where
  "validate_path canon p a rules =
     (case canonicalize_path canon p of
        Inl e \<Rightarrow> Inl e
      | Inr c \<Rightarrow> if rules_allow canon c a rules then Inr c else Inl (SandboxViolation p a))"

subsection \<open>Network and commands\<close>

fun validate_network :: "string \<Rightarrow> u16 \<Rightarrow> network_rule list \<Rightarrow> security_error + unit" where
  "validate_network host port [] = Inl (NetworkBlocked host port)"
| "validate_network host port (r # rs) =
     (if nr_host r = host then
        (case nr_port r of
           None \<Rightarrow> Inr ()
         | Some p \<Rightarrow> if p = port then Inr () else validate_network host port rs)
      else validate_network host port rs)"

definition validate_command :: "string \<Rightarrow> string list \<Rightarrow> string list \<Rightarrow> security_error + unit" where
  "validate_command command allowlist blocklist =
     (let base = first_token command in
      if base = [] then Inl (SandboxViolation (path_from_str command) Execute)
      else if allowlist = [] then Inl (SandboxViolation (path_from_str base) Execute)
      else if list_ex (\<lambda>b. b = base) blocklist then Inl (SandboxViolation (path_from_str base) Execute)
      else if list_ex (\<lambda>x. x = base) allowlist then Inr ()
      else Inl (SandboxViolation (path_from_str base) Execute))"

subsection \<open>Lemmas\<close>

definition canon_laws :: "(path \<Rightarrow> path option) \<Rightarrow> bool" where
  "canon_laws canon \<longleftrightarrow> (\<forall>p c. canon p = Some c \<longrightarrow> plain_path c)"

lemma plain_path_join: "plain_path p \<Longrightarrow> plain_path (path_join p n)"
  by (auto simp: plain_path_def path_join_def intro: exI [of _ "_ @ [n]"])

lemma rules_allow_iff:
  "rules_allow canon c a rs \<longleftrightarrow>
     (\<exists>r \<in> set rs. \<exists>rc. canon (fr_path r) = Some rc \<and> path_starts_with c rc \<and> rule_permits a r)"
  by (induction rs) (auto split: option.splits)

lemma validate_network_iff:
  "validate_network host port rs = Inr () \<longleftrightarrow>
     (\<exists>r \<in> set rs. nr_host r = host \<and> (nr_port r = None \<or> nr_port r = Some port))"
  by (induction rs) (auto split: option.splits)

lemma validate_command_iff:
  "validate_command cmd allow block = Inr () \<longleftrightarrow>
     first_token cmd \<noteq> [] \<and> first_token cmd \<in> set allow \<and> first_token cmd \<notin> set block"
  by (auto simp: validate_command_def Let_def list_ex_iff)

lemma canonicalize_path_plain:
  "canon_laws canon \<Longrightarrow> canonicalize_path canon p = Inr c \<Longrightarrow> plain_path c"
  by (auto simp: canonicalize_path_def canon_laws_def Let_def plain_path_join split: option.splits)

text \<open>Normalisation: what is left of the dots is a prefix of parent steps.\<close>

definition normal_form :: "path \<Rightarrow> bool" where
  "normal_form p \<longleftrightarrow> CurDir \<notin> set p \<and> (\<forall>xs n ys. p \<noteq> xs @ Normal n # ParentDir # ys)"

lemma normal_form_snoc:
  assumes "normal_form p" "c \<noteq> CurDir" "c = ParentDir \<Longrightarrow> \<forall>xs n. p \<noteq> xs @ [Normal n]"
  shows "normal_form (p @ [c])"
proof -
  have "p @ [c] \<noteq> xs @ Normal n # ParentDir # ys" for xs n ys
  proof
    assume eq: "p @ [c] = xs @ Normal n # ParentDir # ys"
    show False
    proof (cases ys rule: rev_cases)
      case Nil
      then show False using eq assms(3) by simp
    next
      case (snoc zs z)
      then have "p = xs @ Normal n # ParentDir # zs" using eq by simp
      then show False using assms(1) unfolding normal_form_def by blast
    qed
  qed
  then show ?thesis using assms(1,2) by (auto simp: normal_form_def)
qed

lemma normal_form_prefix:
  assumes "normal_form (p @ q)"
  shows "normal_form p"
proof -
  have "p \<noteq> xs @ Normal n # ParentDir # ys" for xs n ys
  proof
    assume "p = xs @ Normal n # ParentDir # ys"
    then have "p @ q = xs @ Normal n # ParentDir # (ys @ q)" by simp
    then show False using assms unfolding normal_form_def by blast
  qed
  then show ?thesis using assms by (auto simp: normal_form_def)
qed

lemma normalize_step_form:
  assumes "normal_form (rev acc)"
  shows "normal_form (rev (normalize_step c acc))"
proof (cases "\<exists>n rest. c = ParentDir \<and> acc = Normal n # rest")
  case True
  then obtain n rest where "c = ParentDir" "acc = Normal n # rest" by blast
  then show ?thesis using assms normal_form_prefix [of "rev rest" "[Normal n]"] by simp
next
  case False
  then have "normalize_step c acc = (if c = CurDir then acc else c # acc)"
    by (cases c) (auto split: list.split component.split)
  moreover have "\<forall>xs n. rev acc \<noteq> xs @ [Normal n]" if "c = ParentDir"
    using False that by (auto simp: rev_eq_append_conv)
  ultimately show ?thesis using assms normal_form_snoc [of "rev acc" c] by simp
qed

lemma normalize_path_form: "normal_form (normalize_path p)"
proof -
  have "normal_form (rev acc) \<Longrightarrow> normal_form (rev (fold normalize_step p acc))" for acc
    by (induction p arbitrary: acc) (auto intro: normalize_step_form)
  from this [of "[]"] show ?thesis by (simp add: normalize_path_def normal_form_def)
qed

lemma vfs_canon_laws: "canon_laws (vfs_canonicalize fs)"
  by (auto simp: canon_laws_def vfs_canonicalize_def plain_of_names split: option.splits if_splits)

lemma normalize_plain: "plain_path p \<Longrightarrow> normalize_path p = p"
proof -
  assume "plain_path p"
  then obtain ns where p: "p = RootDir # map Normal ns" by (auto simp: plain_path_def)
  have "fold normalize_step (map Normal ns) acc = rev (map Normal ns) @ acc" for acc
    by (induction ns arbitrary: acc) auto
  then show ?thesis by (simp add: p normalize_path_def)
qed

subsection \<open>Properties\<close>

text \<open>
  The path check accepts a path exactly when it can be made canonical and the canonical
  path lies inside the canonical directory of a rule that grants the access; what it returns
  is that canonical path, which is absolute and has no dot components.
\<close>

theorem validate_path_confined:
  assumes "canon_laws canon"
  shows "validate_path canon p a rules = Inr c \<longleftrightarrow>
    canonicalize_path canon p = Inr c \<and> plain_path c \<and>
    (\<exists>r \<in> set rules. \<exists>rc. canon (fr_path r) = Some rc \<and> path_starts_with c rc \<and> rule_permits a r)"
  using canonicalize_path_plain [OF assms, of p c]
  by (auto simp: validate_path_def rules_allow_iff split: sum.splits)

definition box_rule :: filesystem_rule where
  "box_rule = \<lparr>fr_path = [RootDir, Normal ''box''], fr_read = True, fr_write = True, fr_execute = False\<rparr>"

definition box_fs :: vfs where
  "box_fs = [([''box''], DirNode), ([''etc''], DirNode), ([''box'', ''link''], LinkNode [''etc'', ''cron''])]"

lemma box_validate:
  "validate_path (vfs_canonicalize box_fs) [RootDir, Normal ''box'', Normal ''link''] Write [box_rule] =
     Inr [RootDir, Normal ''box'', Normal ''link'']"
  by (simp add: validate_path_def canonicalize_path_def vfs_canonicalize_def vfs_walk_def names_of_def of_names_def box_fs_def
      box_rule_def normalize_path_def path_parent_def path_file_name_def path_join_def path_starts_with_def
      link_limit_def split: nat.split)

theorem validate_path_confined_witness:
  "canon_laws (vfs_canonicalize box_fs) \<and> plain_path [RootDir, Normal ''box'', Normal ''link'']"
  using iffD1 [OF validate_path_confined [OF vfs_canon_laws] box_validate] vfs_canon_laws by blast

text \<open>
  The path check can be escaped through a dangling link: a link inside an allowed directory
  whose target outside does not exist yet is accepted for writing under its own name, and
  writing there creates a file outside every allowed directory.
\<close>

theorem validate_path_dangling_link:
  "\<exists>fs p c fs' outside. validate_path (vfs_canonicalize fs) p Write [box_rule] = Inr c \<and>
     vfs_write c ''x'' fs = (Inr (), fs') \<and> \<not> path_starts_with outside (fr_path box_rule) \<and>
     vfs_file_at fs outside = None \<and> vfs_file_at fs' outside = Some ''x''"
proof -
  let ?c = "[RootDir, Normal ''box'', Normal ''link'']" and ?o = "of_names [''etc'', ''cron'']"
  let ?fs' = "hm_insert [''etc'', ''cron''] (FileNode ''x'') box_fs"
  have "vfs_write ?c ''x'' box_fs = (Inr (), ?fs')"
    by (simp add: vfs_write_def vfs_walk_def names_of_def box_fs_def link_limit_def split: nat.split)
  moreover have "\<not> path_starts_with ?o (fr_path box_rule)" by (simp add: box_rule_def path_starts_with_def of_names_def)
  moreover have "vfs_file_at box_fs ?o = None" "vfs_file_at ?fs' ?o = Some ''x''" by (simp_all add: box_fs_def)
  ultimately show ?thesis using box_validate by blast
qed

end
