(* ===== verification/File_Ops.thy ===== *)
theory File_Ops
  imports Sandbox Tool_Registry
begin

text \<open>
  The file operations of the coding module (\<^verbatim>\<open>crates/coding-module/src/file_ops.rs\<close>) and
  the five tools made of them. Every operation checks its path with the sandbox; the file
  system is the parameter of \<open>Rust_Fs\<close>. Contents are UTF-8 byte strings.
\<close>

definition MAX_FILE_SIZE_BYTES :: u64 where
  "MAX_FILE_SIZE_BYTES = 10 * 1024 * 1024"

record file_operations =
  fo_filesystem_rules :: "filesystem_rule list"
  fo_max_file_size :: u64

definition fo_new :: "filesystem_rule list \<Rightarrow> file_operations" where
  "fo_new rules = \<lparr>fo_filesystem_rules = rules, fo_max_file_size = MAX_FILE_SIZE_BYTES\<rparr>"

definition in_quotes :: "string \<Rightarrow> string" where
  "in_quotes s = [CHR 0x27] @ s @ [CHR 0x27]"

definition show_u64 :: "u64 \<Rightarrow> string" where
  "show_u64 n = show_nat (unat n)"

definition access_denied :: "path \<Rightarrow> string" where
  "access_denied p = ''Access denied: path '' @ in_quotes (path_display p) @ '' is outside the allowed workspace directories''"

definition fo_validate :: "'w fs_api \<Rightarrow> file_operations \<Rightarrow> path \<Rightarrow> access_type \<Rightarrow> 'w \<Rightarrow> string + path" where
  "fo_validate api fo p a w =
     (case validate_path (fs_canonicalize api w) p a (fo_filesystem_rules fo) of
        Inr c \<Rightarrow> Inr c
      | Inl _ \<Rightarrow> Inl (access_denied p))"

definition check_file_size :: "'w fs_api \<Rightarrow> file_operations \<Rightarrow> path \<Rightarrow> 'w \<Rightarrow> string + unit" where
  "check_file_size api fo p w =
     (case fs_metadata_len api w p of
        Some len \<Rightarrow>
          if len > fo_max_file_size fo then
            Inl (''File size limit exceeded: '' @ in_quotes (path_display p) @ '' is '' @ show_u64 len @ '' bytes (limit: '' @
                 show_u64 (fo_max_file_size fo) @ '' bytes)'')
          else Inr ()
      | None \<Rightarrow> Inr ())"

definition check_content_size :: "file_operations \<Rightarrow> string \<Rightarrow> string + unit" where
  "check_content_size fo content =
     (if (of_nat (length content) :: u64) > fo_max_file_size fo then
        Inl (''Content size limit exceeded: '' @ show_nat (length content) @ '' bytes (limit: '' @
             show_u64 (fo_max_file_size fo) @ '' bytes)'')
      else Inr ())"

text \<open>The error of a step, with the text before the path and the error of the system.\<close>

definition io_error :: "string \<Rightarrow> path \<Rightarrow> string \<Rightarrow> string" where
  "io_error what p e = what @ '' '' @ in_quotes (path_display p) @ '': '' @ e"

definition read_file :: "'w fs_api \<Rightarrow> file_operations \<Rightarrow> path \<Rightarrow> 'w \<Rightarrow> string + string" where
  "read_file api fo p w =
     (case fo_validate api fo p Read w of
        Inl e \<Rightarrow> Inl e
      | Inr c \<Rightarrow>
          (case check_file_size api fo c w of
             Inl e \<Rightarrow> Inl e
           | Inr _ \<Rightarrow>
               (case fs_read_to_string api w c of
                  Inr s \<Rightarrow> Inr s
                | Inl e \<Rightarrow> Inl (io_error ''Failed to read file'' p e))))"

text \<open>The loop of \<open>validate_for_creation\<close>: the closest ancestor that exists, and the names
  below it, last first.\<close>

function closest_ancestor :: "'w fs_api \<Rightarrow> 'w \<Rightarrow> path \<Rightarrow> string list \<Rightarrow> (path \<times> string list) option" where
  "closest_ancestor api w cur names =
     (if fs_exists api w cur then Some (cur, names)
      else (case path_file_name cur of
              None \<Rightarrow> None
            | Some n \<Rightarrow>
                (case path_parent cur of
                   None \<Rightarrow> None
                 | Some q \<Rightarrow> closest_ancestor api w q (names @ [n]))))"
  by pat_completeness auto

termination
  by (relation "measure (\<lambda>(api, w, cur, names). length cur)") (auto simp: path_parent_def split: if_splits)

declare closest_ancestor.simps [simp del]

definition validate_for_creation :: "'w fs_api \<Rightarrow> file_operations \<Rightarrow> path \<Rightarrow> 'w \<Rightarrow> string + path" where
  "validate_for_creation api fo p w =
     (case fo_validate api fo p Write w of
        Inr c \<Rightarrow> Inr c
      | Inl _ \<Rightarrow>
          (case closest_ancestor api w p [] of
             None \<Rightarrow> Inl (access_denied p)
           | Some (cur, names) \<Rightarrow>
               (case validate_path (fs_canonicalize api w) cur Write (fo_filesystem_rules fo) of
                  Inl _ \<Rightarrow> Inl (access_denied p)
                | Inr ca \<Rightarrow> Inr (fold (\<lambda>n q. path_join q n) (rev names) ca))))"

definition create_parents :: "'w fs_api \<Rightarrow> path \<Rightarrow> 'w \<Rightarrow> (string + unit) \<times> 'w" where
  "create_parents api p w = (case path_parent p of Some q \<Rightarrow> fs_create_dir_all api q w | None \<Rightarrow> (Inr (), w))"

definition create_file :: "'w fs_api \<Rightarrow> file_operations \<Rightarrow> path \<Rightarrow> string \<Rightarrow> 'w \<Rightarrow> (string + unit) \<times> 'w" where
  "create_file api fo p content w =
     (case check_content_size fo content of
        Inl e \<Rightarrow> (Inl e, w)
      | Inr _ \<Rightarrow>
          (case validate_for_creation api fo p w of
             Inl e \<Rightarrow> (Inl e, w)
           | Inr v \<Rightarrow>
               (case create_parents api v w of
                  (Inl e, w1) \<Rightarrow> (Inl (io_error ''Failed to create parent directories for'' p e), w1)
                | (Inr _, w1) \<Rightarrow>
                    (case fs_write api v content w1 of
                       (Inl e, w2) \<Rightarrow> (Inl (io_error ''Failed to create file'' p e), w2)
                     | (Inr _, w2) \<Rightarrow> (Inr (), w2)))))"

definition write_file :: "'w fs_api \<Rightarrow> file_operations \<Rightarrow> path \<Rightarrow> string \<Rightarrow> 'w \<Rightarrow> (string + unit) \<times> 'w" where
  "write_file api fo p content w =
     (case check_content_size fo content of
        Inl e \<Rightarrow> (Inl e, w)
      | Inr _ \<Rightarrow>
          (case fo_validate api fo p Write w of
             Inl e \<Rightarrow> (Inl e, w)
           | Inr c \<Rightarrow>
               (case check_file_size api fo c w of
                  Inl e \<Rightarrow> (Inl e, w)
                | Inr _ \<Rightarrow>
                    (case fs_write api c content w of
                       (Inl e, w1) \<Rightarrow> (Inl (io_error ''Failed to write file'' p e), w1)
                     | (Inr _, w1) \<Rightarrow> (Inr (), w1)))))"

text \<open>\<^verbatim>\<open>content.replacen(old, new, 1)\<close>, or \<open>None\<close> when the content does not contain the old
  text.\<close>

definition replace_first :: "string \<Rightarrow> string \<Rightarrow> string \<Rightarrow> string option" where
  "replace_first content old_str new_str = map_option (\<lambda>(l, r). l @ new_str @ r) (find_str old_str content)"

definition edit_file :: "'w fs_api \<Rightarrow> file_operations \<Rightarrow> path \<Rightarrow> string \<Rightarrow> string \<Rightarrow> 'w \<Rightarrow> (string + string) \<times> 'w" where
  "edit_file api fo p old_str new_str w =
     (case fo_validate api fo p Write w of
        Inl e \<Rightarrow> (Inl e, w)
      | Inr c \<Rightarrow>
          (case check_file_size api fo c w of
             Inl e \<Rightarrow> (Inl e, w)
           | Inr _ \<Rightarrow>
               (case fs_read_to_string api w c of
                  Inl e \<Rightarrow> (Inl (io_error ''Failed to read file'' p e), w)
                | Inr content \<Rightarrow>
                    (case replace_first content old_str new_str of
                       None \<Rightarrow> (Inl (''String replacement failed: the match string was not found in '' @ in_quotes (path_display p)), w)
                     | Some new_content \<Rightarrow>
                         (case check_content_size fo new_content of
                            Inl e \<Rightarrow> (Inl e, w)
                          | Inr _ \<Rightarrow>
                              (case fs_write api c new_content w of
                                 (Inl e, w1) \<Rightarrow> (Inl (io_error ''Failed to write edited file'' p e), w1)
                               | (Inr _, w1) \<Rightarrow> (Inr new_content, w1)))))))"

definition delete_file :: "'w fs_api \<Rightarrow> file_operations \<Rightarrow> path \<Rightarrow> 'w \<Rightarrow> (string + unit) \<times> 'w" where
  "delete_file api fo p w =
     (case fo_validate api fo p Write w of
        Inl e \<Rightarrow> (Inl e, w)
      | Inr c \<Rightarrow>
          (case fs_remove_file api c w of
             (Inl e, w1) \<Rightarrow> (Inl (io_error ''Failed to delete file'' p e), w1)
           | (Inr _, w1) \<Rightarrow> (Inr (), w1)))"

subsection \<open>Tools\<close>

definition string_param :: "string \<Rightarrow> string \<Rightarrow> string \<times> json" where
  "string_param name description = (name, JObject [(''type'', JString ''string''), (''description'', JString description)])"

definition object_schema :: "(string \<times> json) list \<Rightarrow> json" where
  "object_schema props =
     JObject [(''type'', JString ''object''), (''properties'', JObject props), (''required'', JArray (map (JString \<circ> fst) props))]"

definition require_str :: "json \<Rightarrow> string \<Rightarrow> string + string" where
  "require_str args name = (case get_str args name of Some s \<Rightarrow> Inr s | None \<Rightarrow> Inl (''Missing required parameter: '' @ name))"

definition file_read_tool :: "'w fs_api \<Rightarrow> file_operations \<Rightarrow> 'w tool" where
  "file_read_tool api fo = \<lparr>tool_name = ''file_read'', tool_description = ''Read the contents of a file at the given path'',
     tool_parameters_schema = object_schema [string_param ''path'' ''The file path to read''],
     tool_execute = (\<lambda>args w. case require_str args ''path'' of
         Inl e \<Rightarrow> (Inl e, w)
       | Inr p \<Rightarrow> (read_file api fo (path_from_str p) w, w)),
     tool_coding_only = True, tool_is_destructive = False\<rparr>"

text \<open>The answer of a tool whose operation changes the file at \<open>p\<close>.\<close>

definition tool_answer :: "string \<Rightarrow> string \<Rightarrow> (string + 'a) \<times> 'w \<Rightarrow> (string + string) \<times> 'w" where
  "tool_answer what p r = (case r of (Inl e, w) \<Rightarrow> (Inl e, w) | (Inr _, w) \<Rightarrow> (Inr (what @ '': '' @ p), w))"

definition file_create_tool :: "'w fs_api \<Rightarrow> file_operations \<Rightarrow> 'w tool" where
  "file_create_tool api fo = \<lparr>tool_name = ''file_create'',
     tool_description = ''Create a new file with the given content at the specified path'',
     tool_parameters_schema = object_schema [string_param ''path'' ''The file path to create'',
       string_param ''content'' ''The content to write to the new file''],
     tool_execute = (\<lambda>args w. case require_str args ''path'' of
         Inl e \<Rightarrow> (Inl e, w)
       | Inr p \<Rightarrow> (case require_str args ''content'' of
           Inl e \<Rightarrow> (Inl e, w)
         | Inr content \<Rightarrow> tool_answer ''File created'' p (create_file api fo (path_from_str p) content w))),
     tool_coding_only = True, tool_is_destructive = True\<rparr>"

definition file_write_tool :: "'w fs_api \<Rightarrow> file_operations \<Rightarrow> 'w tool" where
  "file_write_tool api fo = \<lparr>tool_name = ''file_write'',
     tool_description = ''Overwrite a file with new content at the specified path'',
     tool_parameters_schema = object_schema [string_param ''path'' ''The file path to write'',
       string_param ''content'' ''The new content to write to the file''],
     tool_execute = (\<lambda>args w. case require_str args ''path'' of
         Inl e \<Rightarrow> (Inl e, w)
       | Inr p \<Rightarrow> (case require_str args ''content'' of
           Inl e \<Rightarrow> (Inl e, w)
         | Inr content \<Rightarrow> tool_answer ''File written'' p (write_file api fo (path_from_str p) content w))),
     tool_coding_only = True, tool_is_destructive = True\<rparr>"

definition file_edit_tool :: "'w fs_api \<Rightarrow> file_operations \<Rightarrow> 'w tool" where
  "file_edit_tool api fo = \<lparr>tool_name = ''file_edit'',
     tool_description = ''Edit a file by replacing a specific string with a new string. The old_str must exist exactly in the file.'',
     tool_parameters_schema = object_schema [string_param ''path'' ''The file path to edit'',
       string_param ''old_str'' ''The exact string to find and replace'',
       string_param ''new_str'' ''The string to replace old_str with''],
     tool_execute = (\<lambda>args w. case require_str args ''path'' of
         Inl e \<Rightarrow> (Inl e, w)
       | Inr p \<Rightarrow> (case require_str args ''old_str'' of
           Inl e \<Rightarrow> (Inl e, w)
         | Inr old_str \<Rightarrow> (case require_str args ''new_str'' of
             Inl e \<Rightarrow> (Inl e, w)
           | Inr new_str \<Rightarrow> tool_answer ''File edited'' p (edit_file api fo (path_from_str p) old_str new_str w)))),
     tool_coding_only = True, tool_is_destructive = True\<rparr>"

definition file_delete_tool :: "'w fs_api \<Rightarrow> file_operations \<Rightarrow> 'w tool" where
  "file_delete_tool api fo = \<lparr>tool_name = ''file_delete'', tool_description = ''Delete a file at the specified path'',
     tool_parameters_schema = object_schema [string_param ''path'' ''The file path to delete''],
     tool_execute = (\<lambda>args w. case require_str args ''path'' of
         Inl e \<Rightarrow> (Inl e, w)
       | Inr p \<Rightarrow> tool_answer ''File deleted'' p (delete_file api fo (path_from_str p) w)),
     tool_coding_only = True, tool_is_destructive = True\<rparr>"

end
