(* ===== verification/Undo_History.thy ===== *)
theory Undo_History
  imports File_Ops
begin

text \<open>
  The undo history of the coding module (\<^verbatim>\<open>crates/coding-module/src/undo_history.rs\<close>):
  the recorded operations, their rollback, and the file operations that record themselves.
  The rollback is proved in the locale \<open>file_system\<close>, for files named by their real paths.
\<close>

definition DEFAULT_MAX_HISTORY :: nat where
  "DEFAULT_MAX_HISTORY = 50"

datatype undo_entry = UCreate path string | UEdit path string string | UDelete path string

fun entry_path :: "undo_entry \<Rightarrow> path" where
  "entry_path (UCreate p c) = p"
| "entry_path (UEdit p b a) = p"
| "entry_path (UDelete p c) = p"

fun operation_type :: "undo_entry \<Rightarrow> string" where
  "operation_type (UCreate p c) = ''create''"
| "operation_type (UEdit p b a) = ''edit''"
| "operation_type (UDelete p c) = ''delete''"

record undo_history =
  uh_entries :: "undo_entry list"
  uh_capacity :: nat

type_synonym undo_result = "undo_entry \<times> (string + unit)"

definition uh_new :: "nat \<Rightarrow> undo_history" where
  "uh_new capacity = \<lparr>uh_entries = [], uh_capacity = capacity\<rparr>"

definition with_default_capacity :: undo_history where
  "with_default_capacity = uh_new DEFAULT_MAX_HISTORY"

definition record_entry :: "undo_entry \<Rightarrow> undo_history \<Rightarrow> undo_history" where
  "record_entry e h = h\<lparr>uh_entries := push_bounded (uh_capacity h) e (uh_entries h)\<rparr>"

definition uh_len :: "undo_history \<Rightarrow> nat" where
  "uh_len h = length (uh_entries h)"

definition undo_error :: "string \<Rightarrow> string \<Rightarrow> path \<Rightarrow> string \<Rightarrow> string" where
  "undo_error what step p e = ''Failed to undo '' @ what @ '' ('' @ step @ '' '' @ in_quotes (path_display p) @ '': '' @ e @ '')''"

fun apply_undo :: "'w fs_api \<Rightarrow> undo_entry \<Rightarrow> 'w \<Rightarrow> (string + unit) \<times> 'w" where
  "apply_undo api (UCreate p c) w =
     (case fs_remove_file api p w of
        (Inl e, w1) \<Rightarrow> (Inl (undo_error ''create'' ''delete'' p e), w1)
      | (Inr _, w1) \<Rightarrow> (Inr (), w1))"
| "apply_undo api (UEdit p b a) w =
     (case fs_write api p b w of
        (Inl e, w1) \<Rightarrow> (Inl (undo_error ''edit'' ''restore'' p e), w1)
      | (Inr _, w1) \<Rightarrow> (Inr (), w1))"
| "apply_undo api (UDelete p c) w =
     (case create_parents api p w of
        (Inl e, w1) \<Rightarrow> (Inl (undo_error ''delete'' ''create dirs for'' p e), w1)
      | (Inr _, w1) \<Rightarrow>
          (case fs_write api p c w1 of
             (Inl e, w2) \<Rightarrow> (Inl (undo_error ''delete'' ''recreate'' p e), w2)
           | (Inr _, w2) \<Rightarrow> (Inr (), w2)))"

fun undo_loop :: "'w fs_api \<Rightarrow> nat \<Rightarrow> undo_history \<Rightarrow> 'w \<Rightarrow> undo_result list \<times> undo_history \<times> 'w" where
  "undo_loop api 0 h w = ([], h, w)"
| "undo_loop api (Suc n) h w =
     (if uh_entries h = [] then ([], h, w)
      else let entry = last (uh_entries h); h1 = h\<lparr>uh_entries := butlast (uh_entries h)\<rparr>
           in case apply_undo api entry w of
                (Inr _, w1) \<Rightarrow>
                  (let (rs, h2, w2) = undo_loop api n h1 w1 in ((entry, Inr ()) # rs, h2, w2))
              | (Inl e, w1) \<Rightarrow> ([(entry, Inl e)], h1\<lparr>uh_entries := uh_entries h1 @ [entry]\<rparr>, w1))"

definition undo_ops :: "'w fs_api \<Rightarrow> nat \<Rightarrow> undo_history \<Rightarrow> 'w \<Rightarrow> undo_result list \<times> undo_history \<times> 'w" where
  "undo_ops api n h w = undo_loop api (min n (length (uh_entries h))) h w"

subsection \<open>Tracked operations\<close>

record tracked_ops =
  tf_ops :: file_operations
  tf_history :: undo_history

definition tracked_with_capacity :: "file_operations \<Rightarrow> nat \<Rightarrow> tracked_ops" where
  "tracked_with_capacity fo capacity = \<lparr>tf_ops = fo, tf_history = uh_new capacity\<rparr>"

definition tracked_new :: "file_operations \<Rightarrow> tracked_ops" where
  "tracked_new fo = \<lparr>tf_ops = fo, tf_history = with_default_capacity\<rparr>"

definition canonical_or :: "'w fs_api \<Rightarrow> path \<Rightarrow> 'w \<Rightarrow> path" where
  "canonical_or api p w = (case fs_canonicalize api w p of Some c \<Rightarrow> c | None \<Rightarrow> p)"

definition track :: "undo_entry \<Rightarrow> tracked_ops \<Rightarrow> tracked_ops" where
  "track e t = t\<lparr>tf_history := record_entry e (tf_history t)\<rparr>"

definition tracked_read_file :: "'w fs_api \<Rightarrow> path \<Rightarrow> tracked_ops \<Rightarrow> 'w \<Rightarrow> string + string" where
  "tracked_read_file api p t w = read_file api (tf_ops t) p w"

definition tracked_create_file :: "'w fs_api \<Rightarrow> path \<Rightarrow> string \<Rightarrow> tracked_ops \<Rightarrow> 'w \<Rightarrow> (string + unit) \<times> tracked_ops \<times> 'w" where
  "tracked_create_file api p content t w =
     (case create_file api (tf_ops t) p content w of
        (Inl e, w1) \<Rightarrow> (Inl e, t, w1)
      | (Inr _, w1) \<Rightarrow> (Inr (), track (UCreate (canonical_or api p w1) content) t, w1))"

definition tracked_write_file :: "'w fs_api \<Rightarrow> path \<Rightarrow> string \<Rightarrow> tracked_ops \<Rightarrow> 'w \<Rightarrow> (string + unit) \<times> tracked_ops \<times> 'w" where
  "tracked_write_file api p content t w =
     (case read_file api (tf_ops t) p w of
        Inl e \<Rightarrow> (Inl e, t, w)
      | Inr before \<Rightarrow>
          (case write_file api (tf_ops t) p content w of
             (Inl e, w1) \<Rightarrow> (Inl e, t, w1)
           | (Inr _, w1) \<Rightarrow> (Inr (), track (UEdit (canonical_or api p w1) before content) t, w1)))"

definition tracked_edit_file :: "'w fs_api \<Rightarrow> path \<Rightarrow> string \<Rightarrow> string \<Rightarrow> tracked_ops \<Rightarrow> 'w \<Rightarrow> (string + string) \<times> tracked_ops \<times> 'w" where
  "tracked_edit_file api p old_str new_str t w =
     (case read_file api (tf_ops t) p w of
        Inl e \<Rightarrow> (Inl e, t, w)
      | Inr before \<Rightarrow>
          (case edit_file api (tf_ops t) p old_str new_str w of
             (Inl e, w1) \<Rightarrow> (Inl e, t, w1)
           | (Inr after, w1) \<Rightarrow> (Inr after, track (UEdit (canonical_or api p w1) before after) t, w1)))"

definition tracked_delete_file :: "'w fs_api \<Rightarrow> path \<Rightarrow> tracked_ops \<Rightarrow> 'w \<Rightarrow> (string + unit) \<times> tracked_ops \<times> 'w" where
  "tracked_delete_file api p t w =
     (case read_file api (tf_ops t) p w of
        Inl e \<Rightarrow> (Inl e, t, w)
      | Inr content \<Rightarrow>
          let canonical = canonical_or api p w
          in case delete_file api (tf_ops t) p w of
               (Inl e, w1) \<Rightarrow> (Inl e, t, w1)
             | (Inr _, w1) \<Rightarrow> (Inr (), track (UDelete canonical content) t, w1))"

definition tracked_undo :: "'w fs_api \<Rightarrow> nat \<Rightarrow> tracked_ops \<Rightarrow> 'w \<Rightarrow> undo_result list \<times> tracked_ops \<times> 'w" where
  "tracked_undo api n t w =
     (case undo_ops api n (tf_history t) w of (rs, h, w1) \<Rightarrow> (rs, t\<lparr>tf_history := h\<rparr>, w1))"

definition history_len :: "tracked_ops \<Rightarrow> nat" where
  "history_len t = uh_len (tf_history t)"

subsection \<open>The rollback\<close>

text \<open>An operation of a client, by name, and whether it succeeded.\<close>

datatype tracked_call = CallCreate path string | CallWrite path string | CallEdit path string string | CallDelete path

fun call_path :: "tracked_call \<Rightarrow> path" where
  "call_path (CallCreate p c) = p"
| "call_path (CallWrite p c) = p"
| "call_path (CallEdit p x y) = p"
| "call_path (CallDelete p) = p"

fun run_call :: "'w fs_api \<Rightarrow> tracked_call \<Rightarrow> tracked_ops \<Rightarrow> 'w \<Rightarrow> bool \<times> tracked_ops \<times> 'w" where
  "run_call api (CallCreate p c) t w = (case tracked_create_file api p c t w of (r, t', w') \<Rightarrow> (\<not> isl r, t', w'))"
| "run_call api (CallWrite p c) t w = (case tracked_write_file api p c t w of (r, t', w') \<Rightarrow> (\<not> isl r, t', w'))"
| "run_call api (CallEdit p x y) t w = (case tracked_edit_file api p x y t w of (r, t', w') \<Rightarrow> (\<not> isl r, t', w'))"
| "run_call api (CallDelete p) t w = (case tracked_delete_file api p t w of (r, t', w') \<Rightarrow> (\<not> isl r, t', w'))"

text \<open>What undoing an entry does to the files.\<close>

fun undo_view :: "undo_entry \<Rightarrow> (path \<Rightarrow> string option) \<Rightarrow> path \<Rightarrow> string option" where
  "undo_view (UCreate p c) v = v(p := None)"
| "undo_view (UEdit p b a) v = v(p \<mapsto> b)"
| "undo_view (UDelete p c) v = v(p \<mapsto> c)"

lemma plain_parent: "plain_path p \<Longrightarrow> path_parent p = Some q \<Longrightarrow> \<exists>n. path_file_name p = Some n \<and> p = path_join q n \<and> plain_path q"
proof -
  assume "plain_path p" "path_parent p = Some q"
  then obtain ns where ns: "p = RootDir # map Normal ns" "ns \<noteq> []" "q = butlast p"
    by (auto simp: plain_path_def path_parent_def split: if_splits)
  then obtain ms m where "ns = ms @ [m]" by (metis rev_exhaust)
  then show ?thesis using ns by (auto simp: path_file_name_def path_join_def plain_path_def)
qed

fun run_calls :: "'w fs_api \<Rightarrow> tracked_call list \<Rightarrow> tracked_ops \<Rightarrow> 'w \<Rightarrow> bool \<times> tracked_ops \<times> 'w" where
  "run_calls api [] t w = (True, t, w)"
| "run_calls api (c # cs) t w = (case run_call api c t w of (ok, t1, w1) \<Rightarrow> if ok then run_calls api cs t1 w1 else (False, t1, w1))"

text \<open>No creation overwrites a file that exists.\<close>

fun fresh_creates :: "'w fs_api \<Rightarrow> ('w \<Rightarrow> path \<Rightarrow> string option) \<Rightarrow> tracked_call list \<Rightarrow> tracked_ops \<Rightarrow> 'w \<Rightarrow> bool" where
  "fresh_creates api file_at [] t w = True"
| "fresh_creates api file_at (c # cs) t w =
     ((case c of CallCreate p _ \<Rightarrow> file_at w p = None | _ \<Rightarrow> True) \<and>
      (case run_call api c t w of (ok, t1, w1) \<Rightarrow> fresh_creates api file_at cs t1 w1))"

text \<open>A rule that grants writing contains the path.\<close>

definition write_granted :: "'w fs_api \<Rightarrow> file_operations \<Rightarrow> path \<Rightarrow> 'w \<Rightarrow> bool" where
  "write_granted api fo p w \<longleftrightarrow>
     (\<exists>r \<in> set (fo_filesystem_rules fo). \<exists>rc. fs_canonicalize api w (fr_path r) = Some rc \<and> path_starts_with p rc \<and> fr_write r)"

lemma write_granted_below: "write_granted api fo p w \<Longrightarrow> path_starts_with q p \<Longrightarrow> write_granted api fo q w"
  unfolding write_granted_def using path_starts_with_trans by blast

lemma fold_join_below: "path_starts_with (fold (\<lambda>n q. path_join q n) ns p) p"
  by (induction ns arbitrary: p) (auto simp: path_join_def path_starts_with_iff, metis append.assoc)

lemma track_fields [simp]:
  "uh_entries (tf_history (track e t)) = push_bounded (uh_capacity (tf_history t)) e (uh_entries (tf_history t))"
  "uh_capacity (tf_history (track e t)) = uh_capacity (tf_history t)"
  "tf_ops (track e t) = tf_ops t"
  by (simp_all add: track_def record_entry_def)

lemma track_entries:
  assumes "length es \<le> uh_capacity (tf_history t)"
  shows "(\<exists>pre. uh_entries (tf_history (fold track es t)) = pre @ es) \<and> uh_capacity (tf_history (fold track es t)) = uh_capacity (tf_history t)"
  using assms
proof (induction es rule: rev_induct)
  case (snoc e es)
  then obtain pre where pre: "uh_entries (tf_history (fold track es t)) = pre @ es"
    "uh_capacity (tf_history (fold track es t)) = uh_capacity (tf_history t)" by auto
  have "\<exists>pre'. push_bounded (uh_capacity (tf_history t)) e (pre @ es) = pre' @ es @ [e]"
    using snoc.prems by (cases pre) (auto simp: push_bounded_def)
  then show ?case using pre by simp
qed simp

context file_system
begin

lemma canonicalize_real:
  assumes "real w p" "canonicalize_path (fs_canonicalize api w) p = Inr c"
  shows "c = p"
proof -
  have n: "normalize_path p = p" using normalize_plain real_plain assms(1) by blast
  show ?thesis
  proof (cases "fs_canonicalize api w p")
    case (Some d)
    then show ?thesis using assms canon_real by (simp add: canonicalize_path_def)
  next
    case None
    then obtain q cq n where q: "path_parent p = Some q" "fs_canonicalize api w q = Some cq" "path_file_name p = Some n" "c = path_join cq n"
      using assms(2) n by (auto simp: canonicalize_path_def Let_def split: option.splits)
    have "cq = q" using canon_real real_parent assms(1) q by blast
    then show ?thesis using plain_parent [OF real_plain [OF assms(1)] q(1)] q by auto
  qed
qed

lemma validate_real: "real w p \<Longrightarrow> fo_validate api fo p a w = Inr c \<Longrightarrow> c = p"
  using canonicalize_real by (auto simp: fo_validate_def validate_path_def split: sum.splits if_splits)

lemma closest_ancestor_real:
  assumes "real w p" "closest_ancestor api w p names = Some (cur, names')"
  shows "real w cur \<and> (\<exists>more. names' = names @ more \<and> fold (\<lambda>n q. path_join q n) (rev more) cur = p)"
  using assms
proof (induction api w p names rule: closest_ancestor.induct)
  case (1 api' w p names)
  show ?case
  proof (cases "fs_exists api' w p")
    case True
    then show ?thesis using 1(2,3) by (simp add: closest_ancestor.simps)
  next
    case False
    then obtain n q where nq: "path_file_name p = Some n" "path_parent p = Some q" "closest_ancestor api' w q (names @ [n]) = Some (cur, names')"
      using 1(3) by (auto simp: closest_ancestor.simps split: option.splits)
    have "p = path_join q n" using plain_parent [OF real_plain [OF 1(2)] nq(2)] nq(1) by auto
    then show ?thesis using 1(1) [OF False nq(1,2) real_parent [OF 1(2) nq(2)] nq(3)] by auto
  qed
qed

lemma creation_real: "real w p \<Longrightarrow> validate_for_creation api fo p w = Inr v \<Longrightarrow> v = p"
proof -
  assume p: "real w p" and v: "validate_for_creation api fo p w = Inr v"
  show "v = p"
  proof (cases "fo_validate api fo p Write w")
    case (Inr c)
    then show ?thesis using v validate_real [OF p] by (simp add: validate_for_creation_def)
  next
    case (Inl e)
    then obtain cur names ca where c: "closest_ancestor api w p [] = Some (cur, names)"
      "validate_path (fs_canonicalize api w) cur Write (fo_filesystem_rules fo) = Inr ca"
      "v = fold (\<lambda>n q. path_join q n) (rev names) ca"
      using v by (auto simp: validate_for_creation_def split: option.splits sum.splits)
    note anc = closest_ancestor_real [OF p c(1)]
    have "ca = cur" using canonicalize_real anc c(2) by (auto simp: validate_path_def split: sum.splits if_splits)
    then show ?thesis using anc c(3) by simp
  qed
qed

lemma create_parents_real:
  assumes p: "real w p" and run: "create_parents api p w = (Inr u, w')"
  shows "file_at w' = file_at w" "real w q \<Longrightarrow> real w' q"
proof -
  have "file_at w' = file_at w \<and> (real w q \<longrightarrow> real w' q)"
  proof (cases "path_parent p")
    case None
    then show ?thesis using run by (simp add: create_parents_def)
  next
    case (Some d)
    then have d: "fs_create_dir_all api d w = (Inr u, w')" using run by (simp add: create_parents_def)
    have r: "real w d" by (rule real_parent [OF p Some])
    show ?thesis using create_dirs [OF r d] real_dirs [OF _ r d] by blast
  qed
  then show "file_at w' = file_at w" "real w q \<Longrightarrow> real w' q" by blast+
qed

lemma apply_undo_effect:
  assumes r: "real w (entry_path e)" and run: "apply_undo api e w = (Inr u, w')"
  shows "file_at w' = undo_view e (file_at w)" "real w q \<Longrightarrow> real w' q"
proof -
  have "file_at w' = undo_view e (file_at w) \<and> (real w q \<longrightarrow> real w' q)"
  proof (cases e)
    case (UCreate p c)
    then have x: "fs_remove_file api p w = (Inr (), w')" and p: "real w p" using run r by (auto split: prod.splits sum.splits)
    show ?thesis using remove_file [OF p x] real_remove [OF _ p x] UCreate by simp
  next
    case (UEdit p b a)
    then have x: "fs_write api p b w = (Inr (), w')" and p: "real w p" using run r by (auto split: prod.splits sum.splits)
    show ?thesis using write_file [OF p x] real_write [OF _ p x] UEdit by simp
  next
    case (UDelete p c)
    then obtain w1 where x: "create_parents api p w = (Inr (), w1)" "fs_write api p c w1 = (Inr (), w')" and p: "real w p"
      using run r by (auto split: prod.splits sum.splits)
    have p1: "real w1 p" using create_parents_real(2) [OF p x(1)] p by simp
    show ?thesis
      using create_parents_real(1) [OF p x(1)] create_parents_real(2) [OF p x(1), of q] write_file [OF p1 x(2)]
        real_write [OF _ p1 x(2), of q] UDelete by simp
  qed
  then show "file_at w' = undo_view e (file_at w)" "real w q \<Longrightarrow> real w' q" by blast+
qed

lemma read_file_real:
  assumes "real w p" "read_file api fo p w = Inr s"
  shows "fs_canonicalize api w p = Some p" "file_at w p = Some s"
proof -
  obtain c where c: "fo_validate api fo p Read w = Inr c" "fs_read_to_string api w c = Inr s"
    using assms(2) by (auto simp: read_file_def split: sum.splits)
  have "c = p" by (rule validate_real [OF assms(1) c(1)])
  then show "fs_canonicalize api w p = Some p" "file_at w p = Some s" using read_file [OF assms(1)] c(2) by simp_all
qed

text \<open>The three effects of successful calls: the entry names the real path, undoing it would
  give the files back, and real paths stay real.\<close>

lemma overwrite_effect:
  assumes r: "real w p" and before: "read_file api fo p w = Inr b"
    and v: "fo_validate api fo p Write w = Inr v" and wr: "fs_write api v a w = (Inr (), w')"
  shows "canonical_or api p w' = p" "undo_view (UEdit p b a) (file_at w') = file_at w" "real w q \<Longrightarrow> real w' q"
proof -
  have wr': "fs_write api p a w = (Inr (), w')" using wr validate_real [OF r v] by simp
  show "canonical_or api p w' = p" "undo_view (UEdit p b a) (file_at w') = file_at w"
    using write_file [OF r wr'] read_file_real(2) [OF r before] by (auto simp: canonical_or_def)
  show "real w q \<Longrightarrow> real w' q" by (rule real_write [OF _ r wr'])
qed

lemma create_effect:
  assumes r: "real w p" and f: "file_at w p = None" and cr: "create_file api fo p x w = (Inr (), w')"
  shows "canonical_or api p w' = p" "undo_view (UCreate p x) (file_at w') = file_at w" "real w q \<Longrightarrow> real w' q"
proof -
  obtain v w1 where v: "validate_for_creation api fo p w = Inr v" "create_parents api v w = (Inr (), w1)"
    "fs_write api v x w1 = (Inr (), w')"
    using cr by (auto simp: create_file_def split: prod.splits sum.splits)
  have vp: "v = p" by (rule creation_real [OF r v(1)])
  note par = create_parents_real [OF r v(2) [unfolded vp]]
  have r1: "real w1 p" using par(2) r by simp
  note wr = write_file [OF r1 v(3) [unfolded vp]]
  show "canonical_or api p w' = p" using wr by (simp add: canonical_or_def)
  show "undo_view (UCreate p x) (file_at w') = file_at w" using wr par(1) f by (auto simp: fun_eq_iff)
  show "real w q \<Longrightarrow> real w' q" using par(2) real_write [OF _ r1 v(3) [unfolded vp]] by blast
qed

lemma delete_effect:
  assumes r: "real w p" and before: "read_file api fo p w = Inr b" and del: "delete_file api fo p w = (Inr (), w')"
  shows "canonical_or api p w = p" "undo_view (UDelete p b) (file_at w') = file_at w" "real w q \<Longrightarrow> real w' q"
proof -
  obtain v where v: "fo_validate api fo p Write w = Inr v" "fs_remove_file api v w = (Inr (), w')"
    using del by (auto simp: delete_file_def split: prod.splits sum.splits)
  then have rm: "fs_remove_file api p w = (Inr (), w')" using validate_real [OF r v(1)] by simp
  show "canonical_or api p w = p" "undo_view (UDelete p b) (file_at w') = file_at w"
    using remove_file [OF r rm] read_file_real [OF r before] by (auto simp: canonical_or_def)
  show "real w q \<Longrightarrow> real w' q" by (rule real_remove [OF _ r rm])
qed

lemma run_call_effect:
  assumes r: "real w (call_path c)" and run: "run_call api c t w = (True, t', w')"
    and fresh: "case c of CallCreate p _ \<Rightarrow> file_at w p = None | _ \<Rightarrow> True"
  shows "\<exists>e. t' = track e t \<and> entry_path e = call_path c \<and> undo_view e (file_at w') = file_at w \<and> (\<forall>q. real w q \<longrightarrow> real w' q)"
proof (cases c)
  case (CallCreate p x)
  with run have cr: "create_file api (tf_ops t) p x w = (Inr (), w')" "t' = track (UCreate (canonical_or api p w') x) t"
    by (auto simp: tracked_create_file_def split: prod.splits sum.splits)
  have p: "real w p" "file_at w p = None" using r fresh CallCreate by simp_all
  show ?thesis using create_effect [OF p cr(1)] cr(2) CallCreate by (intro exI [of _ "UCreate p x"]) simp
next
  case (CallWrite p x)
  with run obtain b where b: "read_file api (tf_ops t) p w = Inr b" "write_file api (tf_ops t) p x w = (Inr (), w')"
    "t' = track (UEdit (canonical_or api p w') b x) t"
    by (auto simp: tracked_write_file_def split: prod.splits sum.splits)
  then obtain v where v: "fo_validate api (tf_ops t) p Write w = Inr v" "fs_write api v x w = (Inr (), w')"
    by (auto simp: File_Ops.write_file_def split: prod.splits sum.splits)
  have p: "real w p" using r CallWrite by simp
  show ?thesis using overwrite_effect [OF p b(1) v] b(3) CallWrite by (intro exI [of _ "UEdit p b x"]) simp
next
  case (CallEdit p x y)
  with run obtain b a where b: "read_file api (tf_ops t) p w = Inr b" "edit_file api (tf_ops t) p x y w = (Inr a, w')"
    "t' = track (UEdit (canonical_or api p w') b a) t"
    by (auto simp: tracked_edit_file_def split: prod.splits sum.splits)
  then obtain v where v: "fo_validate api (tf_ops t) p Write w = Inr v" "fs_write api v a w = (Inr (), w')"
    by (auto simp: edit_file_def split: prod.splits sum.splits option.splits)
  have p: "real w p" using r CallEdit by simp
  show ?thesis using overwrite_effect [OF p b(1) v] b(3) CallEdit by (intro exI [of _ "UEdit p b a"]) simp
next
  case (CallDelete p)
  with run obtain b where b: "read_file api (tf_ops t) p w = Inr b" "delete_file api (tf_ops t) p w = (Inr (), w')"
    "t' = track (UDelete (canonical_or api p w) b) t"
    by (auto simp: tracked_delete_file_def Let_def split: prod.splits sum.splits)
  have p: "real w p" using r CallDelete by simp
  show ?thesis using delete_effect [OF p b(1,2)] b(3) CallDelete by (intro exI [of _ "UDelete p b"]) simp
qed

text \<open>A run of calls records an entry each, and undoing them newest first gives the files
  back.\<close>

lemma run_calls_effect:
  assumes "run_calls api cs t w = (True, t', w')" "\<forall>c \<in> set cs. real w (call_path c)" "fresh_creates api file_at cs t w"
  shows "\<exists>es. length es = length cs \<and> t' = fold track es t \<and> (\<forall>e \<in> set es. real w' (entry_path e)) \<and>
    fold undo_view (rev es) (file_at w') = file_at w \<and> (\<forall>q. real w q \<longrightarrow> real w' q)"
  using assms
proof (induction cs arbitrary: t w)
  case (Cons c cs)
  obtain t1 w1 where c: "run_call api c t w = (True, t1, w1)" "run_calls api cs t1 w1 = (True, t', w')"
    using Cons.prems(1) by (auto split: prod.splits if_splits)
  have r: "real w (call_path c)" using Cons.prems(2) by simp
  have f: "case c of CallCreate p _ \<Rightarrow> file_at w p = None | _ \<Rightarrow> True" "fresh_creates api file_at cs t1 w1"
    using Cons.prems(3) c(1) by auto
  obtain e where e: "t1 = track e t" "entry_path e = call_path c" "undo_view e (file_at w1) = file_at w" "\<forall>q. real w q \<longrightarrow> real w1 q"
    using run_call_effect [OF r c(1) f(1)] by blast
  have "\<forall>c \<in> set cs. real w1 (call_path c)" using Cons.prems(2) e(4) by simp
  from Cons.IH [OF c(2) this f(2)] obtain es where es: "length es = length cs" "t' = fold track es t1"
    "\<forall>e \<in> set es. real w' (entry_path e)" "fold undo_view (rev es) (file_at w') = file_at w1" "\<forall>q. real w1 q \<longrightarrow> real w' q"
    by blast
  show ?case using e es r by (intro exI [of _ "e # es"]) simp
qed auto

lemma undo_entries:
  assumes "undo_loop api (length es) h w = (rs, h', w')" "uh_entries h = pre @ es" "\<forall>e \<in> set es. real w (entry_path e)"
    "\<forall>r \<in> set rs. \<not> isl (snd r)"
  shows "file_at w' = fold undo_view (rev es) (file_at w) \<and> uh_entries h' = pre \<and> map fst rs = rev es"
  using assms
proof (induction es arbitrary: h w rs rule: rev_induct)
  case (snoc e es)
  let ?h1 = "h\<lparr>uh_entries := pre @ es\<rparr>"
  obtain u w1 rs1 where s: "apply_undo api e w = (Inr u, w1)" "undo_loop api (length es) ?h1 w1 = (rs1, h', w')" "rs = (e, Inr ()) # rs1"
    using snoc.prems(1,2,4) by (auto simp: Let_def butlast_append split: prod.splits sum.splits)
  have r: "real w (entry_path e)" using snoc.prems(3) by simp
  note eff = apply_undo_effect [OF r s(1)]
  have "\<forall>e \<in> set es. real w1 (entry_path e)" using snoc.prems(3) eff(2) by simp
  from snoc.IH [OF s(2) _ this] snoc.prems(4) s(3) show ?case using eff(1) by simp
qed simp

lemma undo_restores:
  assumes run: "run_calls api cs t w = (True, t', w')" and r: "\<forall>c \<in> set cs. real w (call_path c)"
    and fresh: "fresh_creates api file_at cs t w" and cap: "length cs \<le> uh_capacity (tf_history t)"
    and undo: "tracked_undo api (length cs) t' w' = (rs, t'', w'')" and ok: "\<forall>r \<in> set rs. \<not> isl (snd r)"
  shows "file_at w'' = file_at w" "length rs = length cs"
proof -
  obtain es where es: "length es = length cs" "t' = fold track es t" "\<forall>e \<in> set es. real w' (entry_path e)"
    "fold undo_view (rev es) (file_at w') = file_at w" using run_calls_effect [OF run r fresh] by blast
  obtain pre where pre: "uh_entries (tf_history t') = pre @ es" using track_entries [of es t] cap es(1,2) by auto
  have "undo_loop api (length es) (tf_history t') w' = (rs, tf_history t'', w'')"
    using undo pre es(1) by (auto simp: tracked_undo_def undo_ops_def split: prod.splits)
  from undo_entries [OF this pre es(3) ok] show "file_at w'' = file_at w" using es(4) by simp
  from undo_entries [OF \<open>undo_loop api (length es) (tf_history t') w' = (rs, tf_history t'', w'')\<close> pre es(3) ok]
  show "length rs = length cs" using es(1) by (metis length_map length_rev)
qed

text \<open>A creation over an existing file is undone by removing the file.\<close>

lemma undo_create_removes:
  assumes r: "real w p" and run: "tracked_create_file api p x t w = (Inr (), t', w')" and cap: "0 < uh_capacity (tf_history t)"
    and undo: "tracked_undo api 1 t' w' = (rs, t'', w'')" and ok: "\<forall>r \<in> set rs. \<not> isl (snd r)"
  shows "file_at w'' p = None"
proof -
  have cr: "create_file api (tf_ops t) p x w = (Inr (), w')" "t' = track (UCreate (canonical_or api p w') x) t"
    using run by (auto simp: tracked_create_file_def split: prod.splits sum.splits)
  obtain v w1 where v: "validate_for_creation api (tf_ops t) p w = Inr v" "create_parents api v w = (Inr (), w1)"
    "fs_write api v x w1 = (Inr (), w')" using cr(1) by (auto simp: create_file_def split: prod.splits sum.splits)
  have vp: "v = p" by (rule creation_real [OF r v(1)])
  have r1: "real w1 p" using create_parents_real(2) [OF r v(2) [unfolded vp]] r by simp
  note wr = v(3) [unfolded vp]
  have e: "t' = track (UCreate p x) t" using write_file [OF r1 wr] cr(2) by (simp add: canonical_or_def)
  obtain pre where pre: "uh_entries (tf_history t') = pre @ [UCreate p x]" using track_entries [of "[UCreate p x]" t] cap e by auto
  have "undo_loop api (length [UCreate p x]) (tf_history t') w' = (rs, tf_history t'', w'')"
    using undo pre by (auto simp: tracked_undo_def undo_ops_def split: prod.splits)
  from undo_entries [OF this pre _ ok] real_write [OF r1 r1 wr] show ?thesis by simp
qed

text \<open>Confinement.\<close>

lemma validate_path_granted:
  assumes "real w p" "validate_path (fs_canonicalize api w) p Write (fo_filesystem_rules fo) = Inr c"
  shows "write_granted api fo p w"
proof -
  obtain d where d: "canonicalize_path (fs_canonicalize api w) p = Inr d" "rules_allow (fs_canonicalize api w) d Write (fo_filesystem_rules fo)"
    using assms(2) by (auto simp: validate_path_def split: sum.splits if_splits)
  have "d = p" by (rule canonicalize_real [OF assms(1) d(1)])
  then show ?thesis using d(2) by (auto simp: write_granted_def rules_allow_iff)
qed

lemma validate_granted: "real w p \<Longrightarrow> fo_validate api fo p Write w = Inr c \<Longrightarrow> write_granted api fo p w"
  by (rule validate_path_granted) (auto simp: fo_validate_def split: sum.splits)

lemma creation_granted:
  assumes r: "real w p" and v: "validate_for_creation api fo p w = Inr v"
  shows "write_granted api fo p w"
proof (cases "fo_validate api fo p Write w")
  case (Inr c)
  then show ?thesis by (rule validate_granted [OF r])
next
  case (Inl e)
  then obtain cur names ca where c: "closest_ancestor api w p [] = Some (cur, names)"
    "validate_path (fs_canonicalize api w) cur Write (fo_filesystem_rules fo) = Inr ca"
    using v by (auto simp: validate_for_creation_def split: option.splits sum.splits)
  have cur: "real w cur" "path_starts_with p cur" using closest_ancestor_real [OF r c(1)] fold_join_below [of "rev names" cur] by auto
  show ?thesis by (rule write_granted_below [OF validate_path_granted [OF cur(1) c(2)] cur(2)])
qed

lemma write_other: "real w p \<Longrightarrow> fs_write api p s w = (Inr u, w') \<Longrightarrow> q \<noteq> p \<Longrightarrow> file_at w' q = file_at w q"
  by (drule (1) write_file) simp

lemma run_call_confined:
  assumes r: "real w (call_path c)" and run: "run_call api c t w = (True, t', w')" and q: "q \<noteq> call_path c"
  shows "write_granted api (tf_ops t) (call_path c) w" "file_at w' q = file_at w q"
proof -
  have "write_granted api (tf_ops t) (call_path c) w \<and> file_at w' q = file_at w q"
  proof (cases c)
    case (CallCreate p x)
    with run obtain v w1 where v: "validate_for_creation api (tf_ops t) p w = Inr v" "create_parents api v w = (Inr (), w1)"
      "fs_write api v x w1 = (Inr (), w')"
      by (auto simp: tracked_create_file_def create_file_def split: prod.splits sum.splits)
    have p: "real w p" using r CallCreate by simp
    have vp: "v = p" by (rule creation_real [OF p v(1)])
    note par = create_parents_real [OF p v(2) [unfolded vp]]
    show ?thesis using creation_granted [OF p v(1)] par(1) write_other [OF par(2) [OF p] v(3) [unfolded vp]] q CallCreate by simp
  next
    case (CallWrite p x)
    with run obtain v where v: "fo_validate api (tf_ops t) p Write w = Inr v" "fs_write api v x w = (Inr (), w')"
      by (auto simp: tracked_write_file_def File_Ops.write_file_def split: prod.splits sum.splits)
    have p: "real w p" using r CallWrite by simp
    show ?thesis using validate_granted [OF p v(1)] write_other [OF p v(2) [unfolded validate_real [OF p v(1)]]] q CallWrite by simp
  next
    case (CallEdit p x y)
    with run obtain v a where v: "fo_validate api (tf_ops t) p Write w = Inr v" "fs_write api v a w = (Inr (), w')"
      by (auto simp: tracked_edit_file_def edit_file_def split: prod.splits sum.splits option.splits)
    have p: "real w p" using r CallEdit by simp
    show ?thesis using validate_granted [OF p v(1)] write_other [OF p v(2) [unfolded validate_real [OF p v(1)]]] q CallEdit by simp
  next
    case (CallDelete p)
    with run obtain v where v: "fo_validate api (tf_ops t) p Write w = Inr v" "fs_remove_file api v w = (Inr (), w')"
      by (auto simp: tracked_delete_file_def delete_file_def Let_def split: prod.splits sum.splits)
    have p: "real w p" using r CallDelete by simp
    show ?thesis using validate_granted [OF p v(1)] remove_file [OF p v(2) [unfolded validate_real [OF p v(1)]]] q CallDelete by simp
  qed
  then show "write_granted api (tf_ops t) (call_path c) w" "file_at w' q = file_at w q" by blast+
qed

end

subsection \<open>Properties\<close>


definition tray_fs :: vfs where
  "tray_fs = [([''box''], DirNode), ([''box'', ''f''], FileNode ''old'')]"

definition tray_calls :: "tracked_call list" where
  "tray_calls = [CallWrite (of_names [''box'', ''f'']) ''new'', CallCreate (of_names [''box'', ''d'', ''g'']) ''x'',
     CallDelete (of_names [''box'', ''f''])]"

definition tray_ops :: tracked_ops where
  "tray_ops = tracked_new (fo_new [box_rule])"

definition tray_run :: "bool \<times> tracked_ops \<times> vfs" where
  "tray_run = run_calls vfs_api tray_calls tray_ops tray_fs"

definition tray_undo :: "undo_result list \<times> tracked_ops \<times> vfs" where
  "tray_undo = tracked_undo vfs_api 3 (fst (snd tray_run)) (snd (snd tray_run))"

lemma tray_facts:
  "fst tray_run" "fresh_creates vfs_api vfs_file_at tray_calls tray_ops tray_fs"
  "list_all (\<lambda>r. \<not> isl (snd r)) (fst tray_undo)" "length tray_calls \<le> uh_capacity (tf_history tray_ops)"
  "hm_get (snd (snd tray_run)) [''box'', ''f''] = None"
  by code_simp+

lemma tray_real: "\<forall>c \<in> set tray_calls. vfs_real tray_fs (call_path c)"
proof -
  have "no_links tray_fs ns" for ns by (auto simp: no_links_def tray_fs_def)
  then show ?thesis by (auto simp: tray_calls_def vfs_real_def)
qed


text \<open>
  The creation of a file that exists succeeds and cannot be undone: on any file system that
  keeps the contract, undoing a creation over an existing file removes the file, so that its
  former content is lost.
\<close>

theorem undo_create_loses_file:
  assumes "file_system api file_at real" and "real w p" and "file_at w p = Some content"
    and "tracked_create_file api p x t w = (Inr (), t', w')" and "0 < uh_capacity (tf_history t)"
    and "tracked_undo api 1 t' w' = (rs, t'', w'')" and "\<forall>r \<in> set rs. \<not> isl (snd r)"
  shows "file_at w'' p = None \<and> file_at w p \<noteq> None"
  using file_system.undo_create_removes [OF assms(1,2,4-7)] assms(3) by simp

definition tray_create :: "(string + unit) \<times> tracked_ops \<times> vfs" where
  "tray_create = tracked_create_file vfs_api (of_names [''box'', ''f'']) ''x'' tray_ops tray_fs"

definition tray_uncreate :: "undo_result list \<times> tracked_ops \<times> vfs" where
  "tray_uncreate = tracked_undo vfs_api 1 (fst (snd tray_create)) (snd (snd tray_create))"

lemma tray_create_facts:
  "\<not> isl (fst tray_create)" "list_all (\<lambda>r. \<not> isl (snd r)) (fst tray_uncreate)" "0 < uh_capacity (tf_history tray_ops)"
  "vfs_file_at tray_fs (of_names [''box'', ''f'']) = Some ''old''"
  by code_simp+

theorem undo_create_loses_file_witness:
  "vfs_file_at tray_fs (of_names [''box'', ''f'']) = Some ''old'' \<and>
   vfs_file_at (snd (snd tray_uncreate)) (of_names [''box'', ''f'']) = None"
proof -
  have "fst tray_create = Inr ()" using tray_create_facts(1) by (cases "fst tray_create") simp_all
  then obtain t' w' where cr: "tray_create = (Inr (), t', w')" by (metis prod.collapse)
  obtain rs t'' w'' where un: "tray_uncreate = (rs, t'', w'')" by (metis prod_cases3)
  have "vfs_real tray_fs (of_names [''box'', ''f''])" using tray_real by (simp add: tray_calls_def)
  moreover have "tracked_undo vfs_api 1 t' w' = (rs, t'', w'')" using un [unfolded tray_uncreate_def] unfolding cr by simp
  moreover have "\<forall>r \<in> set rs. \<not> isl (snd r)" using tray_create_facts(2) [unfolded un] by (simp add: list_all_iff)
  ultimately have "vfs_file_at w'' (of_names [''box'', ''f'']) = None"
    using undo_create_loses_file [OF vfs.file_system_axioms _ tray_create_facts(4) cr [unfolded tray_create_def] tray_create_facts(3)]
    by blast
  then show ?thesis unfolding un using tray_create_facts(4) by simp
qed



end
