(* ===== verification/Messaging.thy ===== *)
theory Messaging
  imports Rbac
begin

text \<open>
  Messaging platforms (\<^verbatim>\<open>crates/messaging-integration/src\<close>): the types and the management
  commands of \<^verbatim>\<open>lib.rs\<close>, the session router of \<^verbatim>\<open>session_router.rs\<close>, and identities,
  authorisation, credential checks and delivery of \<^verbatim>\<open>identity.rs\<close>. A bot's
  \<open>send_message\<close> and the HTTP client are parameters; the new identifier of a session is an
  argument. Raw file bytes are a string.
\<close>

datatype platform = Telegram | Discord | WhatsApp

fun platform_debug :: "platform \<Rightarrow> string" where
  "platform_debug Telegram = ''Telegram''"
| "platform_debug Discord = ''Discord''"
| "platform_debug WhatsApp = ''WhatsApp''"

datatype messaging_error =
    ConnectionFailed string | SendFailed string | AuthFailed string | MessagingTimeout | Unauthorized string
  | PlatformError string | ConfigurationError string

fun messaging_error_text :: "messaging_error \<Rightarrow> string" where
  "messaging_error_text (ConnectionFailed e) = ''connection failed: '' @ e"
| "messaging_error_text (SendFailed e) = ''send failed: '' @ e"
| "messaging_error_text (AuthFailed e) = ''authentication failed: '' @ e"
| "messaging_error_text MessagingTimeout = ''timeout: response not sent within deadline''"
| "messaging_error_text (Unauthorized e) = ''unauthorized user: '' @ e"
| "messaging_error_text (PlatformError e) = ''platform error: '' @ e"
| "messaging_error_text (ConfigurationError e) = ''configuration error: '' @ e"

datatype message_content = ContentText string | ContentImage string "string option" | TextWithImage string string

record message_target =
  mt_platform :: platform
  mt_user_id :: string
  mt_channel_id :: "string option"

record platform_status =
  ps_platform :: platform
  ps_connected :: bool
  ps_last_message_at :: "timestamp option"
  ps_error :: "string option"

record incoming_attachment =
  ia_filename :: string
  ia_data :: string

record incoming_message =
  im_platform :: platform
  im_platform_user_id :: string
  im_channel_id :: "string option"
  im_content :: string
  im_timestamp :: timestamp
  im_attachments :: "incoming_attachment list"

subsection \<open>Management commands\<close>

datatype management_command =
    CmdStatus | CmdTasks | CmdMode "string option" | CmdSchedule string | CmdConfig "string option" "string option"

text \<open>\<^verbatim>\<open>splitn(3, ' ')\<close>: at most three parts, the last one the unsplit rest.\<close>

definition split_once :: "string \<Rightarrow> string \<times> string option" where
  "split_once s = (case find_str '' '' s of Some (l, r) \<Rightarrow> (l, Some r) | None \<Rightarrow> (s, None))"

definition splitn3 :: "string \<Rightarrow> string list" where
  "splitn3 s =
     (case split_once s of
        (a, None) \<Rightarrow> [a]
      | (a, Some r) \<Rightarrow> (case split_once r of (b, None) \<Rightarrow> [a, b] | (b, Some c) \<Rightarrow> [a, b, c]))"

lemma drop_prefix_shorter: "pat \<noteq> [] \<Longrightarrow> starts_with_str pat s \<Longrightarrow> length (drop (length pat) s) < length s"
  by (cases s) (auto simp: starts_with_str_def)

text \<open>\<^verbatim>\<open>trim_start_matches(pat)\<close> removes the pattern as often as it is there.\<close>

function trim_start_matches :: "string \<Rightarrow> string \<Rightarrow> string" where
  "trim_start_matches pat s =
     (if pat \<noteq> [] \<and> starts_with_str pat s then trim_start_matches pat (drop (length pat) s) else s)"
  by pat_completeness auto

termination
  by (relation "measure (\<lambda>(pat, s). length s)") (auto dest: drop_prefix_shorter)

declare trim_start_matches.simps [simp del]

definition nth_part :: "string list \<Rightarrow> nat \<Rightarrow> string option" where
  "nth_part parts i = (if i < length parts then Some (parts ! i) else None)"

definition command_parse :: "string \<Rightarrow> management_command option" where
  "command_parse input =
     (let trimmed = str_trim input in
      if \<not> starts_with_str ''!'' trimmed then None
      else let body = drop 1 trimmed; parts = splitn3 body; name = to_lowercase (hd parts) in
        if name = ''status'' then Some CmdStatus
        else if name = ''tasks'' then Some CmdTasks
        else if name = ''mode'' then Some (CmdMode (nth_part parts 1))
        else if name = ''schedule'' then
          Some (CmdSchedule (if length parts > 1 then str_trim (trim_start_matches ''schedule'' body) else []))
        else if name = ''config'' then Some (CmdConfig (nth_part parts 1) (nth_part parts 2))
        else None)"

subsection \<open>Session router\<close>

type_synonym session_router = "(platform \<times> string, session_id) hashmap"

definition router_new :: session_router where
  "router_new = hm_empty"

text \<open>The lookup under the read lock, and the second half under the write lock, which looks
  again.\<close>

definition get_session :: "platform \<Rightarrow> string \<Rightarrow> session_router \<Rightarrow> session_id option" where
  "get_session p u r = hm_get r (p, u)"

definition create_slow :: "session_id \<Rightarrow> platform \<Rightarrow> string \<Rightarrow> session_router \<Rightarrow> session_id \<times> session_router" where
  "create_slow fresh p u r =
     (case hm_get r (p, u) of Some sid \<Rightarrow> (sid, r) | None \<Rightarrow> (fresh, hm_insert (p, u) fresh r))"

definition get_or_create_session :: "session_id \<Rightarrow> platform \<Rightarrow> string \<Rightarrow> session_router \<Rightarrow> session_id \<times> session_router" where
  "get_or_create_session fresh p u r =
     (case get_session p u r of Some sid \<Rightarrow> (sid, r) | None \<Rightarrow> create_slow fresh p u r)"

definition router_remove :: "platform \<Rightarrow> string \<Rightarrow> session_router \<Rightarrow> session_id option \<times> session_router" where
  "router_remove p u r = (hm_get r (p, u), hm_remove (p, u) r)"

definition all_sessions :: "session_router \<Rightarrow> (platform \<times> string \<times> session_id) list" where
  "all_sessions r = map (\<lambda>((p, u), sid). (p, u, sid)) r"

definition session_count :: "session_router \<Rightarrow> nat" where
  "session_count r = hm_len r"

subsection \<open>Identities\<close>

record identity_mapping =
  id_user_id :: user_id
  id_role :: role

record identity_entry =
  ie_platform :: platform
  ie_platform_user_id :: string
  ie_user_id :: user_id
  ie_role :: role

type_synonym identity_mapper = "(platform \<times> string, identity_mapping) hashmap"

definition identity_entries :: "identity_mapper \<Rightarrow> identity_entry list" where
  "identity_entries m =
     map (\<lambda>((p, u), i). \<lparr>ie_platform = p, ie_platform_user_id = u, ie_user_id = id_user_id i, ie_role = id_role i\<rparr>) m"

definition identity_from_entries :: "identity_entry list \<Rightarrow> identity_mapper" where
  "identity_from_entries es =
     fold (\<lambda>e. hm_insert (ie_platform e, ie_platform_user_id e) \<lparr>id_user_id = ie_user_id e, id_role = ie_role e\<rparr>) es hm_empty"

definition add_mapping :: "platform \<Rightarrow> string \<Rightarrow> user_id \<Rightarrow> role \<Rightarrow> identity_mapper \<Rightarrow> identity_mapper" where
  "add_mapping p u i ro m = hm_insert (p, u) \<lparr>id_user_id = i, id_role = ro\<rparr> m"

definition remove_mapping :: "platform \<Rightarrow> string \<Rightarrow> identity_mapper \<Rightarrow> identity_mapping option \<times> identity_mapper" where
  "remove_mapping p u m = (hm_get m (p, u), hm_remove (p, u) m)"

definition get_user_id :: "platform \<Rightarrow> string \<Rightarrow> identity_mapper \<Rightarrow> identity_mapping option" where
  "get_user_id p u m = hm_get m (p, u)"

text \<open>The text of an \<open>InsufficientPermissions\<close> error inside the refusal is left to the
  parameter \<open>show_error\<close>.\<close>

definition authorize_message :: "(security_error \<Rightarrow> string) \<Rightarrow> identity_mapper \<Rightarrow> incoming_message \<Rightarrow> messaging_error + user_id" where
  "authorize_message show_error m im =
     (case get_user_id (im_platform im) (im_platform_user_id im) m of
        None \<Rightarrow>
          Inl (Unauthorized (''User '' @ [CHR 0x27] @ im_platform_user_id im @ [CHR 0x27] @ '' on '' @ platform_debug (im_platform im) @
            '' is not mapped to an authorized operator account''))
      | Some i \<Rightarrow>
          (case authorize (id_role i) SendMessages of
             Inl e \<Rightarrow> Inl (Unauthorized (''User does not have permission to send messages: '' @ show_error e))
           | Inr _ \<Rightarrow> Inr (id_user_id i)))"

subsection \<open>Credentials\<close>

text \<open>The test connection: building the client fails, the request fails, or it answers with a
  status text and whether the status is a success. The arguments are the URL and the
  authorisation header.\<close>

datatype http_answer = ClientError string | RequestError string | Answered bool string

definition test_connection :: "string \<Rightarrow> http_answer \<Rightarrow> messaging_error + unit" where
  "test_connection name answer =
     (case answer of
        ClientError e \<Rightarrow> Inl (ConnectionFailed (''HTTP client error: '' @ e))
      | RequestError e \<Rightarrow> Inl (ConnectionFailed (name @ '' connection failed: '' @ e))
      | Answered ok status \<Rightarrow>
          if ok then Inr () else Inl (AuthFailed (name @ '' credential validation failed with status '' @ status)))"

definition config_field :: "string \<Rightarrow> json \<Rightarrow> string \<Rightarrow> messaging_error + string" where
  "config_field name config field =
     (case get_str config field of
        Some s \<Rightarrow> Inr s
      | None \<Rightarrow> Inl (ConfigurationError (''Missing '' @ [CHR 0x27] @ field @ [CHR 0x27] @ '' in '' @ name @ '' config'')))"

definition validate_telegram_credentials :: "(string \<Rightarrow> string option \<Rightarrow> http_answer) \<Rightarrow> json \<Rightarrow> messaging_error + unit" where
  "validate_telegram_credentials http config =
     (case config_field ''Telegram'' config ''bot_token'' of
        Inl e \<Rightarrow> Inl e
      | Inr token \<Rightarrow>
          if token = [] then Inl (ConfigurationError ''Telegram bot_token cannot be empty'')
          else test_connection ''Telegram'' (http (''https://api.telegram.org/bot'' @ token @ ''/getMe'') None))"

definition validate_discord_credentials :: "(string \<Rightarrow> string option \<Rightarrow> http_answer) \<Rightarrow> json \<Rightarrow> messaging_error + unit" where
  "validate_discord_credentials http config =
     (case config_field ''Discord'' config ''bot_token'' of
        Inl e \<Rightarrow> Inl e
      | Inr token \<Rightarrow>
          if token = [] then Inl (ConfigurationError ''Discord bot_token cannot be empty'')
          else test_connection ''Discord'' (http ''https://discord.com/api/v10/users/@me'' (Some (''Bot '' @ token))))"

definition validate_whatsapp_credentials :: "(string \<Rightarrow> string option \<Rightarrow> http_answer) \<Rightarrow> json \<Rightarrow> messaging_error + unit" where
  "validate_whatsapp_credentials http config =
     (case config_field ''WhatsApp'' config ''phone_number_id'' of
        Inl e \<Rightarrow> Inl e
      | Inr phone \<Rightarrow>
          (case config_field ''WhatsApp'' config ''access_token'' of
             Inl e \<Rightarrow> Inl e
           | Inr token \<Rightarrow>
               if phone = [] \<or> token = [] then
                 Inl (ConfigurationError ''WhatsApp phone_number_id and access_token cannot be empty'')
               else test_connection ''WhatsApp'' (http (''https://graph.facebook.com/v18.0/'' @ phone) (Some (''Bearer '' @ token)))))"

fun validate_credentials :: "(string \<Rightarrow> string option \<Rightarrow> http_answer) \<Rightarrow> platform \<Rightarrow> json \<Rightarrow> messaging_error + unit" where
  "validate_credentials http Telegram config = validate_telegram_credentials http config"
| "validate_credentials http Discord config = validate_discord_credentials http config"
| "validate_credentials http WhatsApp config = validate_whatsapp_credentials http config"

subsection \<open>Delivery\<close>

text \<open>\<open>n\<close> retries are left; the world gives the bot's answers, and \<open>slp\<close> is the sleep.\<close>

fun send_loop :: "('w \<Rightarrow> (messaging_error + unit) \<times> 'w) \<Rightarrow> ('w \<Rightarrow> 'w) \<Rightarrow> nat \<Rightarrow> 'w \<Rightarrow> (messaging_error + unit) \<times> 'w" where
  "send_loop send slp 0 w = send w"
| "send_loop send slp (Suc n) w =
     (case send w of (Inr _, w1) \<Rightarrow> (Inr (), w1) | (Inl _, w1) \<Rightarrow> send_loop send slp n (slp w1))"

definition send_with_retry :: "('w \<Rightarrow> (messaging_error + unit) \<times> 'w) \<Rightarrow> ('w \<Rightarrow> 'w) \<Rightarrow> u32 \<Rightarrow> 'w \<Rightarrow> (messaging_error + unit) \<times> 'w" where
  "send_with_retry send slp retries w =
     (case send_loop send slp (unat retries) w of
        (Inr _, w1) \<Rightarrow> (Inr (), w1)
      | (Inl e, w1) \<Rightarrow>
          (Inl (SendFailed (''Delivery failed after '' @ show_nat (unat retries) @ '' retries: '' @ messaging_error_text e)), w1))"

subsection \<open>Correctness of the session router\<close>

text \<open>Concurrent callers of \<open>get_or_create_session\<close> interleave between the lookup under the read
  lock and the second half under the write lock: a run is a sequence of these halves and of
  removals, each with the answer its caller gets.\<close>

datatype router_event =
    RLookup platform string
  | RCreate session_id platform string
  | RRemove platform string

fun router_apply :: "router_event \<Rightarrow> session_router \<Rightarrow> session_id option \<times> session_router" where
  "router_apply (RLookup p u) r = (get_session p u r, r)"
| "router_apply (RCreate fresh p u) r = (let (sid, r') = create_slow fresh p u r in (Some sid, r'))"
| "router_apply (RRemove p u) r = router_remove p u r"

fun router_run :: "router_event list \<Rightarrow> session_router \<Rightarrow> (router_event \<times> session_id option) list \<times> session_router" where
  "router_run [] r = ([], r)"
| "router_run (e # es) r =
     (let (a, r1) = router_apply e r; (as, r2) = router_run es r1 in ((e, a) # as, r2))"

fun event_user :: "router_event \<Rightarrow> platform \<times> string" where
  "event_user (RLookup p u) = (p, u)"
| "event_user (RCreate fresh p u) = (p, u)"
| "event_user (RRemove p u) = (p, u)"

fun event_fresh :: "router_event \<Rightarrow> session_id list" where
  "event_fresh (RCreate fresh p u) = [fresh]"
| "event_fresh _ = []"

text \<open>No two platform users have the same session.\<close>

definition isolated :: "session_router \<Rightarrow> bool" where
  "isolated r \<longleftrightarrow> inj_on (hm_get r) (hm_keys r)"

lemma isolated_iff: "isolated r \<longleftrightarrow> (\<forall>k k' sid. hm_get r k = Some sid \<and> hm_get r k' = Some sid \<longrightarrow> k = k')"
proof -
  have keys: "k \<in> hm_keys r \<longleftrightarrow> (\<exists>sid. hm_get r k = Some sid)" for k
    unfolding hm.keys_lookup by blast
  show ?thesis unfolding isolated_def inj_on_def Ball_def keys by metis
qed

lemma create_slow_get:
  "hm_get (snd (create_slow f p u r)) k =
     (if k = (p, u) then Some (fst (create_slow f p u r)) else hm_get r k)"
  by (auto simp: create_slow_def split: option.splits)

lemma router_apply_keeps:
  assumes "hm_get r k = Some sid" and "e \<noteq> RRemove (fst k) (snd k)"
  shows "hm_get (snd (router_apply e r)) k = Some sid"
    and "event_user e = k \<Longrightarrow> fst (router_apply e r) = Some sid"
  using assms
  by (cases e; auto simp: get_session_def create_slow_def router_remove_def split: option.splits)+

lemma router_run_keeps:
  assumes "hm_get r (p, u) = Some sid" and "RRemove p u \<notin> set es"
  shows "(e, a) \<in> set (fst (router_run es r)) \<Longrightarrow> event_user e = (p, u) \<Longrightarrow> a = Some sid"
  using assms
proof (induction es arbitrary: r)
  case Nil
  then show ?case by simp
next
  case (Cons x xs)
  have "x \<noteq> RRemove p u" using Cons.prems by auto
  with Cons.prems router_apply_keeps [of r "(p, u)" sid x]
  have keep: "hm_get (snd (router_apply x r)) (p, u) = Some sid"
    and ans: "event_user x = (p, u) \<Longrightarrow> fst (router_apply x r) = Some sid"
    by auto
  from Cons.prems Cons.IH [OF _ _ keep] ans show ?case
    by (auto simp: Let_def split: prod.splits)
qed

lemma router_apply_isolated:
  assumes "isolated r" and "set (event_fresh e) \<inter> ran (hm_get r) = {}"
  shows "isolated (snd (router_apply e r))"
    and "ran (hm_get (snd (router_apply e r))) \<subseteq> set (event_fresh e) \<union> ran (hm_get r)"
  using assms
  by (cases e; auto simp: isolated_iff create_slow_def router_remove_def ran_def split: option.splits if_splits)+

lemma router_run_isolated:
  assumes "isolated r" and "distinct (concat (map event_fresh es))"
    and "set (concat (map event_fresh es)) \<inter> ran (hm_get r) = {}"
  shows "isolated (snd (router_run es r))"
  using assms
proof (induction es arbitrary: r)
  case Nil
  then show ?case by simp
next
  case (Cons x xs)
  have x: "set (event_fresh x) \<inter> ran (hm_get r) = {}" using Cons.prems(3) by auto
  note step = router_apply_isolated [OF Cons.prems(1) x]
  have "set (concat (map event_fresh xs)) \<inter> ran (hm_get (snd (router_apply x r))) = {}"
    using Cons.prems(2,3) step(2) by auto
  with Cons.IH [OF step(1)] Cons.prems(2) have "isolated (snd (router_run xs (snd (router_apply x r))))"
    by simp
  then show ?case by (simp add: case_prod_beta Let_def)
qed

lemma router_run_get:
  assumes "hm_get r (p, u) = Some sid" and "RRemove p u \<notin> set es"
  shows "hm_get (snd (router_run es r)) (p, u) = Some sid"
  using assms
proof (induction es arbitrary: r)
  case Nil
  then show ?case by simp
next
  case (Cons x xs)
  then have "hm_get (snd (router_apply x r)) (p, u) = Some sid"
    by (intro router_apply_keeps(1)) auto
  with Cons.IH Cons.prems(2) show ?case by (simp add: case_prod_beta Let_def)
qed

text \<open>
  C29: message routing by concurrent callers. Once a platform user has been given a session, every
  lookup or creation for that user returns the same session until it is removed, however the
  callers' halves interleave; and when the generated identifiers are all new, two different
  users never share a session.
\<close>

theorem session_routing_stable_isolated:
  assumes create: "create_slow fresh p u r = (sid, r1)"
    and kept: "RRemove p u \<notin> set es"
    and ids: "distinct (fresh # concat (map event_fresh es))"
      "set (fresh # concat (map event_fresh es)) \<inter> ran (hm_get r) = {}"
    and iso: "isolated r"
  shows "(\<forall>(e, a) \<in> set (fst (router_run es r1)). event_user e = (p, u) \<longrightarrow> a = Some sid)
    \<and> get_session p u (snd (router_run es r1)) = Some sid
    \<and> (\<forall>q v. get_session q v (snd (router_run es r1)) = Some sid \<longrightarrow> (q, v) = (p, u))"
proof -
  have sid: "hm_get r1 (p, u) = Some sid" using create_slow_get [of fresh p u r "(p, u)"] create by simp
  have r1: "router_apply (RCreate fresh p u) r = (Some sid, r1)" using create by simp
  have "isolated (snd (router_run (RCreate fresh p u # es) r))"
    using ids iso by (intro router_run_isolated) auto
  then have iso_end: "isolated (snd (router_run es r1))"
    unfolding router_run.simps r1 by (simp add: case_prod_beta)
  have last: "get_session p u (snd (router_run es r1)) = Some sid"
    unfolding get_session_def using router_run_get [OF sid kept] .
  with iso_end have "\<forall>q v. get_session q v (snd (router_run es r1)) = Some sid \<longrightarrow> (q, v) = (p, u)"
    unfolding isolated_iff get_session_def by blast
  moreover have "\<forall>(e, a) \<in> set (fst (router_run es r1)). event_user e = (p, u) \<longrightarrow> a = Some sid"
    using router_run_keeps [OF sid kept] by blast
  ultimately show ?thesis using last by blast
qed

theorem session_routing_stable_isolated_witness:
  "fst (create_slow 7 Telegram ''ann'' router_new) = 7
   \<and> get_session Telegram ''ann'' (snd (router_run
       [RLookup Telegram ''ann'', RCreate 8 Telegram ''ann'', RCreate 9 Discord ''ann'']
       (snd (create_slow 7 Telegram ''ann'' router_new)))) = Some 7"
proof -
  have create: "create_slow 7 Telegram ''ann'' router_new = (7, [((Telegram, ''ann''), 7)])"
    by (simp add: create_slow_def router_new_def hm_empty_def hm_insert_def)
  show ?thesis
    using session_routing_stable_isolated [OF create,
      of "[RLookup Telegram ''ann'', RCreate 8 Telegram ''ann'', RCreate 9 Discord ''ann'']"]
    unfolding create by (simp add: router_new_def isolated_iff ran_def)
qed

subsection \<open>Correctness of identities, commands and delivery\<close>

lemma hm_get_fold_insert:
  "hm_inv m \<Longrightarrow> hm_get (fold (\<lambda>(k, v). hm_insert k v) m r) k = (case hm_get m k of Some v \<Rightarrow> Some v | None \<Rightarrow> hm_get r k)"
proof (induction m arbitrary: r)
  case Nil
  then show ?case by simp
next
  case (Cons x m)
  obtain a b where x: "x = (a, b)" by (cases x)
  have inv: "hm_inv m" and none: "hm_get m a = None"
    using Cons.prems x by (auto simp: hm_inv_def map_of_eq_None_iff)
  show ?case using Cons.IH [OF inv] none x by (auto split: option.splits)
qed

text \<open>The identity file written by the mapper reads back as the same mapping.\<close>

theorem identity_file_round_trip:
  assumes "hm_inv m"
  shows "get_user_id p u (identity_from_entries (identity_entries m)) = get_user_id p u m"
proof -
  have rec: "\<lparr>id_user_id = id_user_id i, id_role = id_role i\<rparr> = i" for i :: identity_mapping
    by simp
  have "identity_from_entries (identity_entries m) = fold (\<lambda>(k, v). hm_insert k v) m hm_empty"
    unfolding identity_from_entries_def identity_entries_def fold_map
    by (rule fold_cong) (auto simp: fun_eq_iff rec simp del: identity_mapping.surjective)
  then show ?thesis
    using hm_get_fold_insert [OF assms, of hm_empty] by (auto simp: get_user_id_def split: option.split)
qed

text \<open>A message is accepted exactly from a mapped user whose role may send messages.\<close>

theorem authorize_message_iff:
  "authorize_message se m im = Inr uid \<longleftrightarrow>
     (\<exists>i. get_user_id (im_platform im) (im_platform_user_id im) m = Some i
        \<and> id_user_id i = uid \<and> required_role SendMessages \<le> id_role i)"
  by (auto simp: authorize_message_def authorize_iff split: option.splits if_splits)

text \<open>The command word is recognised in any case, but only the lower-case word is removed from the
  text of a schedule command.\<close>

lemma schedule_command_case:
  "command_parse ''!schedule at noon'' = Some (CmdSchedule ''at noon'')"
  "command_parse ''!Schedule at noon'' = Some (CmdSchedule ''Schedule at noon'')"
  by code_simp+

text \<open>Delivery to a bot whose \<open>i\<close>-th call answers \<open>answers i\<close>: the message is delivered exactly
  when one of the first attempt and the allowed retries succeeds.\<close>

definition scripted_bot :: "(nat \<Rightarrow> messaging_error + unit) \<Rightarrow> nat \<Rightarrow> (messaging_error + unit) \<times> nat" where
  "scripted_bot answers i = (answers i, Suc i)"

lemma send_loop_scripted:
  "fst (send_loop (scripted_bot answers) id n i) = Inr () \<longleftrightarrow> (\<exists>j \<le> n. answers (i + j) = Inr ())"
proof (induction n arbitrary: i)
  case 0
  show ?case by (simp add: scripted_bot_def)
next
  case (Suc n)
  have split: "(\<exists>j \<le> Suc n. P j) \<longleftrightarrow> P 0 \<or> (\<exists>j \<le> n. P (Suc j))" for P :: "nat \<Rightarrow> bool"
    by (metis Suc_le_mono less_eq_nat.simps(1) not0_implies_Suc)
  show ?case using Suc.IH [of "Suc i"]
    by (auto simp: scripted_bot_def split [of "\<lambda>j. answers (i + j) = Inr ()"] split: sum.splits)
qed

theorem send_with_retry_delivers_iff:
  "fst (send_with_retry (scripted_bot answers) id retries 0) = Inr () \<longleftrightarrow> (\<exists>j \<le> unat retries. answers j = Inr ())"
  using send_loop_scripted [of answers "unat retries" 0]
  by (auto simp: send_with_retry_def split: prod.splits sum.splits)

end
