(* ===== verification/Rust_Text.thy ===== *)
theory Rust_Text
  imports Rust_Strings
begin

text \<open>
  More of \<^verbatim>\<open>str\<close>, for line-based texts: \<open>lines\<close>, \<open>join\<close>, \<open>split_whitespace\<close>, \<open>split_once\<close>,
  \<open>contains\<close> and trimming by a single character, with the laws of printing and splitting.
\<close>

abbreviation newline :: char where
  "newline \<equiv> CHR 0x0A"

definition str_contains :: "string \<Rightarrow> string \<Rightarrow> bool" where
  "str_contains s pat \<longleftrightarrow> find_str pat s \<noteq> None"

definition trim_start_char :: "char \<Rightarrow> string \<Rightarrow> string" where
  "trim_start_char c s = dropWhile (\<lambda>x. x = c) s"

definition trim_end_char :: "char \<Rightarrow> string \<Rightarrow> string" where
  "trim_end_char c s = rev (dropWhile (\<lambda>x. x = c) (rev s))"

text \<open>\<^verbatim>\<open>lines()\<close>: the parts between newlines, without a final empty one and without a carriage
  return before a newline.\<close>

definition strip_cr :: "string \<Rightarrow> string" where
  "strip_cr s = (if s \<noteq> [] \<and> last s = CHR 0x0D then butlast s else s)"

fun lines_of :: "string list \<Rightarrow> string list" where
  "lines_of [] = []"
| "lines_of [p] = (if p = [] then [] else [p])"
| "lines_of (p # ps) = strip_cr p # lines_of ps"

definition str_lines :: "string \<Rightarrow> string list" where
  "str_lines s = lines_of (split_char newline s)"

fun join_with :: "string \<Rightarrow> string list \<Rightarrow> string" where
  "join_with sep [] = []"
| "join_with sep [s] = s"
| "join_with sep (s # ss) = s @ sep @ join_with sep ss"

fun take_words :: "string \<Rightarrow> string \<Rightarrow> string list" where
  "take_words word [] = (if word = [] then [] else [word])"
| "take_words word (c # cs) =
     (if is_ws c then (if word = [] then take_words [] cs else word # take_words [] cs)
      else take_words (word @ [c]) cs)"

definition split_whitespace :: "string \<Rightarrow> string list" where
  "split_whitespace s = take_words [] s"

subsection \<open>Laws\<close>

lemma split_char_no_sep: "d \<notin> set s \<Longrightarrow> split_char d s = [s]"
  by (induction s) auto

lemma split_char_append: "d \<notin> set s \<Longrightarrow> split_char d (s @ d # r) = s # split_char d r"
  by (induction s) auto

lemma split_char_nonempty [simp]: "split_char d s \<noteq> []"
  by (induction s) (auto split: list.splits)

lemma split_char_join:
  "ps \<noteq> [] \<Longrightarrow> \<forall>p \<in> set ps. d \<notin> set p \<Longrightarrow> split_char d (join_with [d] ps) = ps"
proof (induction ps rule: induct_list012)
  case (2 p)
  then show ?case by (simp add: split_char_no_sep)
next
  case (3 p q ps)
  then show ?case by (simp add: split_char_append)
qed simp

lemma lines_of_id:
  "\<forall>p \<in> set ps. strip_cr p = p \<Longrightarrow> last ps \<noteq> [] \<Longrightarrow> lines_of ps = ps"
  by (induction ps rule: lines_of.induct) auto

lemma str_lines_join:
  assumes "ps \<noteq> []" and "\<forall>p \<in> set ps. newline \<notin> set p \<and> strip_cr p = p" and "last ps \<noteq> []"
  shows "str_lines (join_with [newline] ps) = ps"
  using assms by (simp add: str_lines_def split_char_join lines_of_id)

lemma trim_start_char_id: "s = [] \<or> hd s \<noteq> c \<Longrightarrow> trim_start_char c s = s"
  by (cases s) (auto simp: trim_start_char_def)

lemma trim_end_char_id: "s = [] \<or> last s \<noteq> c \<Longrightarrow> trim_end_char c s = s"
  by (cases s rule: rev_cases) (auto simp: trim_end_char_def)

lemma str_trim_Nil [simp]: "str_trim [] = []"
  by (simp add: str_trim_def)

text \<open>A pattern that starts with a newline is first found at the first line that begins with its
  rest.\<close>

lemma find_skip_line:
  assumes "newline \<notin> set p" and "\<not> starts_with_str pat X"
  shows "find_str (newline # pat) (p @ newline # X) =
    map_option (\<lambda>(l, r). (p @ newline # l, r)) (find_str (newline # pat) X)"
  using assms
proof (induction p)
  case Nil
  then show ?case by (simp add: starts_with_str_def)
next
  case (Cons c p)
  then have "\<not> starts_with_str (newline # pat) ((c # p) @ newline # X)" by (auto simp: starts_with_str_def)
  with Cons show ?case by (simp add: option.map_comp comp_def case_prod_beta)
qed

lemma line_not_pat:
  assumes "newline \<notin> set pat" and "\<not> starts_with_str pat q"
  shows "\<not> starts_with_str pat (q @ newline # X)"
proof
  assume h: "starts_with_str pat (q @ newline # X)"
  show False
  proof (cases "length pat \<le> length q")
    case True
    then show False using h assms(2) by (simp add: starts_with_str_def)
  next
    case False
    then have "pat = q @ take (length pat - length q) (newline # X)" using h by (simp add: starts_with_str_def)
    moreover obtain k where "length pat - length q = Suc k" using False by (metis Suc_diff_Suc not_le)
    ultimately show False using assms(1) by (metis in_set_conv_decomp take_Suc_Cons)
  qed
qed

lemma find_newline_pat:
  assumes "\<forall>p \<in> set ps. newline \<notin> set p" and "\<forall>p \<in> set (tl ps). \<not> starts_with_str pat p"
    and "newline \<notin> set pat" and "ps \<noteq> []"
  shows "find_str (newline # pat) (join_with [newline] ps @ newline # pat @ r) = Some (join_with [newline] ps, r)"
  using assms
proof (induction ps rule: induct_list012)
  case (2 p)
  have here: "find_str (newline # pat) (newline # pat @ r) = Some ([], r)" by (simp add: starts_with_str_def)
  have "find_str (newline # pat) (p @ newline # pat @ r) = Some (p, r)" if "newline \<notin> set p" for p
    using that here by (induction p) (auto simp: starts_with_str_def)
  then show ?case using 2 by simp
next
  case (3 p q ps)
  let ?X = "join_with [newline] (q # ps) @ newline # pat @ r"
  have IH: "find_str (newline # pat) ?X = Some (join_with [newline] (q # ps), r)"
    using 3 by (intro "3.IH"(2)) auto
  obtain Y where X: "?X = q @ newline # Y" by (cases ps) auto
  have "\<not> starts_with_str pat ?X" unfolding X using 3 by (intro line_not_pat) auto
  then have "find_str (newline # pat) (p @ newline # ?X) = Some (p @ newline # join_with [newline] (q # ps), r)"
    using find_skip_line [of p pat ?X] IH 3 by simp
  then show ?case by simp
qed simp

end
