(* ===== verification/Skill_Doc.thy ===== *)
theory Skill_Doc
  imports Rust_Text
begin

text \<open>
  Skill documents (\<^verbatim>\<open>crates/skills/src/skill.rs\<close>): the front matter between two \<^verbatim>\<open>---\<close> lines
  and the body, parsed and rendered. The RFC 3339 conversions of \<^verbatim>\<open>chrono\<close> are a parameter; the
  two readings of the clock are arguments.
\<close>

record rfc3339 =
  rfc_parse :: "string \<Rightarrow> timestamp option"
  rfc_show :: "timestamp \<Rightarrow> string"

datatype skill_error =
    InvalidFrontMatter string
  | MissingField string
  | SkillIo string

record skill_front_matter =
  sk_name :: string
  sk_description :: string
  sk_created_at :: timestamp
  sk_updated_at :: timestamp
  sk_use_count :: u64
  sk_last_used :: "timestamp option"
  sk_tags :: "string list"

record skill_doc =
  sd_front_matter :: skill_front_matter
  sd_body :: string

definition strip_quotes :: "string \<Rightarrow> string" where
  "strip_quotes s0 =
     (let s = str_trim s0 in
      if 2 \<le> length s \<and>
         ((starts_with_str [CHR 0x22] s \<and> ends_with_str s [CHR 0x22]) \<or>
          (starts_with_str [CHR 0x27] s \<and> ends_with_str s [CHR 0x27]))
      then take (length s - 2) (drop 1 s) else s)"

definition parse_dt_or_err :: "rfc3339 \<Rightarrow> string \<Rightarrow> string \<Rightarrow> skill_error + timestamp" where
  "parse_dt_or_err api key value =
     (case rfc_parse api (str_trim value) of
        Some t \<Rightarrow> Inr t
      | None \<Rightarrow> Inl (InvalidFrontMatter (''invalid '' @ key @ '': '' @ value)))"

definition parse_tag_list :: "string \<Rightarrow> string list" where
  "parse_tag_list value0 =
     (let value = str_trim value0 in
      if value = ''[]'' \<or> value = [] then []
      else let inner = trim_end_char (CHR 0x5D) (trim_start_char (CHR 0x5B) value)
           in filter (\<lambda>s. s \<noteq> []) (map (\<lambda>s. strip_quotes (str_trim s)) (split_char (CHR '','') inner)))"

text \<open>The variables of \<open>parse_front_matter\<close>.\<close>

record fm_acc =
  fa_name :: "string option"
  fa_description :: "string option"
  fa_created_at :: "timestamp option"
  fa_updated_at :: "timestamp option"
  fa_use_count :: u64
  fa_last_used :: "timestamp option"
  fa_tags :: "string list"

definition set_field :: "rfc3339 \<Rightarrow> string \<Rightarrow> string \<Rightarrow> fm_acc \<Rightarrow> skill_error + fm_acc" where
  "set_field api key value acc =
     (if key = ''name'' then Inr (acc\<lparr>fa_name := Some (strip_quotes value)\<rparr>)
      else if key = ''description'' then Inr (acc\<lparr>fa_description := Some (strip_quotes value)\<rparr>)
      else if key = ''created_at'' then
        (if value = [] then Inr acc
         else map_sum id (\<lambda>t. acc\<lparr>fa_created_at := Some t\<rparr>) (parse_dt_or_err api key value))
      else if key = ''updated_at'' then
        (if value = [] then Inr acc
         else map_sum id (\<lambda>t. acc\<lparr>fa_updated_at := Some t\<rparr>) (parse_dt_or_err api key value))
      else if key = ''use_count'' then
        (if value = [] then Inr acc
         else (case parse_uint 64 value of
                 Some n \<Rightarrow> Inr (acc\<lparr>fa_use_count := of_nat n\<rparr>)
               | None \<Rightarrow> Inl (InvalidFrontMatter (''invalid use_count: '' @ value))))
      else if key = ''last_used'' then
        (if value = ''null'' \<or> value = ''~'' \<or> value = [] then Inr acc
         else map_sum id (\<lambda>t. acc\<lparr>fa_last_used := Some t\<rparr>) (parse_dt_or_err api key value))
      else if key = ''tags'' then Inr (acc\<lparr>fa_tags := parse_tag_list value\<rparr>)
      else Inr acc)"

definition parse_fm_line :: "rfc3339 \<Rightarrow> string \<Rightarrow> fm_acc \<Rightarrow> skill_error + fm_acc" where
  "parse_fm_line api line acc =
     (case find_str '':'' (str_trim line) of
        None \<Rightarrow> Inr acc
      | Some (l, r) \<Rightarrow> set_field api (str_trim l) (str_trim r) acc)"

fun parse_fm_lines :: "rfc3339 \<Rightarrow> string list \<Rightarrow> fm_acc \<Rightarrow> skill_error + fm_acc" where
  "parse_fm_lines api [] acc = Inr acc"
| "parse_fm_lines api (l # ls) acc =
     (case parse_fm_line api l acc of Inl e \<Rightarrow> Inl e | Inr acc' \<Rightarrow> parse_fm_lines api ls acc')"

definition fm_start :: fm_acc where
  "fm_start = \<lparr>fa_name = None, fa_description = None, fa_created_at = None, fa_updated_at = None,
     fa_use_count = 0, fa_last_used = None, fa_tags = []\<rparr>"

definition or_now :: "timestamp option \<Rightarrow> timestamp \<Rightarrow> timestamp" where
  "or_now d now = (case d of Some t \<Rightarrow> t | None \<Rightarrow> now)"

definition parse_front_matter :: "rfc3339 \<Rightarrow> timestamp \<Rightarrow> timestamp \<Rightarrow> string \<Rightarrow> skill_error + skill_front_matter" where
  "parse_front_matter api now1 now2 yaml =
     (case parse_fm_lines api (str_lines yaml) fm_start of
        Inl e \<Rightarrow> Inl e
      | Inr acc \<Rightarrow>
          (case fa_name acc of
             None \<Rightarrow> Inl (MissingField ''name'')
           | Some n \<Rightarrow>
               (case fa_description acc of
                  None \<Rightarrow> Inl (MissingField ''description'')
                | Some d \<Rightarrow>
                    Inr \<lparr>sk_name = n, sk_description = d, sk_created_at = or_now (fa_created_at acc) now1,
                         sk_updated_at = or_now (fa_updated_at acc) now2, sk_use_count = fa_use_count acc,
                         sk_last_used = fa_last_used acc, sk_tags = fa_tags acc\<rparr>)))"

definition skill_parse :: "rfc3339 \<Rightarrow> timestamp \<Rightarrow> timestamp \<Rightarrow> string \<Rightarrow> skill_error + skill_doc" where
  "skill_parse api now1 now2 content =
     (let s = trim_start content in
      if \<not> starts_with_str ''---'' s then Inl (InvalidFrontMatter ''expected opening ---'')
      else
        let after_open = (case find_str [newline] (drop 3 s) of Some (_, r) \<Rightarrow> r | None \<Rightarrow> [])
        in case find_str (newline # ''---'') after_open of
             None \<Rightarrow> Inl (InvalidFrontMatter ''missing closing ---'')
           | Some (yaml, after_close) \<Rightarrow>
               (case parse_front_matter api now1 now2 yaml of
                  Inl e \<Rightarrow> Inl e
                | Inr fm \<Rightarrow> Inr \<lparr>sd_front_matter = fm, sd_body = trim_start_char newline after_close\<rparr>))"

definition tags_text :: "string list \<Rightarrow> string" where
  "tags_text tags = (if tags = [] then ''[]'' else ''['' @ join_with '', '' tags @ '']'')"

definition header_lines :: "rfc3339 \<Rightarrow> skill_front_matter \<Rightarrow> string list" where
  "header_lines api fm =
     [''name: '' @ sk_name fm,
      ''description: '' @ sk_description fm,
      ''created_at: '' @ rfc_show api (sk_created_at fm),
      ''updated_at: '' @ rfc_show api (sk_updated_at fm),
      ''use_count: '' @ show_nat (unat (sk_use_count fm)),
      ''last_used: '' @ (case sk_last_used fm of Some t \<Rightarrow> rfc_show api t | None \<Rightarrow> ''null''),
      ''tags: '' @ tags_text (sk_tags fm)]"

definition skill_render :: "rfc3339 \<Rightarrow> skill_doc \<Rightarrow> string" where
  "skill_render api doc =
     ''---'' @ [newline] @ join_with [newline] (header_lines api (sd_front_matter doc)) @
     [newline] @ ''---'' @ [newline, newline] @ sd_body doc"

definition skill_new :: "timestamp \<Rightarrow> string \<Rightarrow> string \<Rightarrow> string \<Rightarrow> skill_doc" where
  "skill_new now name description body =
     \<lparr>sd_front_matter = \<lparr>sk_name = name, sk_description = description, sk_created_at = now, sk_updated_at = now,
        sk_use_count = 0, sk_last_used = None, sk_tags = []\<rparr>, sd_body = body\<rparr>"

subsection \<open>Printing and parsing\<close>

text \<open>What \<^verbatim>\<open>chrono\<close> documents of its RFC 3339 conversions, for whole seconds of the years 1970 to
  9999.\<close>

definition whole_second :: "timestamp \<Rightarrow> bool" where
  "whole_second t \<longleftrightarrow> 0 \<le> t \<and> t < seconds 253402300800 \<and> t mod seconds 1 = 0"

definition rfc_laws :: "rfc3339 \<Rightarrow> bool" where
  "rfc_laws api \<longleftrightarrow> (\<forall>t. whole_second t \<longrightarrow>
     rfc_parse api (rfc_show api t) = Some t \<and> rfc_show api t \<noteq> [] \<and> is_digit_char (hd (rfc_show api t)) \<and>
     list_all (\<lambda>c. \<not> is_ws c) (rfc_show api t))"

text \<open>Texts that survive: on one line, without surrounding blanks or quotes.\<close>

definition plain_value :: "string \<Rightarrow> bool" where
  "plain_value s \<longleftrightarrow> newline \<notin> set s \<and> strip_quotes s = s"

definition plain_tags :: "string list \<Rightarrow> bool" where
  "plain_tags ts \<longleftrightarrow> (\<forall>t \<in> set ts. t \<noteq> [] \<and> plain_value t \<and> CHR '','' \<notin> set t) \<and>
     (ts \<noteq> [] \<longrightarrow> hd (hd ts) \<noteq> CHR 0x5B \<and> last (last ts) \<noteq> CHR 0x5D)"

definition renderable :: "skill_doc \<Rightarrow> bool" where
  "renderable doc \<longleftrightarrow>
     (let fm = sd_front_matter doc in
      plain_value (sk_name fm) \<and> plain_value (sk_description fm) \<and> whole_second (sk_created_at fm) \<and>
      whole_second (sk_updated_at fm) \<and> (\<forall>t. sk_last_used fm = Some t \<longrightarrow> whole_second t) \<and> plain_tags (sk_tags fm) \<and>
      (sd_body doc = [] \<or> hd (sd_body doc) \<noteq> newline))"

lemma strip_quotes_trimmed: "strip_quotes s = s \<Longrightarrow> str_trim s = s"
proof -
  assume h: "strip_quotes s = s"
  show ?thesis
  proof (rule ccontr)
    assume ne: "str_trim s \<noteq> s"
    then have "strip_quotes s = take (length (str_trim s) - 2) (drop 1 (str_trim s)) \<and> 2 \<le> length (str_trim s)"
      using h by (auto simp: strip_quotes_def Let_def split: if_splits)
    then have "length (strip_quotes s) < length (str_trim s)" by auto
    then show False using h str_trim_length [of s] by simp
  qed
qed

lemma trimmed_ends: "str_trim s = s \<Longrightarrow> s \<noteq> [] \<Longrightarrow> \<not> is_ws (hd s) \<and> \<not> is_ws (last s)"
proof -
  assume t: "str_trim s = s" and ne: "s \<noteq> []"
  let ?d = "dropWhile is_ws s"
  have "length s \<le> length ?d" using t by (metis length_dropWhile_le length_rev str_trim_def)
  then have d: "?d = s" by (metis dropWhile_eq_self_iff length_dropWhile_le list.sel(1) le_antisym dropWhile_append3 takeWhile_dropWhile_id append_Nil length_append add_cancel_left_left length_0_conv)
  then have h: "\<not> is_ws (hd s)" using ne by (metis hd_dropWhile)
  have "dropWhile is_ws (rev s) = rev s" using t d by (metis rev_rev_ident str_trim_def)
  then have "\<not> is_ws (hd (rev s))" using ne by (metis hd_dropWhile rev_is_Nil_conv)
  then show ?thesis using h by (simp add: hd_rev)
qed

lemma trimmed_field:
  assumes v: "str_trim v = v" and key: "key \<noteq> []" "list_all (\<lambda>c. \<not> is_ws c \<and> c \<noteq> CHR '':'') key"
  shows "\<exists>r. find_str '':'' (str_trim (key @ '': '' @ v)) = Some (key, r) \<and> str_trim r = v" "str_trim key = key"
proof -
  have hd: "\<not> is_ws (hd key)" "\<not> is_ws (last key)" using key by (cases key; auto simp: list_all_iff)+
  show "str_trim key = key" using hd key(1) by (intro str_trim_id)
  have ws: "is_ws CHR '' ''" "\<not> is_ws CHR '':''" by (simp_all add: is_ws_def)
  have found: "find_str '':'' (key @ '':'' @ r) = Some (key, r)" for r
    using key(2) by (induction key) (auto simp: starts_with_str_def)
  show "\<exists>r. find_str '':'' (str_trim (key @ '': '' @ v)) = Some (key, r) \<and> str_trim r = v"
  proof (cases "v = []")
    case True
    have "str_trim ([] @ (key @ '':'') @ '' '') = key @ '':''"
      using hd key(1) ws by (intro str_trim_pad) auto
    then show ?thesis using True found [of "[]"] by simp
  next
    case False
    note ends = trimmed_ends [OF v False]
    have "str_trim (key @ '': '' @ v) = key @ '': '' @ v"
      using ends hd key(1) False by (intro str_trim_id) auto
    moreover have "str_trim ('' '' @ v @ []) = v" using ends False ws by (intro str_trim_pad) auto
    ultimately show ?thesis using found [of "'' '' @ v"] by simp
  qed
qed

lemma parse_fm_field:
  assumes "str_trim v = v" and "key \<noteq> []" and "list_all (\<lambda>c. \<not> is_ws c \<and> c \<noteq> CHR '':'') key"
  shows "parse_fm_line api (key @ '': '' @ v) acc = set_field api key v acc"
  using trimmed_field [OF assms] by (auto simp: parse_fm_line_def)

lemma plain_valueD: "plain_value s \<Longrightarrow> str_trim s = s \<and> strip_quotes s = s \<and> newline \<notin> set s"
  using strip_quotes_trimmed by (auto simp: plain_value_def)

lemma hd_join: "ts \<noteq> [] \<Longrightarrow> hd ts \<noteq> [] \<Longrightarrow> hd (join_with sep ts) = hd (hd ts)"
  by (cases ts rule: remdups_adj.cases) auto

lemma last_join: "ts \<noteq> [] \<Longrightarrow> \<forall>t \<in> set ts. t \<noteq> [] \<Longrightarrow> last (join_with sep ts) = last (last ts) \<and> join_with sep ts \<noteq> []"
  by (induction ts rule: induct_list012) auto

lemma split_tags:
  "ts \<noteq> [] \<Longrightarrow> \<forall>t \<in> set ts. CHR '','' \<notin> set t \<Longrightarrow>
     split_char (CHR '','') (join_with '', '' ts) = hd ts # map (\<lambda>t. '' '' @ t) (tl ts)"
proof (induction ts rule: induct_list012)
  case (2 t)
  then show ?case by (simp add: split_char_no_sep)
next
  case (3 t u ts)
  then have IH: "split_char (CHR '','') (join_with '', '' (u # ts)) = u # map (\<lambda>t. '' '' @ t) ts" by simp
  have "split_char (CHR '','') (join_with '', '' (t # u # ts)) = t # split_char (CHR '','') ('' '' @ join_with '', '' (u # ts))"
    using 3 by (simp add: split_char_append)
  then show ?case using IH by simp
qed simp

lemma trim_blank: "str_trim t = t \<Longrightarrow> str_trim ('' '' @ t) = t"
proof (cases "t = []")
  case True
  then show ?thesis by (simp add: str_trim_def is_ws_def)
next
  case False
  assume t: "str_trim t = t"
  show ?thesis using str_trim_pad [of t "'' ''" "[]"] trimmed_ends [OF t False] False by (simp add: is_ws_def)
qed

lemma parse_tag_list_text:
  assumes "plain_tags ts"
  shows "parse_tag_list (tags_text ts) = ts" "str_trim (tags_text ts) = tags_text ts"
proof -
  have tag: "t \<noteq> []" "str_trim t = t" "strip_quotes t = t" "CHR '','' \<notin> set t" if "t \<in> set ts" for t
    using assms that plain_valueD by (auto simp: plain_tags_def)
  show trim: "str_trim (tags_text ts) = tags_text ts"
    by (rule str_trim_id) (auto simp: tags_text_def is_ws_def)
  show "parse_tag_list (tags_text ts) = ts"
  proof (cases "ts = []")
    case True
    then show ?thesis using trim by (simp add: parse_tag_list_def tags_text_def)
  next
    case False
    let ?j = "join_with '', '' ts"
    have j: "?j \<noteq> []" "hd ?j \<noteq> CHR 0x5B" "last ?j \<noteq> CHR 0x5D"
      using assms False hd_join [OF False] last_join [OF False] tag by (auto simp: plain_tags_def)
    have shape: "tags_text ts = CHR 0x5B # ?j @ [CHR 0x5D]" using False by (simp add: tags_text_def)
    have "trim_start_char (CHR 0x5B) (tags_text ts) = ?j @ [CHR 0x5D]"
      unfolding shape using j by (cases ?j) (auto simp: trim_start_char_def)
    moreover have "trim_end_char (CHR 0x5D) (?j @ [CHR 0x5D]) = ?j"
      using j trim_end_char_id [of ?j "CHR 0x5D"] by (simp add: trim_end_char_def)
    moreover have "map (\<lambda>s. strip_quotes (str_trim s)) (split_char (CHR '','') ?j) = ts"
      using False tag trim_blank by (cases ts) (auto simp: split_tags intro!: map_idI)
    moreover have "filter (\<lambda>s. s \<noteq> []) ts = ts" using tag by (auto intro: filter_True)
    moreover have "tags_text ts \<noteq> ''[]''" "tags_text ts \<noteq> []" using j(1) unfolding shape by auto
    ultimately show ?thesis using trim by (simp add: parse_tag_list_def Let_def)
  qed
qed

lemma rfc_show_trim: "rfc_laws api \<Longrightarrow> whole_second t \<Longrightarrow> str_trim (rfc_show api t) = rfc_show api t"
  by (rule str_trim_id) (auto simp: rfc_laws_def list_all_iff)

lemma rfc_show_facts:
  assumes "rfc_laws api" and "whole_second t"
  shows "rfc_parse api (rfc_show api t) = Some t" "rfc_show api t \<noteq> []" "rfc_show api t \<noteq> ''null''" "rfc_show api t \<noteq> ''~''"
    "newline \<notin> set (rfc_show api t)" "parse_dt_or_err api key (rfc_show api t) = Inr t"
proof -
  have laws: "rfc_parse api (rfc_show api t) = Some t" "rfc_show api t \<noteq> []" "is_digit_char (hd (rfc_show api t))"
    "list_all (\<lambda>c. \<not> is_ws c) (rfc_show api t)"
    using assms by (auto simp: rfc_laws_def)
  show "rfc_parse api (rfc_show api t) = Some t" "rfc_show api t \<noteq> []" by (fact laws)+
  show "rfc_show api t \<noteq> ''null''" "rfc_show api t \<noteq> ''~''"
    using laws(3) by (auto simp: is_digit_char_def digit_val_def)
  show "newline \<notin> set (rfc_show api t)" using laws(4) by (auto simp: list_all_iff is_ws_def)
  show "parse_dt_or_err api key (rfc_show api t) = Inr t"
    using laws(1) rfc_show_trim [OF assms] by (simp add: parse_dt_or_err_def)
qed

lemma digits_trim: "str_trim (show_nat n) = show_nat n" "newline \<notin> set (show_nat n)"
proof -
  have d: "\<And>c. c \<in> set (show_nat n) \<Longrightarrow> \<not> is_ws c"
    using show_nat_digits [of n] by (auto simp: list_all_iff is_digit_char_def digit_val_def is_ws_def)
  then show "str_trim (show_nat n) = show_nat n" by (intro str_trim_id) auto
  show "newline \<notin> set (show_nat n)" using d [of newline] by (auto simp: is_ws_def)
qed

text \<open>The header as key and value pairs.\<close>

definition header_values :: "rfc3339 \<Rightarrow> skill_front_matter \<Rightarrow> (string \<times> string) list" where
  "header_values api fm =
     [(''name'', sk_name fm), (''description'', sk_description fm), (''created_at'', rfc_show api (sk_created_at fm)),
      (''updated_at'', rfc_show api (sk_updated_at fm)), (''use_count'', show_nat (unat (sk_use_count fm))),
      (''last_used'', case sk_last_used fm of Some t \<Rightarrow> rfc_show api t | None \<Rightarrow> ''null''), (''tags'', tags_text (sk_tags fm))]"

definition field_line :: "string \<times> string \<Rightarrow> string" where
  "field_line kv = fst kv @ '': '' @ snd kv"

lemma header_lines_fields: "header_lines api fm = map field_line (header_values api fm)"
  by (simp add: header_lines_def header_values_def field_line_def)

definition plain_key :: "string \<Rightarrow> bool" where
  "plain_key k \<longleftrightarrow> k \<noteq> [] \<and> hd k \<noteq> CHR ''-'' \<and> list_all (\<lambda>c. \<not> is_ws c \<and> c \<noteq> CHR '':'') k"

lemma header_keys: "list_all (plain_key \<circ> fst) (header_values api fm)"
  by (simp add: header_values_def plain_key_def is_ws_def)

lemma newline_tags: "plain_tags ts \<Longrightarrow> newline \<notin> set (tags_text ts)"
proof -
  assume ts: "plain_tags ts"
  have "newline \<notin> set (join_with '', '' ts)" if "\<forall>t \<in> set ts. newline \<notin> set t" for ts
    using that by (induction ts rule: induct_list012) auto
  then show ?thesis using ts plain_valueD by (auto simp: tags_text_def plain_tags_def)
qed

lemma header_values_ok:
  assumes laws: "rfc_laws api" and doc: "renderable doc"
  shows "list_all (\<lambda>kv. str_trim (snd kv) = snd kv \<and> newline \<notin> set (snd kv)) (header_values api (sd_front_matter doc))"
proof -
  let ?fm = "sd_front_matter doc"
  have ok: "plain_value (sk_name ?fm)" "plain_value (sk_description ?fm)" "whole_second (sk_created_at ?fm)"
      "whole_second (sk_updated_at ?fm)" "plain_tags (sk_tags ?fm)" "\<And>t. sk_last_used ?fm = Some t \<Longrightarrow> whole_second t"
    using doc by (auto simp: renderable_def Let_def)
  have "str_trim ''null'' = ''null''" by (simp add: str_trim_def is_ws_def)
  then show ?thesis
    using plain_valueD [OF ok(1)] plain_valueD [OF ok(2)] rfc_show_trim [OF laws] rfc_show_facts(5) [OF laws] ok(3-6)
      digits_trim parse_tag_list_text(2) [OF ok(5)] newline_tags [OF ok(5)]
    by (auto simp: header_values_def split: option.split)
qed

lemma field_line_ok:
  assumes "plain_key (fst kv)" and "str_trim (snd kv) = snd kv" and "newline \<notin> set (snd kv)"
  shows "newline \<notin> set (field_line kv)" "strip_cr (field_line kv) = field_line kv" "field_line kv \<noteq> []"
    "\<not> starts_with_str ''---'' (field_line kv)"
proof -
  obtain c cs where k: "fst kv = c # cs" "c \<noteq> CHR ''-''" using assms(1) by (cases "fst kv") (auto simp: plain_key_def)
  show "field_line kv \<noteq> []" "\<not> starts_with_str ''---'' (field_line kv)"
    using k by (simp_all add: field_line_def starts_with_str_def)
  show "newline \<notin> set (field_line kv)"
    using assms by (auto simp: field_line_def plain_key_def list_all_iff is_ws_def)
  have "last (field_line kv) \<noteq> CHR 0x0D"
    using trimmed_ends [OF assms(2)] by (cases "snd kv = []") (auto simp: field_line_def is_ws_def)
  then show "strip_cr (field_line kv) = field_line kv" by (simp add: strip_cr_def)
qed

lemma header_lines_ok:
  assumes "rfc_laws api" and "renderable doc" and "p \<in> set (header_lines api (sd_front_matter doc))"
  shows "newline \<notin> set p \<and> strip_cr p = p \<and> p \<noteq> [] \<and> \<not> starts_with_str ''---'' p"
proof -
  obtain kv where "kv \<in> set (header_values api (sd_front_matter doc))" "p = field_line kv"
    using assms(3) unfolding header_lines_fields by auto
  then show ?thesis
    using field_line_ok [of kv] header_keys [of api "sd_front_matter doc"] header_values_ok [OF assms(1,2)]
    by (auto simp: list_all_iff)
qed

lemma parse_field_line:
  "plain_key (fst kv) \<Longrightarrow> str_trim (snd kv) = snd kv \<Longrightarrow> parse_fm_line api (field_line kv) acc = set_field api (fst kv) (snd kv) acc"
  unfolding field_line_def by (rule parse_fm_field) (auto simp: plain_key_def)

lemma parse_header_lines:
  assumes laws: "rfc_laws api" and doc: "renderable doc" and fm: "fm = sd_front_matter doc"
  shows "parse_fm_lines api (header_lines api fm) fm_start =
      Inr \<lparr>fa_name = Some (sk_name fm), fa_description = Some (sk_description fm), fa_created_at = Some (sk_created_at fm),
        fa_updated_at = Some (sk_updated_at fm), fa_use_count = sk_use_count fm, fa_last_used = sk_last_used fm, fa_tags = sk_tags fm\<rparr>"
proof -
  have ok: "plain_value (sk_name fm)" "plain_value (sk_description fm)" "whole_second (sk_created_at fm)"
      "whole_second (sk_updated_at fm)" "plain_tags (sk_tags fm)" "\<And>t. sk_last_used fm = Some t \<Longrightarrow> whole_second t"
    using doc by (auto simp: renderable_def Let_def fm)
  have line: "parse_fm_line api (field_line kv) acc = set_field api (fst kv) (snd kv) acc"
    if "kv \<in> set (header_values api fm)" for kv acc
    using that header_keys [of api fm] header_values_ok [OF laws doc] unfolding fm [symmetric]
    by (intro parse_field_line) (auto simp: list_all_iff)
  have count: "parse_uint 64 (show_nat (unat (sk_use_count fm))) = Some (unat (sk_use_count fm))"
    by (rule parse_uint_show_nat) (use unsigned_less [of "sk_use_count fm"] in simp)
  have strip: "strip_quotes (sk_name fm) = sk_name fm" "strip_quotes (sk_description fm) = sk_description fm"
    using plain_valueD ok(1,2) by blast+
  show ?thesis
    unfolding header_lines_fields using rfc_show_facts [OF laws] ok(3,4,6) parse_tag_list_text(1) [OF ok(5)]
    by (cases "sk_last_used fm") (simp_all add: header_values_def line set_field_def fm_start_def count strip)
qed

lemma render_parse:
  assumes laws: "rfc_laws api" and doc: "renderable doc"
  shows "skill_parse api now1 now2 (skill_render api doc) = Inr doc"
proof -
  let ?ls = "header_lines api (sd_front_matter doc)"
  note ok = header_lines_ok [OF laws doc]
  have ls: "?ls \<noteq> []" "last ?ls \<in> set ?ls" by (simp_all add: header_lines_def)
  have lines: "str_lines (join_with [newline] ?ls) = ?ls"
    using ok ls by (intro str_lines_join) auto
  have fm: "parse_front_matter api now1 now2 (join_with [newline] ?ls) = Inr (sd_front_matter doc)"
    using parse_header_lines [OF laws doc refl] by (simp add: parse_front_matter_def lines or_now_def)
  let ?rest = "[newline, newline] @ sd_body doc"
  have close: "find_str (newline # ''---'') (join_with [newline] ?ls @ newline # ''---'' @ ?rest) = Some (join_with [newline] ?ls, ?rest)"
    using ok ls by (intro find_newline_pat) (auto dest: list.set_sel(2))
  have body: "trim_start_char newline ?rest = sd_body doc"
    using doc trim_start_char_id [of "sd_body doc" newline] by (auto simp: renderable_def Let_def trim_start_char_def)
  have start: "trim_start (skill_render api doc) = skill_render api doc"
    by (simp add: skill_render_def trim_start_def is_ws_def)
  have "starts_with_str ''---'' (skill_render api doc)"
    "drop 3 (skill_render api doc) = newline # join_with [newline] ?ls @ newline # ''---'' @ ?rest"
    by (simp_all add: skill_render_def starts_with_str_def)
  moreover have "find_str [newline] (newline # x) = Some ([], x)" for x by (simp add: starts_with_str_def)
  ultimately show ?thesis
    unfolding skill_parse_def Let_def start using close fm body by simp
qed


definition example_rfc :: rfc3339 where
  "example_rfc = \<lparr>rfc_parse = (\<lambda>s. map_option (\<lambda>n. seconds (int n)) (parse_digits 0 s)), rfc_show = (\<lambda>t. show_nat (nat (t div seconds 1)))\<rparr>"

lemma example_rfc_laws: "rfc_laws example_rfc"
proof -
  have "is_digit_char c \<and> \<not> is_ws c" if "c \<in> set (show_nat n)" for c n
    using that show_nat_digits [of n] by (auto simp: list_all_iff is_digit_char_def digit_val_def is_ws_def)
  moreover have "is_digit_char (hd (show_nat n))" for n
    using calculation hd_in_set show_nat_nonempty by blast
  ultimately show ?thesis
    by (auto simp: rfc_laws_def example_rfc_def whole_second_def parse_digits_show_nat list_all_iff seconds_def)
qed

definition example_skill :: skill_doc where
  "example_skill = \<lparr>sd_front_matter = \<lparr>sk_name = ''git-flow'', sk_description = ''How to branch'', sk_created_at = seconds 5,
     sk_updated_at = seconds 9, sk_use_count = 12, sk_last_used = Some (seconds 9), sk_tags = [''git'', ''team work'']\<rparr>,
     sd_body = ''# Git''\<rparr>"

lemma example_renderable: "renderable example_skill"
  by (simp add: renderable_def example_skill_def plain_value_def plain_tags_def whole_second_def seconds_def
      strip_quotes_def str_trim_def is_ws_def starts_with_str_def ends_with_str_def)


text \<open>A description in quotes loses them, and two leading newlines of the body are lost.\<close>

lemma quotes_are_lost:
  "strip_quotes (CHR 0x22 # s @ [CHR 0x22]) = s"
proof -
  have "str_trim (CHR 0x22 # s @ [CHR 0x22]) = CHR 0x22 # s @ [CHR 0x22]"
    by (rule str_trim_id) (auto simp: is_ws_def)
  then show ?thesis by (simp add: strip_quotes_def starts_with_str_def ends_with_str_def)
qed

end
