(* ===== verification/Skill_Store.thy ===== *)
theory Skill_Store
  imports Skill_Doc Rust_Path Std_Collections "HOL-Library.List_Lexorder" "HOL-Library.Char_ord"
begin

text \<open>
  The skill store and the progressive loader (\<^verbatim>\<open>crates/skills/src/store.rs\<close>, \<^verbatim>\<open>loader.rs\<close>). The
  file operations of \<^verbatim>\<open>tokio::fs\<close>, the two clocks and the RFC 3339 conversions are a record over
  the world \<open>'w\<close>; the clock does not move while one document is parsed. The locale
  \<open>skill_files\<close> says what the file operations promise below a directory that holds no
  links: \<open>view\<close> is the content of its regular files.
\<close>

datatype read_outcome = ReadOk string | ReadNotFound | ReadFailed string

record 'w skill_fs =
  sf_read_dir :: "'w \<Rightarrow> path \<Rightarrow> (string \<times> bool) list option"
  sf_read :: "'w \<Rightarrow> path \<Rightarrow> read_outcome"
  sf_exists :: "'w \<Rightarrow> path \<Rightarrow> bool"
  sf_write :: "path \<Rightarrow> string \<Rightarrow> 'w \<Rightarrow> (string + unit) \<times> 'w"
  sf_rename :: "path \<Rightarrow> path \<Rightarrow> 'w \<Rightarrow> (string + unit) \<times> 'w"
  sf_create_dir_all :: "path \<Rightarrow> 'w \<Rightarrow> (string + unit) \<times> 'w"
  sf_instant :: "'w \<Rightarrow> nat"
  sf_now :: "'w \<Rightarrow> timestamp"
  sf_rfc :: rfc3339

text \<open>\<^verbatim>\<open>CACHE_TTL\<close> in nanoseconds.\<close>

definition CACHE_TTL :: nat where
  "CACHE_TTL = 60 * 1000000000"

definition validate_slug :: "string \<Rightarrow> skill_error + unit" where
  "validate_slug slug =
     (if slug = [] \<or> starts_with_str ''/'' slug \<or> length (path_from_str slug) \<noteq> 1 \<or> starts_with_str ''.'' slug
      then Inl (InvalidFrontMatter (''invalid skill slug: '' @ slug)) else Inr ())"

record skill_store =
  kl_skills_dir :: path
  kl_cache :: "(skill_doc list \<times> nat) option"

definition store_new :: "path \<Rightarrow> skill_store" where
  "store_new dir = \<lparr>kl_skills_dir = dir, kl_cache = None\<rparr>"

definition ensure_dir :: "'w skill_fs \<Rightarrow> skill_store \<Rightarrow> 'w \<Rightarrow> (skill_error + unit) \<times> 'w" where
  "ensure_dir api st w =
     (case sf_create_dir_all api (kl_skills_dir st) w of
        (Inl e, w1) \<Rightarrow> (Inl (SkillIo e), w1)
      | (Inr _, w1) \<Rightarrow>
          (case sf_create_dir_all api (join_str (kl_skills_dir st) ''.archive'') w1 of
             (Inl e, w2) \<Rightarrow> (Inl (SkillIo e), w2)
           | (Inr _, w2) \<Rightarrow> (Inr (), w2)))"

definition parse_at :: "'w skill_fs \<Rightarrow> 'w \<Rightarrow> string \<Rightarrow> skill_error + skill_doc" where
  "parse_at api w content = skill_parse (sf_rfc api) (sf_now api w) (sf_now api w) content"

text \<open>The document of one directory entry, if it is a visible directory with a readable and
  well-formed \<^verbatim>\<open>SKILL.md\<close>.\<close>

definition load_entry :: "'w skill_fs \<Rightarrow> path \<Rightarrow> 'w \<Rightarrow> string \<times> bool \<Rightarrow> skill_doc option" where
  "load_entry api dir w = (\<lambda>(name, is_dir).
     if starts_with_str ''.'' name \<or> \<not> is_dir then None
     else (case sf_read api w (dir @ [Normal name, Normal ''SKILL.md'']) of
             ReadOk content \<Rightarrow> (case parse_at api w content of Inr doc \<Rightarrow> Some doc | Inl _ \<Rightarrow> None)
           | _ \<Rightarrow> None))"

definition load_from_disk :: "'w skill_fs \<Rightarrow> skill_store \<Rightarrow> 'w \<Rightarrow> skill_doc list" where
  "load_from_disk api st w =
     (case sf_read_dir api w (kl_skills_dir st) of
        None \<Rightarrow> []
      | Some entries \<Rightarrow>
          sort_key (\<lambda>d. sk_name (sd_front_matter d)) (List.map_filter (load_entry api (kl_skills_dir st) w) entries))"

definition list_skills :: "'w skill_fs \<Rightarrow> skill_store \<Rightarrow> 'w \<Rightarrow> (skill_error + skill_doc list) \<times> skill_store" where
  "list_skills api st w =
     (let fresh = (let skills = load_from_disk api st w
                   in (Inr skills, st\<lparr>kl_cache := Some (skills, sf_instant api w)\<rparr>))
      in case kl_cache st of
           Some (skills, built_at) \<Rightarrow>
             if sf_instant api w - built_at < CACHE_TTL then (Inr skills, st) else fresh
         | None \<Rightarrow> fresh)"

definition skill_file :: "skill_store \<Rightarrow> string \<Rightarrow> path" where
  "skill_file st name = join_str (kl_skills_dir st) name @ [Normal ''SKILL.md'']"

definition get_skill :: "'w skill_fs \<Rightarrow> skill_store \<Rightarrow> string \<Rightarrow> 'w \<Rightarrow> skill_error + skill_doc option" where
  "get_skill api st name w =
     (case validate_slug name of
        Inl e \<Rightarrow> Inl e
      | Inr _ \<Rightarrow>
          (case sf_read api w (skill_file st name) of
             ReadOk content \<Rightarrow> map_sum id Some (parse_at api w content)
           | ReadNotFound \<Rightarrow> Inr None
           | ReadFailed e \<Rightarrow> Inl (SkillIo e)))"

definition invalidate_cache :: "skill_store \<Rightarrow> skill_store" where
  "invalidate_cache st = st\<lparr>kl_cache := None\<rparr>"

definition save_skill :: "'w skill_fs \<Rightarrow> skill_doc \<Rightarrow> skill_store \<Rightarrow> 'w \<Rightarrow> (skill_error + unit) \<times> skill_store \<times> 'w" where
  "save_skill api doc st w =
     (let name = sk_name (sd_front_matter doc) in
      case validate_slug name of
        Inl e \<Rightarrow> (Inl e, st, w)
      | Inr _ \<Rightarrow>
          let dir = join_str (kl_skills_dir st) name;
              tmp_path = dir @ [Normal ''SKILL.md.tmp'']
          in (case sf_create_dir_all api dir w of
                (Inl e, w1) \<Rightarrow> (Inl (SkillIo e), st, w1)
              | (Inr _, w1) \<Rightarrow>
                  (case sf_write api tmp_path (skill_render (sf_rfc api) doc) w1 of
                     (Inl e, w2) \<Rightarrow> (Inl (SkillIo e), st, w2)
                   | (Inr _, w2) \<Rightarrow>
                       (case sf_rename api tmp_path (skill_file st name) w2 of
                          (Inl e, w3) \<Rightarrow> (Inl (SkillIo e), st, w3)
                        | (Inr _, w3) \<Rightarrow> (Inr (), invalidate_cache st, w3)))))"

definition archive_skill :: "'w skill_fs \<Rightarrow> string \<Rightarrow> skill_store \<Rightarrow> 'w \<Rightarrow> (skill_error + bool) \<times> skill_store \<times> 'w" where
  "archive_skill api name st w =
     (case validate_slug name of
        Inl e \<Rightarrow> (Inl e, st, w)
      | Inr _ \<Rightarrow>
          let src = join_str (kl_skills_dir st) name;
              archive_dir = join_str (kl_skills_dir st) ''.archive''
          in if \<not> sf_exists api w src then (Inr False, st, w)
             else (case sf_create_dir_all api archive_dir w of
                     (Inl e, w1) \<Rightarrow> (Inl (SkillIo e), st, w1)
                   | (Inr _, w1) \<Rightarrow>
                       (case sf_rename api src (join_str archive_dir name) w1 of
                          (Inl e, w2) \<Rightarrow> (Inl (SkillIo e), st, w2)
                        | (Inr _, w2) \<Rightarrow> (Inr True, invalidate_cache st, w2))))"

subsection \<open>The loader\<close>

definition level0_index :: "'w skill_fs \<Rightarrow> skill_store \<Rightarrow> 'w \<Rightarrow> string \<times> skill_store" where
  "level0_index api st w =
     (case list_skills api st w of
        (Inl _, st') \<Rightarrow> ([], st')
      | (Inr skills, st') \<Rightarrow>
          (if skills = [] then ''Available skills: (none)''
           else join_with [newline] (''Available skills:'' #
                  map (\<lambda>s. ''- '' @ sk_name (sd_front_matter s) @ '': '' @ sk_description (sd_front_matter s)) skills), st'))"

definition load_skill :: "'w skill_fs \<Rightarrow> skill_store \<Rightarrow> string \<Rightarrow> 'w \<Rightarrow> string option" where
  "load_skill api st name w =
     (case get_skill api st name w of Inr (Some doc) \<Rightarrow> Some (skill_render (sf_rfc api) doc) | _ \<Rightarrow> None)"

definition load_ref :: "'w skill_fs \<Rightarrow> skill_store \<Rightarrow> string \<Rightarrow> string \<Rightarrow> 'w \<Rightarrow> string option" where
  "load_ref api st skill ref_file w =
     (if str_contains ref_file ''..'' \<or> starts_with_str ''/'' ref_file \<or> str_contains ref_file [CHR 0x5C] then None
      else (case sf_read api w (join_str (join_str (join_str (kl_skills_dir st) skill) ''refs'') ref_file) of
              ReadOk s \<Rightarrow> Some s
            | _ \<Rightarrow> None))"

subsection \<open>Slugs\<close>

lemma path_from_str_normal:
  assumes "\<not> starts_with_str ''/'' s" and "\<not> starts_with_str ''.'' s" and "path_from_str s = [c]"
  shows "\<exists>n. c = Normal n \<and> n \<noteq> [] \<and> CHR ''/'' \<notin> set n \<and> \<not> starts_with_str ''.'' n"
proof -
  have parts: "p \<in> set (split_char (CHR ''/'') t) \<Longrightarrow> CHR ''/'' \<notin> set p" for p t
    by (induction t arbitrary: p) (auto split: if_splits list.splits)
  obtain h t where ht: "split_char (CHR ''/'') s = h # t" by (cases "split_char (CHR ''/'') s") simp_all
  have hs: "s = [] \<and> h = [] \<or> (\<exists>x xs. s = x # xs \<and> (x = CHR ''/'' \<and> h = [] \<or> x \<noteq> CHR ''/'' \<and> h \<noteq> [] \<and> hd h = x))"
    using ht by (cases s) (auto split: if_splits list.splits)
  have hd_s: "h = [] \<and> s = [] \<or> h \<noteq> [] \<and> s \<noteq> [] \<and> hd h = hd s"
    using hs assms(1) by (auto simp: starts_with_str_def)
  have dot: "h \<noteq> ''.''" using hd_s assms(2) by (cases s) (auto simp: starts_with_str_def)
  have names: "map component_of (filter (\<lambda>p. p \<noteq> [] \<and> p \<noteq> ''.'') (h # t)) = [c]"
    using assms(1,3) dot by (simp add: path_from_str_def ht Let_def)
  show ?thesis
  proof (cases "h = []")
    case True
    then have "s = []" using hd_s by simp
    then show ?thesis using assms(3) by (simp add: path_from_str_def starts_with_str_def)
  next
    case False
    then have "c = component_of h" using names dot by simp
    moreover have "\<not> starts_with_str ''.'' h" using hd_s False assms(2) by (cases h; cases s) (auto simp: starts_with_str_def)
    moreover have "CHR ''/'' \<notin> set h" using parts ht by (metis list.set_intros(1))
    ultimately show ?thesis using False by (auto simp: component_of_def starts_with_str_def)
  qed
qed

text \<open>The directory name a valid slug stands for.\<close>

lemma valid_slug_component:
  assumes "validate_slug slug = Inr u"
  shows "\<exists>n. path_from_str slug = [Normal n] \<and> n \<noteq> [] \<and> CHR ''/'' \<notin> set n \<and> \<not> starts_with_str ''.'' n \<and>
    (\<forall>p. join_str p slug = p @ [Normal n])"
proof -
  have s: "\<not> starts_with_str ''/'' slug" "\<not> starts_with_str ''.'' slug" "length (path_from_str slug) = 1"
    using assms by (auto simp: validate_slug_def split: if_splits)
  then obtain c where c: "path_from_str slug = [c]" by (metis One_nat_def length_0_conv length_Suc_conv)
  obtain n where "c = Normal n" "n \<noteq> []" "CHR ''/'' \<notin> set n" "\<not> starts_with_str ''.'' n"
    using path_from_str_normal [OF s(1,2) c] by blast
  then show ?thesis using c s(1) by (auto simp: join_str_def)
qed

definition slug_dir :: "string \<Rightarrow> path" where
  "slug_dir slug = path_from_str slug"

lemma archive_component: "join_str p ''.archive'' = p @ [Normal ''.archive'']"
  by (simp add: join_str_def starts_with_str_def path_from_str_def component_of_def)

subsection \<open>The contract of the file system\<close>

locale skill_files =
  fixes api :: "'w skill_fs"
    and root :: path
    and view :: "'w \<Rightarrow> path \<Rightarrow> string option"
  assumes read_view: "path_starts_with p root \<Longrightarrow> sf_read api w p = ReadOk s \<longleftrightarrow> view w p = Some s"
    and mkdir_view: "path_starts_with p root \<Longrightarrow> sf_create_dir_all api p w = (r, w') \<Longrightarrow> view w' = view w"
    and write_other: "path_starts_with p root \<Longrightarrow> sf_write api p s w = (r, w') \<Longrightarrow> q \<noteq> p \<Longrightarrow> view w' q = view w q"
    and rename_fail: "path_starts_with a root \<Longrightarrow> path_starts_with b root \<Longrightarrow> sf_rename api a b w = (Inl e, w') \<Longrightarrow> view w' = view w"
    and write_view: "path_starts_with p root \<Longrightarrow> sf_write api p s w = (Inr u, w') \<Longrightarrow> view w' = (view w)(p \<mapsto> s)"
    and rename_file: "path_starts_with a root \<Longrightarrow> path_starts_with b root \<Longrightarrow> a \<noteq> b \<Longrightarrow> view w a = Some s \<Longrightarrow>
      sf_rename api a b w = (Inr u, w') \<Longrightarrow> view w' = (view w)(a := None, b \<mapsto> s)"
    and rename_dir: "path_starts_with a root \<Longrightarrow> path_starts_with b root \<Longrightarrow> a \<noteq> b \<Longrightarrow> view w a = None \<Longrightarrow>
      sf_rename api a b w = (Inr u, w') \<Longrightarrow> path_starts_with p root \<Longrightarrow>
      view w' p = (if path_starts_with p b then view w (a @ drop (length b) p)
                   else if path_starts_with p a then None else view w p)"
    and rename_gone: "path_starts_with a root \<Longrightarrow> path_starts_with b root \<Longrightarrow> a \<noteq> b \<Longrightarrow>
      sf_rename api a b w = (Inr u, w') \<Longrightarrow> p \<noteq> [] \<Longrightarrow> \<not> path_starts_with (a @ p) b \<Longrightarrow> sf_read api w' (a @ p) = ReadNotFound"
begin

lemma below: "path_starts_with (root @ p) root"
  by (simp add: path_starts_with_def)

lemma save_effect:
  assumes st: "kl_skills_dir st = root" and save: "save_skill api doc st w = (Inr u, st', w')"
  shows "\<exists>n. path_from_str (sk_name (sd_front_matter doc)) = [Normal n] \<and> st' = invalidate_cache st \<and>
    view w' = (view w)(root @ [Normal n, Normal ''SKILL.md.tmp''] := None,
      root @ [Normal n, Normal ''SKILL.md''] \<mapsto> skill_render (sf_rfc api) doc)"
proof -
  let ?name = "sk_name (sd_front_matter doc)"
  obtain v where v: "validate_slug ?name = Inr v" using save by (cases "validate_slug ?name") (auto simp: save_skill_def)
  obtain n where n: "path_from_str ?name = [Normal n]" "\<And>p. join_str p ?name = p @ [Normal n]"
    using valid_slug_component [OF v] by blast
  let ?dir = "root @ [Normal n]" and ?text = "skill_render (sf_rfc api) doc"
  obtain w1 w2 where steps: "sf_create_dir_all api ?dir w = (Inr (), w1)"
      "sf_write api (?dir @ [Normal ''SKILL.md.tmp'']) ?text w1 = (Inr (), w2)"
      "sf_rename api (?dir @ [Normal ''SKILL.md.tmp'']) (?dir @ [Normal ''SKILL.md'']) w2 = (Inr (), w')"
      "st' = invalidate_cache st"
    using save v n st by (auto simp: save_skill_def skill_file_def Let_def split: prod.splits sum.splits)
  have "view w2 = (view w)(?dir @ [Normal ''SKILL.md.tmp''] \<mapsto> ?text)"
    using write_view [OF _ steps(2)] mkdir_view [OF _ steps(1)] below by simp
  then have "view w' = (view w)(?dir @ [Normal ''SKILL.md.tmp''] := None, ?dir @ [Normal ''SKILL.md''] \<mapsto> ?text)"
    using rename_file [OF _ _ _ _ steps(3)] below by simp
  then show ?thesis using n(1) steps(4) by auto
qed

text \<open>Whatever the outcome, other skills are left alone.\<close>

lemma save_others:
  assumes st: "kl_skills_dir st = root" and save: "save_skill api doc st w = (r, st', w')"
    and m: "[Normal m] \<noteq> path_from_str (sk_name (sd_front_matter doc))"
  shows "view w' (root @ [Normal m] @ p) = view w (root @ [Normal m] @ p) \<and> kl_skills_dir st' = root"
proof (cases "validate_slug (sk_name (sd_front_matter doc))")
  case (Inl e)
  then show ?thesis using save st by (simp add: save_skill_def)
next
  case (Inr v)
  obtain n where n: "path_from_str (sk_name (sd_front_matter doc)) = [Normal n]"
      "\<And>p. join_str p (sk_name (sd_front_matter doc)) = p @ [Normal n]"
    using valid_slug_component [OF Inr] by blast
  have ne: "m \<noteq> n" using m n by simp
  let ?dir = "root @ [Normal n]"
  obtain r1 w1 where s1: "sf_create_dir_all api ?dir w = (r1, w1)" by fastforce
  obtain r2 w2 where s2: "sf_write api (?dir @ [Normal ''SKILL.md.tmp'']) (skill_render (sf_rfc api) doc) w1 = (r2, w2)" by fastforce
  obtain r3 w3 where s3: "sf_rename api (?dir @ [Normal ''SKILL.md.tmp'']) (?dir @ [Normal ''SKILL.md'']) w2 = (r3, w3)" by fastforce
  let ?q = "root @ Normal m # p"
  have v1: "view w1 ?q = view w ?q" using mkdir_view [OF _ s1] below by simp
  have v2: "view w2 ?q = view w1 ?q" using write_other [OF _ s2, of ?q] below ne by simp
  have v3: "view w3 ?q = view w2 ?q" if "r2 = Inr ()"
  proof (cases r3)
    case (Inl e)
    then show ?thesis using rename_fail [OF _ _ s3 [unfolded Inl]] below by simp
  next
    case (Inr u)
    have "view w2 (?dir @ [Normal ''SKILL.md.tmp'']) = Some (skill_render (sf_rfc api) doc)"
      using write_view [OF _ s2 [unfolded that]] below by simp
    then show ?thesis using rename_file [OF _ _ _ _ s3 [unfolded Inr]] below ne by simp
  qed
  have "w' \<in> {w1, w2} \<or> w' = w3 \<and> r2 = Inr ()" "kl_skills_dir st' = root"
    using save Inr n st s1 s2 s3
    by (auto simp: save_skill_def skill_file_def invalidate_cache_def Let_def split: prod.splits sum.splits)
  then show ?thesis using v1 v2 v3 by auto
qed

lemma get_view:
  assumes "kl_skills_dir st = root" and "path_from_str slug = [Normal n]" and "validate_slug slug = Inr v"
    and "view w (root @ [Normal n, Normal ''SKILL.md'']) = Some s"
  shows "get_skill api st slug w = map_sum id Some (parse_at api w s)"
proof -
  have "skill_file st slug = root @ [Normal n, Normal ''SKILL.md'']"
    using valid_slug_component [OF assms(3)] assms(1,2) by (auto simp: skill_file_def)
  then show ?thesis using read_view [OF below, of w "[Normal n, Normal ''SKILL.md'']" s] assms(3,4) by (simp add: get_skill_def)
qed

lemma save_get:
  assumes "kl_skills_dir st = root" and "save_skill api doc st w = (Inr u, st', w')"
    and "rfc_laws (sf_rfc api)" and "renderable doc"
  shows "get_skill api st' (sk_name (sd_front_matter doc)) w' = Inr (Some doc)"
proof -
  obtain n where n: "path_from_str (sk_name (sd_front_matter doc)) = [Normal n]" "st' = invalidate_cache st"
    "view w' (root @ [Normal n, Normal ''SKILL.md'']) = Some (skill_render (sf_rfc api) doc)"
    using save_effect [OF assms(1,2)] by auto
  have "kl_skills_dir st' = root" using n(2) assms(1) by (simp add: invalidate_cache_def)
  moreover obtain v where "validate_slug (sk_name (sd_front_matter doc)) = Inr v"
    using assms(2) by (cases "validate_slug (sk_name (sd_front_matter doc))") (auto simp: save_skill_def)
  moreover have "parse_at api w' (skill_render (sf_rfc api) doc) = Inr doc"
    unfolding parse_at_def by (rule render_parse [OF assms(3,4)])
  ultimately show ?thesis using get_view [OF _ n(1) _ n(3), of st'] by simp
qed

lemma archive_effect:
  assumes st: "kl_skills_dir st = root" and arch: "archive_skill api slug st w = (Inr True, st', w')"
    and slug: "path_from_str slug = [Normal n]" and dir: "view w (root @ [Normal n]) = None"
  shows "st' = invalidate_cache st \<and> get_skill api st' slug w' = Inr None \<and>
    view w' (root @ [Normal ''.archive'', Normal n] @ p) = view w (root @ [Normal n] @ p) \<and>
    (n' \<noteq> n \<longrightarrow> n' \<noteq> ''.archive'' \<longrightarrow> view w' (root @ [Normal n'] @ p) = view w (root @ [Normal n'] @ p))"
proof -
  obtain v where v: "validate_slug slug = Inr v" using arch by (cases "validate_slug slug") (auto simp: archive_skill_def)
  have j: "\<And>p. join_str p slug = p @ [Normal n]" and dot: "\<not> starts_with_str ''.'' n"
    using valid_slug_component [OF v] slug by auto
  let ?src = "root @ [Normal n]" and ?arch = "root @ [Normal ''.archive'']" and ?dst = "root @ [Normal ''.archive'', Normal n]"
  obtain w1 where steps: "sf_create_dir_all api ?arch w = (Inr (), w1)" "sf_rename api ?src ?dst w1 = (Inr (), w')"
      "st' = invalidate_cache st"
    using arch v j st by (auto simp: archive_skill_def archive_component Let_def split: prod.splits sum.splits if_splits)
  have ne: "n \<noteq> ''.archive''" using dot by (auto simp: starts_with_str_def)
  have w1: "view w1 = view w" using mkdir_view [OF below steps(1)] .
  have after: "view w' (root @ q) = (if path_starts_with (root @ q) ?dst then view w (?src @ drop (length ?dst) (root @ q))
      else if path_starts_with (root @ q) ?src then None else view w (root @ q))" for q
    using rename_dir [OF below below _ _ steps(2) below, of q] dir w1 ne by simp
  have starts: "path_starts_with (root @ Normal a # p) (root @ [Normal b]) \<longleftrightarrow> a = b" for a b p
    by (auto simp: path_starts_with_def)
  have "sf_read api w' (?src @ [Normal ''SKILL.md'']) = ReadNotFound"
    using rename_gone [OF below below _ steps(2), of "[Normal ''SKILL.md'']"] ne by (simp add: path_starts_with_def)
  moreover have "skill_file st' slug = ?src @ [Normal ''SKILL.md'']"
    using st steps(3) j by (simp add: skill_file_def invalidate_cache_def)
  ultimately have "get_skill api st' slug w' = Inr None" using v by (simp add: get_skill_def)
  then show ?thesis using steps(3) after [of "[Normal ''.archive'', Normal n] @ p"] after [of "[Normal n'] @ p"] ne
    by (auto simp: path_starts_with_def)
qed

lemma archive_others:
  assumes st: "kl_skills_dir st = root" and arch: "archive_skill api slug st w = (r, st', w')"
    and m: "[Normal m] \<noteq> path_from_str slug" "m \<noteq> ''.archive''"
  shows "view w' (root @ [Normal m] @ p) = view w (root @ [Normal m] @ p) \<and> kl_skills_dir st' = root"
proof (cases "validate_slug slug")
  case (Inl e)
  then show ?thesis using arch st by (simp add: archive_skill_def)
next
  case (Inr v)
  obtain n where n: "path_from_str slug = [Normal n]" "\<And>p. join_str p slug = p @ [Normal n]" "\<not> starts_with_str ''.'' n"
    using valid_slug_component [OF Inr] by blast
  have ne: "m \<noteq> n" "n \<noteq> ''.archive''" using m n by (auto simp: starts_with_str_def)
  let ?src = "root @ [Normal n]" and ?dst = "root @ [Normal ''.archive'', Normal n]" and ?q = "root @ Normal m # p"
  obtain r1 w1 where s1: "sf_create_dir_all api (root @ [Normal ''.archive'']) w = (r1, w1)" by fastforce
  obtain r2 w2 where s2: "sf_rename api ?src ?dst w1 = (r2, w2)" by fastforce
  have v1: "view w1 ?q = view w ?q" using mkdir_view [OF _ s1] below by simp
  have v2: "view w2 ?q = view w1 ?q"
  proof (cases r2)
    case (Inl e)
    then show ?thesis using rename_fail [OF _ _ s2 [unfolded Inl]] below by simp
  next
    case (Inr u)
    note ren = s2 [unfolded Inr]
    show ?thesis
    proof (cases "view w1 ?src")
      case None
      then show ?thesis using rename_dir [OF below below _ _ ren below, of "Normal m # p"] ne m(2) by (simp add: path_starts_with_def)
    next
      case (Some s)
      then show ?thesis using rename_file [OF below below _ _ ren] ne m(2) by simp
    qed
  qed
  have "w' \<in> {w, w1, w2}" "kl_skills_dir st' = root"
    using arch Inr n st s1 s2
    by (auto simp: archive_skill_def archive_component invalidate_cache_def Let_def split: prod.splits sum.splits if_splits)
  then show ?thesis using v1 v2 by auto
qed

end

subsection \<open>A file system without links\<close>

datatype flat_node = FlatDir | FlatFile string

text \<open>The nodes by their paths, and the monotonic clock.\<close>

type_synonym flat_fs = "(path, flat_node) hashmap \<times> nat"

definition strictly_below :: "path \<Rightarrow> path \<Rightarrow> bool" where
  "strictly_below a p \<longleftrightarrow> path_starts_with p a \<and> p \<noteq> a"

definition has_below :: "path \<Rightarrow> (path, flat_node) hashmap \<Rightarrow> bool" where
  "has_below a fs \<longleftrightarrow> list_ex (\<lambda>(p, _). strictly_below a p) fs"

definition flat_read :: "flat_fs \<Rightarrow> path \<Rightarrow> read_outcome" where
  "flat_read w p = (case hm_get (fst w) p of
      Some (FlatFile s) \<Rightarrow> ReadOk s | Some FlatDir \<Rightarrow> ReadFailed ''is a directory'' | None \<Rightarrow> ReadNotFound)"

definition flat_write :: "path \<Rightarrow> string \<Rightarrow> flat_fs \<Rightarrow> (string + unit) \<times> flat_fs" where
  "flat_write p s w =
     (if hm_get (fst w) p = Some FlatDir \<or> p = [] \<or> hm_get (fst w) (butlast p) \<noteq> Some FlatDir then (Inl ''not found'', w)
      else (Inr (), (hm_insert p (FlatFile s) (fst w), snd w)))"

definition add_dir :: "path \<Rightarrow> (path, flat_node) hashmap \<Rightarrow> (path, flat_node) hashmap" where
  "add_dir q fs = (if hm_get fs q = None then hm_insert q FlatDir fs else fs)"

definition flat_mkdirs :: "path \<Rightarrow> flat_fs \<Rightarrow> (string + unit) \<times> flat_fs" where
  "flat_mkdirs p w =
     (let prefixes = map (\<lambda>k. take k p) [1..<Suc (length p)]
      in if list_ex (\<lambda>q. case hm_get (fst w) q of Some (FlatFile _) \<Rightarrow> True | _ \<Rightarrow> False) prefixes then (Inl ''file exists'', w)
         else (Inr (), (fold add_dir prefixes (fst w), snd w)))"

definition move_tree :: "path \<Rightarrow> path \<Rightarrow> (path, flat_node) hashmap \<Rightarrow> (path, flat_node) hashmap" where
  "move_tree a b fs =
     hm_retain (\<lambda>p _. \<not> path_starts_with p a \<and> \<not> path_starts_with p b) fs @
     map (\<lambda>(p, x). (b @ drop (length a) p, x)) (filter (\<lambda>(p, _). path_starts_with p a) fs)"

definition flat_rename :: "path \<Rightarrow> path \<Rightarrow> flat_fs \<Rightarrow> (string + unit) \<times> flat_fs" where
  "flat_rename a b w =
     (if path_starts_with b a \<or> has_below b (fst w) then (Inl ''invalid argument'', w)
      else (case hm_get (fst w) a of
              None \<Rightarrow> (Inl ''not found'', w)
            | Some (FlatFile s) \<Rightarrow>
                if hm_get (fst w) b = Some FlatDir \<or> has_below a (fst w) then (Inl ''is a directory'', w)
                else (Inr (), (hm_insert b (FlatFile s) (hm_remove a (fst w)), snd w))
            | Some FlatDir \<Rightarrow>
                (case hm_get (fst w) b of
                   Some (FlatFile _) \<Rightarrow> (Inl ''not a directory'', w)
                 | _ \<Rightarrow> (Inr (), (move_tree a b (fst w), snd w)))))"

definition flat_read_dir :: "flat_fs \<Rightarrow> path \<Rightarrow> (string \<times> bool) list option" where
  "flat_read_dir w p =
     (if hm_get (fst w) p = Some FlatDir
      then Some (List.map_filter (\<lambda>(q, x). if q \<noteq> [] \<and> butlast q = p
             then (case last q of Normal n \<Rightarrow> Some (n, x = FlatDir) | _ \<Rightarrow> None) else None) (fst w))
      else None)"

definition flat_api :: "flat_fs skill_fs" where
  "flat_api = \<lparr>sf_read_dir = flat_read_dir, sf_read = flat_read, sf_exists = (\<lambda>w p. hm_get (fst w) p \<noteq> None),
     sf_write = flat_write, sf_rename = flat_rename, sf_create_dir_all = flat_mkdirs, sf_instant = snd,
     sf_now = (\<lambda>w. seconds (int (snd w))), sf_rfc = example_rfc\<rparr>"

definition flat_view :: "flat_fs \<Rightarrow> path \<Rightarrow> string option" where
  "flat_view w p = (case hm_get (fst w) p of Some (FlatFile s) \<Rightarrow> Some s | _ \<Rightarrow> None)"

lemma hm_get_retain_keys: "hm_get (hm_retain (\<lambda>k _. P k) m) k = (if P k then hm_get m k else None)"
  by (induction m) (auto simp: hm_retain_def)

lemma move_tree_get:
  "hm_get (move_tree a b fs) p =
     (if path_starts_with p b then hm_get fs (a @ drop (length b) p)
      else if path_starts_with p a then None else hm_get fs p)"
proof -
  have moved: "map_of (map (\<lambda>(p, x). (b @ drop (length a) p, x)) (filter (\<lambda>(p, _). path_starts_with p a) fs)) p =
      (if path_starts_with p b then hm_get fs (a @ drop (length b) p) else None)"
    by (induction fs) (auto simp: path_starts_with_iff)
  show ?thesis unfolding move_tree_def map_of_append map_add_def moved hm_get_retain_keys
    by (auto split: option.splits)
qed

lemma has_below_None: "\<not> has_below a fs \<Longrightarrow> p \<noteq> [] \<Longrightarrow> hm_get fs (a @ p) = None"
  by (induction fs) (auto simp: has_below_def strictly_below_def path_starts_with_def)

interpretation flat: skill_files flat_api root flat_view for root
proof unfold_locales
  fix p a b q and w w' :: flat_fs and s :: string and u :: unit
  show "sf_read flat_api w p = ReadOk s \<longleftrightarrow> flat_view w p = Some s"
    by (auto simp: flat_api_def flat_read_def flat_view_def split: option.splits flat_node.splits)
  show "flat_view w' = flat_view w" if "sf_create_dir_all flat_api p w = (r, w')" for r
  proof -
    have "flat_view (fold add_dir qs fs, c) = flat_view (fs, c)" for qs fs c
      by (induction qs arbitrary: fs) (auto simp: flat_view_def add_dir_def fun_eq_iff split: option.splits flat_node.splits)
    then show ?thesis using that by (cases w) (auto simp: flat_api_def flat_mkdirs_def Let_def simp del: upt_Suc split: if_splits)
  qed
  show "flat_view w' q = flat_view w q" if "sf_write flat_api p s w = (r, w')" "q \<noteq> p" for r
    using that by (auto simp: flat_api_def flat_write_def flat_view_def split: if_splits)
  show "flat_view w' = flat_view w" if "sf_rename flat_api a b w = (Inl e, w')" for e
    using that by (auto simp: flat_api_def flat_rename_def split: if_splits option.splits flat_node.splits)
  show "flat_view w' = (flat_view w)(p \<mapsto> s)" if "sf_write flat_api p s w = (Inr u, w')"
    using that by (auto simp: flat_api_def flat_write_def flat_view_def fun_eq_iff split: if_splits)
  show "flat_view w' = (flat_view w)(a := None, b \<mapsto> s)"
    if "a \<noteq> b" "flat_view w a = Some s" "sf_rename flat_api a b w = (Inr u, w')"
    using that by (auto simp: flat_api_def flat_rename_def flat_view_def fun_eq_iff split: if_splits option.splits flat_node.splits)
  show "flat_view w' q = (if path_starts_with q b then flat_view w (a @ drop (length b) q)
      else if path_starts_with q a then None else flat_view w q)"
    if "flat_view w a = None" "sf_rename flat_api a b w = (Inr u, w')"
    using that by (auto simp: flat_api_def flat_rename_def flat_view_def move_tree_get split: if_splits option.splits flat_node.splits)
  show "sf_read flat_api w' (a @ q) = ReadNotFound"
    if "a \<noteq> b" "sf_rename flat_api a b w = (Inr u, w')" "q \<noteq> []" "\<not> path_starts_with (a @ q) b"
    using that has_below_None [of a "fst w" q]
    by (auto simp: flat_api_def flat_rename_def flat_read_def move_tree_get path_starts_with_def
        split: if_splits option.splits flat_node.splits)
qed

subsection \<open>Properties\<close>

text \<open>
  The skill store keeps what it is given. On any file system that keeps the contract, a
  document that was saved successfully is what the next lookup of its name returns, the
  cached index is dropped, and the files of all other skills are as before.
\<close>

theorem skill_save_get:
  assumes "skill_files api root view" and "kl_skills_dir st = root" and "rfc_laws (sf_rfc api)" and "renderable doc"
    and "save_skill api doc st w = (Inr u, st', w')"
  shows "get_skill api st' (sk_name (sd_front_matter doc)) w' = Inr (Some doc) \<and> kl_cache st' = None \<and>
    (\<forall>slug. validate_slug slug = Inr () \<longrightarrow> path_from_str slug \<noteq> path_from_str (sk_name (sd_front_matter doc)) \<longrightarrow>
       view w' (skill_file st' slug) = view w (skill_file st slug))"
proof -
  note eff = skill_files.save_effect [OF assms(1,2,5)]
  have "view w' (skill_file st' slug) = view w (skill_file st slug)"
    if ok: "validate_slug slug = Inr ()" and ne: "path_from_str slug \<noteq> path_from_str (sk_name (sd_front_matter doc))" for slug
  proof -
    obtain m where "path_from_str slug = [Normal m]" "\<And>p. join_str p slug = p @ [Normal m]"
      using valid_slug_component [OF ok] by blast
    then show ?thesis using eff ne assms(2) by (auto simp: skill_file_def invalidate_cache_def)
  qed
  then show ?thesis using skill_files.save_get [OF assms(1,2,5,3,4)] eff by (auto simp: invalidate_cache_def)
qed

definition skills_root :: path where
  "skills_root = [RootDir, Normal ''skills'']"

definition empty_disk :: flat_fs where
  "empty_disk = ([([RootDir], FlatDir), (skills_root, FlatDir)], 7)"

definition example_save :: "(skill_error + unit) \<times> skill_store \<times> flat_fs" where
  "example_save = save_skill flat_api example_skill (store_new skills_root) empty_disk"

lemma example_save_ok: "\<not> isl (fst example_save)"
  by code_simp

theorem skill_save_get_witness:
  "get_skill flat_api (fst (snd example_save)) ''git-flow'' (snd (snd example_save)) = Inr (Some example_skill)"
proof -
  obtain u st' w' where save: "save_skill flat_api example_skill (store_new skills_root) empty_disk = (Inr u, st', w')"
    using example_save_ok unfolding example_save_def
    by (cases "save_skill flat_api example_skill (store_new skills_root) empty_disk"; cases "fst example_save")
      (auto simp: example_save_def)
  have "sf_rfc flat_api = example_rfc" "sk_name (sd_front_matter example_skill) = ''git-flow''"
    by (simp_all add: flat_api_def example_skill_def)
  then show ?thesis
    using skill_save_get [OF flat.skill_files_axioms _ _ example_renderable save] example_rfc_laws
    unfolding example_save_def save by (simp add: store_new_def)
qed

text \<open>
  C31: archiving never deletes: on any file system that keeps the contract, after a successful
  archiving of a skill directory the lookup finds no such skill, every file of it is below the
  archive with its content, and the files of all other skills are as before.
\<close>

theorem skill_archive_keeps_content:
  assumes "skill_files api root view" and "kl_skills_dir st = root"
    and "archive_skill api slug st w = (Inr True, st', w')"
    and "path_from_str slug = [Normal n]" and "view w (root @ [Normal n]) = None"
  shows "get_skill api st' slug w' = Inr None \<and>
    (\<forall>p. view w' (root @ [Normal ''.archive'', Normal n] @ p) = view w (root @ [Normal n] @ p)) \<and>
    (\<forall>m p. m \<noteq> n \<longrightarrow> m \<noteq> ''.archive'' \<longrightarrow> view w' (root @ [Normal m] @ p) = view w (root @ [Normal m] @ p))"
  using skill_files.archive_effect [OF assms] by blast

definition example_archive :: "(skill_error + bool) \<times> skill_store \<times> flat_fs" where
  "example_archive = archive_skill flat_api ''git-flow'' (store_new skills_root) (snd (snd example_save))"

lemma example_archive_facts:
  "fst example_archive = Inr True" "path_from_str ''git-flow'' = [Normal ''git-flow'']"
  "flat_view (snd (snd example_save)) (skills_root @ [Normal ''git-flow'']) = None"
  by code_simp+

theorem skill_archive_keeps_content_witness:
  "get_skill flat_api (fst (snd example_archive)) ''git-flow'' (snd (snd example_archive)) = Inr None"
proof -
  obtain st' w' where a: "archive_skill flat_api ''git-flow'' (store_new skills_root) (snd (snd example_save)) = (Inr True, st', w')"
    using example_archive_facts(1) unfolding example_archive_def
    by (cases "archive_skill flat_api ''git-flow'' (store_new skills_root) (snd (snd example_save))") auto
  have "kl_skills_dir (store_new skills_root) = skills_root" by (simp add: store_new_def)
  then have "get_skill flat_api st' ''git-flow'' w' = Inr None"
    using skill_archive_keeps_content [where api = flat_api and view = flat_view and root = skills_root
        and n = "''git-flow''" and slug = "''git-flow''", OF flat.skill_files_axioms _ a example_archive_facts(2,3)] by blast
  then show ?thesis unfolding example_archive_def a by simp
qed

text \<open>The loader checks the name of the reference file, not that of the skill: a skill name with
  parent components reads outside the skills directory.\<close>

lemma load_ref_leaves_directory:
  "load_ref flat_api (store_new skills_root) ''../secret'' ''key''
     ([([RootDir, Normal ''skills'', ParentDir, Normal ''secret'', Normal ''refs'', Normal ''key''], FlatFile ''x'')], 0) = Some ''x''"
  by code_simp

end
