(* ===== verification/Skill_Curator.thy ===== *)
theory Skill_Curator
  imports Skill_Store Llm_Types Router
begin

text \<open>
  The skill curator (\<^verbatim>\<open>crates/skills/src/curator.rs\<close>): the parser of the model's directives,
  their execution on the store, the reports and the background loop. The curator asks the
  modelled router; the formats of dates and of the router's error, and sleeping, are parameters.
\<close>

datatype curator_action =
    Keep string
  | Prune string string
  | Consolidate "string list" string string

record ('c, 'stream, 'w) curator_env =
  cu_fs :: "'w skill_fs"
  cu_api :: "('c, completion_request, completion_response, 'stream, 'w) provider_api"
  cu_router :: "'w \<Rightarrow> 'c llm_router"
  cu_llm_text :: "llm_error \<Rightarrow> string"
  cu_stamp :: "timestamp \<Rightarrow> string"
  cu_date :: "timestamp \<Rightarrow> string"

record skill_curator =
  ct_store :: skill_store
  ct_schedule_expr :: string
  ct_logs_dir :: path

fun skill_error_text :: "skill_error \<Rightarrow> string" where
  "skill_error_text (InvalidFrontMatter e) = ''invalid front matter: '' @ e"
| "skill_error_text (MissingField e) = ''missing required field: '' @ e"
| "skill_error_text (SkillIo e) = ''IO error: '' @ e"

subsection \<open>Parsing the response\<close>

definition is_directive :: "string \<Rightarrow> bool" where
  "is_directive s \<longleftrightarrow> starts_with_str ''KEEP '' s \<or> starts_with_str ''PRUNE '' s \<or> starts_with_str ''CONSOLIDATE '' s"

text \<open>The loop that collects the merged document: the number of \<^verbatim>\<open>---\<close> lines so far, the lines
  collected and the lines left.\<close>

fun collect_block :: "nat \<Rightarrow> string list \<Rightarrow> string list \<Rightarrow> string list \<times> string list" where
  "collect_block dashes acc [] = (acc, [])"
| "collect_block dashes acc (l # rest) =
     (let nxt = str_trim l in
      if 2 \<le> dashes \<and> is_directive nxt then (acc, l # rest)
      else
        let dashes' = (if nxt = ''---'' then Suc dashes else dashes);
            acc' = acc @ [l];
            after_second = takeWhile (\<lambda>l. str_trim l \<noteq> ''---'') (rev acc')
        in if 2 \<le> dashes' \<and> acc' \<noteq> [] \<and> after_second \<noteq> [] \<and> (rest = [] \<or> is_directive (str_trim (hd rest)))
           then (acc', rest)
           else collect_block dashes' acc' rest)"

lemma collect_block_shorter: "length (snd (collect_block d acc ls)) \<le> length ls"
  by (induction ls arbitrary: d acc) (auto simp: Let_def intro: le_SucI)

function parse_actions :: "string list \<Rightarrow> curator_action list" where
  "parse_actions [] = []"
| "parse_actions (l # rest) =
     (let line = str_trim l in
      case strip_prefix ''KEEP '' line of
        Some r \<Rightarrow> (let slug = str_trim r in (if slug \<noteq> [] then [Keep slug] else []) @ parse_actions rest)
      | None \<Rightarrow>
          (case strip_prefix ''PRUNE '' line of
             Some r \<Rightarrow>
               (case find_str '' '' r of Some (s, why) \<Rightarrow> Prune s (str_trim why) | None \<Rightarrow> Prune r []) # parse_actions rest
           | None \<Rightarrow>
               (case strip_prefix ''CONSOLIDATE '' line of
                  None \<Rightarrow> parse_actions rest
                | Some r \<Rightarrow>
                    (case find_str ''->'' r of
                       None \<Rightarrow> parse_actions rest
                     | Some (from_part, to_part) \<Rightarrow>
                         let from_slugs = split_whitespace from_part;
                             to_slug = str_trim to_part;
                             next_non_empty = (case dropWhile (\<lambda>l. str_trim l = []) rest of [] \<Rightarrow> [] | p # _ \<Rightarrow> str_trim p)
                         in if next_non_empty \<noteq> ''---''
                            then Consolidate from_slugs to_slug [] # parse_actions rest
                            else let block = collect_block 0 [] rest
                                 in Consolidate from_slugs to_slug (join_with [newline] (fst block)) # parse_actions (snd block)))))"
  by pat_completeness auto

termination
  by (relation "measure length") (auto intro: le_imp_less_Suc collect_block_shorter)

declare parse_actions.simps(2) [simp del]

definition parse_curator_response :: "string \<Rightarrow> curator_action list" where
  "parse_curator_response response = parse_actions (str_lines response)"

definition build_skill_summary :: "('c, 'stream, 'w) curator_env \<Rightarrow> skill_doc list \<Rightarrow> string" where
  "build_skill_summary env skills =
     join_with [newline] (map (\<lambda>s. let fm = sd_front_matter s in
       ''- '' @ sk_name fm @ '' (use_count: '' @ show_nat (unat (sk_use_count fm)) @ '', last_used: '' @
       (case sk_last_used fm of Some d \<Rightarrow> cu_date env d | None \<Rightarrow> ''never'') @ ''): '' @ sk_description fm) skills)"

subsection \<open>Executing the actions\<close>

fun archive_all :: "'w skill_fs \<Rightarrow> string \<Rightarrow> string list \<Rightarrow> skill_store \<Rightarrow> 'w \<Rightarrow> string list \<times> skill_store \<times> 'w" where
  "archive_all api to_slug [] st w = ([], st, w)"
| "archive_all api to_slug (slug # slugs) st w =
     (if slug = to_slug then archive_all api to_slug slugs st w
      else (case archive_skill api slug st w of
              (r, st1, w1) \<Rightarrow>
                (case archive_all api to_slug slugs st1 w1 of
                   (ls, st2, w2) \<Rightarrow>
                     ((case r of Inr _ \<Rightarrow> ''  archived: '' @ slug
                       | Inl e \<Rightarrow> ''  error archiving '' @ slug @ '': '' @ skill_error_text e) # ls, st2, w2))))"

definition rename_doc :: "string \<Rightarrow> skill_doc \<Rightarrow> skill_doc" where
  "rename_doc slug doc = doc\<lparr>sd_front_matter := (sd_front_matter doc)\<lparr>sk_name := slug\<rparr>\<rparr>"

definition touch_doc :: "timestamp \<Rightarrow> skill_doc \<Rightarrow> skill_doc" where
  "touch_doc now doc = doc\<lparr>sd_front_matter := (sd_front_matter doc)\<lparr>sk_updated_at := now\<rparr>\<rparr>"

fun process_action :: "'w skill_fs \<Rightarrow> curator_action \<Rightarrow> skill_store \<Rightarrow> 'w \<Rightarrow> string list \<times> skill_store \<times> 'w" where
  "process_action api (Keep slug) st w =
     (case get_skill api st slug w of
        Inr (Some doc) \<Rightarrow>
          (case save_skill api (touch_doc (sf_now api w) doc) st w of (_, st1, w1) \<Rightarrow> ([''- KEEP: '' @ slug], st1, w1))
      | _ \<Rightarrow> ([''- KEEP: '' @ slug], st, w))"
| "process_action api (Prune slug reason) st w =
     (case archive_skill api slug st w of
        (r, st1, w1) \<Rightarrow>
          ([''- PRUNE: '' @ slug @ '' (reason: '' @ reason @ '')'',
            (case r of
               Inr True \<Rightarrow> ''  archived: '' @ slug
             | Inr False \<Rightarrow> ''  not found: '' @ slug
             | Inl e \<Rightarrow> ''  error archiving '' @ slug @ '': '' @ skill_error_text e)], st1, w1))"
| "process_action api (Consolidate from_slugs to_slug merged) st w =
     (let title = ''- CONSOLIDATE: '' @ join_with '', '' from_slugs @ '' -> '' @ to_slug in
      if merged = [] then ([title, ''  skipped: no merged SKILL.md provided''], st, w)
      else (case parse_at api w merged of
              Inl e \<Rightarrow> ([title, ''  error parsing merged SKILL.md: '' @ skill_error_text e], st, w)
            | Inr new_doc \<Rightarrow>
                (case save_skill api (rename_doc to_slug new_doc) st w of
                   (Inl e, st1, w1) \<Rightarrow> ([title, ''  error saving '' @ to_slug @ '': '' @ skill_error_text e], st1, w1)
                 | (Inr _, st1, w1) \<Rightarrow>
                     (case archive_all api to_slug from_slugs st1 w1 of
                        (ls, st2, w2) \<Rightarrow> (title # (''  created: '' @ to_slug) # ls, st2, w2)))))"

fun process_all :: "'w skill_fs \<Rightarrow> curator_action list \<Rightarrow> skill_store \<Rightarrow> 'w \<Rightarrow> string list \<times> skill_store \<times> 'w" where
  "process_all api [] st w = ([], st, w)"
| "process_all api (a # as) st w =
     (case process_action api a st w of
        (ls, st1, w1) \<Rightarrow> (case process_all api as st1 w1 of (ls', st2, w2) \<Rightarrow> (ls @ ls', st2, w2)))"

text \<open>The title has a dash in UTF-8.\<close>

definition report_title :: "('c, 'stream, 'w) curator_env \<Rightarrow> 'w \<Rightarrow> string" where
  "report_title env w = ''# Curator Run '' @ [CHR 0xE2, CHR 0x80, CHR 0x94] @ '' '' @ cu_stamp env (sf_now (cu_fs env) w)"

definition process_actions :: "('c, 'stream, 'w) curator_env \<Rightarrow> curator_action list \<Rightarrow> nat \<Rightarrow> skill_store \<Rightarrow> 'w \<Rightarrow> string \<times> skill_store \<times> 'w" where
  "process_actions env actions reviewed st w =
     (case process_all (cu_fs env) actions st w of
        (ls, st1, w1) \<Rightarrow>
          (join_with [newline] ([report_title env w, newline # ''Skills reviewed: '' @ show_nat reviewed, []] @ ls), st1, w1))"

definition write_report :: "('c, 'stream, 'w) curator_env \<Rightarrow> path \<Rightarrow> string \<Rightarrow> 'w \<Rightarrow> 'w" where
  "write_report env logs_dir report w =
     (let dir = join_str logs_dir ''curator'' in
      case sf_create_dir_all (cu_fs env) dir w of
        (Inl _, w1) \<Rightarrow> w1
      | (Inr _, w1) \<Rightarrow> snd (sf_write (cu_fs env) (join_str dir (cu_date env (sf_now (cu_fs env) w1) @ ''.md'')) report w1))"

definition curator_prompt :: "string \<Rightarrow> string" where
  "curator_prompt summary =
     ''Review this skill library. For each skill, output exactly one line:'' @ [newline] @
     ''KEEP <slug>'' @ [newline] @
     ''PRUNE <slug> <reason>'' @ [newline] @
     ''CONSOLIDATE <slug-a> <slug-b> -> <new-slug>'' @ [newline, newline] @
     ''If you output CONSOLIDATE, immediately follow it with the full merged SKILL.md '' @
     ''(starting with ---) before the next directive.'' @ [newline, newline] @
     ''Skills:'' @ [newline] @ summary @ [newline, newline] @
     ''Output only directives (and any merged SKILL.md content). No explanation.''"

text \<open>The temperature 0.2 is its bit pattern.\<close>

definition curator_request :: "string \<Rightarrow> completion_request" where
  "curator_request prompt =
     \<lparr>cr_messages = [chat_text ChatUser prompt], cr_tools = [], cr_max_tokens = Some 4096,
      cr_temperature = Some 0x3E4CCCCD, cr_stream = False\<rparr>"

definition run_once :: "('c, 'stream, 'w) curator_env \<Rightarrow> skill_curator \<Rightarrow> 'w \<Rightarrow> (string + string) \<times> skill_curator \<times> 'w" where
  "run_once env cur w =
     (case list_skills (cu_fs env) (ct_store cur) w of
        (Inl e, st) \<Rightarrow> (Inl (skill_error_text e), cur\<lparr>ct_store := st\<rparr>, w)
      | (Inr skills, st) \<Rightarrow>
          if skills = [] then
            (let report = report_title env w @ [newline, newline] @ ''No skills to review.''
             in (Inr report, cur\<lparr>ct_store := st\<rparr>, write_report env (ct_logs_dir cur) report w))
          else
            (case complete (cu_api env) (cu_router env w) (curator_request (curator_prompt (build_skill_summary env skills))) w of
               (Inl e, _, w1) \<Rightarrow> (Inl (''LLM call failed: '' @ cu_llm_text env e), cur\<lparr>ct_store := st\<rparr>, w1)
             | (Inr response, _, w1) \<Rightarrow>
                 (case process_actions env (parse_curator_response (cp_content response)) (length skills) st w1 of
                    (report, st1, w2) \<Rightarrow>
                      (Inr report, cur\<lparr>ct_store := st1\<rparr>, write_report env (ct_logs_dir cur) report w2))))"

text \<open>\<^verbatim>\<open>trim_end_matches(".md")\<close> takes the suffix off as often as it is there.\<close>

lemma take_suffix_shorter: "ends_with_str s pat \<Longrightarrow> pat \<noteq> [] \<Longrightarrow> length (take (length s - length pat) s) < length s"
  by (cases pat) (auto simp: ends_with_str_def)

function trim_end_matches :: "string \<Rightarrow> string \<Rightarrow> string" where
  "trim_end_matches pat s =
     (if pat \<noteq> [] \<and> ends_with_str s pat then trim_end_matches pat (take (length s - length pat) s) else s)"
  by pat_completeness auto

termination
  by (relation "measure (\<lambda>(pat, s). length s)") (auto dest: take_suffix_shorter)

declare trim_end_matches.simps [simp del]

definition last_run_date :: "('c, 'stream, 'w) curator_env \<Rightarrow> skill_curator \<Rightarrow> 'w \<Rightarrow> string option" where
  "last_run_date env cur w =
     (case sf_read_dir (cu_fs env) w (join_str (ct_logs_dir cur) ''curator'') of
        None \<Rightarrow> None
      | Some entries \<Rightarrow>
          let dates = sort (map (trim_end_matches ''.md'') (filter (\<lambda>n. ends_with_str n ''.md'') (map fst entries)))
          in if dates = [] then None else Some (last dates))"

text \<open>\<open>n\<close> rounds of the background loop: \<open>upcoming\<close> is the next occurrence of the parsed
  schedule, \<open>slp\<close> the sleep; the loop ends when there is none.\<close>

fun background_rounds :: "('c, 'stream, 'w) curator_env \<Rightarrow> ('w \<Rightarrow> timestamp option) \<Rightarrow> (nat \<Rightarrow> 'w \<Rightarrow> 'w) \<Rightarrow>
    nat \<Rightarrow> skill_curator \<Rightarrow> 'w \<Rightarrow> skill_curator \<times> 'w" where
  "background_rounds env upcoming slp 0 cur w = (cur, w)"
| "background_rounds env upcoming slp (Suc n) cur w =
     (case upcoming w of
        None \<Rightarrow> (cur, w)
      | Some next_run \<Rightarrow>
          let d = next_run - sf_now (cu_fs env) w;
              delay = (if 0 \<le> d then nat d else 3600 * 1000000000)
          in case run_once env cur (slp delay w) of (_, cur1, w1) \<Rightarrow> background_rounds env upcoming slp n cur1 w1)"

definition start_background :: "('c, 'stream, 'w) curator_env \<Rightarrow> (string \<Rightarrow> ('w \<Rightarrow> timestamp option) option) \<Rightarrow>
    (nat \<Rightarrow> 'w \<Rightarrow> 'w) \<Rightarrow> nat \<Rightarrow> skill_curator \<Rightarrow> 'w \<Rightarrow> skill_curator \<times> 'w" where
  "start_background env parse_schedule slp n cur w =
     (case parse_schedule (ct_schedule_expr cur) of
        None \<Rightarrow> (cur, w)
      | Some upcoming \<Rightarrow> background_rounds env upcoming slp n cur w)"

subsection \<open>Correctness\<close>

text \<open>The slugs an action names.\<close>

fun action_slugs :: "curator_action \<Rightarrow> string list" where
  "action_slugs (Keep slug) = [slug]"
| "action_slugs (Prune slug reason) = [slug]"
| "action_slugs (Consolidate from_slugs to_slug merged) = to_slug # from_slugs"

context skill_files
begin

lemma archive_all_others:
  assumes "kl_skills_dir st = root" and "archive_all api to_slug slugs st w = (ls, st', w')"
    and "\<forall>slug \<in> set slugs. path_from_str slug \<noteq> [Normal m]" and "m \<noteq> ''.archive''"
  shows "view w' (root @ [Normal m] @ p) = view w (root @ [Normal m] @ p) \<and> kl_skills_dir st' = root"
  using assms
proof (induction slugs arbitrary: st w ls)
  case Nil
  then show ?case by simp
next
  case (Cons slug slugs)
  show ?case
  proof (cases "slug = to_slug")
    case True
    then show ?thesis using Cons by simp
  next
    case False
    obtain r st1 w1 where a: "archive_skill api slug st w = (r, st1, w1)" by (metis prod_cases3)
    have one: "view w1 (root @ [Normal m] @ p) = view w (root @ [Normal m] @ p) \<and> kl_skills_dir st1 = root"
      using Cons.prems by (intro archive_others [OF _ a]) auto
    obtain ls2 where rest: "archive_all api to_slug slugs st1 w1 = (ls2, st', w')"
      using Cons.prems(2) False a by (auto split: prod.splits)
    show ?thesis using Cons.IH [OF _ rest] Cons.prems(3,4) one by simp
  qed
qed

lemma process_action_others:
  assumes st: "kl_skills_dir st = root" and run: "process_action api a st w = (ls, st', w')"
    and slugs: "\<forall>slug \<in> set (action_slugs a). path_from_str slug \<noteq> [Normal m]" and m: "m \<noteq> ''.archive''"
    and keep: "\<And>slug doc. a = Keep slug \<Longrightarrow> get_skill api st slug w = Inr (Some doc) \<Longrightarrow> path_from_str (sk_name (sd_front_matter doc)) \<noteq> [Normal m]"
  shows "view w' (root @ [Normal m] @ p) = view w (root @ [Normal m] @ p) \<and> kl_skills_dir st' = root"
proof (cases a)
  case (Keep slug)
  show ?thesis
  proof (cases "\<exists>doc. get_skill api st slug w = Inr (Some doc)")
    case True
    then obtain doc where g: "get_skill api st slug w = Inr (Some doc)" by blast
    obtain r where s: "save_skill api (touch_doc (sf_now api w) doc) st w = (r, st', w')"
      using run Keep g by (auto split: prod.splits)
    show ?thesis using save_others [OF st s, of m p] keep [OF Keep g] by (auto simp: touch_doc_def)
  next
    case False
    then have "st' = st" "w' = w" using run Keep by (auto split: sum.splits option.splits)
    then show ?thesis using st by simp
  qed
next
  case (Prune slug reason)
  obtain r where a: "archive_skill api slug st w = (r, st', w')" using run Prune by (auto split: prod.splits)
  show ?thesis using archive_others [OF st a, of m p] slugs m Prune by auto
next
  case (Consolidate from_slugs to_slug merged)
  show ?thesis
  proof (cases "merged = [] \<or> isl (parse_at api w merged)")
    case True
    then have "st' = st" "w' = w" using run Consolidate by (auto simp: Let_def split: sum.splits if_splits)
    then show ?thesis using st by simp
  next
    case False
    then obtain doc where d: "merged \<noteq> []" "parse_at api w merged = Inr doc" by (cases "parse_at api w merged") auto
    obtain r st1 w1 where s: "save_skill api (rename_doc to_slug doc) st w = (r, st1, w1)" by (metis prod_cases3)
    have one: "view w1 (root @ [Normal m] @ p) = view w (root @ [Normal m] @ p) \<and> kl_skills_dir st1 = root"
      using save_others [OF st s, of m p] slugs Consolidate by (auto simp: rename_doc_def)
    show ?thesis
    proof (cases r)
      case (Inl e)
      then show ?thesis using run Consolidate d s one by (simp add: Let_def)
    next
      case (Inr u)
      obtain ls2 st2 w2 where arch: "archive_all api to_slug from_slugs st1 w1 = (ls2, st2, w2)" by (metis prod_cases3)
      have "st' = st2" "w' = w2" using run Consolidate d s Inr arch by (auto simp: Let_def)
      then show ?thesis using archive_all_others [OF _ arch, of m p] one slugs m Consolidate by auto
    qed
  qed
qed

end

text \<open>The directories a run can touch: those of the slugs its actions name, and that of the name
  inside a document that is kept.\<close>

fun touched :: "'w skill_fs \<Rightarrow> curator_action list \<Rightarrow> skill_store \<Rightarrow> 'w \<Rightarrow> path set" where
  "touched api [] st w = {}"
| "touched api (a # as) st w =
     path_from_str ` set (action_slugs a) \<union>
     (case a of
        Keep slug \<Rightarrow>
          (case get_skill api st slug w of Inr (Some doc) \<Rightarrow> {path_from_str (sk_name (sd_front_matter doc))} | _ \<Rightarrow> {})
      | _ \<Rightarrow> {}) \<union>
     (case process_action api a st w of (_, st1, w1) \<Rightarrow> touched api as st1 w1)"

context skill_files
begin

lemma process_all_others:
  assumes "kl_skills_dir st = root" and "process_all api as st w = (ls, st', w')"
    and "[Normal m] \<notin> touched api as st w" and "m \<noteq> ''.archive''"
  shows "view w' (root @ [Normal m] @ p) = view w (root @ [Normal m] @ p)"
  using assms
proof (induction as arbitrary: st w ls)
  case Nil
  then show ?case by simp
next
  case (Cons a as)
  obtain l1 st1 w1 where one: "process_action api a st w = (l1, st1, w1)" by (metis prod_cases3)
  obtain l2 where rest: "process_all api as st1 w1 = (l2, st', w')"
    using Cons.prems(2) one by (auto split: prod.splits)
  have t: "[Normal m] \<notin> touched api as st1 w1" "\<forall>slug \<in> set (action_slugs a). path_from_str slug \<noteq> [Normal m]"
    "\<And>slug doc. a = Keep slug \<Longrightarrow> get_skill api st slug w = Inr (Some doc) \<Longrightarrow> path_from_str (sk_name (sd_front_matter doc)) \<noteq> [Normal m]"
    using Cons.prems(3) one by (auto simp: image_iff)
  have v: "view w1 (root @ [Normal m] @ p) = view w (root @ [Normal m] @ p) \<and> kl_skills_dir st1 = root"
    by (rule process_action_others [OF Cons.prems(1) one t(2) Cons.prems(4)]) (rule t(3))
  show ?case using Cons.IH [OF _ rest t(1) Cons.prems(4)] v by simp
qed

end

text \<open>
  The curator changes only the skills it names. Whatever the model answers, on any file system
  that keeps the contract, executing the parsed actions leaves every file of every skill alone
  whose directory is not that of a slug named by an action, nor of the name inside a kept
  document.
\<close>

theorem curator_touches_only_named:
  assumes "skill_files (cu_fs env) root view" and "kl_skills_dir st = root"
    and "process_actions env (parse_curator_response response) n st w = (report, st', w')"
    and "[Normal m] \<notin> touched (cu_fs env) (parse_curator_response response) st w" and "m \<noteq> ''.archive''"
  shows "view w' (root @ [Normal m] @ p) = view w (root @ [Normal m] @ p)"
proof -
  obtain ls where "process_all (cu_fs env) (parse_curator_response response) st w = (ls, st', w')"
    using assms(3) by (auto simp: process_actions_def split: prod.splits)
  from skill_files.process_all_others [OF assms(1,2) this assms(4,5)] show ?thesis .
qed

definition disk_of :: "(string \<times> string) list \<Rightarrow> flat_fs" where
  "disk_of files =
     (([RootDir], FlatDir) # (skills_root, FlatDir) #
      concat (map (\<lambda>(n, s). [(skills_root @ [Normal n], FlatDir), (skills_root @ [Normal n, Normal ''SKILL.md''], FlatFile s)]) files), 7)"

definition doc_text :: "string \<Rightarrow> string" where
  "doc_text name = skill_render example_rfc (skill_new 0 name ''d'' ''b'')"

definition example_curator_env :: "(unit, unit, flat_fs) curator_env" where
  "example_curator_env = \<lparr>cu_fs = flat_api,
     cu_api = \<lparr>pv_create = (\<lambda>_. ()), pv_complete = (\<lambda>_ _ w. (Inl ''down'', w)), pv_complete_stream = (\<lambda>_ _ w. (Inl ''down'', w)),
        pv_supports_vision = (\<lambda>_. False), pv_instant = (\<lambda>w. (0, w))\<rparr>,
     cu_router = (\<lambda>_. \<lparr>lr_providers = []\<rparr>), cu_llm_text = (\<lambda>_. []), cu_stamp = (\<lambda>_. []), cu_date = (\<lambda>_. [])\<rparr>"

definition example_response :: string where
  "example_response = ''KEEP a'' @ [newline] @ ''PRUNE b  old''"

definition example_run :: "string \<times> skill_store \<times> flat_fs" where
  "example_run = process_actions example_curator_env (parse_curator_response example_response) 3 (store_new skills_root)
     (disk_of [(''a'', doc_text ''a''), (''b'', doc_text ''b''), (''c'', doc_text ''c'')])"

lemma example_actions: "parse_curator_response example_response = [Keep ''a'', Prune ''b'' ''old'']"
  by code_simp

lemma example_paths: "path_from_str ''a'' = [Normal ''a'']" "path_from_str ''b'' = [Normal ''b'']"
  by code_simp+

lemma example_kept:
  "get_skill flat_api (store_new skills_root) ''a'' (disk_of [(''a'', doc_text ''a''), (''b'', doc_text ''b''), (''c'', doc_text ''c'')])
     = Inr (Some (skill_new 0 ''a'' ''d'' ''b''))"
  by code_simp

theorem curator_touches_only_named_witness:
  "flat_view (snd (snd example_run)) (skills_root @ [Normal ''c'', Normal ''SKILL.md'']) = Some (doc_text ''c'')"
proof -
  let ?disk = "disk_of [(''a'', doc_text ''a''), (''b'', doc_text ''b''), (''c'', doc_text ''c'')]"
  obtain report st' w' where run: "process_actions example_curator_env (parse_curator_response example_response) 3 (store_new skills_root) ?disk
      = (report, st', w')" by (metis prod_cases3)
  have api: "cu_fs example_curator_env = flat_api" by (simp add: example_curator_env_def)
  have t: "[Normal ''c''] \<notin> touched (cu_fs example_curator_env) (parse_curator_response example_response) (store_new skills_root) ?disk"
    unfolding api example_actions using example_kept example_paths by (auto simp: skill_new_def split: prod.splits)
  have "flat_view w' (skills_root @ [Normal ''c''] @ [Normal ''SKILL.md'']) = flat_view ?disk (skills_root @ [Normal ''c''] @ [Normal ''SKILL.md''])"
    by (rule curator_touches_only_named [where env = example_curator_env and view = flat_view and root = skills_root, OF _ _ run t])
      (simp_all add: api flat.skill_files_axioms store_new_def)
  also have "\<dots> = Some (doc_text ''c'')" by (simp add: disk_of_def flat_view_def skills_root_def)
  finally show ?thesis unfolding example_run_def run by simp
qed

text \<open>Keeping a skill whose document carries another name writes the document over that other skill.\<close>

lemma keep_overwrites_other:
  "flat_view (snd (snd (process_action flat_api (Keep ''a'') (store_new skills_root)
     (disk_of [(''a'', doc_text ''b''), (''b'', skill_render example_rfc (skill_new 0 ''b'' ''d'' ''mine''))]))))
     (skills_root @ [Normal ''b'', Normal ''SKILL.md'']) \<noteq>
   Some (skill_render example_rfc (skill_new 0 ''b'' ''d'' ''mine''))"
  by code_simp

text \<open>The guard against archiving the destination compares texts: written with a slash, the
  destination of a consolidation is archived right after it was saved.\<close>

lemma consolidate_archives_destination:
  "flat_view (snd (snd (process_action flat_api (Consolidate [''a/'', ''b''] ''a'' (doc_text ''a'')) (store_new skills_root)
     (disk_of [(''a'', doc_text ''a''), (''b'', doc_text ''b'')])))) (skills_root @ [Normal ''a'', Normal ''SKILL.md'']) = None"
  by code_simp

end
