(* ===== verification/Resource_Enforcer.thy ===== *)
theory Resource_Enforcer
  imports Sandbox Rust_Text
begin

text \<open>
  The resource enforcer (\<^verbatim>\<open>crates/security-layer/src/sandbox.rs\<close>, second half): the tracked child
  processes, spawning under the process limit, the monitoring of memory, waiting and
  termination. The operating system is a record over the world \<open>'w\<close>. \<open>spawn\<close> takes its lock
  twice, to check the limit and to record the child; the two halves are separate steps.
\<close>

datatype child_state = ChildRunning | ChildExited int | ChildError

record 'w process_api =
  os_spawn :: "string \<Rightarrow> string list \<Rightarrow> path option \<Rightarrow> 'w \<Rightarrow> u32 option \<times> 'w"
  os_try_wait :: "u32 \<Rightarrow> 'w \<Rightarrow> child_state"
  os_proc_status :: "u32 \<Rightarrow> 'w \<Rightarrow> string option"
  os_sigterm :: "u32 \<Rightarrow> 'w \<Rightarrow> 'w"
  os_wait_timeout :: "u32 \<Rightarrow> nat \<Rightarrow> 'w \<Rightarrow> bool \<times> 'w"
  os_kill :: "u32 \<Rightarrow> 'w \<Rightarrow> 'w"

text \<open>A tracked process is its identifier; the start time is never read.\<close>

record enforcer =
  rf_limits :: resource_limits
  rf_processes :: "u32 list"

definition enforcer_new :: "resource_limits \<Rightarrow> enforcer" where
  "enforcer_new limits = \<lparr>rf_limits = limits, rf_processes = []\<rparr>"

definition active_process_count :: "enforcer \<Rightarrow> nat" where
  "active_process_count e = length (rf_processes e)"

definition spawn_denied :: "string \<Rightarrow> security_error" where
  "spawn_denied program = SandboxViolation (path_from_str program) Execute"

text \<open>The two halves of \<open>spawn\<close>.\<close>

definition spawn_check :: "enforcer \<Rightarrow> bool" where
  "spawn_check e \<longleftrightarrow> \<not> length (rf_processes e) \<ge> unat (rs_max_processes (rf_limits e))"

definition spawn_record :: "u32 \<Rightarrow> enforcer \<Rightarrow> enforcer" where
  "spawn_record pid e = e\<lparr>rf_processes := rf_processes e @ [pid]\<rparr>"

definition rf_spawn :: "'w process_api \<Rightarrow> string \<Rightarrow> string list \<Rightarrow> path option \<Rightarrow> enforcer \<Rightarrow> 'w \<Rightarrow>
    (security_error + u32) \<times> enforcer \<times> 'w" where
  "rf_spawn os program args dir e w =
     (if \<not> spawn_check e then (Inl (spawn_denied program), e, w)
      else (case os_spawn os program args dir w of
              (None, w1) \<Rightarrow> (Inl (spawn_denied program), e, w1)
            | (Some pid, w1) \<Rightarrow> (Inr pid, spawn_record pid e, w1)))"

text \<open>\<^verbatim>\<open>/proc/<pid>/status\<close>: the resident size in kilobytes.\<close>

fun vm_rss :: "string list \<Rightarrow> nat option" where
  "vm_rss [] = None"
| "vm_rss (l # ls) =
     (if starts_with_str ''VmRSS:'' l
      then (case split_whitespace l of
              _ # kb # _ \<Rightarrow> map_option (\<lambda>n. n div 1024) (parse_uint 64 kb)
            | _ \<Rightarrow> vm_rss ls)
      else vm_rss ls)"

definition get_process_memory_mb :: "'w process_api \<Rightarrow> u32 \<Rightarrow> 'w \<Rightarrow> nat option" where
  "get_process_memory_mb os pid w = Option.bind (os_proc_status os pid w) (\<lambda>s. vm_rss (str_lines s))"

text \<open>Seconds as nanoseconds.\<close>

definition kill_deadline :: nat where
  "kill_deadline = 5 * 1000000000"

definition terminate_process :: "'w process_api \<Rightarrow> u32 \<Rightarrow> 'w \<Rightarrow> 'w" where
  "terminate_process os pid w =
     (case os_wait_timeout os pid kill_deadline (os_sigterm os pid w) of
        (True, w1) \<Rightarrow> w1
      | (False, w1) \<Rightarrow> os_kill os pid w1)"

text \<open>\<^verbatim>\<open>position\<close> and \<^verbatim>\<open>Vec::remove\<close>: the first entry with the identifier.\<close>

definition untrack :: "u32 \<Rightarrow> enforcer \<Rightarrow> enforcer" where
  "untrack pid e = e\<lparr>rf_processes := remove1 pid (rf_processes e)\<rparr>"

text \<open>One round of \<open>monitor_process\<close>; the first component says whether the loop goes on.\<close>

definition monitor_round :: "'w process_api \<Rightarrow> u32 \<Rightarrow> u32 \<Rightarrow> enforcer \<Rightarrow> 'w \<Rightarrow> bool \<times> enforcer \<times> 'w" where
  "monitor_round os pid max_memory_mb e w =
     (if pid \<notin> set (rf_processes e) then (False, e, w)
      else (case os_try_wait os pid w of
              ChildExited _ \<Rightarrow> (False, untrack pid e, w)
            | ChildError \<Rightarrow> (False, untrack pid e, w)
            | ChildRunning \<Rightarrow>
                (case get_process_memory_mb os pid w of
                   None \<Rightarrow> (True, e, w)
                 | Some mb \<Rightarrow>
                     if mb > unat max_memory_mb then (False, untrack pid e, terminate_process os pid w)
                     else (True, e, w))))"

text \<open>One poll of \<open>wait_for_process\<close>: \<open>None\<close> when it has to go on waiting.\<close>

definition wait_poll :: "'w process_api \<Rightarrow> u32 \<Rightarrow> enforcer \<Rightarrow> 'w \<Rightarrow> int option option \<times> enforcer" where
  "wait_poll os pid e w =
     (if pid \<in> set (rf_processes e) then
        (case os_try_wait os pid w of
           ChildExited status \<Rightarrow> (Some (Some status), untrack pid e)
         | ChildRunning \<Rightarrow> (None, e)
         | ChildError \<Rightarrow> (Some None, untrack pid e))
      else (Some None, e))"

definition terminate_all :: "'w process_api \<Rightarrow> enforcer \<Rightarrow> 'w \<Rightarrow> enforcer \<times> 'w" where
  "terminate_all os e w = (e\<lparr>rf_processes := []\<rparr>, fold (terminate_process os) (rf_processes e) w)"

subsection \<open>Interleavings\<close>

text \<open>The state with the spawns that have passed the check and not yet recorded their child.\<close>

record enforcer_sys =
  es_enforcer :: enforcer
  es_pending :: nat

inductive enforcer_step :: "'w process_api \<Rightarrow> enforcer_sys \<Rightarrow> enforcer_sys \<Rightarrow> bool" for os :: "'w process_api" where
  es_check: "spawn_check (es_enforcer s) \<Longrightarrow> enforcer_step os s (s\<lparr>es_pending := Suc (es_pending s)\<rparr>)"
| es_fail: "es_pending s = Suc n \<Longrightarrow> enforcer_step os s (s\<lparr>es_pending := n\<rparr>)"
| es_record: "es_pending s = Suc n \<Longrightarrow> enforcer_step os s (s\<lparr>es_pending := n, es_enforcer := spawn_record pid (es_enforcer s)\<rparr>)"
| es_monitor: "monitor_round os pid mb (es_enforcer s) w = (b, e, w') \<Longrightarrow> enforcer_step os s (s\<lparr>es_enforcer := e\<rparr>)"
| es_wait: "wait_poll os pid (es_enforcer s) w = (r, e) \<Longrightarrow> enforcer_step os s (s\<lparr>es_enforcer := e\<rparr>)"
| es_terminate: "enforcer_step os s (s\<lparr>es_enforcer := fst (terminate_all os (es_enforcer s) w)\<rparr>)"

text \<open>With \<open>k\<close> callers at a time, at most \<open>k\<close> spawns are between their halves.\<close>

definition bounded_step :: "'w process_api \<Rightarrow> nat \<Rightarrow> enforcer_sys \<Rightarrow> enforcer_sys \<Rightarrow> bool" where
  "bounded_step os k s s' \<longleftrightarrow> enforcer_step os s s' \<and> es_pending s' \<le> k"

definition sys_of :: "resource_limits \<Rightarrow> enforcer_sys" where
  "sys_of limits = \<lparr>es_enforcer = enforcer_new limits, es_pending = 0\<rparr>"

definition overshoot_inv :: "resource_limits \<Rightarrow> nat \<Rightarrow> enforcer_sys \<Rightarrow> bool" where
  "overshoot_inv limits k s \<longleftrightarrow> rf_limits (es_enforcer s) = limits \<and> es_pending s \<le> k \<and>
     length (rf_processes (es_enforcer s)) + es_pending s \<le>
       (if unat (rs_max_processes limits) = 0 then 0 else unat (rs_max_processes limits) - 1 + k)"

lemma untrack_length: "length (rf_processes (untrack pid e)) \<le> length (rf_processes e) \<and> rf_limits (untrack pid e) = rf_limits e"
  by (simp add: untrack_def length_remove1)

lemma monitor_round_length:
  "monitor_round os pid mb e w = (b, e', w') \<Longrightarrow> length (rf_processes e') \<le> length (rf_processes e) \<and> rf_limits e' = rf_limits e"
  using untrack_length [of pid e]
  by (auto simp: monitor_round_def split: if_splits child_state.splits option.splits)

lemma wait_poll_length:
  "wait_poll os pid e w = (r, e') \<Longrightarrow> length (rf_processes e') \<le> length (rf_processes e) \<and> rf_limits e' = rf_limits e"
  using untrack_length [of pid e] by (auto simp: wait_poll_def split: if_splits child_state.splits)

lemma overshoot_step:
  assumes inv: "overshoot_inv limits k s" and step: "bounded_step os k s s'"
  shows "overshoot_inv limits k s'"
proof -
  have "enforcer_step os s s'" and k: "es_pending s' \<le> k" using step by (auto simp: bounded_step_def)
  from this(1) show ?thesis
  proof cases
    case (es_monitor pid mb w b e w')
    then show ?thesis using monitor_round_length [OF es_monitor(2)] inv by (auto simp: overshoot_inv_def split: if_splits)
  next
    case (es_wait pid w r e)
    then show ?thesis using wait_poll_length [OF es_wait(2)] inv by (auto simp: overshoot_inv_def split: if_splits)
  qed (use inv k in \<open>auto simp: overshoot_inv_def spawn_check_def spawn_record_def terminate_all_def split: if_splits\<close>)
qed

text \<open>
  The process limit holds up to the number of concurrent callers: with at most \<open>k\<close> spawns in
  progress at a time, over any interleaving of spawns, monitoring, waiting and termination, the
  number of tracked processes is at most the limit plus \<open>k - 1\<close>, and none is started under a
  limit of zero. One caller at a time never exceeds the limit.
\<close>

theorem process_limit_bound:
  assumes "(bounded_step os k)\<^sup>*\<^sup>* (sys_of limits) s"
  shows "active_process_count (es_enforcer s) \<le>
    (if unat (rs_max_processes limits) = 0 then 0 else unat (rs_max_processes limits) - 1 + k)"
proof -
  have "overshoot_inv limits k (sys_of limits)" by (simp add: overshoot_inv_def sys_of_def enforcer_new_def)
  with assms have "overshoot_inv limits k s" by (induction rule: rtranclp_induct) (auto intro: overshoot_step)
  then show ?thesis by (auto simp: overshoot_inv_def active_process_count_def)
qed

definition idle_os :: "unit process_api" where
  "idle_os = \<lparr>os_spawn = (\<lambda>_ _ _ w. (Some 1, w)), os_try_wait = (\<lambda>_ _. ChildRunning), os_proc_status = (\<lambda>_ _. None),
     os_sigterm = (\<lambda>_ w. w), os_wait_timeout = (\<lambda>_ _ w. (True, w)), os_kill = (\<lambda>_ w. w)\<rparr>"

definition one_process :: resource_limits where
  "one_process = default_resource_limits\<lparr>rs_max_processes := 1\<rparr>"

text \<open>Two callers at once start two processes under a limit of one.\<close>

lemma two_callers_run:
  "\<exists>s. (bounded_step idle_os 2)\<^sup>*\<^sup>* (sys_of one_process) s \<and> active_process_count (es_enforcer s) = 2"
proof -
  let ?s0 = "sys_of one_process"
  let ?s1 = "?s0\<lparr>es_pending := 1\<rparr>"
  let ?s2 = "?s1\<lparr>es_pending := 2\<rparr>"
  let ?s3 = "?s2\<lparr>es_pending := 1, es_enforcer := spawn_record 7 (es_enforcer ?s2)\<rparr>"
  let ?s4 = "?s3\<lparr>es_pending := 0, es_enforcer := spawn_record 8 (es_enforcer ?s3)\<rparr>"
  have one: "unat (rs_max_processes one_process) = 1" by (simp add: one_process_def)
  have "enforcer_step idle_os ?s0 (?s0\<lparr>es_pending := Suc (es_pending ?s0)\<rparr>)" "enforcer_step idle_os ?s1 (?s1\<lparr>es_pending := Suc (es_pending ?s1)\<rparr>)"
    by (rule es_check, simp add: spawn_check_def sys_of_def enforcer_new_def one)+
  then have "bounded_step idle_os 2 ?s0 ?s1" "bounded_step idle_os 2 ?s1 ?s2"
    by (simp_all add: bounded_step_def sys_of_def numeral_2_eq_2)
  moreover have "enforcer_step idle_os ?s2 ?s3" "enforcer_step idle_os ?s3 ?s4" by (rule es_record, simp)+
  then have "bounded_step idle_os 2 ?s2 ?s3" "bounded_step idle_os 2 ?s3 ?s4" by (simp_all add: bounded_step_def)
  ultimately have "(bounded_step idle_os 2)\<^sup>*\<^sup>* ?s0 ?s4" by (meson converse_rtranclp_into_rtranclp rtranclp.rtrancl_refl)
  moreover have "active_process_count (es_enforcer ?s4) = 2"
    by (simp add: active_process_count_def spawn_record_def sys_of_def enforcer_new_def)
  ultimately show ?thesis by blast
qed

theorem process_limit_bound_witness:
  "\<exists>s. (bounded_step idle_os 2)\<^sup>*\<^sup>* (sys_of one_process) s \<and> active_process_count (es_enforcer s) = 2 \<and>
     active_process_count (es_enforcer s) \<le> 1 - 1 + 2"
proof -
  obtain s where s: "(bounded_step idle_os 2)\<^sup>*\<^sup>* (sys_of one_process) s" "active_process_count (es_enforcer s) = 2"
    using two_callers_run by blast
  from process_limit_bound [OF s(1)] s show ?thesis by (auto simp: one_process_def)
qed

end
