(* ===== verification/Plugins.thy ===== *)
theory Plugins
  imports Tool_Registry Resource_Enforcer
begin

text \<open>
  Plugins (\<^verbatim>\<open>crates/plugin-system/src\<close>): manifests (\<^verbatim>\<open>manifest.rs\<close>), the interface a plugin gets
  with the registry of handler names (\<^verbatim>\<open>api.rs\<close>), and the loader (\<^verbatim>\<open>loader.rs\<close>). The file system,
  the TOML parser and the clock are a record over the world \<open>'w\<close>. A \<^verbatim>\<open>PluginApi\<close> is an object
  with an identity, since a caller can keep one after the plugin was unloaded; callbacks have
  the type \<open>'cb\<close>. The published events are a list.
\<close>

subsection \<open>Manifests\<close>

record semver =
  sv_major :: u64
  sv_minor :: u64
  sv_patch :: u64
  sv_suffix :: string

definition semver_text :: "semver \<Rightarrow> string" where
  "semver_text v = show_nat (unat (sv_major v)) @ ''.'' @ show_nat (unat (sv_minor v)) @ ''.'' @
     show_nat (unat (sv_patch v)) @ sv_suffix v"

definition current_api :: semver where
  "current_api = \<lparr>sv_major = 0, sv_minor = 1, sv_patch = 0, sv_suffix = []\<rparr>"

datatype plugin_permission = PermFilesystem | PermNetwork | PermProcess | PermMemory

record plugin_manifest =
  pm_name :: string
  pm_version :: semver
  pm_api_version :: semver
  pm_description :: string
  pm_entry_point :: string
  pm_permissions :: "plugin_permission list"

datatype plugin_error =
    InvalidManifest string string
  | PluginLoadFailed string string
  | NameConflict string string
  | PluginExecutionFailed string string
  | ResourceLimitExceeded string string

definition quoted :: "string \<Rightarrow> string" where
  "quoted s = [CHR 0x27] @ s @ [CHR 0x27]"

fun plugin_error_text :: "plugin_error \<Rightarrow> string" where
  "plugin_error_text (InvalidManifest n r) = ''Invalid manifest for plugin '' @ quoted n @ '': '' @ r"
| "plugin_error_text (PluginLoadFailed n r) = ''Plugin '' @ quoted n @ '' failed to load: '' @ r"
| "plugin_error_text (NameConflict n p) = ''Name conflict: '' @ quoted n @ '' already registered by plugin '' @ quoted p"
| "plugin_error_text (PluginExecutionFailed n r) = ''Plugin '' @ quoted n @ '' crashed: '' @ r"
| "plugin_error_text (ResourceLimitExceeded n r) = ''Plugin '' @ quoted n @ '' exceeded resource limits: '' @ r"

definition is_alphanumeric :: "char \<Rightarrow> bool" where
  "is_alphanumeric c =
     (let n = of_char c :: nat in (48 \<le> n \<and> n \<le> 57) \<or> (65 \<le> n \<and> n \<le> 90) \<or> (97 \<le> n \<and> n \<le> 122))"

definition manifest_validate :: "plugin_manifest \<Rightarrow> plugin_error + unit" where
  "manifest_validate m =
     (if pm_name m = [] then Inl (InvalidManifest ''(empty)'' ''plugin name must not be empty'')
      else if \<not> list_all (\<lambda>c. is_alphanumeric c \<or> c = CHR ''-'' \<or> c = CHR ''_'') (pm_name m)
      then Inl (InvalidManifest (pm_name m)
             ''plugin name must contain only alphanumeric characters, hyphens, or underscores'')
      else if sv_major (pm_api_version m) > sv_major current_api
      then Inl (InvalidManifest (pm_name m)
             (''plugin requires API version '' @ semver_text (pm_api_version m) @ '' but platform provides '' @ semver_text current_api))
      else Inr ())"

definition is_api_compatible :: "plugin_manifest \<Rightarrow> bool" where
  "is_api_compatible m \<longleftrightarrow> sv_major (pm_api_version m) \<le> sv_major current_api"

record 'w loader_env =
  pn_read :: "'w \<Rightarrow> path \<Rightarrow> string + string"
  pn_toml :: "string \<Rightarrow> string + plugin_manifest"
  pn_exists :: "'w \<Rightarrow> path \<Rightarrow> bool"
  pn_is_dir :: "'w \<Rightarrow> path \<Rightarrow> bool"
  pn_mkdirs :: "path \<Rightarrow> 'w \<Rightarrow> (string + unit) \<times> 'w"
  pn_read_dir :: "'w \<Rightarrow> path \<Rightarrow> path list option"
  pn_now :: "'w \<Rightarrow> timestamp"

definition manifest_load :: "'w loader_env \<Rightarrow> path \<Rightarrow> 'w \<Rightarrow> plugin_error + plugin_manifest" where
  "manifest_load env manifest_path w =
     (let plugin_name = (case Option.bind (path_parent manifest_path) path_file_name of Some n \<Rightarrow> n | None \<Rightarrow> ''unknown'')
      in case pn_read env w manifest_path of
           Inl e \<Rightarrow> Inl (InvalidManifest plugin_name (''cannot read manifest file: '' @ e))
         | Inr content \<Rightarrow>
             (case pn_toml env content of
                Inl e \<Rightarrow> Inl (InvalidManifest plugin_name (''invalid TOML: '' @ e))
              | Inr manifest \<Rightarrow>
                  (case manifest_validate manifest of Inl e \<Rightarrow> Inl e | Inr _ \<Rightarrow> Inr manifest)))"

subsection \<open>The registry of handler names\<close>

type_synonym handler_registry = "(string, string) hashmap"

definition hreg_register :: "string \<Rightarrow> string \<Rightarrow> handler_registry \<Rightarrow> (string + unit) \<times> handler_registry" where
  "hreg_register handler plugin reg =
     (case hm_get reg handler of
        Some existing \<Rightarrow> (Inl existing, reg)
      | None \<Rightarrow> (Inr (), hm_insert handler plugin reg))"

definition hreg_unregister :: "string \<Rightarrow> handler_registry \<Rightarrow> handler_registry" where
  "hreg_unregister handler reg = hm_remove handler reg"

definition hreg_unregister_plugin :: "string \<Rightarrow> handler_registry \<Rightarrow> handler_registry" where
  "hreg_unregister_plugin plugin reg = hm_retain (\<lambda>_ owner. owner \<noteq> plugin) reg"

definition hreg_owner :: "string \<Rightarrow> handler_registry \<Rightarrow> string option" where
  "hreg_owner handler reg = hm_get reg handler"

subsection \<open>The state of the loader\<close>

datatype plugin_status = PluginActive | PluginFailed string | PluginReloading

record plugin_info =
  pi_manifest :: plugin_manifest
  pi_directory :: path
  pi_loaded_at :: timestamp
  pi_status :: plugin_status

record plugin_load_result =
  lr_name :: string
  lr_success :: bool
  lr_error :: "string option"

record 'cb event_handler =
  eh_plugin_name :: string
  eh_event_type :: event_type
  eh_handler_name :: string
  eh_callback :: 'cb

record 'cb plugin_api =
  ao_plugin_name :: string
  ao_handlers :: "(string, 'cb event_handler) hashmap"

record ('cb, 'w) loader =
  pg_plugins_dir :: path
  pg_plugins :: "(string, plugin_info) hashmap"
  pg_apis :: "(string, nat) hashmap"
  pg_objects :: "(nat, 'cb plugin_api) hashmap"
  pg_next :: nat
  pg_registry :: "'w tool_registry"
  pg_handlers :: handler_registry
  pg_events :: "(event_type \<times> json) list"

definition loader_new :: "path \<Rightarrow> 'w tool_registry \<Rightarrow> ('cb, 'w) loader" where
  "loader_new dir reg = \<lparr>pg_plugins_dir = dir, pg_plugins = hm_empty, pg_apis = hm_empty, pg_objects = hm_empty, pg_next = 0,
     pg_registry = reg, pg_handlers = hm_empty, pg_events = []\<rparr>"

subsection \<open>What a plugin can call\<close>

definition api_register_tool :: "stamps \<Rightarrow> nat \<Rightarrow> 'w tool \<Rightarrow> ('cb, 'w) loader \<Rightarrow> (plugin_error + unit) \<times> ('cb, 'w) loader" where
  "api_register_tool stamp a t s =
     (case hm_get (pg_objects s) a of
        None \<Rightarrow> (Inr (), s)
      | Some ob \<Rightarrow>
          (case register_plugin_tool stamp (ao_plugin_name ob) t (pg_registry s) of
             (True, reg) \<Rightarrow> (Inr (), s\<lparr>pg_registry := reg\<rparr>)
           | (False, reg) \<Rightarrow>
               (Inl (NameConflict (tool_name t) (case tool_plugin reg (tool_name t) of Some p \<Rightarrow> p | None \<Rightarrow> ''built-in'')),
                s\<lparr>pg_registry := reg\<rparr>)))"

definition api_register_event_handler :: "nat \<Rightarrow> string \<Rightarrow> event_type \<Rightarrow> 'cb \<Rightarrow> ('cb, 'w) loader \<Rightarrow>
    (plugin_error + unit) \<times> ('cb, 'w) loader" where
  "api_register_event_handler a handler ty callback s =
     (case hm_get (pg_objects s) a of
        None \<Rightarrow> (Inr (), s)
      | Some ob \<Rightarrow>
          (case hreg_register handler (ao_plugin_name ob) (pg_handlers s) of
             (Inl existing, reg) \<Rightarrow> (Inl (NameConflict handler existing), s\<lparr>pg_handlers := reg\<rparr>)
           | (Inr _, reg) \<Rightarrow>
               let eh = \<lparr>eh_plugin_name = ao_plugin_name ob, eh_event_type = ty, eh_handler_name = handler, eh_callback = callback\<rparr>
               in (Inr (), s\<lparr>pg_handlers := reg,
                     pg_objects := hm_insert a (ob\<lparr>ao_handlers := hm_insert handler eh (ao_handlers ob)\<rparr>) (pg_objects s)\<rparr>)))"

definition api_event_handlers :: "nat \<Rightarrow> ('cb, 'w) loader \<Rightarrow> 'cb event_handler list" where
  "api_event_handlers a s = (case hm_get (pg_objects s) a of Some ob \<Rightarrow> map snd (ao_handlers ob) | None \<Rightarrow> [])"

definition api_cleanup :: "stamps \<Rightarrow> nat \<Rightarrow> ('cb, 'w) loader \<Rightarrow> ('cb, 'w) loader" where
  "api_cleanup stamp a s =
     (case hm_get (pg_objects s) a of
        None \<Rightarrow> s
      | Some ob \<Rightarrow>
          s\<lparr>pg_registry := snd (unregister_plugin_tools stamp (ao_plugin_name ob) (pg_registry s)),
            pg_objects := hm_insert a (ob\<lparr>ao_handlers := hm_empty\<rparr>) (pg_objects s),
            pg_handlers := hreg_unregister_plugin (ao_plugin_name ob) (pg_handlers s)\<rparr>)"

subsection \<open>The tool wrapper\<close>

text \<open>\<open>timed\<close> runs the tool for at most 30 seconds; \<open>None\<close> is the timeout. The flags of the
  wrapper are the defaults of the trait.\<close>

definition sandboxed_execute :: "('w \<Rightarrow> enforcer) \<Rightarrow> (('w \<Rightarrow> (string + string) \<times> 'w) \<Rightarrow> 'w \<Rightarrow> (string + string) option \<times> 'w) \<Rightarrow>
    string \<Rightarrow> 'w tool \<Rightarrow> json \<Rightarrow> 'w \<Rightarrow> (string + string) \<times> 'w" where
  "sandboxed_execute enf timed plugin t arguments w =
     (let active_count = active_process_count (enf w);
          max_processes = rs_max_processes (rf_limits (enf w))
      in if active_count \<ge> unat max_processes
         then (Inl (''Plugin '' @ quoted plugin @ '' tool execution denied: resource limit reached ('' @ show_nat active_count @ ''/'' @
                 show_nat (unat max_processes) @ '' processes)''), w)
         else (case timed (tool_execute t arguments) w of
                 (Some r, w1) \<Rightarrow> (r, w1)
               | (None, w1) \<Rightarrow>
                   (Inl (''Plugin '' @ quoted plugin @ '' tool '' @ quoted (tool_name t) @ '' timed out after 30 seconds''), w1)))"

definition sandboxed_tool :: "('w \<Rightarrow> enforcer) \<Rightarrow> (('w \<Rightarrow> (string + string) \<times> 'w) \<Rightarrow> 'w \<Rightarrow> (string + string) option \<times> 'w) \<Rightarrow>
    string \<Rightarrow> 'w tool \<Rightarrow> 'w tool" where
  "sandboxed_tool enf timed plugin t =
     \<lparr>tool_name = tool_name t, tool_description = tool_description t, tool_parameters_schema = tool_parameters_schema t,
      tool_execute = sandboxed_execute enf timed plugin t, tool_coding_only = False, tool_is_destructive = False\<rparr>"

subsection \<open>Loading and unloading\<close>

definition load_check :: "'w loader_env \<Rightarrow> path \<Rightarrow> ('cb, 'w) loader \<Rightarrow> 'w \<Rightarrow> plugin_error + plugin_manifest" where
  "load_check env plugin_dir s w =
     (case manifest_load env (path_join plugin_dir ''plugin.toml'') w of
        Inl e \<Rightarrow> Inl e
      | Inr manifest \<Rightarrow>
          if hm_contains (pg_plugins s) (pm_name manifest)
          then Inl (PluginLoadFailed (pm_name manifest) ''a plugin with this name is already loaded'')
          else Inr manifest)"

definition load_commit :: "timestamp \<Rightarrow> path \<Rightarrow> plugin_manifest \<Rightarrow> ('cb, 'w) loader \<Rightarrow> ('cb, 'w) loader" where
  "load_commit now plugin_dir manifest s =
     (let name = pm_name manifest in
      s\<lparr>pg_objects := hm_insert (pg_next s) \<lparr>ao_plugin_name = name, ao_handlers = hm_empty\<rparr> (pg_objects s),
        pg_next := Suc (pg_next s),
        pg_plugins := hm_insert name
          \<lparr>pi_manifest = manifest, pi_directory = plugin_dir, pi_loaded_at = now, pi_status = PluginActive\<rparr> (pg_plugins s),
        pg_apis := hm_insert name (pg_next s) (pg_apis s),
        pg_events := pg_events s @ [(PluginLoaded, JObject [(''plugin'', JString name),
          (''version'', JString (semver_text (pm_version manifest)))])]\<rparr>)"

definition load_plugin :: "'w loader_env \<Rightarrow> path \<Rightarrow> ('cb, 'w) loader \<Rightarrow> 'w \<Rightarrow> (plugin_error + plugin_manifest) \<times> ('cb, 'w) loader" where
  "load_plugin env plugin_dir s w =
     (case load_check env plugin_dir s w of
        Inl e \<Rightarrow> (Inl e, s)
      | Inr manifest \<Rightarrow> (Inr manifest, load_commit (pn_now env w) plugin_dir manifest s))"

definition unload_plugin :: "stamps \<Rightarrow> string \<Rightarrow> ('cb, 'w) loader \<Rightarrow> (plugin_error + unit) \<times> ('cb, 'w) loader" where
  "unload_plugin stamp name s =
     (let s1 = (case hm_get (pg_apis s) name of
                  Some a \<Rightarrow> api_cleanup stamp a (s\<lparr>pg_apis := hm_remove name (pg_apis s)\<rparr>)
                | None \<Rightarrow> s);
          s2 = s1\<lparr>pg_plugins := hm_remove name (pg_plugins s1)\<rparr>
      in case hm_get (pg_plugins s1) name of
           None \<Rightarrow> (Inl (PluginLoadFailed name ''plugin not found''), s2)
         | Some _ \<Rightarrow> (Inr (), s2\<lparr>pg_events := pg_events s2 @ [(PluginUnloaded, JObject [(''plugin'', JString name)])]\<rparr>))"

definition reload_plugin :: "stamps \<Rightarrow> 'w loader_env \<Rightarrow> string \<Rightarrow> ('cb, 'w) loader \<Rightarrow> 'w \<Rightarrow>
    (plugin_error + plugin_manifest) \<times> ('cb, 'w) loader" where
  "reload_plugin stamp env name s w =
     (case hm_get (pg_plugins s) name of
        None \<Rightarrow> (Inl (PluginLoadFailed name ''plugin not found for reload''), s)
      | Some info \<Rightarrow>
          let s1 = s\<lparr>pg_plugins := hm_modify name (\<lambda>i. i\<lparr>pi_status := PluginReloading\<rparr>) (pg_plugins s)\<rparr>
          in load_plugin env (pi_directory info) (snd (unload_plugin stamp name s1)) w)"

fun load_dirs :: "'w loader_env \<Rightarrow> path list \<Rightarrow> ('cb, 'w) loader \<Rightarrow> 'w \<Rightarrow> plugin_load_result list \<times> ('cb, 'w) loader" where
  "load_dirs env [] s w = ([], s)"
| "load_dirs env (p # ps) s w =
     (if \<not> pn_is_dir env w p then load_dirs env ps s w
      else
        let (result, s1) = load_plugin env p s w;
            (results, s2) = load_dirs env ps s1 w
        in (\<lparr>lr_name = (case path_file_name p of Some n \<Rightarrow> n | None \<Rightarrow> ''unknown''), lr_success = \<not> isl result,
             lr_error = (case result of Inl e \<Rightarrow> Some (plugin_error_text e) | Inr _ \<Rightarrow> None)\<rparr> # results, s2))"

definition load_all :: "'w loader_env \<Rightarrow> ('cb, 'w) loader \<Rightarrow> 'w \<Rightarrow> plugin_load_result list \<times> ('cb, 'w) loader \<times> 'w" where
  "load_all env s w =
     (case (if pn_exists env w (pg_plugins_dir s) then (Inr (), w) else pn_mkdirs env (pg_plugins_dir s) w) of
        (Inl _, w1) \<Rightarrow> ([], s, w1)
      | (Inr _, w1) \<Rightarrow>
          (case pn_read_dir env w1 (pg_plugins_dir s) of
             None \<Rightarrow> ([], s, w1)
           | Some entries \<Rightarrow> (case load_dirs env entries s w1 of (results, s1) \<Rightarrow> (results, s1, w1))))"

definition list_plugins :: "('cb, 'w) loader \<Rightarrow> plugin_info list" where
  "list_plugins s = map snd (pg_plugins s)"

definition get_plugin :: "string \<Rightarrow> ('cb, 'w) loader \<Rightarrow> plugin_info option" where
  "get_plugin name s = hm_get (pg_plugins s) name"

definition get_plugin_api :: "string \<Rightarrow> ('cb, 'w) loader \<Rightarrow> nat option" where
  "get_plugin_api name s = hm_get (pg_apis s) name"

definition is_loaded :: "string \<Rightarrow> ('cb, 'w) loader \<Rightarrow> bool" where
  "is_loaded name s = hm_contains (pg_plugins s) name"

definition plugin_count :: "('cb, 'w) loader \<Rightarrow> nat" where
  "plugin_count s = hm_len (pg_plugins s)"

end
