(* ===== verification/Plugin_Manager.thy ===== *)
theory Plugin_Manager
  imports Plugins File_Watcher
begin

text \<open>
  The hot-reload watcher and the manager (\<^verbatim>\<open>crates/plugin-system/src/watcher.rs\<close>,
  \<^verbatim>\<open>manager.rs\<close>), and the invariant of the plugin system over every sequence of its operations.
  The loop of the watcher is its three branches: a file event, the debounce timer and the stop
  signal. A \<^verbatim>\<open>HashSet\<close> of names is a list without duplicates.
\<close>

subsection \<open>The watcher\<close>

record watcher_config =
  wc_debounce_duration :: nat
  wc_graceful_timeout :: nat

definition default_watcher_config :: watcher_config where
  "default_watcher_config = \<lparr>wc_debounce_duration = 2 * 1000000000, wc_graceful_timeout = 30 * 1000000000\<rparr>"

record watch_loop =
  wl_pending :: "string list"
  wl_deadline :: "nat option"

definition watch_loop_new :: watch_loop where
  "watch_loop_new = \<lparr>wl_pending = [], wl_deadline = None\<rparr>"

text \<open>\<^verbatim>\<open>strip_prefix\<close> of a path and the first component of the rest.\<close>

fun plugin_of_path :: "path \<Rightarrow> path \<Rightarrow> string option" where
  "plugin_of_path dir p =
     (if path_starts_with p dir then (case drop (length dir) p of c # _ \<Rightarrow> Some (component_str c) | [] \<Rightarrow> None) else None)"

fun first_plugin :: "path \<Rightarrow> path list \<Rightarrow> string option" where
  "first_plugin dir [] = None"
| "first_plugin dir (p # ps) = (case plugin_of_path dir p of Some n \<Rightarrow> Some n | None \<Rightarrow> first_plugin dir ps)"

definition extract_plugin_name :: "notify_event \<Rightarrow> path \<Rightarrow> string option" where
  "extract_plugin_name ev dir = first_plugin dir (ev_paths ev)"

definition is_relevant_change :: "notify_kind \<Rightarrow> bool" where
  "is_relevant_change k \<longleftrightarrow> k \<in> {KindCreate, KindModify, KindRemove}"

definition on_file_event :: "watcher_config \<Rightarrow> path \<Rightarrow> nat \<Rightarrow> notify_event \<Rightarrow> watch_loop \<Rightarrow> watch_loop" where
  "on_file_event config dir now ev wl =
     (case extract_plugin_name ev dir of
        None \<Rightarrow> wl
      | Some name \<Rightarrow>
          if is_relevant_change (ev_kind ev)
          then wl\<lparr>wl_pending := List.insert name (wl_pending wl), wl_deadline := Some (now + wc_debounce_duration config)\<rparr>
          else wl)"

text \<open>The reloads run one after the other; the graceful timeout around each is not reached, since
  unloading and loading do no waiting of their own.\<close>

definition process_reload :: "stamps \<Rightarrow> 'w loader_env \<Rightarrow> path \<Rightarrow> string \<Rightarrow> ('cb, 'w) loader \<Rightarrow> 'w \<Rightarrow> ('cb, 'w) loader" where
  "process_reload stamp env dir name s w =
     (if is_loaded name s then snd (reload_plugin stamp env name s w)
      else
        let plugin_dir = path_join dir name
        in if pn_is_dir env w plugin_dir \<and> pn_exists env w (path_join plugin_dir ''plugin.toml'')
           then snd (load_plugin env plugin_dir s w) else s)"

definition process_reloads :: "stamps \<Rightarrow> 'w loader_env \<Rightarrow> path \<Rightarrow> string list \<Rightarrow> ('cb, 'w) loader \<Rightarrow> 'w \<Rightarrow> ('cb, 'w) loader" where
  "process_reloads stamp env dir names s w = fold (\<lambda>n s. process_reload stamp env dir n s w) names s"

definition on_timer :: "stamps \<Rightarrow> 'w loader_env \<Rightarrow> path \<Rightarrow> watch_loop \<Rightarrow> ('cb, 'w) loader \<Rightarrow> 'w \<Rightarrow> watch_loop \<times> ('cb, 'w) loader" where
  "on_timer stamp env dir wl s w =
     (wl\<lparr>wl_pending := [], wl_deadline := None\<rparr>,
      if wl_pending wl \<noteq> [] then process_reloads stamp env dir (wl_pending wl) s w else s)"

subsection \<open>The manager\<close>

record ('cb, 'w) plugin_manager =
  mg_loader :: "('cb, 'w) loader"
  mg_watcher :: "(watcher_config \<times> watch_loop) option"
  mg_config :: plugin_config

definition manager_new :: "plugin_config \<Rightarrow> 'w tool_registry \<Rightarrow> ('cb, 'w) plugin_manager" where
  "manager_new config reg =
     \<lparr>mg_loader = loader_new (pl_directory config) reg, mg_watcher = None, mg_config = config\<rparr>"

definition watcher_config_of :: "plugin_config \<Rightarrow> watcher_config" where
  "watcher_config_of config =
     \<lparr>wc_debounce_duration = (unat (min (pl_reload_interval_seconds config) 10) div 2) * 1000000000,
      wc_graceful_timeout = 30 * 1000000000\<rparr>"

text \<open>\<open>start\<close> of the watcher fails only when the directory cannot be made.\<close>

definition start_watcher :: "'w loader_env \<Rightarrow> ('cb, 'w) plugin_manager \<Rightarrow> 'w \<Rightarrow> (string + unit) \<times> ('cb, 'w) plugin_manager \<times> 'w" where
  "start_watcher env m w =
     (let dir = pg_plugins_dir (mg_loader m) in
      case (if pn_exists env w dir then (Inr (), w) else pn_mkdirs env dir w) of
        (Inl e, w1) \<Rightarrow> (Inl (''Failed to create plugins directory: '' @ e), m, w1)
      | (Inr _, w1) \<Rightarrow> (Inr (), m\<lparr>mg_watcher := Some (watcher_config_of (mg_config m), watch_loop_new)\<rparr>, w1))"

definition initialize :: "'w loader_env \<Rightarrow> ('cb, 'w) plugin_manager \<Rightarrow> 'w \<Rightarrow> plugin_load_result list \<times> ('cb, 'w) plugin_manager \<times> 'w" where
  "initialize env m w =
     (if \<not> pl_enabled (mg_config m) then ([], m, w)
      else (case load_all env (mg_loader m) w of
              (results, s, w1) \<Rightarrow>
                (case start_watcher env (m\<lparr>mg_loader := s\<rparr>) w1 of (_, m2, w2) \<Rightarrow> (results, m2, w2))))"

definition unload_listed :: "stamps \<Rightarrow> string list \<Rightarrow> ('cb, 'w) loader \<Rightarrow> ('cb, 'w) loader" where
  "unload_listed stamp names s = fold (\<lambda>n s. snd (unload_plugin stamp n s)) names s"

definition manager_shutdown :: "stamps \<Rightarrow> ('cb, 'w) plugin_manager \<Rightarrow> ('cb, 'w) plugin_manager" where
  "manager_shutdown stamp m =
     m\<lparr>mg_watcher := None,
       mg_loader := unload_listed stamp (map (\<lambda>i. pm_name (pi_manifest i)) (list_plugins (mg_loader m))) (mg_loader m)\<rparr>"

subsection \<open>The invariant\<close>

definition apis_ok :: "(string, nat) hashmap \<Rightarrow> (nat, 'cb plugin_api) hashmap \<Rightarrow> handler_registry \<Rightarrow> bool" where
  "apis_ok apis objects handlers \<longleftrightarrow>
     (\<forall>p i. hm_get apis p = Some i \<longrightarrow> (\<exists>ob. hm_get objects i = Some ob \<and> ao_plugin_name ob = p \<and>
        (\<forall>h eh. hm_get (ao_handlers ob) h = Some eh \<longrightarrow> hm_get handlers h = Some p)))"

definition loader_inv :: "('cb, 'w) loader \<Rightarrow> bool" where
  "loader_inv s \<longleftrightarrow> registry_inv (pg_registry s) \<and> hm_inv (pg_handlers s) \<and> hm_inv (pg_plugins s) \<and>
     hm_keys (pg_plugins s) = hm_keys (pg_apis s) \<and> apis_ok (pg_apis s) (pg_objects s) (pg_handlers s) \<and>
     (\<forall>p i. hm_get (pg_plugins s) p = Some i \<longrightarrow> pm_name (pi_manifest i) = p \<and> manifest_validate (pi_manifest i) = Inr ()) \<and>
     (\<forall>i ob. hm_get (pg_objects s) i = Some ob \<longrightarrow> i < pg_next s)"

lemma is_loaded_get: "is_loaded p s \<longleftrightarrow> hm_get (pg_plugins s) p \<noteq> None"
  by (simp add: is_loaded_def hm_contains_def)

lemma loader_inv_new: "registry_inv reg \<Longrightarrow> loader_inv (loader_new dir reg)"
  by (simp add: loader_inv_def loader_new_def apis_ok_def)

lemma loader_inv_tool: "loader_inv s \<Longrightarrow> loader_inv (snd (api_register_tool stamp a t s))"
  using registry_inv_register_plugin [of "pg_registry s" stamp _ t]
  by (auto simp: loader_inv_def api_register_tool_def split: option.splits prod.splits bool.splits)
    (metis snd_conv)+

lemma apis_ok_get:
  assumes "apis_ok apis objects handlers" and "hm_get apis p = Some i"
  obtains ob where "hm_get objects i = Some ob" "ao_plugin_name ob = p"
    "\<And>h. hm_get (ao_handlers ob) h \<noteq> None \<Longrightarrow> hm_get handlers h = Some p"
  using assms unfolding apis_ok_def by (metis not_None_eq)

lemma apis_okI:
  assumes "\<And>p i. hm_get apis p = Some i \<Longrightarrow> \<exists>ob. hm_get objects i = Some ob \<and> ao_plugin_name ob = p \<and>
     (\<forall>h. hm_get (ao_handlers ob) h \<noteq> None \<longrightarrow> hm_get handlers h = Some p)"
  shows "apis_ok apis objects handlers"
  using assms unfolding apis_ok_def by (metis not_None_eq)

lemma apis_ok_handler:
  assumes ok: "apis_ok apis objects handlers" and new: "hm_get handlers h = None" and ob: "hm_get objects a = Some ob"
  shows "apis_ok apis (hm_insert a (ob\<lparr>ao_handlers := hm_insert h eh (ao_handlers ob)\<rparr>) objects)
    (hm_insert h (ao_plugin_name ob) handlers)"
proof (rule apis_okI)
  fix p i assume i: "hm_get apis p = Some i"
  obtain ob' where ob': "hm_get objects i = Some ob'" "ao_plugin_name ob' = p"
    and hs: "\<And>h. hm_get (ao_handlers ob') h \<noteq> None \<Longrightarrow> hm_get handlers h = Some p"
    using apis_ok_get [OF ok i] by blast
  have "h' \<noteq> h" if "hm_get (ao_handlers ob') h' \<noteq> None" for h' using hs [OF that] new by auto
  then show "\<exists>ob2. hm_get (hm_insert a (ob\<lparr>ao_handlers := hm_insert h eh (ao_handlers ob)\<rparr>) objects) i = Some ob2 \<and>
      ao_plugin_name ob2 = p \<and> (\<forall>h'. hm_get (ao_handlers ob2) h' \<noteq> None \<longrightarrow>
        hm_get (hm_insert h (ao_plugin_name ob) handlers) h' = Some p)"
    using ob' hs ob by (cases "i = a") auto
qed

lemma loader_inv_handler: "loader_inv s \<Longrightarrow> loader_inv (snd (api_register_event_handler a h ty cb s))"
  unfolding api_register_event_handler_def hreg_register_def
  by (cases "hm_get (pg_objects s) a"; cases "hm_get (pg_handlers s) h")
    (auto simp: loader_inv_def apis_ok_handler Let_def)

lemma loader_inv_commit:
  assumes "loader_inv s" and "\<not> hm_contains (pg_plugins s) (pm_name m)" and "manifest_validate m = Inr ()"
  shows "loader_inv (load_commit now dir m s)"
proof -
  have ok: "apis_ok (pg_apis s) (pg_objects s) (pg_handlers s)" using assms(1) by (simp add: loader_inv_def)
  have fresh: "hm_get (pg_objects s) (pg_next s) = None"
    using assms(1) by (cases "hm_get (pg_objects s) (pg_next s)") (auto simp: loader_inv_def)
  have "apis_ok (hm_insert (pm_name m) (pg_next s) (pg_apis s))
      (hm_insert (pg_next s) \<lparr>ao_plugin_name = pm_name m, ao_handlers = hm_empty\<rparr> (pg_objects s)) (pg_handlers s)"
  proof (rule apis_okI, goal_cases)
    case (1 p i)
    show ?case
    proof (cases "p = pm_name m")
      case False
      then obtain ob where "hm_get (pg_objects s) i = Some ob" "ao_plugin_name ob = p"
        "\<And>h. hm_get (ao_handlers ob) h \<noteq> None \<Longrightarrow> hm_get (pg_handlers s) h = Some p"
        using apis_ok_get [OF ok, of p i] 1 by (metis hm.lookup_insert)
      then show ?thesis using fresh by (cases "i = pg_next s") auto
    qed (use 1 in auto)
  qed
  then show ?thesis using assms(1,3) by (auto simp: loader_inv_def load_commit_def Let_def less_Suc_eq)
qed

lemma manifest_load_valid: "manifest_load env p w = Inr m \<Longrightarrow> manifest_validate m = Inr ()"
  by (auto simp: manifest_load_def Let_def split: sum.splits)

lemma loader_inv_load: "loader_inv s \<Longrightarrow> loader_inv (snd (load_plugin env dir s w))"
  by (auto simp: load_plugin_def load_check_def intro: loader_inv_commit manifest_load_valid split: sum.splits if_splits)

text \<open>What unloading does to each part of the state.\<close>

lemma cleanup_handlers:
  "hm_inv handlers \<Longrightarrow> hm_get (hreg_unregister_plugin p handlers) h =
     (if hm_get handlers h = Some p then None else hm_get handlers h)"
  by (auto simp: hreg_unregister_plugin_def hm_get_retain split: option.split)

lemma apis_ok_cleanup:
  assumes ok: "apis_ok apis objects handlers" and inv: "hm_inv handlers" and a: "hm_get apis p = Some a"
    and ob: "hm_get objects a = Some ob"
  shows "apis_ok (hm_remove p apis) (hm_insert a (ob\<lparr>ao_handlers := hm_empty\<rparr>) objects) (hreg_unregister_plugin p handlers)"
proof (rule apis_okI, goal_cases)
  case (1 q i)
  then have q: "q \<noteq> p" "hm_get apis q = Some i" by (auto split: if_splits)
  obtain ob' where ob': "hm_get objects i = Some ob'" "ao_plugin_name ob' = q"
    and hs: "\<And>h. hm_get (ao_handlers ob') h \<noteq> None \<Longrightarrow> hm_get handlers h = Some q"
    using apis_ok_get [OF ok q(2)] by blast
  have "i \<noteq> a" using apis_ok_get [OF ok a] ob ob' q(1) by (metis option.inject)
  then show ?case using ob' hs q(1) by (auto simp: cleanup_handlers [OF inv])
qed

lemma unload_plugin_effect:
  assumes inv: "loader_inv s" and run: "unload_plugin stamp p s = (r, s')"
  shows "loader_inv s'"
    and "hm_get (pg_plugins s') q = (if q = p then None else hm_get (pg_plugins s) q)"
    and "hm_get (pg_apis s') q = (if q = p then None else hm_get (pg_apis s) q)"
    and "r = (if is_loaded p s then Inr () else Inl (PluginLoadFailed p ''plugin not found''))"
    and "is_loaded p s \<Longrightarrow> hm_get (pg_handlers s') h = (if hm_get (pg_handlers s) h = Some p then None else hm_get (pg_handlers s) h)"
    and "is_loaded p s \<Longrightarrow> tr_get (pg_registry s') n = (if tool_plugin (pg_registry s) n = Some p then None else tr_get (pg_registry s) n)"
proof -
  note i = inv [unfolded loader_inv_def]
  have keys: "hm_get (pg_apis s) p = None \<longleftrightarrow> hm_get (pg_plugins s) p = None"
    using i by (metis hm.keys_lookup)
  have "loader_inv s' \<and> hm_get (pg_plugins s') q = (if q = p then None else hm_get (pg_plugins s) q) \<and>
      hm_get (pg_apis s') q = (if q = p then None else hm_get (pg_apis s) q) \<and>
      r = (if is_loaded p s then Inr () else Inl (PluginLoadFailed p ''plugin not found'')) \<and>
      (is_loaded p s \<longrightarrow> hm_get (pg_handlers s') h = (if hm_get (pg_handlers s) h = Some p then None else hm_get (pg_handlers s) h)) \<and>
      (is_loaded p s \<longrightarrow> tr_get (pg_registry s') n = (if tool_plugin (pg_registry s) n = Some p then None else tr_get (pg_registry s) n))"
  proof (cases "hm_get (pg_apis s) p")
    case None
    then have "s' = s" and "r = Inl (PluginLoadFailed p ''plugin not found'')"
      using run keys by (auto simp: unload_plugin_def Let_def hm_remove_absent)
    then show ?thesis using None keys inv by (simp add: is_loaded_get)
  next
    case (Some a)
    then obtain info where info: "hm_get (pg_plugins s) p = Some info" using keys by (metis not_None_eq)
    obtain ob where ob: "hm_get (pg_objects s) a = Some ob" "ao_plugin_name ob = p"
      using i Some apis_ok_get by metis
    obtain removed reg' where reg': "unregister_plugin_tools stamp p (pg_registry s) = (removed, reg')" by force
    note eff = unregister_plugin_effect [OF conjunct1 [OF i] reg']
    have s': "s' = s\<lparr>pg_apis := hm_remove p (pg_apis s), pg_registry := reg',
        pg_objects := hm_insert a (ob\<lparr>ao_handlers := hm_empty\<rparr>) (pg_objects s),
        pg_handlers := hreg_unregister_plugin p (pg_handlers s), pg_plugins := hm_remove p (pg_plugins s),
        pg_events := pg_events s @ [(PluginUnloaded, JObject [(''plugin'', JString p)])]\<rparr>" and r: "r = Inr ()"
      using run Some ob info reg' by (auto simp: unload_plugin_def api_cleanup_def Let_def)
    have "apis_ok (pg_apis s') (pg_objects s') (pg_handlers s')"
      using i Some ob(1) by (simp add: s' apis_ok_cleanup)
    then have "loader_inv s'"
      using i eff(4) ob(1) by (auto simp: loader_inv_def s' hreg_unregister_plugin_def)
    then show ?thesis using eff(2) i info r
      by (auto simp: s' cleanup_handlers tr_get_def registry_views is_loaded_get)
  qed
  then show "loader_inv s'" "hm_get (pg_plugins s') q = (if q = p then None else hm_get (pg_plugins s) q)"
    "hm_get (pg_apis s') q = (if q = p then None else hm_get (pg_apis s) q)"
    "r = (if is_loaded p s then Inr () else Inl (PluginLoadFailed p ''plugin not found''))"
    "is_loaded p s \<Longrightarrow> hm_get (pg_handlers s') h = (if hm_get (pg_handlers s) h = Some p then None else hm_get (pg_handlers s) h)"
    "is_loaded p s \<Longrightarrow> tr_get (pg_registry s') n = (if tool_plugin (pg_registry s) n = Some p then None else tr_get (pg_registry s) n)"
    by blast+
qed

lemma loader_inv_unload: "loader_inv s \<Longrightarrow> loader_inv (snd (unload_plugin stamp p s))"
  using unload_plugin_effect(1) by (metis prod.collapse)

lemma loader_inv_status:
  "loader_inv s \<Longrightarrow> loader_inv (s\<lparr>pg_plugins := hm_modify p (\<lambda>i. i\<lparr>pi_status := st\<rparr>) (pg_plugins s)\<rparr>)"
  by (auto simp: loader_inv_def hm_keys_modify split: if_splits)

lemma loader_inv_reload: "loader_inv s \<Longrightarrow> loader_inv (snd (reload_plugin stamp env p s w))"
  by (auto simp: reload_plugin_def Let_def intro!: loader_inv_load loader_inv_unload loader_inv_status split: option.split)

lemma loader_inv_process: "loader_inv s \<Longrightarrow> loader_inv (process_reload stamp env dir p s w)"
  by (auto simp: process_reload_def Let_def loader_inv_load loader_inv_reload)

lemma loader_inv_timer: "loader_inv s \<Longrightarrow> loader_inv (snd (on_timer stamp env dir wl s w))"
  unfolding on_timer_def process_reloads_def
  by (auto intro: fold_invariant [where Q = "\<lambda>_. True"] loader_inv_process)

lemma loader_inv_dirs: "loader_inv s \<Longrightarrow> loader_inv (snd (load_dirs env ps s w))"
proof (induction ps arbitrary: s)
  case (Cons p ps)
  then show ?case using loader_inv_load [OF Cons.prems, of env p w]
    by (auto simp: split_def Let_def)
qed simp

lemma loader_inv_all: "loader_inv s \<Longrightarrow> loader_inv (fst (snd (load_all env s w)))"
  using loader_inv_dirs [of s env] by (auto simp: load_all_def split: sum.split option.split prod.split) (metis snd_conv)+

subsection \<open>Sequences of operations\<close>

text \<open>The world at the time of the call is part of the call; a plugin keeps its interface object,
  so \<open>PTool\<close> and \<open>PHandler\<close> name any object ever made, that of an unloaded plugin included.\<close>

datatype ('cb, 'w) plugin_call =
    PLoadAll 'w
  | PLoad path 'w
  | PUnload string
  | PReload string 'w
  | PTimer path watch_loop 'w
  | PTool nat "'w tool"
  | PHandler nat string event_type 'cb

fun plugin_apply :: "stamps \<Rightarrow> 'w loader_env \<Rightarrow> ('cb, 'w) plugin_call \<Rightarrow> ('cb, 'w) loader \<Rightarrow> ('cb, 'w) loader" where
  "plugin_apply stamp env (PLoadAll w) s = fst (snd (load_all env s w))"
| "plugin_apply stamp env (PLoad dir w) s = snd (load_plugin env dir s w)"
| "plugin_apply stamp env (PUnload p) s = snd (unload_plugin stamp p s)"
| "plugin_apply stamp env (PReload p w) s = snd (reload_plugin stamp env p s w)"
| "plugin_apply stamp env (PTimer dir wl w) s = snd (on_timer stamp env dir wl s w)"
| "plugin_apply stamp env (PTool a t) s = snd (api_register_tool stamp a t s)"
| "plugin_apply stamp env (PHandler a h ty cb) s = snd (api_register_event_handler a h ty cb s)"

definition plugin_run :: "stamps \<Rightarrow> 'w loader_env \<Rightarrow> ('cb, 'w) plugin_call list \<Rightarrow> path \<Rightarrow> ('cb, 'w) loader" where
  "plugin_run stamp env calls dir = fold (plugin_apply stamp env) calls (loader_new dir tr_new)"

lemma loader_inv_apply: "loader_inv s \<Longrightarrow> loader_inv (plugin_apply stamp env c s)"
  by (cases c) (simp_all add: loader_inv_all loader_inv_load loader_inv_unload loader_inv_reload loader_inv_timer
      loader_inv_tool loader_inv_handler)

lemma loader_inv_run: "loader_inv (plugin_run stamp env calls dir)"
  unfolding plugin_run_def
  by (rule fold_invariant [where Q = "\<lambda>_. True"]) (simp_all add: loader_inv_new loader_inv_apply)

lemma loader_inv_owner:
  assumes "loader_inv s" and "get_plugin_api p s = Some a" and "eh \<in> set (map fst (ao_handlers ob))"
    and "hm_get (pg_objects s) a = Some ob"
  shows "hreg_owner eh (pg_handlers s) = Some p"
proof -
  have "hm_get (ao_handlers ob) eh \<noteq> None" using assms(3) hm.keys_lookup by (metis set_map)
  moreover have "apis_ok (pg_apis s) (pg_objects s) (pg_handlers s)" using assms(1) by (simp add: loader_inv_def)
  ultimately show ?thesis using apis_ok_get assms(2,4) unfolding get_plugin_api_def hreg_owner_def
    by (metis option.inject)
qed

subsection \<open>Properties\<close>

text \<open>
  C32: unloading a plugin removes all of it and nothing else. After any sequence of loads, reloads,
  watcher ticks and registrations (also through interface objects of plugins that are gone), a
  plugin that is loaded is unloaded without an error; afterwards it is not listed and has no
  interface, no tool and no handler name is owned by it, and every other plugin, every tool and
  every handler name it did not own is as it was.
\<close>

theorem plugin_unload_complete:
  assumes "s = plugin_run stamp env calls dir" and "is_loaded p s" and "unload_plugin stamp p s = (r, s')"
  shows "r = Inr () \<and> \<not> is_loaded p s' \<and>
    (\<forall>q. get_plugin q s' = (if q = p then None else get_plugin q s) \<and>
         get_plugin_api q s' = (if q = p then None else get_plugin_api q s)) \<and>
    (\<forall>h. hreg_owner h (pg_handlers s') = (if hreg_owner h (pg_handlers s) = Some p then None else hreg_owner h (pg_handlers s))) \<and>
    (\<forall>n. tr_get (pg_registry s') n = (if tool_plugin (pg_registry s) n = Some p then None else tr_get (pg_registry s) n))"
proof -
  have inv: "loader_inv s" unfolding assms(1) by (rule loader_inv_run)
  note eff = unload_plugin_effect [OF inv assms(3)]
  have "\<not> is_loaded p s'" using eff(2) [of p] by (simp add: is_loaded_get)
  then show ?thesis using eff(2-6) assms(2)
    by (simp add: get_plugin_def get_plugin_api_def hreg_owner_def)
qed

text \<open>
  No two loaded plugins share a handler name. After any sequence of operations a name listed
  by the interface of a loaded plugin is registered to that plugin, so it is listed by no other;
  the plugins and the interfaces have the same names, and a plugin is listed under the name of its
  manifest.
\<close>

theorem plugin_handlers_disjoint:
  assumes "s = plugin_run stamp env calls dir" and "get_plugin_api p s = Some a" and "get_plugin_api q s = Some b"
    and "hm_get (pg_objects s) a = Some ob" and "hm_get (pg_objects s) b = Some ob'"
    and "h \<in> set (map fst (ao_handlers ob))" and "h \<in> set (map fst (ao_handlers ob'))"
  shows "p = q \<and> a = b \<and> hreg_owner h (pg_handlers s) = Some p \<and> is_loaded p s \<and>
    (\<exists>i. get_plugin p s = Some i \<and> pm_name (pi_manifest i) = p)"
proof -
  have inv: "loader_inv s" unfolding assms(1) by (rule loader_inv_run)
  have own: "hreg_owner h (pg_handlers s) = Some p" "hreg_owner h (pg_handlers s) = Some q"
    using loader_inv_owner [OF inv] assms(2-7) by blast+
  have "hm_get (pg_plugins s) p \<noteq> None"
    using inv assms(2) hm.keys_lookup unfolding loader_inv_def get_plugin_api_def by (metis option.distinct(1))
  then show ?thesis using own assms(2,3) inv
    by (auto simp: is_loaded_get get_plugin_def loader_inv_def)
qed

text \<open>
  C33: every loaded plugin has a well-formed manifest. After any sequence of operations, over any
  file system and any contents of the manifest files, the manifest of a loaded plugin has the name
  it is loaded under, the name is not empty and made of letters, digits, hyphens and underscores,
  and the interface version it asks for is one the platform provides.
\<close>

theorem loaded_manifests_valid:
  assumes "s = plugin_run stamp env calls dir" and "get_plugin p s = Some i"
  shows "pm_name (pi_manifest i) = p \<and> p \<noteq> [] \<and>
    (\<forall>c \<in> set p. is_alphanumeric c \<or> c = CHR ''-'' \<or> c = CHR ''_'') \<and> is_api_compatible (pi_manifest i)"
proof -
  have "loader_inv s" unfolding assms(1) by (rule loader_inv_run)
  then have "pm_name (pi_manifest i) = p" "manifest_validate (pi_manifest i) = Inr ()"
    using assms(2) by (auto simp: loader_inv_def get_plugin_def)
  then show ?thesis
    by (auto simp: manifest_validate_def is_api_compatible_def list_all_iff split: if_splits)
qed

definition example_manifest :: plugin_manifest where
  "example_manifest = \<lparr>pm_name = ''clock'', pm_version = current_api, pm_api_version = current_api, pm_description = [],
     pm_entry_point = ''main'', pm_permissions = []\<rparr>"

definition example_plugin_env :: "unit loader_env" where
  "example_plugin_env = \<lparr>pn_read = (\<lambda>_ _. Inr ''name = clock''), pn_toml = (\<lambda>_. Inr example_manifest), pn_exists = (\<lambda>_ _. True),
     pn_is_dir = (\<lambda>_ _. True), pn_mkdirs = (\<lambda>_ w. (Inr (), w)), pn_read_dir = (\<lambda>_ _. Some []), pn_now = (\<lambda>_. 0)\<rparr>"

definition example_plugin_calls :: "(unit, unit) plugin_call list" where
  "example_plugin_calls = [PLoad [RootDir, Normal ''p'', Normal ''clock''] (), PTool 0 (example_tool ''tick''),
     PHandler 0 ''on-tick'' PluginLoaded ()]"

definition example_loader :: "(unit, unit) loader" where
  "example_loader = plugin_run (\<lambda>n. (n, 0)) example_plugin_env example_plugin_calls [RootDir, Normal ''p'']"

lemma example_loader_facts:
  "is_loaded ''clock'' example_loader" "hreg_owner ''on-tick'' (pg_handlers example_loader) = Some ''clock''"
  "tool_plugin (pg_registry example_loader) ''tick'' = Some ''clock''" "get_plugin_api ''clock'' example_loader = Some 0"
  "map_option (\<lambda>ob. map fst (ao_handlers ob)) (hm_get (pg_objects example_loader) 0) = Some [''on-tick'']"
  by code_simp+

theorem plugin_unload_complete_witness:
  "\<exists>s'. unload_plugin (\<lambda>n. (n, 0)) ''clock'' example_loader = (Inr (), s') \<and> \<not> is_loaded ''clock'' s' \<and>
     hreg_owner ''on-tick'' (pg_handlers s') = None \<and> tr_get (pg_registry s') ''tick'' = None"
proof -
  obtain r s' where u: "unload_plugin (\<lambda>n. (n, 0)) ''clock'' example_loader = (r, s')" by force
  show ?thesis
    using plugin_unload_complete [OF example_loader_def example_loader_facts(1) u] example_loader_facts(2,3) u by auto
qed

theorem plugin_handlers_disjoint_witness:
  "hreg_owner ''on-tick'' (pg_handlers example_loader) = Some ''clock'' \<and> is_loaded ''clock'' example_loader"
proof -
  obtain ob where ob: "hm_get (pg_objects example_loader) 0 = Some ob" "map fst (ao_handlers ob) = [''on-tick'']"
    using example_loader_facts(5) by (auto simp del: map_eq_Cons_conv)
  show ?thesis
    using plugin_handlers_disjoint [OF example_loader_def example_loader_facts(4) example_loader_facts(4) ob(1) ob(1)] ob(2)
    by (metis list.set_intros(1))
qed

theorem loaded_manifests_valid_witness:
  "\<exists>i. get_plugin ''clock'' example_loader = Some i \<and> pm_name (pi_manifest i) = ''clock'' \<and> is_api_compatible (pi_manifest i)"
proof -
  obtain i where i: "get_plugin ''clock'' example_loader = Some i"
    using example_loader_facts(1) by (auto simp: is_loaded_get get_plugin_def)
  show ?thesis using loaded_manifests_valid [OF example_loader_def i] i by blast
qed

text \<open>Shutting the manager down unloads every plugin.\<close>

lemma unload_listed_effect:
  "loader_inv s \<Longrightarrow> loader_inv (unload_listed stamp ps s) \<and>
     hm_get (pg_plugins (unload_listed stamp ps s)) q = (if q \<in> set ps then None else hm_get (pg_plugins s) q)"
proof (induction ps arbitrary: s)
  case (Cons p ps)
  obtain r s' where u: "unload_plugin stamp p s = (r, s')" by force
  note eff = unload_plugin_effect [OF Cons.prems u]
  have "unload_listed stamp (p # ps) s = unload_listed stamp ps s'" by (simp add: unload_listed_def u)
  then show ?case using Cons.IH [OF eff(1)] eff(2) by auto
qed (simp add: unload_listed_def)

lemma listed_names:
  assumes "loader_inv s"
  shows "map (\<lambda>i. pm_name (pi_manifest i)) (list_plugins s) = map fst (pg_plugins s)"
proof -
  have "pm_name (pi_manifest (snd e)) = fst e" if "e \<in> set (pg_plugins s)" for e
    using that assms hm_get_mem [of "pg_plugins s" "fst e" "snd e"] by (simp add: loader_inv_def)
  then show ?thesis by (simp add: list_plugins_def)
qed

lemma shutdown_unloads_all:
  assumes "loader_inv (mg_loader m)"
  shows "plugin_count (mg_loader (manager_shutdown stamp m)) = 0 \<and> mg_watcher (manager_shutdown stamp m) = None"
proof -
  let ?s = "unload_listed stamp (map fst (pg_plugins (mg_loader m))) (mg_loader m)"
  have "hm_get (pg_plugins ?s) q = None" for q
    using unload_listed_effect [OF assms, of stamp "map fst (pg_plugins (mg_loader m))" q]
      hm.keys_lookup [of q "pg_plugins (mg_loader m)"] by (simp split: if_splits)
  then have "hm_keys (pg_plugins ?s) = {}" by (metis equals0I hm.keys_lookup)
  then show ?thesis using listed_names [OF assms] by (simp add: manager_shutdown_def plugin_count_def)
qed

text \<open>A change resets the debounce timer of all plugins, so changes that come more often than the
  debounce time postpone every reload.\<close>

lemma debounce_starves:
  assumes "extract_plugin_name ev dir = Some n" and "is_relevant_change (ev_kind ev)" and "now' < now + wc_debounce_duration config"
  shows "\<exists>d. wl_deadline (on_file_event config dir now ev wl) = Some d \<and> now' < d"
  using assms by (simp add: on_file_event_def)

text \<open>The watcher looks a plugin up by the name of its directory, the loader by the name in its
  manifest: where they differ a change is never picked up.\<close>

lemma reload_other_directory_name:
  assumes "manifest_load env (path_join (path_join dir d) ''plugin.toml'') w = Inr m" and "is_loaded (pm_name m) s"
    and "\<not> is_loaded d s"
  shows "process_reload stamp env dir d s w = s"
  using assms by (simp add: process_reload_def load_plugin_def load_check_def Let_def is_loaded_def)

end
