(* ===== verification/Audit_Log.thy ===== *)
theory Audit_Log
  imports Models Json Rust_Strings
begin

text \<open>
  The audit log (\<^verbatim>\<open>crates/security-layer/src/audit.rs\<close>): events in a bounded buffer. Addresses have
  the type \<open>'ip\<close>; the identifier and the time of an event are arguments.
\<close>

datatype audit_outcome = AuditSuccess | AuditFailure

fun audit_outcome_str :: "audit_outcome \<Rightarrow> string" where
  "audit_outcome_str AuditSuccess = ''success''"
| "audit_outcome_str AuditFailure = ''failure''"

record 'ip audit_event =
  ad_id :: string
  ad_timestamp :: timestamp
  ad_source_ip :: "'ip option"
  ad_user_id :: "string option"
  ad_action :: string
  ad_outcome :: audit_outcome
  ad_details :: "json option"

definition audit_event_new :: "string \<times> timestamp \<Rightarrow> 'ip option \<Rightarrow> string option \<Rightarrow> string \<Rightarrow> audit_outcome \<Rightarrow> json option \<Rightarrow> 'ip audit_event" where
  "audit_event_new stamp source_ip user_id action outcome details =
     \<lparr>ad_id = fst stamp, ad_timestamp = snd stamp, ad_source_ip = source_ip, ad_user_id = user_id, ad_action = action,
      ad_outcome = outcome, ad_details = details\<rparr>"

record 'ip audit_logger =
  al_max_buffer_size :: nat
  al_events :: "'ip audit_event list"

definition default_max_buffer_size :: nat where
  "default_max_buffer_size = 10000"

definition al_new :: "nat \<Rightarrow> 'ip audit_logger" where
  "al_new max_buffer_size = \<lparr>al_max_buffer_size = max_buffer_size, al_events = []\<rparr>"

definition log_event :: "'ip audit_event \<Rightarrow> 'ip audit_logger \<Rightarrow> 'ip audit_logger" where
  "log_event e l =
     (let events = al_events l @ [e];
          overflow = length events - al_max_buffer_size l
      in l\<lparr>al_events := if length events > al_max_buffer_size l then drop overflow events else events\<rparr>)"

definition auth_attempt_event :: "string \<times> timestamp \<Rightarrow> 'ip \<Rightarrow> string \<Rightarrow> audit_outcome \<Rightarrow> 'ip audit_event" where
  "auth_attempt_event stamp source_ip identifier outcome =
     audit_event_new stamp (Some source_ip) None
       (case outcome of AuditSuccess \<Rightarrow> ''auth.login_success: '' @ identifier | AuditFailure \<Rightarrow> ''auth.login_failure: '' @ identifier)
       outcome
       (Some (JObject [(''identifier'', JString identifier),
          (''auth_type'', JString (if starts_with_str ''key_'' identifier then ''api_key'' else ''password''))]))"

definition log_auth_attempt :: "string \<times> timestamp \<Rightarrow> 'ip \<Rightarrow> string \<Rightarrow> audit_outcome \<Rightarrow> 'ip audit_logger \<Rightarrow> 'ip audit_logger" where
  "log_auth_attempt stamp source_ip identifier outcome l = log_event (auth_attempt_event stamp source_ip identifier outcome) l"

definition log_ip_blocked :: "string \<times> timestamp \<Rightarrow> 'ip \<Rightarrow> string \<Rightarrow> 'ip audit_logger \<Rightarrow> 'ip audit_logger" where
  "log_ip_blocked stamp source_ip reason l =
     log_event (audit_event_new stamp (Some source_ip) None ''security.ip_blocked'' AuditFailure
       (Some (JObject [(''reason'', JString reason), (''violation_type'', JString ''brute_force'')]))) l"

definition log_sandbox_breach :: "string \<times> timestamp \<Rightarrow> 'ip option \<Rightarrow> string option \<Rightarrow> string \<Rightarrow> string \<Rightarrow> 'ip audit_logger \<Rightarrow> 'ip audit_logger" where
  "log_sandbox_breach stamp source_ip user_id path access_type l =
     log_event (audit_event_new stamp source_ip user_id ''security.sandbox_breach'' AuditFailure
       (Some (JObject [(''path'', JString path), (''access_type'', JString access_type), (''violation_type'', JString ''sandbox'')]))) l"

definition log_command_denied :: "string \<times> timestamp \<Rightarrow> 'ip option \<Rightarrow> string option \<Rightarrow> string \<Rightarrow> string \<Rightarrow> 'ip audit_logger \<Rightarrow> 'ip audit_logger" where
  "log_command_denied stamp source_ip user_id command reason l =
     log_event (audit_event_new stamp source_ip user_id ''security.command_denied'' AuditFailure
       (Some (JObject [(''command'', JString command), (''reason'', JString reason), (''violation_type'', JString ''command_policy'')]))) l"

definition log_network_violation :: "string \<times> timestamp \<Rightarrow> 'ip option \<Rightarrow> string option \<Rightarrow> string \<Rightarrow> u16 \<Rightarrow> 'ip audit_logger \<Rightarrow> 'ip audit_logger" where
  "log_network_violation stamp source_ip user_id target_host target_port l =
     log_event (audit_event_new stamp source_ip user_id ''security.network_blocked'' AuditFailure
       (Some (JObject [(''target_host'', JString target_host), (''target_port'', JNumber (show_nat (unat target_port))),
          (''violation_type'', JString ''network_policy'')]))) l"

definition get_events :: "'ip audit_logger \<Rightarrow> 'ip audit_event list" where
  "get_events l = al_events l"

definition event_count :: "'ip audit_logger \<Rightarrow> nat" where
  "event_count l = length (al_events l)"

definition al_clear :: "'ip audit_logger \<Rightarrow> 'ip audit_logger" where
  "al_clear l = l\<lparr>al_events := []\<rparr>"

subsection \<open>Lemmas\<close>

lemma log_event_fields [simp]:
  "al_max_buffer_size (log_event e l) = al_max_buffer_size l"
  "al_events (log_event e l) = drop (Suc (length (al_events l)) - al_max_buffer_size l) (al_events l @ [e])"
  by (simp_all add: log_event_def Let_def)

text \<open>The buffer holds the most recent events, in order: logging behaves as appending to a log
  that is never cut, seen through its last entries.\<close>

lemma log_recent:
  assumes "al_events l = drop (length history - al_max_buffer_size l) history"
  shows "al_events (fold log_event es l) = drop (length (history @ es) - al_max_buffer_size l) (history @ es)"
  using assms
proof (induction es arbitrary: l history)
  case (Cons e es)
  have "al_events (log_event e l) = drop (length (history @ [e]) - al_max_buffer_size (log_event e l)) (history @ [e])"
    using Cons.prems by (cases "al_max_buffer_size l \<le> length history") (auto simp: drop_append Suc_diff_le)
  from Cons.IH [OF this] show ?case by simp
qed simp

lemma audit_log_recent:
  "get_events (fold log_event es (al_new cap)) = drop (length es - cap) es"
  "event_count (fold log_event es (al_new cap)) = min cap (length es)"
  using log_recent [of "al_new cap" "[]" es] by (auto simp: al_new_def get_events_def event_count_def)

end
