(* ===== verification/Credentials.thy ===== *)
theory Credentials
  imports Models "HOL-Library.Word"
begin

text \<open>
  API keys and passwords (\<^verbatim>\<open>crates/security-layer/src/auth/api_key.rs\<close>, \<^verbatim>\<open>password.rs\<close>). The
  hash functions, the hexadecimal encoding and the random bytes are arguments: SHA-256, bcrypt and
  \<^verbatim>\<open>hex\<close> are library code. A string is the list of its bytes.
\<close>

unbundle bit_operations_syntax

record crypto_api =
  cr_sha256 :: "string \<Rightarrow> u8 list"
  cr_hex :: "u8 list \<Rightarrow> string"
  cr_bcrypt_hash :: "string \<Rightarrow> u32 \<Rightarrow> string option"
  cr_bcrypt_verify :: "string \<Rightarrow> string \<Rightarrow> bool option"

text \<open>What \<^verbatim>\<open>hex::encode\<close> documents: two digits for each byte.\<close>

definition hex_law :: "crypto_api \<Rightarrow> bool" where
  "hex_law cr \<longleftrightarrow> (\<forall>bs. length (cr_hex cr bs) = 2 * length bs)"

definition as_bytes :: "string \<Rightarrow> u8 list" where
  "as_bytes s = map (\<lambda>c. of_nat (of_char c)) s"

subsection \<open>API keys\<close>

definition MIN_API_KEY_LENGTH :: nat where
  "MIN_API_KEY_LENGTH = 32"

record api_key =
  ak_id :: api_key_id
  ak_key_hash :: string
  ak_name :: string
  ak_rate_limit :: u32
  ak_created_at :: timestamp
  ak_last_used :: "timestamp option"

definition validate_key_format :: "string \<Rightarrow> security_error + unit" where
  "validate_key_format raw_key = (if length raw_key < MIN_API_KEY_LENGTH then Inl InvalidCredentials else Inr ())"

definition hash_key :: "crypto_api \<Rightarrow> string \<Rightarrow> string" where
  "hash_key cr raw_key = cr_hex cr (cr_sha256 cr raw_key)"

text \<open>The slice panics when the encoding is too short; \<open>None\<close> is the panic.\<close>

definition generate_key :: "crypto_api \<Rightarrow> (nat \<Rightarrow> u8) \<Rightarrow> nat \<Rightarrow> string option" where
  "generate_key cr rng len =
     (let effective_length = max len MIN_API_KEY_LENGTH;
          byte_count = (effective_length + 1) div 2;
          hex_str = cr_hex cr (map rng [0..<byte_count])
      in if effective_length \<le> length hex_str then Some (take effective_length hex_str) else None)"

definition constant_time_eq :: "u8 list \<Rightarrow> u8 list \<Rightarrow> bool" where
  "constant_time_eq a b =
     (if length a \<noteq> length b then False
      else foldl (\<lambda>result (x, y). result OR (x XOR y)) 0 (zip a b) = 0)"

definition verify_key :: "crypto_api \<Rightarrow> string \<Rightarrow> string \<Rightarrow> security_error + unit" where
  "verify_key cr raw_key stored_hash =
     (if constant_time_eq (as_bytes (hash_key cr raw_key)) (as_bytes stored_hash) then Inr () else Inl InvalidCredentials)"

definition authenticate_key :: "crypto_api \<Rightarrow> string \<Rightarrow> api_key list \<Rightarrow> security_error + api_key_id" where
  "authenticate_key cr raw_key stored_keys =
     (if length raw_key < MIN_API_KEY_LENGTH then Inl InvalidCredentials
      else
        let computed_hash = hash_key cr raw_key;
            matched_id = foldl (\<lambda>m key. if constant_time_eq (as_bytes computed_hash) (as_bytes (ak_key_hash key))
                                        then Some (ak_id key) else m) None stored_keys
        in case matched_id of Some kid \<Rightarrow> Inr kid | None \<Rightarrow> Inl InvalidCredentials)"

subsection \<open>Passwords\<close>

definition MIN_PASSWORD_LENGTH :: nat where
  "MIN_PASSWORD_LENGTH = 12"

definition DEFAULT_BCRYPT_COST :: u32 where
  "DEFAULT_BCRYPT_COST = 12"

text \<open>The authenticator is its cost factor.\<close>

type_synonym password_authenticator = u32

definition pa_new :: password_authenticator where
  "pa_new = DEFAULT_BCRYPT_COST"

definition with_cost :: "u32 \<Rightarrow> password_authenticator" where
  "with_cost cost = max 4 (min 31 cost)"

definition validate_password_format :: "string \<Rightarrow> security_error + unit" where
  "validate_password_format password =
     (if length password < MIN_PASSWORD_LENGTH then Inl InvalidCredentials else Inr ())"

definition hash_password :: "crypto_api \<Rightarrow> password_authenticator \<Rightarrow> string \<Rightarrow> security_error + string" where
  "hash_password cr cost password =
     (case cr_bcrypt_hash cr password cost of Some h \<Rightarrow> Inr h | None \<Rightarrow> Inl InvalidCredentials)"

definition verify_password :: "crypto_api \<Rightarrow> string \<Rightarrow> string \<Rightarrow> security_error + unit" where
  "verify_password cr password hash =
     (case cr_bcrypt_verify cr password hash of
        Some True \<Rightarrow> Inr ()
      | Some False \<Rightarrow> Inl InvalidCredentials
      | None \<Rightarrow> Inl InvalidCredentials)"

record user =
  us_id :: user_id
  us_username :: string
  us_password_hash :: string
  us_role :: role

text \<open>The verification against a fixed hash when there is nothing to compare with has no effect
  but the time it takes.\<close>

definition authenticate_password :: "crypto_api \<Rightarrow> string \<Rightarrow> string \<Rightarrow> user list \<Rightarrow> security_error + user_id" where
  "authenticate_password cr username password users =
     (if length password < MIN_PASSWORD_LENGTH then Inl InvalidCredentials
      else (case find (\<lambda>u. us_username u = username) users of
              Some u \<Rightarrow> (case verify_password cr password (us_password_hash u) of Inl e \<Rightarrow> Inl e | Inr _ \<Rightarrow> Inr (us_id u))
            | None \<Rightarrow> Inl InvalidCredentials))"

subsection \<open>Lemmas\<close>

lemma xor_eq_0: "(a XOR b = 0) \<longleftrightarrow> a = (b :: 'a::len word)"
proof
  assume "a XOR b = 0"
  then have "bit (a XOR b) n = bit 0 n" for n by simp
  then show "a = b" by (intro bit_word_eqI) (simp add: bit_xor_iff)
qed simp

lemma as_bytes_inject [simp]: "as_bytes a = as_bytes b \<longleftrightarrow> a = b"
proof -
  have "c = d" if "(of_nat (of_char c) :: u8) = of_nat (of_char d)" for c d
  proof -
    have "(of_char c :: nat) mod 256 = of_char d mod 256"
      using arg_cong [OF that, of unat] by (simp add: unat_of_nat)
    then show "c = d" by (simp add: nat_of_char_less_256)
  qed
  then have "inj (\<lambda>c. of_nat (of_char c) :: u8)" by (intro injI)
  then show ?thesis by (simp add: as_bytes_def inj_map_eq_map)
qed

lemma xor_fold_eq_0:
  "length a = length b \<Longrightarrow> foldl (\<lambda>r (x, y). r OR (x XOR y)) acc (zip a b) = 0 \<longleftrightarrow> acc = 0 \<and> a = (b :: 'a::len word list)"
  by (induction a b arbitrary: acc rule: list_induct2) (auto simp: or_eq_0_iff xor_eq_0)

lemma constant_time_eq_iff [simp]: "constant_time_eq a b \<longleftrightarrow> a = b"
  by (auto simp: constant_time_eq_def xor_fold_eq_0)

lemma match_fold:
  "foldl (\<lambda>m k. if h = ak_key_hash k then Some (ak_id k) else m) m keys =
     (case find (\<lambda>k. ak_key_hash k = h) (rev keys) of Some k \<Rightarrow> Some (ak_id k) | None \<Rightarrow> m)"
proof (induction keys rule: rev_induct)
  case (snoc k keys)
  then show ?case by (auto simp: eq_commute)
qed simp

text \<open>The last matching key counts, and every refusal is the same error.\<close>

lemma authenticate_key_eq:
  "authenticate_key cr raw keys =
     (case (if length raw < MIN_API_KEY_LENGTH then None else find (\<lambda>k. ak_key_hash k = hash_key cr raw) (rev keys)) of
        Some k \<Rightarrow> Inr (ak_id k) | None \<Rightarrow> Inl InvalidCredentials)"
  by (auto simp: authenticate_key_def match_fold Let_def split: option.split)

lemma authenticate_key_Inr:
  "authenticate_key cr raw keys = Inr i \<Longrightarrow>
     MIN_API_KEY_LENGTH \<le> length raw \<and> (\<exists>k \<in> set keys. ak_id k = i \<and> ak_key_hash k = hash_key cr raw)"
  by (auto simp: authenticate_key_eq split: option.splits if_splits dest!: find_SomeD)

lemma authenticate_key_fails_iff:
  "authenticate_key cr raw keys = Inl e \<longleftrightarrow> e = InvalidCredentials \<and>
     (length raw < MIN_API_KEY_LENGTH \<or> (\<forall>k \<in> set keys. ak_key_hash k \<noteq> hash_key cr raw))"
  by (auto simp: authenticate_key_eq find_None_iff split: option.splits if_splits dest!: find_SomeD)

lemma generate_key_length:
  assumes "hex_law cr"
  shows "\<exists>k. generate_key cr rng n = Some k \<and> length k = max n MIN_API_KEY_LENGTH \<and> validate_key_format k = Inr ()"
  using assms by (auto simp: generate_key_def hex_law_def Let_def validate_key_format_def)

text \<open>A generated key that is stored by its hash authenticates as itself, whatever the other
  keys, as long as no later key has the same hash.\<close>

lemma generated_key_authenticates:
  assumes "hex_law cr" and "generate_key cr rng n = Some raw" and "ak_key_hash k = hash_key cr raw"
    and "\<forall>k' \<in> set later. ak_key_hash k' \<noteq> hash_key cr raw"
  shows "authenticate_key cr raw (earlier @ k # later) = Inr (ak_id k)"
proof -
  have "\<not> length raw < MIN_API_KEY_LENGTH" using generate_key_length [OF assms(1), of rng n] assms(2) by auto
  moreover have "find (\<lambda>k. ak_key_hash k = hash_key cr raw) (rev later) = None" using assms(4) by (auto simp: find_None_iff)
  ultimately show ?thesis using assms(3) by (simp add: authenticate_key_eq find_append)
qed

text \<open>The cost factor is one bcrypt accepts.\<close>

lemma with_cost_bounds: "4 \<le> with_cost c \<and> with_cost c \<le> 31"
  by (auto simp: with_cost_def min_def max_def)

text \<open>A password login succeeds for the first user of the name only, and every refusal is the
  same error.\<close>

lemma authenticate_password_eq:
  "authenticate_password cr name pw users =
     (case find (\<lambda>u. us_username u = name) users of
        Some u \<Rightarrow> if MIN_PASSWORD_LENGTH \<le> length pw \<and> cr_bcrypt_verify cr pw (us_password_hash u) = Some True
                  then Inr (us_id u) else Inl InvalidCredentials
      | None \<Rightarrow> Inl InvalidCredentials)"
  by (auto simp: authenticate_password_def verify_password_def split: option.split bool.split)

end
