(* ===== verification/Api_Auth.thy ===== *)
theory Api_Auth
  imports Credentials Rate_Limit Json Rust_Strings
begin

text \<open>
  The entrance of the HTTP server (\<^verbatim>\<open>crates/api-server/src\<close>): structured errors (\<^verbatim>\<open>error.rs\<close>), the
  authentication middleware (\<^verbatim>\<open>middleware/auth.rs\<close>), password login (\<^verbatim>\<open>routes/auth.rs\<close>) and the
  authentication of WebSocket connections (\<^verbatim>\<open>routes/ws.rs\<close>). \<open>auth_state\<close> has the fields of
  \<^verbatim>\<open>AppState\<close> these use; the routes extend it. Fresh identifiers, random bytes, the time and the
  text form of a time are arguments.
\<close>

subsection \<open>Errors\<close>

record api_error =
  ae_status :: nat
  ae_error_code :: string
  ae_message :: string
  ae_request_id :: string
  ae_retry_after :: "u64 option"

definition with_request_id :: "nat \<Rightarrow> string \<Rightarrow> string \<Rightarrow> string \<Rightarrow> api_error" where
  "with_request_id status code message request_id =
     \<lparr>ae_status = status, ae_error_code = code, ae_message = message, ae_request_id = request_id, ae_retry_after = None\<rparr>"

definition with_retry_after :: "u64 \<Rightarrow> api_error \<Rightarrow> api_error" where
  "with_retry_after secs e = e\<lparr>ae_retry_after := Some secs\<rparr>"

definition bad_request :: "string \<Rightarrow> string \<Rightarrow> api_error" where
  "bad_request message request_id = with_request_id 400 ''VALIDATION_ERROR'' message request_id"

definition unauthorized :: "string \<Rightarrow> api_error" where
  "unauthorized request_id =
     with_request_id 401 ''AUTHENTICATION_REQUIRED''
       ''Valid API key required. Provide a Bearer token in the Authorization header.'' request_id"

definition forbidden :: "string \<Rightarrow> string \<Rightarrow> api_error" where
  "forbidden message request_id = with_request_id 403 ''INSUFFICIENT_PERMISSIONS'' message request_id"

definition not_found :: "string \<Rightarrow> string \<Rightarrow> api_error" where
  "not_found message request_id = with_request_id 404 ''NOT_FOUND'' message request_id"

definition rate_limited :: "u64 \<Rightarrow> string \<Rightarrow> api_error" where
  "rate_limited secs request_id =
     with_retry_after secs (with_request_id 429 ''RATE_LIMIT_EXCEEDED''
       (''Rate limit exceeded. Retry after '' @ show_nat (unat secs) @ '' seconds.'') request_id)"

definition internal_error :: "string \<Rightarrow> string \<Rightarrow> api_error" where
  "internal_error message request_id = with_request_id 500 ''INTERNAL_ERROR'' message request_id"

fun role_text :: "role \<Rightarrow> string" where
  "role_text Admin = ''Admin''"
| "role_text Operator = ''Operator''"

fun from_security_error :: "(timestamp \<Rightarrow> string) \<Rightarrow> security_error \<Rightarrow> string \<Rightarrow> api_error" where
  "from_security_error fmt AuthenticationRequired rid = unauthorized rid"
| "from_security_error fmt InvalidCredentials rid = with_request_id 401 ''INVALID_CREDENTIALS'' ''Invalid API key.'' rid"
| "from_security_error fmt (IpBlocked until) rid = with_request_id 403 ''IP_BLOCKED'' (''IP blocked until '' @ fmt until) rid"
| "from_security_error fmt (InsufficientPermissions r) rid =
     forbidden (''Insufficient permissions. Required role: '' @ role_text r) rid"
| "from_security_error fmt (RateLimitExceeded retry_after) rid = rate_limited (of_nat (retry_after div 1000000000)) rid"
| "from_security_error fmt SessionExpired rid =
     with_request_id 401 ''SESSION_EXPIRED'' ''Session has expired. Please re-authenticate.'' rid"
| "from_security_error fmt (SandboxViolation p a) rid = forbidden ''Operation denied by security policy.'' rid"
| "from_security_error fmt (NetworkBlocked h p) rid = forbidden ''Network access denied by security policy.'' rid"

record http_response =
  hr_status :: nat
  hr_headers :: "(string \<times> string) list"
  hr_body :: json

definition error_response :: "api_error \<Rightarrow> http_response" where
  "error_response e =
     \<lparr>hr_status = ae_status e,
      hr_headers = (case ae_retry_after e of Some s \<Rightarrow> [(''Retry-After'', show_nat (unat s))] | None \<Rightarrow> []),
      hr_body = JObject [(''error_code'', JString (ae_error_code e)), (''message'', JString (ae_message e)),
        (''request_id'', JString (ae_request_id e))]\<rparr>"

subsection \<open>The state\<close>

record auth_state =
  au_rate_limiter :: rate_limiter
  au_api_keys :: "api_key list"
  au_admin_username :: string
  au_admin_password_hash :: string
  au_login_tokens :: "string list"
  au_admin_session_key_id :: api_key_id

subsection \<open>The middleware\<close>

text \<open>The two headers the middleware reads, as far as they are text, and the rest of the request.\<close>

record 'r http_request =
  rq_request_id :: "string option"
  rq_authorization :: "string option"
  rq_rest :: 'r

definition request_id_of :: "string \<Rightarrow> 'r http_request \<Rightarrow> string" where
  "request_id_of fresh rq = (case rq_request_id rq of Some i \<Rightarrow> i | None \<Rightarrow> fresh)"

definition bearer_token :: "'r http_request \<Rightarrow> string option" where
  "bearer_token rq = Option.bind (rq_authorization rq) (strip_prefix ''Bearer '')"

text \<open>The identity of a token and the limit of its key.\<close>

definition identify :: "crypto_api \<Rightarrow> string \<Rightarrow> 'a auth_state_scheme \<Rightarrow> (api_key_id \<times> u32 option) option" where
  "identify cr token st =
     (case authenticate_key cr token (au_api_keys st) of
        Inr kid \<Rightarrow> Some (kid, map_option ak_rate_limit (find (\<lambda>k. ak_id k = kid) (au_api_keys st)))
      | Inl _ \<Rightarrow> if token \<in> set (au_login_tokens st) then Some (au_admin_session_key_id st, None) else None)"

definition auth_check :: "crypto_api \<Rightarrow> chrono_api \<Rightarrow> (timestamp \<Rightarrow> string) \<Rightarrow> timestamp \<Rightarrow> string \<Rightarrow> 'r http_request \<Rightarrow>
    'a auth_state_scheme \<Rightarrow> (api_error + api_key_id) \<times> 'a auth_state_scheme" where
  "auth_check cr ch fmt now fresh rq st =
     (let request_id = request_id_of fresh rq in
      case bearer_token rq of
        None \<Rightarrow> (Inl (unauthorized request_id), st)
      | Some token \<Rightarrow>
          (case identify cr token st of
             None \<Rightarrow> (Inl (with_request_id 401 ''INVALID_CREDENTIALS'' ''Invalid API key.'' request_id), st)
           | Some (kid, limit) \<Rightarrow>
               (case check_rate_limit ch now kid limit (au_rate_limiter st) of
                  (rl, Inl e) \<Rightarrow> (Inl (from_security_error fmt e request_id), st\<lparr>au_rate_limiter := rl\<rparr>)
                | (rl, Inr _) \<Rightarrow> (Inr kid, st\<lparr>au_rate_limiter := rl\<rparr>))))"

definition auth_middleware :: "crypto_api \<Rightarrow> chrono_api \<Rightarrow> (timestamp \<Rightarrow> string) \<Rightarrow> timestamp \<Rightarrow> string \<Rightarrow>
    (api_key_id \<Rightarrow> string \<Rightarrow> 'r \<Rightarrow> 'a auth_state_scheme \<Rightarrow> http_response \<times> 'a auth_state_scheme) \<Rightarrow>
    'r http_request \<Rightarrow> 'a auth_state_scheme \<Rightarrow> http_response \<times> 'a auth_state_scheme" where
  "auth_middleware cr ch fmt now fresh next_run rq st =
     (case auth_check cr ch fmt now fresh rq st of
        (Inl e, st1) \<Rightarrow> (error_response e, st1)
      | (Inr kid, st1) \<Rightarrow> next_run kid (request_id_of fresh rq) (rq_rest rq) st1)"

subsection \<open>Login and WebSocket connections\<close>

definition invalid_login :: "nat \<times> string" where
  "invalid_login = (401, ''Invalid username or password'')"

text \<open>The answer to a login is a status with a text, or a token; \<open>None\<close> is the panic of the key
  generator.\<close>

definition login :: "crypto_api \<Rightarrow> (nat \<Rightarrow> u8) \<Rightarrow> string \<Rightarrow> string \<Rightarrow> 'a auth_state_scheme \<Rightarrow>
    ((nat \<times> string) + string) option \<times> 'a auth_state_scheme" where
  "login cr rng username password st =
     (if username \<noteq> au_admin_username st then (Some (Inl invalid_login), st)
      else if au_admin_password_hash st = [] then (Some (Inl (401, ''Password login is disabled. Use an API key.'')), st)
      else (case verify_password cr password (au_admin_password_hash st) of
              Inl _ \<Rightarrow> (Some (Inl invalid_login), st)
            | Inr _ \<Rightarrow>
                (case generate_key cr rng 64 of
                   None \<Rightarrow> (None, st)
                 | Some token \<Rightarrow> (Some (Inr token), st\<lparr>au_login_tokens := List.insert token (au_login_tokens st)\<rparr>))))"

definition authenticate_ws :: "crypto_api \<Rightarrow> string option \<Rightarrow> 'a auth_state_scheme \<Rightarrow> string + api_key_id" where
  "authenticate_ws cr token st =
     (case token of
        None \<Rightarrow> Inl ''Missing token query parameter. Connect with ?token=<api-key>''
      | Some t \<Rightarrow> (case authenticate_key cr t (au_api_keys st) of Inr kid \<Rightarrow> Inr kid | Inl _ \<Rightarrow> Inl ''Invalid API key''))"

subsection \<open>Sequences of calls\<close>

text \<open>The calls that reach this part of the state, and the times at which requests of a key were
  handed on to the handlers.\<close>

datatype 'r api_call =
    AReq timestamp string "'r http_request"
  | ALogin timestamp "nat \<Rightarrow> u8" string string
  | ACleanup timestamp
  | ASetLimit timestamp u32

fun api_call_time :: "'r api_call \<Rightarrow> timestamp" where
  "api_call_time (AReq t _ _) = t"
| "api_call_time (ALogin t _ _ _) = t"
| "api_call_time (ACleanup t) = t"
| "api_call_time (ASetLimit t _) = t"

type_synonym admitted = "api_key_id \<Rightarrow> timestamp list"

fun api_apply :: "crypto_api \<Rightarrow> chrono_api \<Rightarrow> (timestamp \<Rightarrow> string) \<Rightarrow> 'r api_call \<Rightarrow> auth_state \<times> admitted \<Rightarrow> auth_state \<times> admitted" where
  "api_apply cr ch fmt (AReq now fresh rq) (st, acc) =
     (case auth_check cr ch fmt now fresh rq st of
        (Inl _, st') \<Rightarrow> (st', acc)
      | (Inr kid, st') \<Rightarrow> (st', acc(kid := acc kid @ [now])))"
| "api_apply cr ch fmt (ALogin now rng user pw) (st, acc) = (snd (login cr rng user pw st), acc)"
| "api_apply cr ch fmt (ACleanup now) (st, acc) =
     (st\<lparr>au_rate_limiter := rl_cleanup_expired ch now (au_rate_limiter st)\<rparr>, acc)"
| "api_apply cr ch fmt (ASetLimit now l) (st, acc) =
     (st\<lparr>au_rate_limiter := fst (set_default_limit l (au_rate_limiter st))\<rparr>, acc)"

definition api_run :: "crypto_api \<Rightarrow> chrono_api \<Rightarrow> (timestamp \<Rightarrow> string) \<Rightarrow> 'r api_call list \<Rightarrow> auth_state \<Rightarrow> auth_state \<times> admitted" where
  "api_run cr ch fmt calls st = fold (api_apply cr ch fmt) calls (st, \<lambda>_. [])"

definition auth_start :: "rate_limit_config \<Rightarrow> api_key list \<Rightarrow> string \<Rightarrow> string \<Rightarrow> api_key_id \<Rightarrow> auth_state" where
  "auth_start config keys username hash admin_id =
     \<lparr>au_rate_limiter = rl_new config, au_api_keys = keys, au_admin_username = username, au_admin_password_hash = hash,
      au_login_tokens = [], au_admin_session_key_id = admin_id\<rparr>"

lemma api_run_snoc: "api_run cr ch fmt (calls @ [c]) st = api_apply cr ch fmt c (api_run cr ch fmt calls st)"
  by (simp add: api_run_def)

text \<open>A login in the sequence that was answered with the token.\<close>

definition issued :: "crypto_api \<Rightarrow> string \<Rightarrow> string \<Rightarrow> 'r api_call list \<Rightarrow> string \<Rightarrow> bool" where
  "issued cr username hash calls token \<longleftrightarrow>
     (\<exists>now rng pw. ALogin now rng username pw \<in> set calls \<and> hash \<noteq> [] \<and>
        cr_bcrypt_verify cr pw hash = Some True \<and> generate_key cr rng 64 = Some token)"

lemma auth_check_fields:
  "au_api_keys (snd (auth_check cr ch fmt now fresh rq st)) = au_api_keys st"
  "au_admin_username (snd (auth_check cr ch fmt now fresh rq st)) = au_admin_username st"
  "au_admin_password_hash (snd (auth_check cr ch fmt now fresh rq st)) = au_admin_password_hash st"
  "au_login_tokens (snd (auth_check cr ch fmt now fresh rq st)) = au_login_tokens st"
  "au_admin_session_key_id (snd (auth_check cr ch fmt now fresh rq st)) = au_admin_session_key_id st"
  by (auto simp: auth_check_def Let_def split: option.split prod.split sum.split)

lemma api_apply_req: "fst (api_apply cr ch fmt (AReq now fresh rq) (st, acc)) = snd (auth_check cr ch fmt now fresh rq st)"
  by (auto split: prod.split sum.split)

lemma login_fields:
  "au_api_keys (snd (login cr rng u pw st)) = au_api_keys st"
  "au_admin_username (snd (login cr rng u pw st)) = au_admin_username st"
  "au_admin_password_hash (snd (login cr rng u pw st)) = au_admin_password_hash st"
  "au_rate_limiter (snd (login cr rng u pw st)) = au_rate_limiter st"
  "au_admin_session_key_id (snd (login cr rng u pw st)) = au_admin_session_key_id st"
  "token \<in> set (au_login_tokens (snd (login cr rng u pw st))) \<longleftrightarrow> token \<in> set (au_login_tokens st) \<or>
     u = au_admin_username st \<and> au_admin_password_hash st \<noteq> [] \<and>
     cr_bcrypt_verify cr pw (au_admin_password_hash st) = Some True \<and> generate_key cr rng 64 = Some token"
  by (auto simp: login_def verify_password_def split: option.splits bool.splits)

lemma api_run_state:
  assumes "st = fst (api_run cr ch fmt calls (auth_start config keys username hash admin_id))"
  shows "au_api_keys st = keys \<and> au_admin_username st = username \<and> au_admin_password_hash st = hash \<and>
    au_admin_session_key_id st = admin_id \<and> (\<forall>token. token \<in> set (au_login_tokens st) \<longleftrightarrow> issued cr username hash calls token)"
  unfolding assms
proof (induction calls rule: rev_induct)
  case Nil
  then show ?case by (simp add: api_run_def auth_start_def issued_def)
next
  case (snoc c calls)
  obtain st acc where r: "api_run cr ch fmt calls (auth_start config keys username hash admin_id) = (st, acc)" by fastforce
  show ?case
  proof (cases c)
    case (AReq now fresh rq)
    have "fst (api_run cr ch fmt (calls @ [c]) (auth_start config keys username hash admin_id)) = snd (auth_check cr ch fmt now fresh rq st)"
      unfolding api_run_snoc r AReq by (rule api_apply_req)
    then show ?thesis using snoc r AReq by (auto simp: auth_check_fields issued_def)
  next
    case (ALogin now rng u pw)
    then show ?thesis using snoc r by (auto simp: api_run_snoc login_fields issued_def)
  qed (use snoc r in \<open>auto simp: api_run_snoc issued_def\<close>)
qed

text \<open>The limiter sees a subsequence of the calls, and what it accepts is what is admitted.\<close>

lemma auth_check_limiter:
  obtains (unseen) e where "auth_check cr ch fmt now fresh rq st = (Inl e, st)"
  | (seen) kid limit token where "bearer_token rq = Some token" "identify cr token st = Some (kid, limit)"
      "au_rate_limiter (snd (auth_check cr ch fmt now fresh rq st)) = fst (check_rate_limit ch now kid limit (au_rate_limiter st))"
      "\<And>k. fst (auth_check cr ch fmt now fresh rq st) = Inr k \<longleftrightarrow>
         k = kid \<and> snd (check_rate_limit ch now kid limit (au_rate_limiter st)) = Inr ()"
proof (cases "Option.bind (bearer_token rq) (\<lambda>token. identify cr token st)")
  case None
  then have "\<exists>e. auth_check cr ch fmt now fresh rq st = (Inl e, st)"
    by (cases "bearer_token rq") (auto simp: auth_check_def Let_def)
  then show thesis using unseen by blast
next
  case (Some kl)
  then obtain token kid limit where t: "bearer_token rq = Some token" "identify cr token st = Some (kid, limit)"
    by (cases kl) (auto simp: Option.bind_eq_Some_conv)
  show thesis
    by (rule seen [OF t]) (auto simp: auth_check_def Let_def t split: prod.splits sum.splits)
qed

text \<open>Every limit in force for the key is at most \<open>L\<close>.\<close>

definition limits_ok :: "nat \<Rightarrow> api_key_id \<Rightarrow> api_key list \<Rightarrow> 'r api_call list \<Rightarrow> bool" where
  "limits_ok L k keys calls \<longleftrightarrow> (\<forall>key \<in> set keys. ak_id key = k \<longrightarrow> unat (ak_rate_limit key) \<le> L) \<and>
     (\<forall>now l. ASetLimit now l \<in> set calls \<longrightarrow> unat (max l 1) \<le> L)"

lemma identify_limit:
  "identify cr token st = Some (kid, limit) \<Longrightarrow> \<forall>key \<in> set (au_api_keys st). ak_id key = k \<longrightarrow> unat (ak_rate_limit key) \<le> L \<Longrightarrow>
     call_limit_ok L k (Check now kid limit)"
  by (cases limit) (auto simp: identify_def split: sum.splits if_splits dest!: find_SomeD)

lemma rl_apply_check:
  "rl_apply ch (Check now kid limit) (rl, acc) = (fst (check_rate_limit ch now kid limit rl),
     if snd (check_rate_limit ch now kid limit rl) = Inr () then acc(kid := acc kid @ [now]) else acc)"
  by (auto split: prod.split sum.split)

text \<open>One call of the server is at most one call of the limiter.\<close>

lemma api_apply_limiter:
  assumes "\<forall>key \<in> set (au_api_keys st). ak_id key = k \<longrightarrow> unat (ak_rate_limit key) \<le> L"
    and "\<forall>now l. c = ASetLimit now l \<longrightarrow> unat (max l 1) \<le> L"
    and "api_apply cr ch fmt c (st, acc) = (st', acc')"
  obtains "au_rate_limiter st' = au_rate_limiter st" "acc' = acc"
  | rc where "rl_apply ch rc (au_rate_limiter st, acc) = (au_rate_limiter st', acc')" "call_limit_ok L k rc"
      "call_time rc = api_call_time c"
proof (cases c)
  case (AReq now fresh rq)
  show thesis
  proof (rule auth_check_limiter [of cr ch fmt now fresh rq st])
    fix e assume "auth_check cr ch fmt now fresh rq st = (Inl e, st)"
    then show thesis using that(1) assms(3) AReq by simp
  next
    fix kid limit token
    assume i: "identify cr token st = Some (kid, limit)"
      and l: "au_rate_limiter (snd (auth_check cr ch fmt now fresh rq st)) = fst (check_rate_limit ch now kid limit (au_rate_limiter st))"
      and a: "\<And>k. fst (auth_check cr ch fmt now fresh rq st) = Inr k \<longleftrightarrow>
         k = kid \<and> snd (check_rate_limit ch now kid limit (au_rate_limiter st)) = Inr ()"
    have "rl_apply ch (Check now kid limit) (au_rate_limiter st, acc) = (au_rate_limiter st', acc')"
    proof (cases "snd (check_rate_limit ch now kid limit (au_rate_limiter st)) = Inr ()")
      case True
      then have "fst (auth_check cr ch fmt now fresh rq st) = Inr kid" using a by blast
      then show ?thesis using True assms(3) l unfolding rl_apply_check AReq
        by (cases "auth_check cr ch fmt now fresh rq st") auto
    next
      case False
      then obtain e where "fst (auth_check cr ch fmt now fresh rq st) = Inl e"
        using a by (cases "fst (auth_check cr ch fmt now fresh rq st)") auto
      then show ?thesis using False assms(3) l unfolding rl_apply_check AReq
        by (cases "auth_check cr ch fmt now fresh rq st") auto
    qed
    then show thesis by (rule that(2)) (use identify_limit [OF i assms(1)] AReq in simp_all)
  qed
next
  case (ALogin now rng u pw)
  then show thesis using that(1) assms(3) login_fields(4) by force
next
  case (ACleanup now)
  then show thesis using that(2) [of "Cleanup now"] assms(3) by auto
next
  case (ASetLimit now l)
  then show thesis using that(2) [of "SetDefault now l"] assms(2,3) by auto
qed

lemma api_run_limiter:
  assumes "sorted (map api_call_time calls)" and "limits_ok L k keys calls"
    and "api_run cr ch fmt calls (auth_start config keys username hash admin_id) = (st, acc)"
  shows "\<exists>rcs. rl_run ch config rcs = (au_rate_limiter st, acc) \<and> sorted (map call_time rcs) \<and>
    (\<forall>c \<in> set rcs. call_limit_ok L k c) \<and> call_time ` set rcs \<subseteq> api_call_time ` set calls"
  using assms
proof (induction calls arbitrary: st acc rule: rev_induct)
  case Nil
  then show ?case by (intro exI [of _ "[]"]) (auto simp: api_run_def auth_start_def rl_run_def)
next
  case (snoc c calls)
  obtain st0 acc0 where r: "api_run cr ch fmt calls (auth_start config keys username hash admin_id) = (st0, acc0)" by fastforce
  obtain rcs where rcs: "rl_run ch config rcs = (au_rate_limiter st0, acc0)" "sorted (map call_time rcs)"
    "\<forall>c \<in> set rcs. call_limit_ok L k c" "call_time ` set rcs \<subseteq> api_call_time ` set calls"
    using snoc.IH [OF _ _ r] snoc.prems(1,2) by (auto simp: sorted_append limits_ok_def)
  have step: "api_apply cr ch fmt c (st0, acc0) = (st, acc)" using snoc.prems(3) r by (simp add: api_run_snoc)
  have keys: "au_api_keys st0 = keys" using api_run_state [of st0] r by (metis fst_conv)
  show ?case
  proof (rule api_apply_limiter [OF _ _ step, of k L])
    fix rc
    assume rc: "rl_apply ch rc (au_rate_limiter st0, acc0) = (au_rate_limiter st, acc)" "call_limit_ok L k rc"
      "call_time rc = api_call_time c"
    have "\<forall>t \<in> call_time ` set rcs. t \<le> api_call_time c" using rcs(4) snoc.prems(1) by (fastforce simp: sorted_append)
    then show ?thesis using rc rcs by (intro exI [of _ "rcs @ [rc]"]) (auto simp: rl_run_snoc sorted_append)
  next
    assume "au_rate_limiter st = au_rate_limiter st0" "acc = acc0"
    then show ?thesis using rcs by (intro exI [of _ rcs]) auto
  qed (use snoc.prems(2) keys in \<open>auto simp: limits_ok_def\<close>)
qed

subsection \<open>Properties\<close>

lemma auth_check_admits:
  "fst (auth_check cr ch fmt now fresh rq st) = Inr kid \<longleftrightarrow>
     (\<exists>token limit. bearer_token rq = Some token \<and> identify cr token st = Some (kid, limit) \<and>
        snd (check_rate_limit ch now kid limit (au_rate_limiter st)) = Inr ())"
  by (auto simp: auth_check_def Let_def split: option.splits prod.splits sum.splits)

lemma auth_check_status:
  "fst (auth_check cr ch fmt now fresh rq st) = Inl e \<Longrightarrow> ae_status e \<in> {401, 429} \<and> ae_request_id e = request_id_of fresh rq"
  by (auto simp: auth_check_def Let_def check_rate_limit_def unauthorized_def with_request_id_def rate_limited_def
      with_retry_after_def split: option.splits prod.splits sum.splits if_splits)



definition example_crypto :: crypto_api where
  "example_crypto = \<lparr>cr_sha256 = as_bytes, cr_hex = (\<lambda>bs. replicate (2 * length bs) CHR ''a''),
     cr_bcrypt_hash = (\<lambda>pw _. Some pw), cr_bcrypt_verify = (\<lambda>pw h. Some (pw = h))\<rparr>"

definition example_request :: "string \<Rightarrow> unit http_request" where
  "example_request token = \<lparr>rq_request_id = Some ''r1'', rq_authorization = Some (''Bearer '' @ token), rq_rest = ()\<rparr>"

definition example_token :: string where
  "example_token = replicate 64 CHR ''a''"

definition example_api_calls :: "unit api_call list" where
  "example_api_calls = [ALogin 0 (\<lambda>_. 97) ''admin'' ''secret'', AReq 1 [] (example_request example_token)]"

definition example_config :: rate_limit_config where
  "example_config = \<lparr>default_limit = 2, window = 60\<rparr>"

definition example_auth :: "auth_state \<times> admitted" where
  "example_auth = api_run example_crypto exact_chrono (\<lambda>_. []) example_api_calls (auth_start example_config [] ''admin'' ''secret'' 7)"

lemma example_token_facts:
  "generate_key example_crypto (\<lambda>_. 97) 64 = Some example_token"
  "authenticate_key example_crypto example_token [] = Inl InvalidCredentials"
  "bearer_token (example_request example_token) = Some example_token"
  by (simp_all add: generate_key_def MIN_API_KEY_LENGTH_def example_crypto_def example_token_def authenticate_key_eq bearer_token_def
      example_request_def strip_prefix_def starts_with_str_def)

lemma example_verify: "verify_password example_crypto pw h = (if pw = h then Inr () else Inl InvalidCredentials)"
  by (simp add: verify_password_def example_crypto_def)

lemma example_auth_facts:
  "fst (auth_check example_crypto exact_chrono (\<lambda>_. []) 100 [] (example_request example_token) (fst example_auth)) = Inr 7"
  "snd example_auth 7 = [1]"
  by (simp_all add: example_auth_def api_run_def example_api_calls_def login_def auth_start_def example_verify example_token_facts
      auth_check_def identify_def check_rate_limit_def timestamps_of_def rl_new_def in_window_def example_config_def Let_def
      rl_window_def duration_or_def exact_chrono_def)



text \<open>A WebSocket connection is opened for API keys only: the token of a login is refused, and no
  limit is checked.\<close>

lemma authenticate_ws_iff:
  "authenticate_ws cr token st = Inr kid \<longleftrightarrow> (\<exists>t. token = Some t \<and> authenticate_key cr t (au_api_keys st) = Inr kid)"
  by (auto simp: authenticate_ws_def split: option.split sum.split)

end
