(* ===== verification/Uploads.thy ===== *)
theory Uploads
  imports Api_Auth Rust_Fs Rust_Text
begin

text \<open>
  Uploaded files (\<^verbatim>\<open>crates/common/src/uploads.rs\<close>, \<^verbatim>\<open>crates/api-server/src/routes/uploads.rs\<close>): the
  names files are stored under, and the handler of a multipart request over the file system of
  \<open>Rust_Fs\<close>. The fields of the request are a list of what the multipart reader yields.
\<close>

subsection \<open>Names\<close>

definition IMAGE_EXTENSIONS :: "(string \<times> string) list" where
  "IMAGE_EXTENSIONS = [(''.png'', ''image/png''), (''.jpg'', ''image/jpeg''), (''.jpeg'', ''image/jpeg''),
     (''.gif'', ''image/gif''), (''.webp'', ''image/webp''), (''.bmp'', ''image/bmp'')]"

definition is_control :: "char \<Rightarrow> bool" where
  "is_control c \<longleftrightarrow> (of_char c :: nat) < 32 \<or> (of_char c :: nat) = 127"

text \<open>The text after the last separator.\<close>

definition last_segment :: "string \<Rightarrow> string" where
  "last_segment name = rev (takeWhile (\<lambda>c. c \<noteq> CHR ''/'' \<and> c \<noteq> CHR 0x5C) (rev name))"

definition sanitize_filename :: "string \<Rightarrow> string" where
  "sanitize_filename name =
     (let base = str_trim (last_segment name);
          cleaned = str_trim (trim_end_char CHR ''.'' (trim_start_char CHR ''.'' (filter (\<lambda>c. \<not> is_control c) base)))
      in if cleaned = [] \<or> cleaned = ''..'' then ''file'' else cleaned)"

definition sanitize_component :: "string \<Rightarrow> string" where
  "sanitize_component s =
     (let cleaned = sanitize_filename s in if cleaned = ''file'' \<and> s \<noteq> ''file'' then ''session'' else cleaned)"

definition session_upload_dir :: "path \<Rightarrow> string \<Rightarrow> path" where
  "session_upload_dir workspace session_id = join_str (join_str workspace ''uploads'') (sanitize_component session_id)"

definition display_path :: "string \<Rightarrow> string \<Rightarrow> string" where
  "display_path session_id filename = ''uploads/'' @ sanitize_component session_id @ ''/'' @ sanitize_filename filename"

definition image_media_type :: "string \<Rightarrow> string option" where
  "image_media_type name =
     (let lower = to_lowercase name in map_option snd (find (\<lambda>(ext, _). ends_with_str lower ext) IMAGE_EXTENSIONS))"

definition is_image_filename :: "string \<Rightarrow> bool" where
  "is_image_filename name \<longleftrightarrow> image_media_type name \<noteq> None"

subsection \<open>The handler\<close>

record uploaded_file =
  uf_name :: string
  uf_path :: string
  uf_size :: nat
  uf_is_image :: bool
  uf_media_type :: "string option"

text \<open>A field is a fault of the reader, a field without a file name, or a file with its bytes or
  the fault of reading them.\<close>

datatype upload_field = FieldError string | TextField | FileField string "string + string"

definition MAX_TOTAL_BYTES :: nat where
  "MAX_TOTAL_BYTES = 25 * 1024 * 1024"

lemma over_limit_code [code_unfold]: "n > MAX_TOTAL_BYTES \<longleftrightarrow> int n > 26214400"
  by (simp add: MAX_TOTAL_BYTES_def)

definition stored_file :: "string \<Rightarrow> string \<Rightarrow> string \<Rightarrow> uploaded_file" where
  "stored_file session_id filename bytes =
     \<lparr>uf_name = filename, uf_path = display_path session_id filename, uf_size = length bytes,
      uf_is_image = image_media_type filename \<noteq> None, uf_media_type = image_media_type filename\<rparr>"

fun upload_loop :: "'w fs_api \<Rightarrow> path \<Rightarrow> string \<Rightarrow> string \<Rightarrow> upload_field list \<Rightarrow> uploaded_file list \<Rightarrow> nat \<Rightarrow> 'w \<Rightarrow>
    (api_error + uploaded_file list) \<times> 'w" where
  "upload_loop api dir sid rid [] files so_far w = (Inr files, w)"
| "upload_loop api dir sid rid (FieldError e # fs) files so_far w =
     (Inl (bad_request (''Malformed multipart upload: '' @ e) rid), w)"
| "upload_loop api dir sid rid (TextField # fs) files so_far w = upload_loop api dir sid rid fs files so_far w"
| "upload_loop api dir sid rid (FileField original body # fs) files so_far w =
     (let filename = sanitize_filename original in
      case body of
        Inl e \<Rightarrow> (Inl (bad_request (''Failed to read uploaded file '' @ [CHR 0x27] @ filename @ [CHR 0x27] @ '': '' @ e) rid), w)
      | Inr bytes \<Rightarrow>
          if so_far + length bytes > MAX_TOTAL_BYTES
          then (Inl (bad_request (''Upload exceeds the '' @ show_nat MAX_TOTAL_BYTES @ ''-byte limit.'') rid), w)
          else (case fs_write api (join_str dir filename) bytes w of
                  (Inl e, w1) \<Rightarrow>
                    (Inl (with_request_id 500 ''UPLOAD_WRITE_FAILED''
                       (''Failed to write '' @ [CHR 0x27] @ filename @ [CHR 0x27] @ '': '' @ e) rid), w1)
                | (Inr _, w1) \<Rightarrow>
                    upload_loop api dir sid rid fs (files @ [stored_file sid filename bytes]) (so_far + length bytes) w1))"

definition upload_files :: "'w fs_api \<Rightarrow> path \<Rightarrow> string \<Rightarrow> string \<Rightarrow> upload_field list \<Rightarrow> 'w \<Rightarrow>
    (api_error + string \<times> uploaded_file list) \<times> 'w" where
  "upload_files api workspace sid rid parts w =
     (if str_trim sid = [] then (Inl (bad_request ''session_id must not be empty.'' rid), w)
      else
        let dir = session_upload_dir workspace sid
        in case fs_create_dir_all api dir w of
             (Inl e, w1) \<Rightarrow>
               (Inl (with_request_id 500 ''UPLOAD_DIR_FAILED'' (''Failed to create upload directory: '' @ e) rid), w1)
           | (Inr _, w1) \<Rightarrow>
               (case upload_loop api dir sid rid parts [] 0 w1 of
                  (Inl e, w2) \<Rightarrow> (Inl e, w2)
                | (Inr files, w2) \<Rightarrow>
                    if files = [] then (Inl (bad_request ''No files found in the upload.'' rid), w2)
                    else (Inr (sid, files), w2)))"

subsection \<open>What a stored name can be\<close>

definition safe_name :: "string \<Rightarrow> bool" where
  "safe_name s \<longleftrightarrow> s \<noteq> [] \<and> s \<noteq> ''..'' \<and> CHR ''/'' \<notin> set s \<and> CHR 0x5C \<notin> set s \<and> (\<forall>c \<in> set s. \<not> is_control c)"

lemma set_dropWhile_subset: "set (dropWhile P xs) \<subseteq> set xs"
  by (induction xs) auto

lemma set_str_trim: "set (str_trim s) \<subseteq> set s"
  unfolding str_trim_def by (metis set_dropWhile_subset set_rev subset_trans)

lemma set_trims: "set (trim_end_char c (trim_start_char c s)) \<subseteq> set s"
  unfolding trim_end_char_def trim_start_char_def by (metis set_dropWhile_subset set_rev subset_trans)

lemma last_segment_no_sep: "c \<in> set (last_segment name) \<Longrightarrow> c \<noteq> CHR ''/'' \<and> c \<noteq> CHR 0x5C"
  by (auto simp: last_segment_def dest: set_takeWhileD)

lemma safe_sanitize: "safe_name (sanitize_filename name)"
proof -
  define base where "base = str_trim (last_segment name)"
  define cleaned where "cleaned = str_trim (trim_end_char CHR ''.'' (trim_start_char CHR ''.'' (filter (\<lambda>c. \<not> is_control c) base)))"
  have c: "set cleaned \<subseteq> set (filter (\<lambda>c. \<not> is_control c) base)"
    unfolding cleaned_def by (meson set_str_trim set_trims subset_trans)
  have b: "set base \<subseteq> set (last_segment name)" unfolding base_def by (rule set_str_trim)
  have "c \<noteq> CHR ''/'' \<and> c \<noteq> CHR 0x5C \<and> \<not> is_control c" if "c \<in> set cleaned" for c
    using that b c last_segment_no_sep [of c name] by auto
  moreover have "safe_name ''file''" by (simp add: safe_name_def is_control_def)
  moreover have "sanitize_filename name = (if cleaned = [] \<or> cleaned = ''..'' then ''file'' else cleaned)"
    by (simp add: sanitize_filename_def cleaned_def base_def Let_def)
  ultimately show ?thesis by (auto simp: safe_name_def)
qed

lemma safe_component: "safe_name (sanitize_component s)"
  using safe_sanitize [of s] by (simp add: sanitize_component_def Let_def safe_name_def is_control_def)

text \<open>Joining a safe name adds one ordinary component, except for a single dot, which names the
  directory itself.\<close>

lemma join_safe: "safe_name s \<Longrightarrow> p \<noteq> [] \<Longrightarrow> join_str p s = (if s = ''.'' then p else p @ [Normal s])"
  by (auto simp: join_str_def safe_name_def path_from_str_def split_char_no_sep component_of_def starts_with_str_def)
    (cases s; auto)+

lemma join_safe_starts: "safe_name s \<Longrightarrow> p \<noteq> [] \<Longrightarrow> path_starts_with (join_str p s) p"
  by (simp add: join_safe path_starts_with_def)

lemma join_safe_inject: "safe_name s \<Longrightarrow> safe_name t \<Longrightarrow> p \<noteq> [] \<Longrightarrow> join_str p s = join_str p t \<Longrightarrow> s = t"
  by (simp add: join_safe split: if_splits)

subsection \<open>The effect of an upload\<close>

text \<open>The writes of an upload, as names with contents.\<close>

type_synonym upload_log = "(string \<times> string) list"

definition apply_log :: "path \<Rightarrow> upload_log \<Rightarrow> (path \<Rightarrow> string option) \<Rightarrow> path \<Rightarrow> string option" where
  "apply_log dir log f = fold (\<lambda>(n, b) f. f(join_str dir n \<mapsto> b)) log f"

definition log_size :: "upload_log \<Rightarrow> nat" where
  "log_size log = sum_list (map (\<lambda>(n, b). length b) log)"

lemma apply_log_simps [simp]:
  "apply_log dir [] f = f"
  "apply_log dir ((n, b) # log) f = apply_log dir log (f(join_str dir n \<mapsto> b))"
  by (simp_all add: apply_log_def)

lemma log_size_simps [simp]: "log_size [] = 0" "log_size ((n, b) # log) = length b + log_size log"
  by (simp_all add: log_size_def)

lemma apply_log_outside:
  "\<forall>(n, b) \<in> set log. safe_name n \<Longrightarrow> dir \<noteq> [] \<Longrightarrow> \<not> path_starts_with p dir \<Longrightarrow> apply_log dir log f p = f p"
proof (induction log arbitrary: f)
  case (Cons e log)
  obtain n b where e: "e = (n, b)" by (cases e)
  then have "join_str dir n \<noteq> p" using Cons.prems join_safe_starts by auto
  then show ?case using Cons e by simp
qed simp

lemma apply_log_inside:
  "\<forall>(n, b) \<in> set log. safe_name n \<Longrightarrow> dir \<noteq> [] \<Longrightarrow> safe_name m \<Longrightarrow>
     apply_log dir log f (join_str dir m) = (case map_of (rev log) m of Some b \<Rightarrow> Some b | None \<Rightarrow> f (join_str dir m))"
proof (induction log arbitrary: f)
  case (Cons e log)
  obtain n b where e: "e = (n, b)" by (cases e)
  have "join_str dir n = join_str dir m \<longleftrightarrow> n = m" using Cons.prems e join_safe_inject by auto
  then show ?case using Cons e by (auto simp: map_add_def split: option.split)
qed simp

context file_system
begin

lemma upload_loop_effect:
  assumes "upload_loop api dir sid rid parts files n w = (r, w')" and "dir \<noteq> []"
    and "\<forall>s. safe_name s \<longrightarrow> real w (join_str dir s)" and "\<forall>e. r = Inl e \<longrightarrow> ae_status e \<noteq> 500"
  shows "\<exists>log. (\<forall>(m, b) \<in> set log. safe_name m) \<and> file_at w' = apply_log dir log (file_at w) \<and>
    n + log_size log \<le> max n MAX_TOTAL_BYTES \<and>
    (\<forall>files'. r = Inr files' \<longrightarrow> files' = files @ map (\<lambda>(m, b). stored_file sid m b) log)"
  using assms(1,3)
proof (induction parts arbitrary: files n w)
  case Nil
  then show ?case by (intro exI [of _ "[]"]) auto
next
  case (Cons part parts)
  show ?case
  proof (cases "\<exists>original bytes. part = FileField original (Inr bytes) \<and> n + length bytes \<le> MAX_TOTAL_BYTES")
    case False
    then consider "part = TextField" | e where "r = Inl e" "w' = w"
      using Cons.prems(1) by (cases part) (auto simp: Let_def split: sum.splits if_splits)
    then show ?thesis
    proof cases
      case 1
      then show ?thesis using Cons by simp
    next
      case 2
      then show ?thesis by (intro exI [of _ "[]"]) auto
    qed
  next
    case True
    then obtain original bytes where part: "part = FileField original (Inr bytes)" and le: "n + length bytes \<le> MAX_TOTAL_BYTES"
      by blast
    define m where "m = sanitize_filename original"
    obtain x w1 where wr: "fs_write api (join_str dir m) bytes w = (x, w1)" by fastforce
    have safe: "safe_name m" unfolding m_def by (rule safe_sanitize)
    obtain u where x: "x = Inr u"
      using Cons.prems(1) assms(4) le wr part
      by (cases x) (auto simp: Let_def m_def with_request_id_def split: prod.splits)
    have real: "real w (join_str dir m)" using Cons.prems(2) safe by blast
    have "file_at w1 = (file_at w)(join_str dir m \<mapsto> bytes)" "\<forall>s. safe_name s \<longrightarrow> real w1 (join_str dir s)"
      using write_file real_write real wr x Cons.prems(2) by blast+
    moreover have "upload_loop api dir sid rid parts (files @ [stored_file sid m bytes]) (n + length bytes) w1 = (r, w')"
      using Cons.prems(1) le wr part x by (simp add: m_def Let_def)
    ultimately obtain log where log: "\<forall>(m, b) \<in> set log. safe_name m"
      "file_at w' = apply_log dir log ((file_at w)(join_str dir m \<mapsto> bytes))"
      "n + length bytes + log_size log \<le> max (n + length bytes) MAX_TOTAL_BYTES"
      "\<forall>files'. r = Inr files' \<longrightarrow> files' = (files @ [stored_file sid m bytes]) @ map (\<lambda>(m, b). stored_file sid m b) log"
      using Cons.IH [of "files @ [stored_file sid m bytes]" "n + length bytes" w1] by metis
    show ?thesis by (intro exI [of _ "(m, bytes) # log"]) (use log safe le in auto)
  qed
qed

lemma upload_effect:
  assumes "upload_files api workspace sid rid parts w = (r, w')" and "workspace \<noteq> []"
    and "\<forall>ns. real w (workspace @ [Normal ''uploads''] @ map Normal ns)" and "\<forall>e. r = Inl e \<longrightarrow> ae_status e \<noteq> 500"
    and "dir = session_upload_dir workspace sid"
  shows "\<exists>log. (\<forall>(m, b) \<in> set log. safe_name m) \<and> file_at w' = apply_log dir log (file_at w) \<and> log_size log \<le> MAX_TOTAL_BYTES \<and>
    (\<forall>s files. r = Inr (s, files) \<longrightarrow> files = map (\<lambda>(m, b). stored_file sid m b) log)"
proof (cases "str_trim sid = []")
  case True
  then show ?thesis using assms(1) by (intro exI [of _ "[]"]) (auto simp: upload_files_def)
next
  case False
  have root: "join_str workspace ''uploads'' = workspace @ [Normal ''uploads'']"
    by (simp add: join_safe safe_name_def is_control_def assms(2))
  have d: "\<exists>ns. dir = workspace @ [Normal ''uploads''] @ map Normal ns"
    unfolding assms(5) session_upload_dir_def root
    using join_safe [OF safe_component [of sid], of "workspace @ [Normal ''uploads'']"]
    by (auto intro: exI [of _ "[]"] exI [of _ "[sanitize_component sid]"])
  then have ne: "dir \<noteq> []" by auto
  have real: "real w (join_str dir s)" if "safe_name s" for s
  proof -
    obtain ns where ns: "dir = workspace @ [Normal ''uploads''] @ map Normal ns" using d by blast
    show ?thesis
    proof (cases "s = ''.''")
      case False
      then have "join_str dir s = workspace @ [Normal ''uploads''] @ map Normal (ns @ [s])"
        using join_safe [OF that ne] ns by simp
      then show ?thesis using assms(3) by metis
    qed (use join_safe [OF that ne] ns assms(3) in simp)
  qed
  have dreal: "real w dir" using d assms(3) by blast
  obtain x w1 where mk: "fs_create_dir_all api dir w = (x, w1)" by fastforce
  obtain u where x: "x = Inr u"
    using assms(1,4,5) False mk by (cases x) (auto simp: upload_files_def Let_def with_request_id_def)
  have w1: "file_at w1 = file_at w" "\<forall>s. safe_name s \<longrightarrow> real w1 (join_str dir s)"
    using create_dirs real_dirs dreal real mk x by blast+
  obtain r1 where loop: "upload_loop api dir sid rid parts [] 0 w1 = (r1, w')"
    and r1: "\<And>e. r1 = Inl e \<Longrightarrow> r = Inl e" "\<And>s files. r = Inr (s, files) \<Longrightarrow> r1 = Inr files"
    using assms(1,5) False mk x by (auto simp: upload_files_def Let_def split: prod.splits sum.splits if_splits)
  have "\<forall>e. r1 = Inl e \<longrightarrow> ae_status e \<noteq> 500" using assms(4) r1(1) by blast
  then obtain log where log: "\<forall>(m, b) \<in> set log. safe_name m" "file_at w' = apply_log dir log (file_at w1)"
    "0 + log_size log \<le> max 0 MAX_TOTAL_BYTES"
    "\<forall>files'. r1 = Inr files' \<longrightarrow> files' = [] @ map (\<lambda>(m, b). stored_file sid m b) log"
    using upload_loop_effect [OF loop ne w1(2)] by blast
  have "\<forall>s files. r = Inr (s, files) \<longrightarrow> files = map (\<lambda>(m, b). stored_file sid m b) log" using log(4) r1(2) by simp
  then show ?thesis using log(1-3) w1(1) by (intro exI [of _ log]) simp
qed

end

subsection \<open>Properties\<close>

text \<open>
  C13: an upload cannot leave its directory. On any file system that keeps the contract, with no
  symbolic links below the upload directory, a request that is not answered with a server error
  leaves every file outside the directory of its session as it was, whatever the names in the
  request; it stores at most the limit many bytes; and when it succeeds the answer lists exactly
  the stored files, and each name has the content uploaded last under it.
\<close>

theorem upload_confined:
  assumes "file_system api file_at real" and "workspace \<noteq> []"
    and "\<forall>ns. real w (workspace @ [Normal ''uploads''] @ map Normal ns)"
    and "upload_files api workspace sid rid parts w = (r, w')" and "\<forall>e. r = Inl e \<longrightarrow> ae_status e \<noteq> 500"
    and "dir = session_upload_dir workspace sid"
  shows "path_starts_with dir (workspace @ [Normal ''uploads'']) \<and>
    (\<forall>p. \<not> path_starts_with p dir \<longrightarrow> file_at w' p = file_at w p) \<and>
    (\<exists>log. log_size log \<le> MAX_TOTAL_BYTES \<and>
      (\<forall>s files. r = Inr (s, files) \<longrightarrow> files = map (\<lambda>(m, b). stored_file sid m b) log) \<and>
      (\<forall>m b. map_of (rev log) m = Some b \<longrightarrow> file_at w' (join_str dir m) = Some b))"
proof -
  have root: "join_str workspace ''uploads'' = workspace @ [Normal ''uploads'']"
    by (simp add: join_safe safe_name_def is_control_def assms(2))
  have dir: "path_starts_with dir (workspace @ [Normal ''uploads''])"
    unfolding assms(6) session_upload_dir_def root by (intro join_safe_starts safe_component) simp
  then have ne: "dir \<noteq> []" by (auto simp: path_starts_with_def)
  obtain log where log: "\<forall>(m, b) \<in> set log. safe_name m" "file_at w' = apply_log dir log (file_at w)"
    "log_size log \<le> MAX_TOTAL_BYTES" "\<forall>s files. r = Inr (s, files) \<longrightarrow> files = map (\<lambda>(m, b). stored_file sid m b) log"
    using file_system.upload_effect [OF assms(1,4,2,3,5,6)] by blast
  have "file_at w' p = file_at w p" if "\<not> path_starts_with p dir" for p
    using apply_log_outside [OF log(1) ne that] log(2) by simp
  moreover have "file_at w' (join_str dir m) = Some b" if "map_of (rev log) m = Some b" for m b
  proof -
    have "safe_name m" using that log(1) map_of_SomeD by fastforce
    then show ?thesis using apply_log_inside [OF log(1) ne] that log(2) by simp
  qed
  ultimately show ?thesis using dir log(3,4) by blast
qed

definition upload_root :: path where
  "upload_root = [RootDir, Normal ''ws'']"

definition example_upload :: "(api_error + string \<times> uploaded_file list) \<times> vfs" where
  "example_upload = upload_files vfs_api upload_root ''../s1'' ''r'' [TextField, FileField ''../../etc/passwd'' (Inr ''x'')] hm_empty"

lemma example_upload_facts:
  "map_sum ae_status (map uf_path \<circ> snd) (fst example_upload) = Inr [''uploads/s1/passwd'']"
  "session_upload_dir upload_root ''../s1'' = [RootDir, Normal ''ws'', Normal ''uploads'', Normal ''s1'']"
  by code_simp+

theorem upload_confined_witness:
  "vfs_file_at (snd example_upload) [RootDir, Normal ''etc'', Normal ''passwd''] = None \<and>
     \<not> isl (fst example_upload)"
proof -
  have real: "\<forall>ns. vfs_real hm_empty (upload_root @ [Normal ''uploads''] @ map Normal ns)"
  proof
    fix ns
    have "upload_root @ [Normal ''uploads''] @ map Normal ns = of_names (''ws'' # ''uploads'' # ns)"
      by (simp add: upload_root_def of_names_def)
    then show "vfs_real hm_empty (upload_root @ [Normal ''uploads''] @ map Normal ns)"
      unfolding vfs_real_def by (metis hm_get_empty no_links_def option.distinct(1))
  qed
  have ok: "\<forall>e. fst example_upload = Inl e \<longrightarrow> ae_status e \<noteq> 500" using example_upload_facts(1) by auto
  have up: "upload_files vfs_api upload_root ''../s1'' ''r'' [TextField, FileField ''../../etc/passwd'' (Inr ''x'')] hm_empty =
      (fst example_upload, snd example_upload)" by (simp add: example_upload_def)
  have "\<not> path_starts_with [RootDir, Normal ''etc'', Normal ''passwd''] (session_upload_dir upload_root ''../s1'')"
    unfolding example_upload_facts(2) by (simp add: path_starts_with_def)
  then have "vfs_file_at (snd example_upload) [RootDir, Normal ''etc'', Normal ''passwd''] =
      vfs_file_at hm_empty [RootDir, Normal ''etc'', Normal ''passwd'']"
    using upload_confined [OF vfs.file_system_axioms _ real up ok refl] by (simp add: upload_root_def)
  moreover have "vfs_file_at hm_empty p = None" for p by (simp add: vfs_file_at_def split: option.split)
  moreover have "\<not> isl (fst example_upload)" using example_upload_facts(1) by (cases "fst example_upload") auto
  ultimately show ?thesis by simp
qed

text \<open>The display path cleans the stored name once more. A name whose cleaned form still begins
  with a dot is shown as another path than it is stored under, and a session name can clean to a
  single dot, whose files are then stored in the common directory.\<close>

lemma display_path_differs:
  "sanitize_filename ''. .a'' = ''.a''" "display_path ''s'' (sanitize_filename ''. .a'') = ''uploads/s/a''"
  "session_upload_dir [RootDir, Normal ''ws''] ''. . .'' = [RootDir, Normal ''ws'', Normal ''uploads'']"
  by code_simp+

end
