(* ===== verification/Web_Socket.thy ===== *)
theory Web_Socket
  imports Uploads Agent_Core
begin

text \<open>
  The WebSocket endpoints (\<^verbatim>\<open>crates/api-server/src/routes/ws.rs\<close>): the buffer that lets a client
  catch up on events, the two connection loops, and a chat turn, which runs the agent of
  \<open>Agent_Core\<close>. The socket, the JSON codec and the \<^verbatim>\<open>uuid\<close> crate are a record over the world; the
  frames a client sends are a list, and so is the order in which the event loop sees its inputs.
\<close>

subsection \<open>Messages and state\<close>

datatype chat_client_message = ChatMessageIn string string "string list" | ChatPing

datatype chat_server_message =
    ChatToken string string
  | ChatDone string string
  | ChatError "string option" string string
  | ChatAuthenticated string
  | ChatPong

datatype events_client_message = ReplayFrom string | EventsPing

datatype events_server_message =
    EventMsg string string json string
  | EventsAuthenticated string
  | EventsError string string
  | EventsPong

record buffered_event =
  be_id :: uuid
  be_event_type :: string
  be_payload :: json
  be_timestamp :: string

record ws_state =
  ws_sent :: "events_server_message list"
  ws_buffer :: "buffered_event list"
  ws_max_buffer_size :: nat
  ws_chat_connections :: nat
  ws_event_connections :: nat

definition ws_new :: "nat \<Rightarrow> ws_state" where
  "ws_new capacity = \<lparr>ws_sent = [], ws_buffer = [], ws_max_buffer_size = capacity, ws_chat_connections = 0, ws_event_connections = 0\<rparr>"

definition default_ws_state :: ws_state where
  "default_ws_state = ws_new 1000"

definition event_message :: "(uuid \<Rightarrow> string) \<Rightarrow> buffered_event \<Rightarrow> events_server_message" where
  "event_message uuid_text e = EventMsg (uuid_text (be_id e)) (be_event_type e) (be_payload e) (be_timestamp e)"

text \<open>The event with its fresh identifier and time.\<close>

definition publish_event :: "(uuid \<Rightarrow> string) \<Rightarrow> buffered_event \<Rightarrow> ws_state \<Rightarrow> ws_state" where
  "publish_event uuid_text e s =
     s\<lparr>ws_buffer := push_bounded (ws_max_buffer_size s) e (ws_buffer s), ws_sent := ws_sent s @ [event_message uuid_text e]\<rparr>"

fun position_of :: "('a \<Rightarrow> bool) \<Rightarrow> 'a list \<Rightarrow> nat option" where
  "position_of P [] = None"
| "position_of P (x # xs) = (if P x then Some 0 else map_option Suc (position_of P xs))"

definition get_events_after :: "(string \<Rightarrow> uuid option) \<Rightarrow> (uuid \<Rightarrow> string) \<Rightarrow> string \<Rightarrow> ws_state \<Rightarrow> events_server_message list" where
  "get_events_after parse uuid_text last_event_id s =
     (case parse last_event_id of
        None \<Rightarrow> []
      | Some target \<Rightarrow>
          let start_pos = (case position_of (\<lambda>e. be_id e = target) (ws_buffer s) of Some pos \<Rightarrow> pos + 1 | None \<Rightarrow> 0)
          in map (event_message uuid_text) (drop start_pos (ws_buffer s)))"

subsection \<open>Receiving\<close>

datatype ws_frame = FrameText string | FrameClose | FramePing | FramePong | FrameBinary | FrameError

text \<open>\<open>None\<close> is a closed connection, \<open>Some (Inl ())\<close> an error.\<close>

fun recv_message :: "ws_frame list \<Rightarrow> (unit + string) option \<times> ws_frame list" where
  "recv_message [] = (None, [])"
| "recv_message (FrameText t # fs) = (if t = [] then recv_message fs else (Some (Inr t), fs))"
| "recv_message (FrameClose # fs) = (None, fs)"
| "recv_message (FramePing # fs) = recv_message fs"
| "recv_message (FramePong # fs) = recv_message fs"
| "recv_message (FrameBinary # fs) = recv_message fs"
| "recv_message (FrameError # fs) = (Some (Inl ()), fs)"

lemma recv_message_shorter: "recv_message fs = (Some r, fs') \<Longrightarrow> length fs' < length fs"
  by (induction fs rule: recv_message.induct) (auto split: if_splits)

subsection \<open>A chat turn\<close>

definition attachment_line :: "string \<Rightarrow> string" where
  "attachment_line p = ''- '' @ p @ '' '' @ (if is_image_filename p then ''(image)'' else ''(file)'')"

definition compose_content_with_attachments :: "string \<Rightarrow> string list \<Rightarrow> string" where
  "compose_content_with_attachments content attachments =
     (if attachments = [] then content
      else
        let tool_hint = ''Use `file_read` to read text files'' @
              (if list_ex is_image_filename attachments then '' and `view_image` to view images'' else []) @ ''.''
        in content @ [newline, newline] @ ''[The user attached the following file(s), saved in the workspace:'' @ [newline] @
             join_with [newline] (map attachment_line attachments) @ [newline] @ tool_hint @ '']'')"

record 'w ws_env =
  we_send_chat :: "chat_server_message \<Rightarrow> 'w \<Rightarrow> bool \<times> 'w"
  we_send_events :: "events_server_message \<Rightarrow> 'w \<Rightarrow> bool \<times> 'w"
  we_parse_chat :: "string \<Rightarrow> string + chat_client_message"
  we_parse_events :: "string \<Rightarrow> string + events_client_message"
  we_uuid_parse :: "string \<Rightarrow> uuid option"
  we_uuid_text :: "uuid \<Rightarrow> string"
  we_fresh :: "'w \<Rightarrow> uuid \<times> 'w"
  we_now :: "'w \<Rightarrow> timestamp"

fun llm_error_text :: "llm_error \<Rightarrow> string" where
  "llm_error_text (AllProvidersFailed attempts) = ''LLM error: All providers failed ('' @ show_nat (length attempts) @ '' attempts)''"

text \<open>One request from the check to the end of its stream, when no other step comes between.\<close>

definition process_message :: "('c, 'stream, 'w) agent_env \<Rightarrow> bool \<Rightarrow> string \<Rightarrow> message \<Rightarrow> message list \<Rightarrow> agent_core \<Rightarrow> 'w \<Rightarrow>
    (llm_error + response_chunk) \<times> agent_core \<times> 'w" where
  "process_message env has_hook sid_text msg history ac w =
     (if \<not> request_accepted ac then (Inl not_accepting_error, ac, w)
      else
        let ac1 = request_working (''Processing message for session '' @ sid_text) (request_count ac)
        in case stream_outcome env ac1 has_hook (ac_system_prompt ac1) history msg w of
             (r, _, w1) \<Rightarrow>
               let ac2 = request_done ac1
               in (r, if ac_in_flight ac2 = 0 then request_idle ac2 else ac2, w1))"

definition user_turn :: "uuid \<Rightarrow> session_id \<Rightarrow> string \<Rightarrow> timestamp \<Rightarrow> message_role \<Rightarrow> message" where
  "user_turn mid sid content now role =
     \<lparr>m_id = mid, m_session_id = sid, m_role = role, m_content = content, m_tool_calls = None, m_tool_results = None,
      m_timestamp = now, m_token_count = 0\<rparr>"

text \<open>The answer of the agent: its text is sent when there is one, and recorded with the question
  unless the client is gone.\<close>

definition finish_turn :: "'w ws_env \<Rightarrow> string \<Rightarrow> session_id \<Rightarrow> message \<Rightarrow> message list \<Rightarrow> response_chunk \<Rightarrow> 'w \<Rightarrow> message list \<times> 'w" where
  "finish_turn we sid_text sid question history chunk w =
     (let answer = (case rc_content chunk of Some t \<Rightarrow> t | None \<Rightarrow> []);
          (sent, w1) = (if answer = [] then (True, w) else we_send_chat we (ChatToken sid_text answer) w)
      in if \<not> sent then (history, w1)
         else
           let (mid, w2) = we_fresh we w1;
               (done_id, w3) = we_fresh we w2;
               (_, w4) = we_send_chat we (ChatDone sid_text (we_uuid_text we done_id)) w3
           in (history @ [question, user_turn mid sid answer (we_now we w2) Assistant], w4))"

definition handle_chat_message :: "'w ws_env \<Rightarrow> ('c, 'stream, 'w) agent_env \<Rightarrow> bool \<Rightarrow> string \<Rightarrow> string \<Rightarrow> string list \<Rightarrow>
    message list \<Rightarrow> agent_core option \<Rightarrow> 'w \<Rightarrow> message list \<times> agent_core option \<times> 'w" where
  "handle_chat_message we env has_hook sid_text content attachments history agent w =
     (let fail = (\<lambda>code msg. (history, agent, snd (we_send_chat we (ChatError (Some sid_text) code msg) w)))
      in case we_uuid_parse we sid_text of
           None \<Rightarrow> fail ''INVALID_SESSION_ID'' ''session_id must be a valid UUID''
         | Some sid \<Rightarrow>
             if str_trim content = [] \<and> attachments = [] then fail ''EMPTY_CONTENT'' ''Message content must not be empty''
             else (case agent of
                     None \<Rightarrow> fail ''AGENT_UNAVAILABLE'' ''Agent core is not attached to this server.''
                   | Some ac \<Rightarrow>
                       let (mid, w1) = we_fresh we w;
                           question = user_turn mid sid (compose_content_with_attachments content attachments) (we_now we w1) User
                       in case process_message env has_hook (we_uuid_text we sid) question history ac w1 of
                            (Inl e, ac1, w2) \<Rightarrow>
                              (history, Some ac1,
                               snd (we_send_chat we (ChatError (Some sid_text) ''AGENT_ERROR''
                                 (''Agent failed to process the message: '' @ llm_error_text e)) w2))
                          | (Inr chunk, ac1, w2) \<Rightarrow>
                              (case finish_turn we sid_text sid question history chunk w2 of (history1, w3) \<Rightarrow> (history1, Some ac1, w3))))"

subsection \<open>The connections\<close>

text \<open>The loop of a chat connection on the frames still to come. A failed send of an error report
  ends it.\<close>

function chat_loop :: "'w ws_env \<Rightarrow> ('c, 'stream, 'w) agent_env \<Rightarrow> bool \<Rightarrow> ws_frame list \<Rightarrow> message list \<Rightarrow> agent_core option \<Rightarrow> 'w \<Rightarrow>
    message list \<times> agent_core option \<times> 'w" where
  "chat_loop we env has_hook frames history agent w =
     (case recv_message frames of
        (Some (Inr txt), rest) \<Rightarrow>
          (case we_parse_chat we txt of
             Inr (ChatMessageIn sid content attachments) \<Rightarrow>
               (case handle_chat_message we env has_hook sid content attachments history agent w of
                  (history1, agent1, w1) \<Rightarrow> chat_loop we env has_hook rest history1 agent1 w1)
           | Inr ChatPing \<Rightarrow> chat_loop we env has_hook rest history agent (snd (we_send_chat we ChatPong w))
           | Inl e \<Rightarrow>
               (case we_send_chat we (ChatError None ''INVALID_MESSAGE'' (''Invalid message format: '' @ e)) w of
                  (True, w1) \<Rightarrow> chat_loop we env has_hook rest history agent w1
                | (False, w1) \<Rightarrow> (history, agent, w1)))
      | (Some (Inl _), rest) \<Rightarrow> (history, agent, w)
      | (None, rest) \<Rightarrow> (history, agent, w))"
  by pat_completeness auto

termination
  by (relation "measure (\<lambda>(_, _, _, frames, _). length frames)") (auto dest: recv_message_shorter [OF sym])

declare chat_loop.simps [simp del]

definition handle_chat_connection :: "crypto_api \<Rightarrow> 'w ws_env \<Rightarrow> ('c, 'stream, 'w) agent_env \<Rightarrow> bool \<Rightarrow> string option \<Rightarrow> ws_frame list \<Rightarrow>
    'a auth_state_scheme \<Rightarrow> ws_state \<Rightarrow> agent_core option \<Rightarrow> 'w \<Rightarrow> ws_state \<times> agent_core option \<times> 'w" where
  "handle_chat_connection cr we env has_hook token frames st ws agent w =
     (case authenticate_ws cr token st of
        Inl msg \<Rightarrow> (ws, agent, snd (we_send_chat we (ChatError None ''AUTHENTICATION_FAILED'' msg) w))
      | Inr kid \<Rightarrow>
          (case we_send_chat we (ChatAuthenticated (we_uuid_text we kid)) w of
             (False, w1) \<Rightarrow> (ws, agent, w1)
           | (True, w1) \<Rightarrow>
               let ws1 = ws\<lparr>ws_chat_connections := ws_chat_connections ws + 1\<rparr>
               in case chat_loop we env has_hook frames [] agent w1 of
                    (_, agent1, w2) \<Rightarrow> (ws1\<lparr>ws_chat_connections := ws_chat_connections ws1 - 1\<rparr>, agent1, w2)))"

text \<open>What the event loop can see next: a broadcast, a lag, the end of the channel, or the outcome
  of a receive.\<close>

datatype events_input = InEvent events_server_message | InLagged nat | InClosed | InClient "(unit + string) option"

fun send_all_events :: "'w ws_env \<Rightarrow> events_server_message list \<Rightarrow> 'w \<Rightarrow> 'w" where
  "send_all_events we [] w = w"
| "send_all_events we (m # ms) w =
     (case we_send_events we m w of (True, w1) \<Rightarrow> send_all_events we ms w1 | (False, w1) \<Rightarrow> w1)"

fun events_loop :: "'w ws_env \<Rightarrow> ws_state \<Rightarrow> events_input list \<Rightarrow> 'w \<Rightarrow> 'w" where
  "events_loop we ws [] w = w"
| "events_loop we ws (InEvent m # ins) w =
     (case we_send_events we m w of (True, w1) \<Rightarrow> events_loop we ws ins w1 | (False, w1) \<Rightarrow> w1)"
| "events_loop we ws (InLagged n # ins) w = events_loop we ws ins w"
| "events_loop we ws (InClosed # ins) w = w"
| "events_loop we ws (InClient None # ins) w = w"
| "events_loop we ws (InClient (Some (Inl _)) # ins) w = w"
| "events_loop we ws (InClient (Some (Inr txt)) # ins) w =
     (case we_parse_events we txt of
        Inr (ReplayFrom i) \<Rightarrow>
          events_loop we ws ins (send_all_events we (get_events_after (we_uuid_parse we) (we_uuid_text we) i ws) w)
      | Inr EventsPing \<Rightarrow> events_loop we ws ins (snd (we_send_events we EventsPong w))
      | Inl e \<Rightarrow>
          (case we_send_events we (EventsError ''INVALID_MESSAGE'' (''Invalid message format: '' @ e)) w of
             (True, w1) \<Rightarrow> events_loop we ws ins w1
           | (False, w1) \<Rightarrow> w1))"

definition handle_events_connection :: "crypto_api \<Rightarrow> 'w ws_env \<Rightarrow> string option \<Rightarrow> events_input list \<Rightarrow> 'a auth_state_scheme \<Rightarrow>
    ws_state \<Rightarrow> 'w \<Rightarrow> ws_state \<times> 'w" where
  "handle_events_connection cr we token ins st ws w =
     (case authenticate_ws cr token st of
        Inl msg \<Rightarrow> (ws, snd (we_send_events we (EventsError ''AUTHENTICATION_FAILED'' msg) w))
      | Inr kid \<Rightarrow>
          (case we_send_events we (EventsAuthenticated (we_uuid_text we kid)) w of
             (False, w1) \<Rightarrow> (ws, w1)
           | (True, w1) \<Rightarrow>
               let ws1 = ws\<lparr>ws_event_connections := ws_event_connections ws + 1\<rparr>;
                   w2 = events_loop we ws1 ins w1
               in (ws1\<lparr>ws_event_connections := ws_event_connections ws1 - 1\<rparr>, w2)))"

subsection \<open>Lemmas\<close>

lemma publish_fields [simp]:
  "ws_max_buffer_size (publish_event t e s) = ws_max_buffer_size s"
  "ws_buffer (publish_event t e s) = push_bounded (ws_max_buffer_size s) e (ws_buffer s)"
  by (simp_all add: publish_event_def)

text \<open>A buffer of capacity 0 holds one event, as one of capacity 1.\<close>

lemma push_bounded_0: "length xs \<le> 1 \<Longrightarrow> push_bounded 0 x xs = push_bounded 1 x xs"
  by (cases xs) (auto simp: push_bounded_def)

lemma fold_push_bounded_0: "fold (push_bounded 0) es [] = fold (push_bounded 1) es []"
proof (induction es rule: rev_induct)
  case (snoc e es)
  have "length (fold (push_bounded 1) es []) \<le> 1" unfolding fold_push_bounded [OF zero_less_one] by simp
  then show ?case using snoc push_bounded_0 by simp
qed simp

lemma published_buffer:
  "ws_buffer (fold (publish_event t) es (ws_new cap)) = drop (length es - max 1 cap) es"
proof -
  have "ws_buffer (fold (publish_event t) es s) = fold (push_bounded (ws_max_buffer_size s)) es (ws_buffer s)" for s
    by (induction es arbitrary: s) simp_all
  then have "ws_buffer (fold (publish_event t) es (ws_new cap)) = fold (push_bounded cap) es []" by (simp add: ws_new_def)
  also have "\<dots> = fold (push_bounded (max 1 cap)) es []" using fold_push_bounded_0 by (cases cap) (auto simp: max_def)
  also have "\<dots> = drop (length es - max 1 cap) es" by (rule fold_push_bounded) simp
  finally show ?thesis .
qed

lemma position_of_None: "position_of P xs = None \<longleftrightarrow> (\<forall>x \<in> set xs. \<not> P x)"
  by (induction xs) auto

lemma position_of_key:
  "distinct (map f xs) \<Longrightarrow> i < length xs \<Longrightarrow> position_of (\<lambda>x. f x = f (xs ! i)) xs = Some i"
proof (induction xs arbitrary: i)
  case (Cons x xs)
  show ?case
  proof (cases i)
    case (Suc j)
    then have "f (xs ! j) \<in> f ` set xs" using Cons.prems(2) by simp
    then have "f x \<noteq> f (xs ! j)" using Cons.prems(1) by auto
    then show ?thesis using Cons Suc by simp
  qed simp
qed simp

lemma position_of_drop:
  assumes "distinct (map f xs)" and "i < length xs"
  shows "position_of (\<lambda>x. f x = f (xs ! i)) (drop k xs) = (if k \<le> i then Some (i - k) else None)"
proof (cases "k \<le> i")
  case True
  then have "drop k xs ! (i - k) = xs ! i" "i - k < length (drop k xs)" using assms(2) by auto
  moreover have "distinct (map f (drop k xs))" using assms(1) by (simp add: drop_map [symmetric])
  ultimately show ?thesis using position_of_key [of f "drop k xs" "i - k"] True by simp
next
  case False
  have "f x \<noteq> f (xs ! i)" if mem: "x \<in> set (drop k xs)" for x
  proof -
    obtain l where "l < length xs - k" "x = xs ! (k + l)" using mem by (auto simp: in_set_conv_nth)
    then obtain j where "x = xs ! j" "k \<le> j" "j < length xs" by (metis le_add1 less_diff_conv2 add.commute le_add2 less_diff_conv)
    then show ?thesis using nth_eq_iff_index_eq [OF assms(1), of i j] assms(2) False by auto
  qed
  then show ?thesis using False by (simp add: position_of_None)
qed

text \<open>The history of a connection is a sequence of questions and answers.\<close>

fun alternating :: "message list \<Rightarrow> bool" where
  "alternating [] = True"
| "alternating [q] = False"
| "alternating (q # a # ms) \<longleftrightarrow> m_role q = User \<and> m_role a = Assistant \<and> alternating ms"

lemma alternating_append: "alternating ms \<Longrightarrow> m_role q = User \<Longrightarrow> m_role a = Assistant \<Longrightarrow> alternating (ms @ [q, a])"
  by (induction ms rule: alternating.induct) auto

lemma finish_turn_history:
  "fst (finish_turn we sid_text sid q history chunk w) = history \<or>
     (\<exists>a. fst (finish_turn we sid_text sid q history chunk w) = history @ [q, a] \<and> m_role a = Assistant \<and>
        m_content a = (case rc_content chunk of Some t \<Rightarrow> t | None \<Rightarrow> []))"
  by (auto simp: finish_turn_def Let_def split_def user_turn_def)

lemma process_message_in_flight:
  "process_message env h t msg history ac w = (r, ac', w') \<Longrightarrow> ac_in_flight ac' = ac_in_flight ac \<and> ac_accepting ac' = ac_accepting ac"
  by (auto simp: process_message_def Let_def core_defs split: if_splits prod.splits)

lemma handle_chat_message_keeps:
  assumes "handle_chat_message we env h sid content att history agent w = (history', agent', w')"
  shows "alternating history \<Longrightarrow> alternating history'"
    and "map_option ac_in_flight agent' = map_option ac_in_flight agent"
proof -
  have "history' = history \<or> (\<exists>q a. history' = history @ [q, a] \<and> m_role q = User \<and> m_role a = Assistant)"
    using assms finish_turn_history [of we sid]
    by (auto simp: handle_chat_message_def Let_def user_turn_def split: option.splits if_splits prod.splits sum.splits) (metis fst_conv message.select_convs(3))+
  then show "alternating history \<Longrightarrow> alternating history'" using alternating_append by blast
  show "map_option ac_in_flight agent' = map_option ac_in_flight agent"
    using assms by (auto simp: handle_chat_message_def Let_def split: option.splits if_splits prod.splits sum.splits dest: process_message_in_flight)
qed

lemma chat_loop_keeps:
  assumes "chat_loop we env h frames history agent w = (history', agent', w')" and "alternating history"
  shows "alternating history' \<and> map_option ac_in_flight agent' = map_option ac_in_flight agent"
  using assms
proof (induction we env h frames history agent w arbitrary: history' agent' w' rule: chat_loop.induct)
  case (1 we env h frames history agent w)
  obtain m rest where recv: "recv_message frames = (m, rest)" by fastforce
  note run = "1.prems"(1) [unfolded chat_loop.simps [of we env h frames]]
  show ?case
  proof (cases "\<exists>body sid content att. m = Some (Inr body) \<and> we_parse_chat we body = Inr (ChatMessageIn sid content att)")
    case True
    then obtain body sid content att where m: "m = Some (Inr body)" "we_parse_chat we body = Inr (ChatMessageIn sid content att)" by blast
    obtain h1 a1 w1 where hc: "handle_chat_message we env h sid content att history agent w = (h1, a1, w1)" by (metis prod_cases3)
    have "chat_loop we env h rest h1 a1 w1 = (history', agent', w')" using run recv m hc by simp
    then show ?thesis
      using "1.IH"(2) [OF recv [symmetric] m(1) refl m(2) refl hc [symmetric] refl] handle_chat_message_keeps [OF hc] "1.prems"(2) by simp
  next
    case False
    then consider "history' = history" "agent' = agent"
      | w1 where "chat_loop we env h rest history agent w1 = (history', agent', w')" "\<exists>body. m = Some (Inr body) \<and> we_parse_chat we body = Inr ChatPing \<and>
          w1 = snd (we_send_chat we ChatPong w)"
      | w1 where "chat_loop we env h rest history agent w1 = (history', agent', w')" "\<exists>body e. m = Some (Inr body) \<and> we_parse_chat we body = Inl e \<and>
          we_send_chat we (ChatError None ''INVALID_MESSAGE'' (''Invalid message format: '' @ e)) w = (True, w1)"
      using run recv
      by (auto split: option.splits sum.splits chat_client_message.splits prod.splits bool.splits)
    then show ?thesis
    proof cases
      case 1
      then show ?thesis using "1.prems"(2) by simp
    next
      case 2
      then show ?thesis using "1.IH"(3) [OF recv [symmetric]] "1.prems"(2) by blast
    next
      case 3
      then show ?thesis using "1.IH"(1) [OF recv [symmetric]] "1.prems"(2) by (metis (full_types))
    qed
  qed
qed

subsection \<open>Properties\<close>

text \<open>
  C15: a client that reconnects misses only what the buffer has dropped. After any number of events
  with distinct identifiers, the replay from the event at position \<open>i\<close> is exactly the events after
  it, in order, as far as they are among the last \<open>cap\<close> (at least one is kept); nothing is sent
  twice, and when at most \<open>cap\<close> events came after it nothing is missing.
\<close>

theorem replay_exact:
  assumes "distinct (map be_id es)" and "i < length es" and "parse last_id = Some (be_id (es ! i))"
    and "s = fold (publish_event uuid_text) es (ws_new cap)"
  shows "get_events_after parse uuid_text last_id s =
      map (event_message uuid_text) (drop (max (Suc i) (length es - max 1 cap)) es) \<and>
    (length es - Suc i \<le> cap \<longrightarrow> get_events_after parse uuid_text last_id s = map (event_message uuid_text) (drop (Suc i) es))"
proof -
  let ?k = "length es - max 1 cap"
  have "get_events_after parse uuid_text last_id s =
      map (event_message uuid_text) (drop (max (Suc i) ?k) es)"
    unfolding assms(4) get_events_after_def published_buffer
    by (auto simp: assms(3) position_of_drop [OF assms(1,2)] Let_def max_def)
  moreover have "max (Suc i) ?k = Suc i" if "length es - Suc i \<le> cap" using that assms(2) by (auto simp: max_def)
  ultimately show ?thesis by simp
qed

definition example_event :: "nat \<Rightarrow> buffered_event" where
  "example_event n = \<lparr>be_id = n, be_event_type = ''task_completed'', be_payload = JNull, be_timestamp = []\<rparr>"

theorem replay_exact_witness:
  "get_events_after (\<lambda>_. Some 2) show_nat ''2'' (fold (publish_event show_nat) (map example_event [1, 2, 3, 4]) (ws_new 2)) =
     [event_message show_nat (example_event 3), event_message show_nat (example_event 4)]"
  using replay_exact [of "map example_event [1, 2, 3, 4]" 1 "\<lambda>_. Some 2" "''2''" _ show_nat 2, OF _ _ _ refl]
  by (simp add: example_event_def)

end
