(* ===== verification/Api_Routes.thy ===== *)
theory Api_Routes
  imports Web_Socket Plugin_Manager Skill_Curator
begin

text \<open>
  The handlers behind the authentication of the HTTP server (\<^verbatim>\<open>crates/api-server/src/routes\<close>:
  \<^verbatim>\<open>sessions.rs\<close>, \<^verbatim>\<open>plugins.rs\<close>, \<^verbatim>\<open>config.rs\<close>, \<^verbatim>\<open>skills.rs\<close>, \<^verbatim>\<open>tasks.rs\<close>, \<^verbatim>\<open>messages.rs\<close>, \<^verbatim>\<open>memory.rs\<close>,
  \<^verbatim>\<open>status.rs\<close>, \<^verbatim>\<open>messaging.rs\<close>, \<^verbatim>\<open>health.rs\<close>) over the state of \<^verbatim>\<open>state.rs\<close>, which extends the state
  of authentication. A handler gets the request identifier the middleware chose. The \<^verbatim>\<open>uuid\<close> crate,
  the clock, the database and the process metrics are arguments.
\<close>

subsection \<open>The state\<close>

record session_info =
  si_session_id :: session_id
  si_source :: session_source
  si_mode :: agent_mode
  si_created_at :: timestamp
  si_last_activity :: timestamp

record messaging_status =
  mst_telegram :: bool
  mst_discord :: bool
  mst_whatsapp :: bool

text \<open>\<open>'f\<close> is the type of the two percentages of the metrics; the setter of the log filter is a
  function of the world.\<close>

record ('cb, 'w, 'f) app_state = auth_state +
  ap_version :: string
  ap_sessions :: "(session_id, session_info) hashmap"
  ap_messaging_status :: messaging_status
  ap_agent_core :: "agent_core option"
  ap_started_at :: nat
  ap_workspace_dir :: path
  ap_plugin_states :: "(string, bool) hashmap"
  ap_plugin_manager :: "('cb, 'w) plugin_manager option"
  ap_metrics :: "'f \<times> 'f"
  ap_log_level_setter :: "(string \<Rightarrow> 'w \<Rightarrow> (string + unit) \<times> 'w) option"
  ap_current_log_level :: string
  ap_skill_store :: "skill_store option"

definition quote_text :: "string \<Rightarrow> string" where
  "quote_text s = [CHR 0x27] @ s @ [CHR 0x27]"

subsection \<open>Sessions\<close>

definition parse_source :: "string \<Rightarrow> session_source option" where
  "parse_source s =
     (if s = ''web'' then Some SrcWeb else if s = ''api'' then Some SrcApi else if s = ''tui'' then Some SrcTui
      else if s = ''claude_code'' then Some SrcClaudeCode else if s = ''copilot_cli'' then Some SrcCopilotCli else None)"

fun source_to_string :: "session_source \<Rightarrow> string" where
  "source_to_string SrcWeb = ''web''"
| "source_to_string SrcApi = ''api''"
| "source_to_string SrcTui = ''tui''"
| "source_to_string SrcClaudeCode = ''claude_code''"
| "source_to_string SrcCopilotCli = ''copilot_cli''"
| "source_to_string (SrcTelegram c) = ''telegram:'' @ c"
| "source_to_string (SrcDiscord c) = ''discord:'' @ c"
| "source_to_string (SrcWhatsApp p) = ''whatsapp:'' @ p"

fun mode_to_string :: "agent_mode \<Rightarrow> string" where
  "mode_to_string General = ''general''"
| "mode_to_string (Coding w True) = ''plan''"
| "mode_to_string (Coding w False) = ''code''"

definition parse_mode :: "string \<Rightarrow> agent_mode option" where
  "parse_mode m =
     (if m = ''general'' then Some General
      else if m = ''plan'' then Some (Coding (path_from_str ''.'') True)
      else if m = ''code'' \<or> m = ''coding'' then Some (Coding (path_from_str ''.'') False)
      else None)"

record session_summary =
  ss_session_id :: string
  ss_source :: string
  ss_mode :: string
  ss_created_at :: timestamp
  ss_last_activity :: timestamp

definition session_summary_of :: "(uuid \<Rightarrow> string) \<Rightarrow> session_info \<Rightarrow> session_summary" where
  "session_summary_of uuid_text info =
     \<lparr>ss_session_id = uuid_text (si_session_id info), ss_source = source_to_string (si_source info),
      ss_mode = mode_to_string (si_mode info), ss_created_at = si_created_at info, ss_last_activity = si_last_activity info\<rparr>"

text \<open>The answer to a creation is the identifier, the source, the mode and the time; the status is
  201.\<close>

definition rt_create_session :: "(uuid \<Rightarrow> string) \<Rightarrow> uuid \<Rightarrow> timestamp \<Rightarrow> string \<Rightarrow> string \<Rightarrow> string \<Rightarrow> ('cb, 'w, 'f) app_state \<Rightarrow>
    (api_error + string \<times> string \<times> string \<times> timestamp) \<times> ('cb, 'w, 'f) app_state" where
  "rt_create_session uuid_text fresh now rid source mode st =
     (case parse_source source of
        None \<Rightarrow> (Inl (bad_request (''Invalid source '' @ quote_text source @
                   ''. Must be one of: web, api, tui, claude_code, copilot_cli.'') rid), st)
      | Some src \<Rightarrow>
          (case parse_mode mode of
             None \<Rightarrow> (Inl (bad_request (''Invalid mode '' @ quote_text mode @ ''. Must be one of: general, plan, code.'') rid), st)
           | Some m \<Rightarrow>
               let info = \<lparr>si_session_id = fresh, si_source = src, si_mode = m, si_created_at = now, si_last_activity = now\<rparr>
               in (Inr (uuid_text fresh, source_to_string src, mode_to_string m, now),
                   st\<lparr>ap_sessions := hm_insert fresh info (ap_sessions st)\<rparr>)))"

definition rt_list_sessions :: "(uuid \<Rightarrow> string) \<Rightarrow> ('cb, 'w, 'f) app_state \<Rightarrow> session_summary list" where
  "rt_list_sessions uuid_text st = map (session_summary_of uuid_text \<circ> snd) (ap_sessions st)"

definition invalid_session_id :: "string \<Rightarrow> api_error" where
  "invalid_session_id rid = bad_request ''Invalid session ID format. Must be a valid UUID.'' rid"

definition session_not_found :: "string \<Rightarrow> string \<Rightarrow> api_error" where
  "session_not_found i rid = not_found (''Session '' @ quote_text i @ '' not found.'') rid"

definition rt_get_session :: "(string \<Rightarrow> uuid option) \<Rightarrow> (uuid \<Rightarrow> string) \<Rightarrow> string \<Rightarrow> string \<Rightarrow> ('cb, 'w, 'f) app_state \<Rightarrow>
    api_error + session_summary" where
  "rt_get_session parse uuid_text rid i st =
     (case parse i of
        None \<Rightarrow> Inl (invalid_session_id rid)
      | Some sid \<Rightarrow>
          (case hm_get (ap_sessions st) sid of
             Some info \<Rightarrow> Inr (session_summary_of uuid_text info)
           | None \<Rightarrow> Inl (session_not_found i rid)))"

definition rt_close_session :: "(string \<Rightarrow> uuid option) \<Rightarrow> string \<Rightarrow> string \<Rightarrow> ('cb, 'w, 'f) app_state \<Rightarrow>
    (api_error + bool) \<times> ('cb, 'w, 'f) app_state" where
  "rt_close_session parse rid i st =
     (case parse i of
        None \<Rightarrow> (Inl (invalid_session_id rid), st)
      | Some sid \<Rightarrow>
          (case hm_get (ap_sessions st) sid of
             Some _ \<Rightarrow> (Inr True, st\<lparr>ap_sessions := hm_remove sid (ap_sessions st)\<rparr>)
           | None \<Rightarrow> (Inl (session_not_found i rid), st)))"

subsection \<open>Plugins\<close>

record plugin_entry =
  pli_name :: string
  pli_version :: string
  pli_status :: string
  pli_description :: string
  pli_enabled :: bool

fun plugin_status_text :: "plugin_status \<Rightarrow> string" where
  "plugin_status_text PluginActive = ''loaded''"
| "plugin_status_text (PluginFailed e) = ''failed''"
| "plugin_status_text PluginReloading = ''reloading''"

definition is_enabled :: "string \<Rightarrow> (string, bool) hashmap \<Rightarrow> bool" where
  "is_enabled name toggles = (case hm_get toggles name of Some b \<Rightarrow> b | None \<Rightarrow> True)"

definition rt_list_plugins :: "('cb, 'w, 'f) app_state \<Rightarrow> plugin_entry list" where
  "rt_list_plugins st =
     (let toggles = ap_plugin_states st;
          live = (case ap_plugin_manager st of
                    None \<Rightarrow> []
                  | Some m \<Rightarrow> map (\<lambda>i. let name = pm_name (pi_manifest i) in
                       \<lparr>pli_name = name, pli_version = semver_text (pm_version (pi_manifest i)), pli_status = plugin_status_text (pi_status i),
                        pli_description = pm_description (pi_manifest i), pli_enabled = is_enabled name toggles\<rparr>)
                       (list_plugins (mg_loader m)));
          live_names = map pli_name live
      in live @ map (\<lambda>(name, enabled). \<lparr>pli_name = name, pli_version = ''unknown'',
           pli_status = (if enabled then ''unloaded'' else ''disabled''), pli_description = [], pli_enabled = enabled\<rparr>)
           (filter (\<lambda>(name, _). name \<notin> set live_names) toggles))"

text \<open>\<open>save\<close> stores the choice in the database, whether or not that succeeds.\<close>

definition rt_toggle_plugin :: "stamps \<Rightarrow> 'w loader_env \<Rightarrow> (string \<Rightarrow> bool \<Rightarrow> 'w \<Rightarrow> 'w) \<Rightarrow> string \<Rightarrow> string \<Rightarrow> ('cb, 'w, 'f) app_state \<Rightarrow> 'w \<Rightarrow>
    (api_error + string \<times> bool) \<times> ('cb, 'w, 'f) app_state \<times> 'w" where
  "rt_toggle_plugin stamp env save rid name st w =
     (if str_trim name = [] then (Inl (bad_request ''Plugin name must not be empty.'' rid), st, w)
      else
        let new_enabled = (\<not> is_enabled name (ap_plugin_states st));
            st1 = st\<lparr>ap_plugin_states := hm_insert name new_enabled (ap_plugin_states st)\<rparr>;
            w1 = save name new_enabled w
        in (Inr (name, new_enabled),
            (case ap_plugin_manager st1 of
               None \<Rightarrow> st1
             | Some m \<Rightarrow>
                 st1\<lparr>ap_plugin_manager := Some (m\<lparr>mg_loader :=
                   if new_enabled then snd (reload_plugin stamp env name (mg_loader m) w1)
                   else snd (unload_plugin stamp name (mg_loader m))\<rparr>)\<rparr>), w1))"

record plugin_reload_response =
  pr_name :: string
  pr_status :: string
  pr_error :: "string option"

definition plugins_unavailable :: "string \<Rightarrow> plugin_reload_response" where
  "plugins_unavailable name = \<lparr>pr_name = name, pr_status = ''unavailable'', pr_error = Some ''plugin_manager not attached''\<rparr>"

definition rt_reload_all_plugins :: "'w loader_env \<Rightarrow> ('cb, 'w, 'f) app_state \<Rightarrow> 'w \<Rightarrow>
    plugin_reload_response \<times> ('cb, 'w, 'f) app_state \<times> 'w" where
  "rt_reload_all_plugins env st w =
     (case ap_plugin_manager st of
        None \<Rightarrow> (plugins_unavailable ''*'', st, w)
      | Some m \<Rightarrow>
          (case load_all env (mg_loader m) w of
             (results, s, w1) \<Rightarrow>
               let failures = length (filter (\<lambda>r. \<not> lr_success r) results)
               in (\<lparr>pr_name = ''*'', pr_status = (if failures = 0 then ''reloaded'' else ''partial''),
                    pr_error = (if failures = 0 then None else Some (show_nat failures @ '' plugin(s) failed to load''))\<rparr>,
                   st\<lparr>ap_plugin_manager := Some (m\<lparr>mg_loader := s\<rparr>)\<rparr>, w1)))"

definition rt_reload_plugin :: "stamps \<Rightarrow> 'w loader_env \<Rightarrow> string \<Rightarrow> string \<Rightarrow> ('cb, 'w, 'f) app_state \<Rightarrow> 'w \<Rightarrow>
    (api_error + plugin_reload_response) \<times> ('cb, 'w, 'f) app_state" where
  "rt_reload_plugin stamp env rid name st w =
     (if str_trim name = [] then (Inl (bad_request ''Plugin name must not be empty.'' rid), st)
      else (case ap_plugin_manager st of
              None \<Rightarrow> (Inr (plugins_unavailable name), st)
            | Some m \<Rightarrow>
                (case reload_plugin stamp env name (mg_loader m) w of
                   (r, s) \<Rightarrow>
                     (Inr (case r of
                             Inr _ \<Rightarrow> \<lparr>pr_name = name, pr_status = ''reloaded'', pr_error = None\<rparr>
                           | Inl e \<Rightarrow> \<lparr>pr_name = name, pr_status = ''failed'', pr_error = Some (plugin_error_text e)\<rparr>),
                      st\<lparr>ap_plugin_manager := Some (m\<lparr>mg_loader := s\<rparr>)\<rparr>))))"

subsection \<open>Configuration\<close>

definition live_default_limit :: "rate_limiter \<Rightarrow> u32" where
  "live_default_limit rl = rl_current_default_limit rl"

record config_response =
  cf_version :: string
  cf_mode :: string
  cf_rate_limit_default :: u32
  cf_system_prompt :: "string option"
  cf_log_level :: string

definition current_mode_text :: "agent_core option \<Rightarrow> string" where
  "current_mode_text agent = (case agent of Some ac \<Rightarrow> mode_to_string (ac_mode ac) | None \<Rightarrow> ''general'')"

definition rt_get_config :: "('cb, 'w, 'f) app_state \<Rightarrow> config_response" where
  "rt_get_config st =
     \<lparr>cf_version = ap_version st, cf_mode = current_mode_text (ap_agent_core st),
      cf_rate_limit_default = live_default_limit (au_rate_limiter st),
      cf_system_prompt = Option.bind (ap_agent_core st) ac_system_prompt, cf_log_level = ap_current_log_level st\<rparr>"

text \<open>An update threads the state and the two lists of the answer, the settings applied and the
  warnings, through one step for each known setting.\<close>

type_synonym ('cb, 'w, 'f) config_update = "('cb, 'w, 'f) app_state \<times> string list \<times> string list \<times> 'w"

definition mode_of_setting :: "path \<Rightarrow> string \<Rightarrow> agent_mode" where
  "mode_of_setting workspace m =
     (if m = ''plan'' then Coding workspace True else if m = ''code'' \<or> m = ''coding'' then Coding workspace False else General)"

definition update_mode :: "(string \<times> json) list \<Rightarrow> ('cb, 'w, 'f) config_update \<Rightarrow> ('cb, 'w, 'f) config_update" where
  "update_mode obj = (\<lambda>(st, applied, warnings, w).
     case Option.bind (map_of obj ''mode'') as_str of
       None \<Rightarrow> (st, applied, warnings, w)
     | Some m \<Rightarrow>
         (case ap_agent_core st of
            None \<Rightarrow> (st, applied, warnings @ [''mode: agent_core not attached''], w)
          | Some ac \<Rightarrow>
              (st\<lparr>ap_agent_core := Some (snd (set_mode (mode_of_setting (ap_workspace_dir st) m) ac))\<rparr>,
               applied @ [''mode''], warnings, w)))"

definition update_system_prompt :: "(string \<times> json) list \<Rightarrow> ('cb, 'w, 'f) config_update \<Rightarrow> ('cb, 'w, 'f) config_update" where
  "update_system_prompt obj = (\<lambda>(st, applied, warnings, w).
     case map_of obj ''system_prompt'' of
       None \<Rightarrow> (st, applied, warnings, w)
     | Some v \<Rightarrow>
         (case ap_agent_core st of
            None \<Rightarrow> (st, applied, warnings @ [''system_prompt: agent_core not attached''], w)
          | Some ac \<Rightarrow>
              let warn = (if v = JNull \<or> as_str v \<noteq> None then [] else [''system_prompt: must be string or null''])
              in (st\<lparr>ap_agent_core := Some (set_system_prompt (as_str v) ac)\<rparr>, applied @ [''system_prompt''], warnings @ warn, w)))"

definition update_rate_limit :: "(string \<times> json) list \<Rightarrow> ('cb, 'w, 'f) config_update \<Rightarrow> ('cb, 'w, 'f) config_update" where
  "update_rate_limit obj = (\<lambda>(st, applied, warnings, w).
     case map_of obj ''rate_limit_default'' of
       None \<Rightarrow> (st, applied, warnings, w)
     | Some v \<Rightarrow>
         (case as_u64 v of
            None \<Rightarrow> (st, applied, warnings @ [''rate_limit_default: must be a positive integer''], w)
          | Some n \<Rightarrow>
              if n = 0 \<or> n > 4294967295
              then (st, applied, warnings @ [''rate_limit_default: out of range (1..=4294967295)''], w)
              else (st\<lparr>au_rate_limiter := fst (set_default_limit (of_nat n) (au_rate_limiter st))\<rparr>,
                    applied @ [''rate_limit_default''], warnings, w)))"

definition update_log_level :: "(string \<times> json) list \<Rightarrow> ('cb, 'w, 'f) config_update \<Rightarrow> ('cb, 'w, 'f) config_update" where
  "update_log_level obj = (\<lambda>(st, applied, warnings, w).
     case map_of obj ''log_level'' of
       None \<Rightarrow> (st, applied, warnings, w)
     | Some v \<Rightarrow>
         (case as_str v of
            None \<Rightarrow> (st, applied, warnings @ [''log_level: must be a string''], w)
          | Some level \<Rightarrow>
              (case ap_log_level_setter st of
                 None \<Rightarrow> (st, applied, warnings @ [''log_level: tracing reload handle not installed''], w)
               | Some set_level \<Rightarrow>
                   (case set_level level w of
                      (Inr _, w1) \<Rightarrow> (st\<lparr>ap_current_log_level := level\<rparr>, applied @ [''log_level''], warnings, w1)
                    | (Inl e, w1) \<Rightarrow> (st, applied, warnings @ [''log_level: '' @ e], w1)))))"

definition known_settings :: "string list" where
  "known_settings = [''mode'', ''system_prompt'', ''log_level'', ''rate_limit_default'']"

definition unknown_warnings :: "(string \<times> json) list \<Rightarrow> string list" where
  "unknown_warnings obj = map (\<lambda>k. ''unknown setting: '' @ k) (filter (\<lambda>k. k \<notin> set known_settings) (map fst obj))"

definition rt_update_config :: "string \<Rightarrow> json \<Rightarrow> ('cb, 'w, 'f) app_state \<Rightarrow> 'w \<Rightarrow>
    (api_error + string list \<times> string list) \<times> ('cb, 'w, 'f) app_state \<times> 'w" where
  "rt_update_config rid settings st w =
     (case as_object settings of
        None \<Rightarrow> (Inl (bad_request ''Settings must be a JSON object.'' rid), st, w)
      | Some obj \<Rightarrow>
          if obj = [] then (Inl (bad_request ''Settings object must not be empty.'' rid), st, w)
          else (case update_log_level obj (update_rate_limit obj (update_system_prompt obj (update_mode obj (st, [], [], w)))) of
                  (st1, applied, warnings, w1) \<Rightarrow> (Inr (applied, warnings @ unknown_warnings obj), st1, w1)))"

subsection \<open>Skills\<close>

text \<open>\<^verbatim>\<open>ApiError::new\<close> makes up a request identifier.\<close>

definition require_store :: "string \<Rightarrow> ('cb, 'w, 'f) app_state \<Rightarrow> api_error + skill_store" where
  "require_store fresh st =
     (case ap_skill_store st of
        Some s \<Rightarrow> Inr s
      | None \<Rightarrow> Inl (with_request_id 503 ''skills_not_configured'' ''Skill store is not configured on this instance.'' fresh))"

definition skill_store_error :: "skill_error \<Rightarrow> string \<Rightarrow> api_error" where
  "skill_store_error e fresh = with_request_id 500 ''skill_store_error'' (skill_error_text e) fresh"

definition skill_not_found :: "string \<Rightarrow> string \<Rightarrow> api_error" where
  "skill_not_found name fresh = with_request_id 404 ''skill_not_found'' (''Skill '' @ quote_text name @ '' not found.'') fresh"

record skill_summary =
  sy_name :: string
  sy_description :: string
  sy_use_count :: u64
  sy_tags :: "string list"

definition rt_list_skills :: "'w skill_fs \<Rightarrow> string \<Rightarrow> ('cb, 'w, 'f) app_state \<Rightarrow> 'w \<Rightarrow> (api_error + skill_summary list) \<times> ('cb, 'w, 'f) app_state" where
  "rt_list_skills api fresh st w =
     (case require_store fresh st of
        Inl e \<Rightarrow> (Inl e, st)
      | Inr store \<Rightarrow>
          (case list_skills api store w of
             (r, store1) \<Rightarrow>
               ((case r of
                   Inl e \<Rightarrow> Inl (skill_store_error e fresh)
                 | Inr docs \<Rightarrow> Inr (map (\<lambda>d. let f = sd_front_matter d in
                     \<lparr>sy_name = sk_name f, sy_description = sk_description f, sy_use_count = sk_use_count f, sy_tags = sk_tags f\<rparr>) docs)),
                st\<lparr>ap_skill_store := Some store1\<rparr>)))"

text \<open>The time of the last run is never known; the number of skills is.\<close>

definition rt_curator_status :: "'w skill_fs \<Rightarrow> string \<Rightarrow> ('cb, 'w, 'f) app_state \<Rightarrow> 'w \<Rightarrow> (api_error + nat) \<times> ('cb, 'w, 'f) app_state" where
  "rt_curator_status api fresh st w =
     (case require_store fresh st of
        Inl e \<Rightarrow> (Inl e, st)
      | Inr store \<Rightarrow>
          (case list_skills api store w of
             (r, store1) \<Rightarrow> (Inr (case r of Inr docs \<Rightarrow> length docs | Inl _ \<Rightarrow> 0), st\<lparr>ap_skill_store := Some store1\<rparr>)))"

definition rt_get_skill :: "'w skill_fs \<Rightarrow> string \<Rightarrow> string \<Rightarrow> ('cb, 'w, 'f) app_state \<Rightarrow> 'w \<Rightarrow> api_error + string \<times> string" where
  "rt_get_skill api fresh name st w =
     (case require_store fresh st of
        Inl e \<Rightarrow> Inl e
      | Inr store \<Rightarrow>
          (case get_skill api store name w of
             Inr (Some doc) \<Rightarrow> Inr (sk_name (sd_front_matter doc), skill_render (sf_rfc api) doc)
           | Inr None \<Rightarrow> Inl (skill_not_found name fresh)
           | Inl e \<Rightarrow> Inl (skill_store_error e fresh)))"

definition upserted_doc :: "bool \<Rightarrow> timestamp \<Rightarrow> string \<Rightarrow> skill_doc \<Rightarrow> skill_doc" where
  "upserted_doc exists now name doc =
     (let f = (sd_front_matter doc)\<lparr>sk_name := name\<rparr>
      in doc\<lparr>sd_front_matter := if exists then f\<lparr>sk_use_count := sk_use_count f + 1, sk_updated_at := now\<rparr> else f\<rparr>)"

definition rt_upsert_skill :: "'w skill_fs \<Rightarrow> string \<Rightarrow> string \<Rightarrow> string \<Rightarrow> ('cb, 'w, 'f) app_state \<Rightarrow> 'w \<Rightarrow>
    (api_error + string \<times> bool) \<times> ('cb, 'w, 'f) app_state \<times> 'w" where
  "rt_upsert_skill api fresh name content st w =
     (case require_store fresh st of
        Inl e \<Rightarrow> (Inl e, st, w)
      | Inr store \<Rightarrow>
          let exists = (case get_skill api store name w of Inr (Some _) \<Rightarrow> True | _ \<Rightarrow> False)
          in case parse_at api w content of
               Inl e \<Rightarrow> (Inl (with_request_id 400 ''invalid_skill_doc'' (''Could not parse SKILL.md: '' @ skill_error_text e) fresh), st, w)
             | Inr doc \<Rightarrow>
                 let given = sk_name (sd_front_matter doc)
                 in if given \<noteq> [] \<and> given \<noteq> name
                    then (Inl (with_request_id 400 ''name_mismatch''
                            (''Front-matter name '' @ quote_text given @ '' does not match URL slug '' @ quote_text name) fresh), st, w)
                    else (case save_skill api (upserted_doc exists (sf_now api w) name doc) store w of
                            (Inl e, store1, w1) \<Rightarrow> (Inl (skill_store_error e fresh), st\<lparr>ap_skill_store := Some store1\<rparr>, w1)
                          | (Inr _, store1, w1) \<Rightarrow> (Inr (name, \<not> exists), st\<lparr>ap_skill_store := Some store1\<rparr>, w1)))"

definition rt_archive_skill :: "'w skill_fs \<Rightarrow> string \<Rightarrow> string \<Rightarrow> ('cb, 'w, 'f) app_state \<Rightarrow> 'w \<Rightarrow>
    (api_error + string) \<times> ('cb, 'w, 'f) app_state \<times> 'w" where
  "rt_archive_skill api fresh name st w =
     (case require_store fresh st of
        Inl e \<Rightarrow> (Inl e, st, w)
      | Inr store \<Rightarrow>
          (case archive_skill api name store w of
             (r, store1, w1) \<Rightarrow>
               ((case r of Inl e \<Rightarrow> Inl (skill_store_error e fresh) | Inr False \<Rightarrow> Inl (skill_not_found name fresh) | Inr True \<Rightarrow> Inr name),
                st\<lparr>ap_skill_store := Some store1\<rparr>, w1)))"

subsection \<open>The other routes\<close>

text \<open>The task, message and memory routes check their input and answer without calling the
  component they stand for.\<close>

definition rt_create_task :: "string \<Rightarrow> string \<Rightarrow> string \<Rightarrow> api_error + string \<times> string \<times> string" where
  "rt_create_task fresh rid name =
     (if str_trim name = [] then Inl (bad_request ''Task name must not be empty.'' rid) else Inr (fresh, name, ''active''))"

definition rt_task_by_id :: "(string \<Rightarrow> uuid option) \<Rightarrow> string \<Rightarrow> string \<Rightarrow> api_error + string" where
  "rt_task_by_id parse rid i =
     (case parse i of None \<Rightarrow> Inl (bad_request ''Invalid task ID format. Must be a valid UUID.'' rid) | Some _ \<Rightarrow> Inr i)"

definition rt_send_message :: "(string \<Rightarrow> uuid option) \<Rightarrow> string \<Rightarrow> string \<Rightarrow> string \<Rightarrow> string option \<Rightarrow> string \<Rightarrow> api_error + string \<times> string" where
  "rt_send_message parse fresh_sid fresh_mid rid session content =
     (if str_trim content = [] then Inl (bad_request ''Message content must not be empty.'' rid)
      else (case session of
              None \<Rightarrow> Inr (fresh_mid, fresh_sid)
            | Some i \<Rightarrow>
                (case parse i of
                   None \<Rightarrow> Inl (bad_request ''Invalid session_id format. Must be a valid UUID.'' rid)
                 | Some _ \<Rightarrow> Inr (fresh_mid, i))))"

definition rt_get_history :: "(string \<Rightarrow> uuid option) \<Rightarrow> string \<Rightarrow> string \<Rightarrow> api_error + string" where
  "rt_get_history parse rid i = (case parse i of None \<Rightarrow> Inl (invalid_session_id rid) | Some _ \<Rightarrow> Inr i)"

definition rt_search_memory :: "string \<Rightarrow> string option \<Rightarrow> api_error + string" where
  "rt_search_memory rid q =
     (let query = (case q of Some s \<Rightarrow> s | None \<Rightarrow> [])
      in if str_trim query = [] then Inl (bad_request (''Search query parameter '' @ quote_text ''q'' @ '' must not be empty.'') rid)
         else Inr query)"

definition MAX_KNOWLEDGE_CONTENT_SIZE :: nat where
  "MAX_KNOWLEDGE_CONTENT_SIZE = 10000"

definition rt_store_knowledge :: "string \<Rightarrow> string \<Rightarrow> string \<Rightarrow> string \<Rightarrow> api_error + string \<times> string" where
  "rt_store_knowledge fresh rid title content =
     (if str_trim title = [] then Inl (bad_request ''Knowledge entry title must not be empty.'' rid)
      else if length content > MAX_KNOWLEDGE_CONTENT_SIZE
      then Inl (bad_request (''Content exceeds maximum size of '' @ show_nat MAX_KNOWLEDGE_CONTENT_SIZE @ '' characters (got '' @
             show_nat (length content) @ '').'') rid)
      else if str_trim content = [] then Inl (bad_request ''Knowledge entry content must not be empty.'' rid)
      else Inr (fresh, title))"

definition rt_delete_memory :: "(string \<Rightarrow> uuid option) \<Rightarrow> string \<Rightarrow> string \<Rightarrow> api_error + string" where
  "rt_delete_memory parse rid i =
     (case parse i of None \<Rightarrow> Inl (bad_request ''Invalid memory entry ID format. Must be a valid UUID.'' rid) | Some _ \<Rightarrow> Inr i)"

fun agent_status_text :: "agent_status \<Rightarrow> string \<times> string option" where
  "agent_status_text Idle = (''idle'', None)"
| "agent_status_text (Working t p) = (''working'', Some t)"
| "agent_status_text (Error m) = (''error'', Some m)"
| "agent_status_text ShuttingDown = (''shutting_down'', None)"
| "agent_status_text Starting = (''starting'', None)"

record 'f status_response =
  sr_status :: string
  sr_mode :: string
  sr_current_task :: "string option"
  sr_uptime_seconds :: nat
  sr_metrics :: "'f \<times> 'f"

definition rt_get_status :: "nat \<Rightarrow> ('cb, 'w, 'f) app_state \<Rightarrow> 'f status_response" where
  "rt_get_status now st =
     (let (status, task) = (case ap_agent_core st of Some ac \<Rightarrow> agent_status_text (ac_status ac) | None \<Rightarrow> (''idle'', None))
      in \<lparr>sr_status = status, sr_mode = current_mode_text (ap_agent_core st), sr_current_task = task,
          sr_uptime_seconds = (now - ap_started_at st) div 1000000000, sr_metrics = ap_metrics st\<rparr>)"

definition rt_messaging_status :: "('cb, 'w, 'f) app_state \<Rightarrow> bool \<times> bool \<times> bool" where
  "rt_messaging_status st = (let m = ap_messaging_status st in (mst_telegram m, mst_discord m, mst_whatsapp m))"

definition rt_health_check :: "('cb, 'w, 'f) app_state \<Rightarrow> string \<times> string" where
  "rt_health_check st = (''healthy'', ap_version st)"

subsection \<open>The session routes as a map\<close>

text \<open>What the session routes promise: a map from identifiers to what a lookup shows, which a valid
  creation extends and a closing shrinks.\<close>

datatype session_route = SCreate uuid timestamp string string string | SClose string string

type_synonym session_map = "uuid \<Rightarrow> session_summary option"

definition canonical_mode :: "string \<Rightarrow> string option" where
  "canonical_mode m = (if m = ''coding'' then Some ''code'' else if m \<in> {''general'', ''plan'', ''code''} then Some m else None)"

definition valid_source :: "string \<Rightarrow> bool" where
  "valid_source s \<longleftrightarrow> s \<in> {''web'', ''api'', ''tui'', ''claude_code'', ''copilot_cli''}"

fun spec_route :: "(string \<Rightarrow> uuid option) \<Rightarrow> (uuid \<Rightarrow> string) \<Rightarrow> session_route \<Rightarrow> session_map \<Rightarrow> session_map" where
  "spec_route parse uuid_text (SCreate fresh now rid source mode) m =
     (case canonical_mode mode of
        Some c \<Rightarrow> if valid_source source
                  then m(fresh \<mapsto> \<lparr>ss_session_id = uuid_text fresh, ss_source = source, ss_mode = c, ss_created_at = now, ss_last_activity = now\<rparr>)
                  else m
      | None \<Rightarrow> m)"
| "spec_route parse uuid_text (SClose rid i) m = (case parse i of Some sid \<Rightarrow> m(sid := None) | None \<Rightarrow> m)"

fun run_route :: "(string \<Rightarrow> uuid option) \<Rightarrow> (uuid \<Rightarrow> string) \<Rightarrow> session_route \<Rightarrow> ('cb, 'w, 'f) app_state \<Rightarrow> ('cb, 'w, 'f) app_state" where
  "run_route parse uuid_text (SCreate fresh now rid source mode) st = snd (rt_create_session uuid_text fresh now rid source mode st)"
| "run_route parse uuid_text (SClose rid i) st = snd (rt_close_session parse rid i st)"

definition session_view :: "(uuid \<Rightarrow> string) \<Rightarrow> ('cb, 'w, 'f) app_state \<Rightarrow> session_map" where
  "session_view uuid_text st = (\<lambda>sid. map_option (session_summary_of uuid_text) (hm_get (ap_sessions st) sid))"

lemma parse_source_iff: "parse_source s = Some src \<Longrightarrow> valid_source s \<and> source_to_string src = s"
  by (auto simp: parse_source_def valid_source_def split: if_splits)

lemma parse_source_None: "parse_source s = None \<longleftrightarrow> \<not> valid_source s"
  by (auto simp: parse_source_def valid_source_def)

lemma parse_mode_canonical: "map_option mode_to_string (parse_mode m) = canonical_mode m"
  by (auto simp: parse_mode_def canonical_mode_def)

lemma run_route_refines:
  "session_view uuid_text (run_route parse uuid_text c st) = spec_route parse uuid_text c (session_view uuid_text st)"
proof (cases c)
  case (SCreate fresh now rid source mode)
  show ?thesis
  proof (cases "parse_source source")
    case None
    then have "\<not> valid_source source" by (simp add: parse_source_None)
    then show ?thesis using SCreate None by (simp add: rt_create_session_def split: option.split)
  next
    case (Some src)
    then show ?thesis
      using SCreate parse_source_iff [OF Some] parse_mode_canonical [of mode, symmetric]
      by (cases "parse_mode mode") (auto simp: rt_create_session_def session_view_def session_summary_of_def Let_def)
  qed
next
  case (SClose rid i)
  then show ?thesis
    by (auto simp: rt_close_session_def session_view_def split: option.split)
qed

lemma run_routes_refine:
  "session_view uuid_text (fold (run_route parse uuid_text) calls st) = fold (spec_route parse uuid_text) calls (session_view uuid_text st)"
  by (induction calls arbitrary: st) (simp_all add: run_route_refines)

subsection \<open>Properties\<close>

text \<open>
  C14: the session routes implement a map. After any sequence of creations and closings a lookup
  answers 200 with exactly the session the specification has under the identifier, 404 when it has
  none and 400 when the identifier is not a UUID; a creation with an unknown source or mode and a
  closing of an unknown session change nothing.
\<close>

theorem session_routes_refine_map:
  assumes "st = fold (run_route parse uuid_text) calls st0" and "ap_sessions st0 = hm_empty"
  shows "rt_get_session parse uuid_text rid i st =
    (case parse i of
       None \<Rightarrow> Inl (invalid_session_id rid)
     | Some sid \<Rightarrow>
         (case fold (spec_route parse uuid_text) calls (\<lambda>_. None) sid of
            Some s \<Rightarrow> Inr s
          | None \<Rightarrow> Inl (session_not_found i rid)))"
proof -
  have "session_view uuid_text st0 = (\<lambda>_. None)" by (simp add: session_view_def assms(2))
  then have "fold (spec_route parse uuid_text) calls (\<lambda>_. None) sid = map_option (session_summary_of uuid_text) (hm_get (ap_sessions st) sid)" for sid
    using run_routes_refine [of uuid_text parse calls st0] unfolding assms(1) session_view_def by metis
  then show ?thesis by (auto simp: rt_get_session_def split: option.split)
qed

text \<open>
  C39: switching a plugin off and on again does not bring it back. For a plugin manager in any
  reachable state, two toggles of an enabled plugin answer success, the second that it is enabled,
  and the plugin is not loaded: enabling asks for a reload, which fails because the plugin was
  unloaded, and the error is dropped.
\<close>

theorem toggle_twice_unloads:
  assumes "ap_plugin_manager st = Some m" and "mg_loader m = plugin_run stamp env calls dir"
    and "is_enabled name (ap_plugin_states st)" and "str_trim name \<noteq> []"
    and "rt_toggle_plugin stamp env save rid name st w = (r1, st1, w1)"
    and "rt_toggle_plugin stamp env save rid name st1 w1 = (r2, st2, w2)"
  shows "r1 = Inr (name, False) \<and> r2 = Inr (name, True) \<and> is_enabled name (ap_plugin_states st2) \<and>
    (\<exists>m2. ap_plugin_manager st2 = Some m2 \<and> \<not> is_loaded name (mg_loader m2))"
proof -
  let ?s1 = "snd (unload_plugin stamp name (mg_loader m))"
  have gone: "hm_get (pg_plugins ?s1) name = None"
    using unload_plugin_effect(2) [OF loader_inv_run] assms(2) by (metis prod.collapse)
  have st1: "st1 = st\<lparr>ap_plugin_states := hm_insert name False (ap_plugin_states st),
      ap_plugin_manager := Some (m\<lparr>mg_loader := ?s1\<rparr>)\<rparr>" "r1 = Inr (name, False)"
    using assms(1,3,4,5) by (auto simp: rt_toggle_plugin_def Let_def)
  have "reload_plugin stamp env name ?s1 v = (Inl (PluginLoadFailed name ''plugin not found for reload''), ?s1)" for v
    using gone by (simp add: reload_plugin_def)
  then show ?thesis
    using assms(4,6) gone by (auto simp: st1 rt_toggle_plugin_def Let_def is_enabled_def is_loaded_get)
qed

definition example_app :: "(unit, unit, unit) app_state" where
  "example_app =
     \<lparr>au_rate_limiter = rl_new default_rate_limit_config, au_api_keys = [], au_admin_username = ''admin'', au_admin_password_hash = [],
      au_login_tokens = [], au_admin_session_key_id = 7, ap_version = ''1'', ap_sessions = hm_empty,
      ap_messaging_status = \<lparr>mst_telegram = False, mst_discord = False, mst_whatsapp = False\<rparr>, ap_agent_core = None, ap_started_at = 0,
      ap_workspace_dir = [], ap_plugin_states = hm_empty,
      ap_plugin_manager = Some \<lparr>mg_loader = example_loader, mg_watcher = None, mg_config = default_plugin_config (\<lambda>_. None)\<rparr>,
      ap_metrics = ((), ()), ap_log_level_setter = None, ap_current_log_level = ''info'', ap_skill_store = None\<rparr>"

theorem session_routes_refine_map_witness:
  "rt_get_session (\<lambda>s. if s = ''a'' then Some 1 else None) (\<lambda>_. ''a'') ''r'' ''a''
     (fold (run_route (\<lambda>s. if s = ''a'' then Some 1 else None) (\<lambda>_. ''a'')) [SCreate 1 5 ''r'' ''web'' ''coding''] example_app) =
   Inr \<lparr>ss_session_id = ''a'', ss_source = ''web'', ss_mode = ''code'', ss_created_at = 5, ss_last_activity = 5\<rparr>"
  by (subst session_routes_refine_map [OF refl]) (simp_all add: example_app_def canonical_mode_def valid_source_def)

theorem toggle_twice_unloads_witness:
  "is_loaded ''clock'' example_loader \<and>
   (\<exists>m. ap_plugin_manager (fst (snd (rt_toggle_plugin (\<lambda>n. (n, 0)) example_plugin_env (\<lambda>_ _ w. w) ''r'' ''clock''
      (fst (snd (rt_toggle_plugin (\<lambda>n. (n, 0)) example_plugin_env (\<lambda>_ _ w. w) ''r'' ''clock'' example_app ()))) ()))) = Some m \<and>
      \<not> is_loaded ''clock'' (mg_loader m))"
proof -
  let ?toggle = "rt_toggle_plugin (\<lambda>n. (n, 0)) example_plugin_env (\<lambda>_ _ w. w) ''r'' ''clock''"
  obtain r1 st1 w1 where t1: "?toggle example_app () = (r1, st1, w1)" by (metis prod_cases3)
  obtain r2 st2 w2 where t2: "?toggle st1 w1 = (r2, st2, w2)" by (metis prod_cases3)
  have "\<exists>m2. ap_plugin_manager st2 = Some m2 \<and> \<not> is_loaded ''clock'' (mg_loader m2)"
    using toggle_twice_unloads [OF _ _ _ _ t1 t2, of _ example_plugin_calls "[RootDir, Normal ''p'']"]
    by (simp add: example_app_def example_loader_def is_enabled_def str_trim_def is_ws_def)
  then show ?thesis using example_loader_facts(1) t1 t2 by (cases w1) simp
qed

text \<open>A change of the mode is reported as applied although a working agent refuses it, and a
  system prompt that is neither text nor null clears the prompt.\<close>

lemma update_mode_while_working:
  assumes "ap_agent_core st = Some ac" and "is_working (ac_status ac)"
  shows "rt_update_config rid (JObject [(''mode'', JString m)]) st w = (Inr ([''mode''], []), st, w)"
  using assms by (simp add: rt_update_config_def update_mode_def update_system_prompt_def update_rate_limit_def update_log_level_def
      unknown_warnings_def known_settings_def set_mode_def)

lemma update_prompt_number_clears:
  assumes "ap_agent_core st = Some ac"
  shows "rt_update_config rid (JObject [(''system_prompt'', JNumber n)]) st w =
    (Inr ([''system_prompt''], [''system_prompt: must be string or null'']),
     st\<lparr>ap_agent_core := Some (set_system_prompt None ac)\<rparr>, w)"
  using assms by (simp add: rt_update_config_def update_mode_def update_system_prompt_def update_rate_limit_def update_log_level_def
      unknown_warnings_def known_settings_def Let_def)

text \<open>An update can never leave the limiter without a limit: the default stays positive.\<close>

lemma update_rate_limit_positive:
  assumes "0 < rl_current_default_limit (au_rate_limiter st)"
  shows "0 < rl_current_default_limit (au_rate_limiter (fst (update_rate_limit obj (st, ap, wa, w))))"
  using assms by (auto simp: update_rate_limit_def set_default_limit_def max_def word_gt_0 split: option.split)

end
