(* ===== verification/Shell_Executor.thy ===== *)
theory Shell_Executor
  imports Sandbox Tool_Registry Config
begin

text \<open>
  Shell commands (\<^verbatim>\<open>crates/coding-module/src/shell_executor.rs\<close> and \<^verbatim>\<open>shell_tool.rs\<close>):
  a command is checked against the allow list and the block list, takes one of a bounded number
  of slots with a compare-and-exchange loop, runs as a child process whose output is read up
  to a timeout, and gives the slot back. The child process is outside the program: \<open>process\<close>
  says when its pipes answer each read, in nanoseconds from the start of reading, and when and how
  waiting for it ends; an answer that never comes is the end of a list, or \<open>None\<close>. An outer
  \<open>None\<close> of the result means that the call never returns.
\<close>

datatype shell_error =
    CommandDenied string
  | ConcurrencyLimitReached u64
  | ShellTimeout string nat
  | SpawnFailed string string
  | ShellIoError string

definition shell_quote :: "string \<Rightarrow> string" where
  "shell_quote s = [CHR 0x27] @ s @ [CHR 0x27]"

fun shell_error_text :: "shell_error \<Rightarrow> string" where
  "shell_error_text (CommandDenied c) = ''Command denied: '' @ shell_quote c @ '' is not permitted by security policy''"
| "shell_error_text (ConcurrencyLimitReached n) =
     ''Concurrency limit reached: '' @ show_nat (unat n) @ '' processes already running''"
| "shell_error_text (ShellTimeout c secs) = ''Command '' @ shell_quote c @ '' timed out after '' @ show_nat secs @ ''s''"
| "shell_error_text (SpawnFailed c r) = ''Failed to spawn command '' @ shell_quote c @ '': '' @ r"
| "shell_error_text (ShellIoError m) = ''I/O error: '' @ m"

record command_output =
  ou_stdout :: string
  ou_stderr :: string
  ou_exit_code :: "int option"
  ou_timed_out :: bool
  ou_duration_ms :: u64

datatype output_chunk = StdoutChunk string | StderrChunk string | DoneChunk command_output

record shell_executor_config =
  se_command_allowlist :: "string list"
  se_command_blocklist :: "string list"
  se_default_timeout_seconds :: u32
  se_max_concurrent_shells :: u64

definition default_shell_executor_config :: shell_executor_config where
  "default_shell_executor_config = \<lparr>se_command_allowlist = [], se_command_blocklist = [],
     se_default_timeout_seconds = 300, se_max_concurrent_shells = 5\<rparr>"

definition from_coding_config :: "coding_config \<Rightarrow> shell_executor_config" where
  "from_coding_config c = \<lparr>se_command_allowlist = co_command_allowlist c, se_command_blocklist = co_command_blocklist c,
     se_default_timeout_seconds = co_shell_timeout_seconds c, se_max_concurrent_shells = ucast (co_max_concurrent_shells c)\<rparr>"

record shell_executor =
  sx_config :: shell_executor_config
  sx_active_processes :: u64

definition shell_new :: "shell_executor_config \<Rightarrow> shell_executor" where
  "shell_new config = \<lparr>sx_config = config, sx_active_processes = 0\<rparr>"

definition shell_validate :: "shell_executor_config \<Rightarrow> string \<Rightarrow> shell_error + unit" where
  "shell_validate config command =
     (case validate_command command (se_command_allowlist config) (se_command_blocklist config) of
        Inl _ \<Rightarrow> Inl (CommandDenied command)
      | Inr _ \<Rightarrow> Inr ())"

subsection \<open>The slots\<close>

text \<open>\<open>load\<close> with the comparison after it, and \<open>compare_exchange\<close>.\<close>

definition load_count :: "shell_executor_config \<Rightarrow> u64 \<Rightarrow> shell_error + u64" where
  "load_count config active =
     (if active \<ge> se_max_concurrent_shells config then Inl (ConcurrencyLimitReached (se_max_concurrent_shells config))
      else Inr active)"

definition compare_exchange :: "u64 \<Rightarrow> u64 \<Rightarrow> u64 \<Rightarrow> bool \<times> u64" where
  "compare_exchange expected new_value active = (if active = expected then (True, new_value) else (False, active))"

definition fetch_sub_1 :: "u64 \<Rightarrow> u64" where
  "fetch_sub_1 active = active - 1"

subsection \<open>Reading a child process\<close>

datatype read_result = ReadOk string | ReadErr string

record process =
  pr_stdout_piped :: bool
  pr_stderr_piped :: bool
  pr_stdout :: "(nat \<times> read_result) list"
  pr_stderr :: "(nat \<times> read_result) list"
  pr_wait :: "(string + int option) option"
  pr_elapsed :: nat

text \<open>The loop around \<open>read_line\<close>: the text collected and the time of the last read, if it ends.
  A read of nothing is the end of the file.\<close>

fun read_lines :: "string \<Rightarrow> (nat \<times> read_result) list \<Rightarrow> (nat \<times> string) option" where
  "read_lines buf [] = None"
| "read_lines buf ((t, ReadErr e) # rs) = Some (t, buf)"
| "read_lines buf ((t, ReadOk line) # rs) = (if line = [] then Some (t, buf) else read_lines (buf @ line) rs)"

text \<open>Both loops under \<open>tokio::time::timeout\<close>, which prefers a finished future to the deadline.\<close>

definition read_both :: "nat \<Rightarrow> process \<Rightarrow> (string \<times> string) option" where
  "read_both deadline p =
     (case (read_lines [] (pr_stdout p), read_lines [] (pr_stderr p)) of
        (Some (t1, out), Some (t2, err)) \<Rightarrow> if max t1 t2 \<le> deadline then Some (out, err) else None
      | _ \<Rightarrow> None)"

definition timeout_duration :: "shell_executor_config \<Rightarrow> nat option \<Rightarrow> nat" where
  "timeout_duration config timeout =
     (case timeout of Some d \<Rightarrow> d | None \<Rightarrow> unat (se_default_timeout_seconds config) * 10 ^ 9)"

definition as_millis_u64 :: "nat \<Rightarrow> u64" where
  "as_millis_u64 elapsed = of_nat (elapsed div 10 ^ 6)"

definition take_pipes :: "process \<Rightarrow> shell_error + unit" where
  "take_pipes p =
     (if \<not> pr_stdout_piped p then Inl (ShellIoError ''Failed to capture stdout'')
      else if \<not> pr_stderr_piped p then Inl (ShellIoError ''Failed to capture stderr'')
      else Inr ())"

definition run_command :: "string \<Rightarrow> nat \<Rightarrow> string + process \<Rightarrow> (shell_error + command_output) option" where
  "run_command command deadline spawned =
     (case spawned of
        Inl reason \<Rightarrow> Some (Inl (SpawnFailed command reason))
      | Inr p \<Rightarrow>
          (case take_pipes p of
             Inl e \<Rightarrow> Some (Inl e)
           | Inr _ \<Rightarrow>
               (case read_both deadline p of
                  None \<Rightarrow> Some (Inl (ShellTimeout command (pr_elapsed p div 10 ^ 9)))
                | Some (out, err) \<Rightarrow>
                    (case pr_wait p of
                       None \<Rightarrow> None
                     | Some (Inl e) \<Rightarrow> Some (Inl (ShellIoError e))
                     | Some (Inr code) \<Rightarrow>
                         Some (Inr \<lparr>ou_stdout = out, ou_stderr = err, ou_exit_code = code, ou_timed_out = False,
                           ou_duration_ms = as_millis_u64 (pr_elapsed p)\<rparr>)))))"

text \<open>\<open>execute\<close> from its call to its return with no other call in between: the first comparison, the
  loop of the exchange, which then succeeds at once, the process, and the guard that gives the
  slot back when the call returns.\<close>

record spawn_request =
  sq_command :: string
  sq_args :: "string list"
  sq_cwd :: "path option"
  sq_env :: "(string \<times> string) list option"

type_synonym 'w spawner = "spawn_request \<Rightarrow> 'w \<Rightarrow> (string + process) \<times> 'w"

definition shell_execute ::
  "'w spawner \<Rightarrow> spawn_request \<Rightarrow> nat option \<Rightarrow> shell_executor \<Rightarrow> 'w \<Rightarrow> (shell_error + command_output) option \<times> shell_executor \<times> 'w" where
  "shell_execute spawn rq timeout sx w =
     (let config = sx_config sx; active = sx_active_processes sx in
      case shell_validate config (sq_command rq) of
        Inl e \<Rightarrow> (Some (Inl e), sx, w)
      | Inr _ \<Rightarrow>
          (case load_count config active of
             Inl e \<Rightarrow> (Some (Inl e), sx, w)
           | Inr _ \<Rightarrow>
               (case load_count config active of
                  Inl e \<Rightarrow> (Some (Inl e), sx, w)
                | Inr current \<Rightarrow>
                    let (_, active1) = compare_exchange current (current + 1) active;
                        (spawned, w1) = spawn rq w;
                        r = run_command (sq_command rq) (timeout_duration config timeout) spawned
                    in (r, sx\<lparr>sx_active_processes := (if r = None then active1 else fetch_sub_1 active1)\<rparr>, w1))))"

subsection \<open>Streaming\<close>

text \<open>The lines sent to the channel until the deadline, for a receiver that keeps reading.\<close>

fun sent_lines :: "nat \<Rightarrow> (nat \<times> read_result) list \<Rightarrow> string list" where
  "sent_lines deadline [] = []"
| "sent_lines deadline ((t, ReadErr e) # rs) = []"
| "sent_lines deadline ((t, ReadOk line) # rs) =
     (if line = [] \<or> t > deadline then [] else line # sent_lines deadline rs)"

text \<open>The background task: the chunks of each stream in their order, and the final chunk. The
  buffers outside the timed block are assigned only when the block completes.\<close>

definition streaming_task :: "nat \<Rightarrow> process \<Rightarrow> output_chunk list \<times> output_chunk list \<times> output_chunk option" where
  "streaming_task deadline p =
     (map StdoutChunk (sent_lines deadline (pr_stdout p)), map StderrChunk (sent_lines deadline (pr_stderr p)),
      (case read_both deadline p of
         Some (out, err) \<Rightarrow>
           (case pr_wait p of
              None \<Rightarrow> None
            | Some status \<Rightarrow>
                Some (DoneChunk \<lparr>ou_stdout = out, ou_stderr = err,
                  ou_exit_code = (case status of Inl _ \<Rightarrow> None | Inr code \<Rightarrow> code), ou_timed_out = False,
                  ou_duration_ms = as_millis_u64 (pr_elapsed p)\<rparr>))
       | None \<Rightarrow> Some (DoneChunk \<lparr>ou_stdout = [], ou_stderr = [], ou_exit_code = None, ou_timed_out = True,
                  ou_duration_ms = as_millis_u64 (pr_elapsed p)\<rparr>)))"

text \<open>What follows the exchange in \<open>execute_streaming\<close>: an error gives the slot back at once;
  otherwise the receiver is returned and the background task holds the slot.\<close>

definition start_streaming :: "string \<Rightarrow> string + process \<Rightarrow> u64 \<Rightarrow> (shell_error + process) \<times> u64" where
  "start_streaming command spawned active =
     (case spawned of
        Inl reason \<Rightarrow> (Inl (SpawnFailed command reason), fetch_sub_1 active)
      | Inr p \<Rightarrow>
          (case take_pipes p of
             Inl e \<Rightarrow> (Inl e, fetch_sub_1 active)
           | Inr _ \<Rightarrow> (Inr p, active)))"

subsection \<open>Concurrent calls\<close>

text \<open>Calls share the counter, and every access to it is one step. A call is in one of the phases
  below; the first comparison is made by \<open>execute\<close> only. A call of \<open>execute\<close> whose future is dropped
  while it waits for its process gives the slot back by the guard; the background task of a stream
  cannot be dropped.\<close>

datatype call_mode = Captured | Streamed
datatype call_phase = PreCheck | LoadCount | Exchange u64 | Holding | Finished "shell_error option" | DroppedCall

record shell_call =
  cl_mode :: call_mode
  cl_command :: string
  cl_phase :: call_phase

record shell_state =
  hs_active :: u64
  hs_calls :: "shell_call list"

definition shell_start :: shell_state where
  "shell_start = \<lparr>hs_active = 0, hs_calls = []\<rparr>"

definition entry_phase :: "shell_executor_config \<Rightarrow> call_mode \<Rightarrow> string \<Rightarrow> call_phase" where
  "entry_phase config m command =
     (case shell_validate config command of
        Inl e \<Rightarrow> Finished (Some e)
      | Inr _ \<Rightarrow> (if m = Captured then PreCheck else LoadCount))"

fun advance :: "shell_executor_config \<Rightarrow> call_phase \<Rightarrow> u64 \<Rightarrow> call_phase \<times> u64" where
  "advance config PreCheck active =
     (case load_count config active of Inl e \<Rightarrow> (Finished (Some e), active) | Inr _ \<Rightarrow> (LoadCount, active))"
| "advance config LoadCount active =
     (case load_count config active of Inl e \<Rightarrow> (Finished (Some e), active) | Inr current \<Rightarrow> (Exchange current, active))"
| "advance config (Exchange current) active =
     (let (ok, active') = compare_exchange current (current + 1) active
      in (if ok then Holding else LoadCount, active'))"
| "advance config ph active = (ph, active)"

text \<open>How a call that holds a slot ends: \<open>None\<close> is that it does not.\<close>

definition call_end :: "call_mode \<Rightarrow> string \<Rightarrow> nat \<Rightarrow> string + process \<Rightarrow> shell_error option option" where
  "call_end m command deadline spawned =
     (case m of
        Captured \<Rightarrow> map_option (case_sum Some (\<lambda>_. None)) (run_command command deadline spawned)
      | Streamed \<Rightarrow>
          (case fst (start_streaming command spawned 0) of
             Inl e \<Rightarrow> Some (Some e)
           | Inr p \<Rightarrow> map_option (\<lambda>_. None) (snd (snd (streaming_task deadline p)))))"

inductive shell_step :: "shell_executor_config \<Rightarrow> shell_state \<Rightarrow> shell_state \<Rightarrow> bool" for config where
  submit: "shell_step config s
     (s\<lparr>hs_calls := hs_calls s @ [\<lparr>cl_mode = m, cl_command = command, cl_phase = entry_phase config m command\<rparr>]\<rparr>)"
| progress: "i < length (hs_calls s) \<Longrightarrow> advance config (cl_phase (hs_calls s ! i)) (hs_active s) = (ph, active) \<Longrightarrow>
     shell_step config s \<lparr>hs_active = active, hs_calls = (hs_calls s)[i := (hs_calls s ! i)\<lparr>cl_phase := ph\<rparr>]\<rparr>"
| complete: "i < length (hs_calls s) \<Longrightarrow> cl_phase (hs_calls s ! i) = Holding \<Longrightarrow>
     call_end (cl_mode (hs_calls s ! i)) (cl_command (hs_calls s ! i)) deadline spawned = Some e \<Longrightarrow>
     shell_step config s \<lparr>hs_active = fetch_sub_1 (hs_active s), hs_calls = (hs_calls s)[i := (hs_calls s ! i)\<lparr>cl_phase := Finished e\<rparr>]\<rparr>"
| cancel: "i < length (hs_calls s) \<Longrightarrow> cl_phase (hs_calls s ! i) = Holding \<Longrightarrow> cl_mode (hs_calls s ! i) = Captured \<Longrightarrow>
     shell_step config s \<lparr>hs_active = fetch_sub_1 (hs_active s), hs_calls = (hs_calls s)[i := (hs_calls s ! i)\<lparr>cl_phase := DroppedCall\<rparr>]\<rparr>"

subsection \<open>The tool\<close>

definition shell_arguments :: "json \<Rightarrow> (spawn_request \<times> nat option) option" where
  "shell_arguments arguments =
     map_option (\<lambda>command.
       (\<lparr>sq_command = command,
         sq_args = (case Option.bind (json_get arguments ''args'') as_array of
                      Some xs \<Rightarrow> List.map_filter as_str xs | None \<Rightarrow> []),
         sq_cwd = map_option path_from_str (get_str arguments ''cwd''),
         sq_env = map_option (List.map_filter (\<lambda>(k, v). map_option (Pair k) (as_str v)))
                    (Option.bind (json_get arguments ''env'') as_object)\<rparr>,
        map_option (\<lambda>s. s * 10 ^ 9) (Option.bind (json_get arguments ''timeout'') as_u64)))
       (get_str arguments ''command'')"

definition format_output :: "command_output \<Rightarrow> json" where
  "format_output output = JObject
     [(''stdout'', JString (ou_stdout output)), (''stderr'', JString (ou_stderr output)),
      (''exit_code'', (case ou_exit_code output of None \<Rightarrow> JNull | Some c \<Rightarrow> JNumber (show_int c))),
      (''timed_out'', JBool (ou_timed_out output)), (''duration_ms'', JNumber (show_nat (unat (ou_duration_ms output))))]"

definition shell_tool_execute ::
  "(json \<Rightarrow> string) \<Rightarrow> 'w spawner \<Rightarrow> json \<Rightarrow> shell_executor \<Rightarrow> 'w \<Rightarrow> (string + string) option \<times> shell_executor \<times> 'w" where
  "shell_tool_execute to_text spawn arguments sx w =
     (case shell_arguments arguments of
        None \<Rightarrow> (Some (Inl (''Missing required parameter '' @ shell_quote ''command'')), sx, w)
      | Some (rq, timeout) \<Rightarrow>
          let (r, sx', w') = shell_execute spawn rq timeout sx w
          in (map_option (map_sum shell_error_text (\<lambda>out. to_text (format_output out))) r, sx', w'))"

definition schema_entry :: "string \<Rightarrow> string \<Rightarrow> (string \<times> json) list \<Rightarrow> string \<Rightarrow> string \<times> json" where
  "schema_entry name ty extra description =
     (name, JObject ((''type'', JString ty) # extra @ [(''description'', JString description)]))"

definition shell_parameters_schema :: json where
  "shell_parameters_schema = JObject
     [(''type'', JString ''object''),
      (''properties'', JObject
        [schema_entry ''command'' ''string'' [] ''The command to execute (must be on the allowlist)'',
         schema_entry ''args'' ''array'' [(''items'', JObject [(''type'', JString ''string'')])] ''Arguments to pass to the command'',
         schema_entry ''cwd'' ''string'' [] ''Working directory for the command (optional)'',
         schema_entry ''timeout'' ''integer'' [] ''Timeout in seconds (optional, default: 300)'',
         schema_entry ''env'' ''object'' [(''additionalProperties'', JObject [(''type'', JString ''string'')])]
           ''Environment variables to set for the command (optional)'']),
      (''required'', JArray [JString ''command''])]"

definition shell_command_tool :: "(json \<Rightarrow> 'w \<Rightarrow> (string + string) \<times> 'w) \<Rightarrow> 'w tool" where
  "shell_command_tool execute = \<lparr>tool_name = ''shell_execute'',
     tool_description = ''Execute a shell command on the VPS, capturing stdout, stderr, and exit code. Commands are validated against the configured allowlist/blocklist. Supports configurable timeout and working directory.'',
     tool_parameters_schema = shell_parameters_schema, tool_execute = execute, tool_coding_only = True, tool_is_destructive = True\<rparr>"

section \<open>Properties\<close>

definition holding :: "shell_state \<Rightarrow> nat" where
  "holding s = length (filter (\<lambda>c. cl_phase c = Holding) (hs_calls s))"

definition permitted :: "shell_executor_config \<Rightarrow> string \<Rightarrow> bool" where
  "permitted config command \<longleftrightarrow> first_token command \<noteq> [] \<and> first_token command \<in> set (se_command_allowlist config) \<and>
     first_token command \<notin> set (se_command_blocklist config)"

definition call_ok :: "shell_executor_config \<Rightarrow> shell_call \<Rightarrow> bool" where
  "call_ok config c \<longleftrightarrow>
     (case cl_phase c of
        Finished _ \<Rightarrow> True
      | Exchange current \<Rightarrow> current < se_max_concurrent_shells config \<and> permitted config (cl_command c)
      | _ \<Rightarrow> permitted config (cl_command c))"

definition shell_inv :: "shell_executor_config \<Rightarrow> shell_state \<Rightarrow> bool" where
  "shell_inv config s \<longleftrightarrow> unat (hs_active s) = holding s \<and> hs_active s \<le> se_max_concurrent_shells config \<and>
     list_all (call_ok config) (hs_calls s)"

lemma shell_validate_iff: "shell_validate config command = Inr () \<longleftrightarrow> permitted config command"
  using validate_command_iff [of command "se_command_allowlist config" "se_command_blocklist config"]
  by (auto simp: shell_validate_def permitted_def split: sum.splits)

lemma length_filter_update:
  "i < length xs \<Longrightarrow> length (filter P (xs[i := y])) + (if P (xs ! i) then 1 else 0) =
     length (filter P xs) + (if P y then 1 else 0)"
proof (induction xs arbitrary: i)
  case (Cons x xs)
  then show ?case by (cases i) (auto split: if_splits)
qed simp

lemma unat_succ_below:
  assumes "a < (m :: u64)"
  shows "unat (a + 1) = unat a + 1"
proof -
  have "unat m < 2 ^ LENGTH(64)" by (rule unsigned_less)
  then have "unat a + 1 < 2 ^ LENGTH(64)" using assms by (simp add: word_less_nat_alt)
  then show ?thesis by (simp add: unat_word_ariths)
qed

lemma unat_pred_pos:
  assumes "unat a \<noteq> 0"
  shows "unat (a - 1) + 1 = unat (a :: u64)"
proof -
  have "a \<noteq> 0" using assms by auto
  then show ?thesis by (metis assms Suc_eq_plus1 Suc_pred' not_gr_zero unat_minus_one)
qed

lemma call_ok_entry: "call_ok config \<lparr>cl_mode = m, cl_command = command, cl_phase = entry_phase config m command\<rparr>"
  using shell_validate_iff [of config command] by (auto simp: call_ok_def entry_phase_def split: sum.splits)

lemma holding_entry: "entry_phase config m command \<noteq> Holding"
  by (auto simp: entry_phase_def split: sum.splits)

text \<open>One step of a call keeps its invariant, and moves the counter with the slot.\<close>

lemma advance_ok:
  assumes "advance config (cl_phase c) active = (ph, active')" and "call_ok config c"
    and "active \<le> se_max_concurrent_shells config"
  shows "call_ok config (c\<lparr>cl_phase := ph\<rparr>) \<and> active' \<le> se_max_concurrent_shells config \<and>
    unat active' + (if cl_phase c = Holding then 1 else 0) = unat active + (if ph = Holding then 1 else 0)"
proof (cases "cl_phase c")
  case (Exchange current)
  then have cur: "current < se_max_concurrent_shells config" and perm: "permitted config (cl_command c)"
    using assms(2) by (simp_all add: call_ok_def)
  have "current + 1 \<le> se_max_concurrent_shells config"
    using cur unat_succ_below [OF cur] by (simp add: word_le_nat_alt word_less_nat_alt)
  then show ?thesis
    using assms(1,3) Exchange perm unat_succ_below [OF cur]
    by (auto simp: compare_exchange_def call_ok_def split: if_splits)
next
  case (Finished e)
  then have "ph = Finished e" "active' = active" using assms(1) by simp_all
  then show ?thesis using Finished assms(3) by (simp add: call_ok_def)
qed (use assms in \<open>auto simp: load_count_def call_ok_def split: if_splits\<close>)

lemma replace_call_inv:
  assumes inv: "shell_inv config s" and i: "i < length (hs_calls s)" and ok: "call_ok config ((hs_calls s ! i)\<lparr>cl_phase := ph\<rparr>)"
    and le: "active \<le> se_max_concurrent_shells config"
    and slot: "unat active + (if cl_phase (hs_calls s ! i) = Holding then 1 else 0) = unat (hs_active s) + (if ph = Holding then 1 else 0)"
  shows "shell_inv config \<lparr>hs_active = active, hs_calls = (hs_calls s)[i := (hs_calls s ! i)\<lparr>cl_phase := ph\<rparr>]\<rparr>"
proof -
  have "list_all (call_ok config) ((hs_calls s)[i := (hs_calls s ! i)\<lparr>cl_phase := ph\<rparr>])"
    using inv ok by (simp add: shell_inv_def list_all_length nth_list_update [OF i])
  then show ?thesis
    using inv le slot length_filter_update [OF i, of "\<lambda>c. cl_phase c = Holding" "(hs_calls s ! i)\<lparr>cl_phase := ph\<rparr>"]
    by (simp add: shell_inv_def holding_def)
qed

text \<open>Giving a slot back never wraps around: the counter is at least one.\<close>

lemma release_inv:
  assumes inv: "shell_inv config s" and i: "i < length (hs_calls s)" and h: "cl_phase (hs_calls s ! i) = Holding"
    and ph: "ph \<noteq> Holding" and ok: "call_ok config ((hs_calls s ! i)\<lparr>cl_phase := ph\<rparr>)"
  shows "shell_inv config \<lparr>hs_active = fetch_sub_1 (hs_active s), hs_calls = (hs_calls s)[i := (hs_calls s ! i)\<lparr>cl_phase := ph\<rparr>]\<rparr>"
proof (rule replace_call_inv [OF inv i ok])
  have "hs_calls s ! i \<in> set (filter (\<lambda>c. cl_phase c = Holding) (hs_calls s))" using i h by simp
  then have "0 < holding s" unfolding holding_def by (rule length_pos_if_in_set)
  then have "unat (hs_active s) \<noteq> 0" using inv by (simp add: shell_inv_def)
  then have minus: "unat (hs_active s - 1) + 1 = unat (hs_active s)"
    using unat_pred_pos by simp
  then show "unat (fetch_sub_1 (hs_active s)) + (if cl_phase (hs_calls s ! i) = Holding then 1 else 0) =
      unat (hs_active s) + (if ph = Holding then 1 else 0)"
    using h ph by (simp add: fetch_sub_1_def)
  show "fetch_sub_1 (hs_active s) \<le> se_max_concurrent_shells config"
    using inv minus by (simp add: shell_inv_def fetch_sub_1_def word_le_nat_alt)
qed

lemma shell_step_inv: "shell_step config s s' \<Longrightarrow> shell_inv config s \<Longrightarrow> shell_inv config s'"
proof (induction rule: shell_step.induct)
  case (submit s m command)
  then show ?case by (auto simp: shell_inv_def holding_def call_ok_entry holding_entry)
next
  case (progress i s ph active)
  then have "call_ok config (hs_calls s ! i)" "hs_active s \<le> se_max_concurrent_shells config"
    by (simp_all add: shell_inv_def list_all_length)
  then show ?case using advance_ok [OF progress(2)] progress(1,3) by (intro replace_call_inv) auto
next
  case (complete i s deadline spawned e)
  then show ?case by (intro release_inv) (simp_all add: call_ok_def)
next
  case (cancel i s)
  then show ?case by (intro release_inv) (auto simp: call_ok_def shell_inv_def list_all_length)
qed

lemma shell_reachable_inv: "(shell_step config)\<^sup>*\<^sup>* shell_start s \<Longrightarrow> shell_inv config s"
proof (induction rule: rtranclp_induct)
  case base
  then show ?case by (simp add: shell_inv_def shell_start_def holding_def)
qed (rule shell_step_inv)

text \<open>
  C17: over every interleaving of calls, completions and cancellations, the counter is exactly the number
  of calls that hold a slot (it never wraps around, and no slot is lost on any error path), at most
  \<^verbatim>\<open>max_concurrent_shells\<close> do, each for a command whose first word is on the allow list and not on
  the block list; and a call is turned away by the limit only in a moment when all slots
  are taken.
\<close>

theorem shell_slots_exact:
  assumes "(shell_step config)\<^sup>*\<^sup>* shell_start s"
  shows "unat (hs_active s) = holding s \<and> holding s \<le> unat (se_max_concurrent_shells config) \<and>
    (\<forall>c \<in> set (hs_calls s). cl_phase c = Holding \<longrightarrow> permitted config (cl_command c)) \<and>
    (\<forall>c \<in> set (hs_calls s). \<forall>n active. advance config (cl_phase c) (hs_active s) = (Finished (Some (ConcurrencyLimitReached n)), active) \<longrightarrow>
       cl_phase c \<noteq> Finished (Some (ConcurrencyLimitReached n)) \<longrightarrow>
       n = se_max_concurrent_shells config \<and> holding s = unat (se_max_concurrent_shells config))"
proof -
  note inv = shell_reachable_inv [OF assms, unfolded shell_inv_def]
  have full: "n = se_max_concurrent_shells config \<and> holding s = unat (se_max_concurrent_shells config)"
    if "advance config (cl_phase c) (hs_active s) = (Finished (Some (ConcurrencyLimitReached n)), active)"
      and "cl_phase c \<noteq> Finished (Some (ConcurrencyLimitReached n))" for c n active
    using that inv
    by (cases "cl_phase c") (auto simp: load_count_def compare_exchange_def word_le_nat_alt split: if_splits)
  have "permitted config (cl_command c)" if "c \<in> set (hs_calls s)" "cl_phase c = Holding" for c
    using inv that by (auto simp: list_all_iff call_ok_def split: call_phase.splits)
  then show ?thesis using inv full unfolding word_le_nat_alt by metis
qed

text \<open>The witness: two calls race for the last slot; both see it free, one of them gets it, and the
  other, which has to read the counter again, is turned away.\<close>

definition one_shell :: shell_executor_config where
  "one_shell = \<lparr>se_command_allowlist = [''git''], se_command_blocklist = [], se_default_timeout_seconds = 300, se_max_concurrent_shells = 1\<rparr>"

definition race_call :: "call_phase \<Rightarrow> shell_call" where
  "race_call ph = \<lparr>cl_mode = Streamed, cl_command = ''git'', cl_phase = ph\<rparr>"

lemma race_submit: "shell_step one_shell s (s\<lparr>hs_calls := hs_calls s @ [race_call LoadCount]\<rparr>)"
proof -
  have "shell_validate one_shell ''git'' = Inr ()"
    by (simp add: shell_validate_iff permitted_def one_shell_def first_token_def is_ws_def)
  then show ?thesis using shell_step.submit [of one_shell s Streamed "''git''"] by (simp add: entry_phase_def race_call_def)
qed

lemma race_progress:
  assumes "i < length cs" and "cs ! i = race_call ph" and "advance one_shell ph a = (ph', a')"
  shows "shell_step one_shell \<lparr>hs_active = a, hs_calls = cs\<rparr> \<lparr>hs_active = a', hs_calls = cs[i := race_call ph']\<rparr>"
  using shell_step.progress [of i "\<lparr>hs_active = a, hs_calls = cs\<rparr>" one_shell ph' a'] assms by (simp add: race_call_def)

lemma race_reachable:
  "(shell_step one_shell)\<^sup>*\<^sup>* shell_start \<lparr>hs_active = 1, hs_calls = [race_call Holding, race_call LoadCount]\<rparr>"
proof -
  let ?L = "race_call LoadCount" and ?E = "race_call (Exchange 0)"
  let ?s = "\<lambda>a cs. \<lparr>hs_active = a, hs_calls = cs\<rparr>"
  have "shell_step one_shell shell_start (?s 0 [?L])"
    using race_submit [of shell_start] by (simp add: shell_start_def)
  moreover have "shell_step one_shell (?s 0 [?L]) (?s 0 [?L, ?L])" using race_submit [of "?s 0 [?L]"] by simp
  moreover have "shell_step one_shell (?s 0 [?L, ?L]) (?s 0 [?E, ?L])"
    using race_progress [of 0 "[?L, ?L]" LoadCount 0 "Exchange 0" 0] by (simp add: load_count_def one_shell_def)
  moreover have "shell_step one_shell (?s 0 [?E, ?L]) (?s 0 [?E, ?E])"
    using race_progress [of 1 "[?E, ?L]" LoadCount 0 "Exchange 0" 0] by (simp add: load_count_def one_shell_def)
  moreover have "shell_step one_shell (?s 0 [?E, ?E]) (?s 1 [race_call Holding, ?E])"
    using race_progress [of 0 "[?E, ?E]" "Exchange 0" 0 Holding 1] by (simp add: compare_exchange_def)
  moreover have "shell_step one_shell (?s 1 [race_call Holding, ?E]) (?s 1 [race_call Holding, ?L])"
    using race_progress [of 1 "[race_call Holding, ?E]" "Exchange 0" 1 LoadCount 1] by (simp add: compare_exchange_def)
  ultimately show ?thesis by (meson r_into_rtranclp rtranclp_trans)
qed

theorem shell_slots_exact_witness:
  "unat (se_max_concurrent_shells one_shell) = holding \<lparr>hs_active = 1, hs_calls = [race_call Holding, race_call LoadCount]\<rparr> \<and>
   permitted one_shell ''git''"
proof -
  note t = shell_slots_exact [OF race_reachable]
  have "advance one_shell LoadCount 1 = (Finished (Some (ConcurrencyLimitReached 1)), 1)"
    by (simp add: load_count_def one_shell_def)
  then have "unat (se_max_concurrent_shells one_shell) = holding \<lparr>hs_active = 1, hs_calls = [race_call Holding, race_call LoadCount]\<rparr>"
    using t [THEN conjunct2, THEN conjunct2, THEN conjunct2, rule_format, of "race_call LoadCount" 1 1] by (simp add: race_call_def)
  moreover have "permitted one_shell ''git''"
    using t [THEN conjunct2, THEN conjunct2, THEN conjunct1, rule_format, of "race_call Holding"] by (simp add: race_call_def)
  ultimately show ?thesis ..
qed

subsection \<open>Captured and streamed output\<close>

fun chunk_text :: "output_chunk \<Rightarrow> string" where
  "chunk_text (StdoutChunk l) = l"
| "chunk_text (StderrChunk l) = l"
| "chunk_text (DoneChunk _) = []"

lemma read_lines_sent:
  "read_lines buf rs = Some (t, out) \<Longrightarrow> sorted (map fst rs) \<Longrightarrow> t \<le> d \<Longrightarrow> out = buf @ concat (sent_lines d rs)"
proof (induction buf rs rule: read_lines.induct)
  case (3 buf t0 line rs)
  have "t0 \<le> t" if "read_lines b rs' = Some (t, out)" "\<forall>x \<in> set (map fst rs'). t0 \<le> x" for b rs'
    using that by (induction b rs' rule: read_lines.induct) (auto split: if_splits)
  then show ?case using 3 by (fastforce split: if_splits)
qed auto

lemma read_both_sent:
  assumes "read_both d p = Some (so, se)" and "sorted (map fst (pr_stdout p))" and "sorted (map fst (pr_stderr p))"
  shows "so = concat (sent_lines d (pr_stdout p)) \<and> se = concat (sent_lines d (pr_stderr p))"
proof -
  obtain t1 t2 where "read_lines [] (pr_stdout p) = Some (t1, so)" "t1 \<le> d" "read_lines [] (pr_stderr p) = Some (t2, se)" "t2 \<le> d"
    using assms(1) by (auto simp: read_both_def split: option.splits if_splits)
  then show ?thesis using read_lines_sent [of "[]"] assms(2,3) by fastforce
qed

text \<open>
  C27: a stream and a captured call of the same process agree: when the captured call
  returns output, the stream ends with the same output, and the lines it sent are that
  output; when the captured call times out, the final chunk of the stream is marked so and is empty,
  whatever lines were sent. The call returns no answer exactly when both pipes end before the
  deadline and the process does not exit: the timeout does not cover the wait.
\<close>

theorem streaming_matches_execute:
  assumes "sorted (map fst (pr_stdout p))" and "sorted (map fst (pr_stderr p))" and "take_pipes p = Inr ()"
    and "streaming_task d p = (outs, errs, fin)"
  shows "(run_command command d (Inr p) = Some (Inr out) \<longrightarrow> fin = Some (DoneChunk out) \<and> \<not> ou_timed_out out \<and>
        concat (map chunk_text outs) = ou_stdout out \<and> concat (map chunk_text errs) = ou_stderr out)
    \<and> (run_command command d (Inr p) = Some (Inl (ShellTimeout command n)) \<longrightarrow>
        (\<exists>out. fin = Some (DoneChunk out) \<and> ou_timed_out out \<and> ou_stdout out = [] \<and> ou_stderr out = []))
    \<and> (run_command command d (Inr p) = None \<longleftrightarrow> fin = None)
    \<and> (fin = None \<longleftrightarrow> read_both d p \<noteq> None \<and> pr_wait p = None)"
proof -
  have text_of: "concat (map chunk_text (map StdoutChunk ls)) = concat ls"
    "concat (map chunk_text (map StderrChunk ls)) = concat ls" for ls
    by (simp_all add: comp_def)
  have outs: "outs = map StdoutChunk (sent_lines d (pr_stdout p))" "errs = map StderrChunk (sent_lines d (pr_stderr p))"
    using assms(4) by (simp_all add: streaming_task_def)
  show ?thesis
  proof (cases "read_both d p")
    case None
    then show ?thesis using assms(3,4) by (auto simp: run_command_def streaming_task_def)
  next
    case (Some r)
    obtain so se where r: "r = (so, se)" by (cases r)
    have so: "so = concat (sent_lines d (pr_stdout p))" and se: "se = concat (sent_lines d (pr_stderr p))"
      using read_both_sent [OF _ assms(1,2)] Some r by auto
    show ?thesis
    proof (cases "pr_wait p")
      case None
      then show ?thesis using Some r assms(3,4) by (auto simp: run_command_def streaming_task_def)
    next
      case (Some w)
      then show ?thesis
        using \<open>read_both d p = Some r\<close> r assms(3,4) so se outs text_of
        by (cases w) (auto simp: run_command_def streaming_task_def)
    qed
  qed
qed

definition closing_process :: process where
  "closing_process = \<lparr>pr_stdout_piped = True, pr_stderr_piped = True,
     pr_stdout = [(1, ReadOk ''a''), (5, ReadOk ''b''), (6, ReadOk [])], pr_stderr = [(2, ReadOk [])], pr_wait = None, pr_elapsed = 9\<rparr>"

theorem streaming_matches_execute_witness:
  "(\<exists>out. snd (snd (streaming_task 6 (closing_process\<lparr>pr_wait := Some (Inr (Some 0))\<rparr>))) = Some (DoneChunk out) \<and> ou_stdout out = ''ab'') \<and>
   run_command ''git'' 6 (Inr closing_process) = None \<and>
   (\<exists>out. snd (snd (streaming_task 5 closing_process)) = Some (DoneChunk out) \<and> ou_timed_out out \<and> ou_stdout out = [])"
proof (intro conjI)
  let ?p = "closing_process\<lparr>pr_wait := Some (Inr (Some 0))\<rparr>"
  let ?out = "\<lparr>ou_stdout = ''ab'', ou_stderr = [], ou_exit_code = Some 0, ou_timed_out = False, ou_duration_ms = 0\<rparr>"
  have hyps: "sorted (map fst (pr_stdout closing_process))" "sorted (map fst (pr_stderr closing_process))" "take_pipes closing_process = Inr ()"
    "sorted (map fst (pr_stdout ?p))" "sorted (map fst (pr_stderr ?p))" "take_pipes ?p = Inr ()"
    by (simp_all add: closing_process_def take_pipes_def)
  have "run_command ''git'' 6 (Inr ?p) = Some (Inr ?out)"
    by (simp add: run_command_def take_pipes_def read_both_def closing_process_def as_millis_u64_def)
  then have "snd (snd (streaming_task 6 ?p)) = Some (DoneChunk ?out)"
    using streaming_matches_execute [OF hyps(4-6), of 6 _ _ _ "''git''" ?out 0] by (cases "streaming_task 6 ?p") auto
  then show "\<exists>out. snd (snd (streaming_task 6 ?p)) = Some (DoneChunk out) \<and> ou_stdout out = ''ab''" by simp
  have "snd (snd (streaming_task 6 closing_process)) = None"
    by (simp add: streaming_task_def read_both_def closing_process_def)
  then show "run_command ''git'' 6 (Inr closing_process) = None"
    using streaming_matches_execute [OF hyps(1-3), of 6 _ _ _ "''git''"] by (cases "streaming_task 6 closing_process") auto
  have "run_command ''git'' 5 (Inr closing_process) = Some (Inl (ShellTimeout ''git'' 0))"
    by (simp add: run_command_def take_pipes_def read_both_def closing_process_def)
  then show "\<exists>out. snd (snd (streaming_task 5 closing_process)) = Some (DoneChunk out) \<and> ou_timed_out out \<and> ou_stdout out = []"
    using streaming_matches_execute [OF hyps(1-3), of 5 _ _ _ "''git''" _ 0] by (cases "streaming_task 5 closing_process") auto
qed

end
