(* ===== verification/Diff_Tracker.thy ===== *)
theory Diff_Tracker
  imports Rust_Path Rust_Text Std_Collections "HOL-Library.List_Lexorder" "HOL-Library.Char_ord"
begin

text \<open>
  The changes of a session and their unified diffs (\<^verbatim>\<open>crates/coding-module/src/diff_tracker.rs\<close>).
  The line diff itself is that of the crate \<^verbatim>\<open>similar\<close>, a parameter: it splits a text into
  lines, lists all changes, and groups its operations with context. \<open>diff_laws\<close> states what its
  documentation promises. A path is ordered as \<^verbatim>\<open>Path\<close> is, by its components.
\<close>

fun component_rank :: "component \<Rightarrow> nat" where
  "component_rank RootDir = 0"
| "component_rank CurDir = 1"
| "component_rank ParentDir = 2"
| "component_rank (Normal _) = 3"

fun component_name :: "component \<Rightarrow> string" where
  "component_name (Normal n) = n"
| "component_name _ = []"

lemma component_eqI: "component_rank a = component_rank b \<Longrightarrow> component_name a = component_name b \<Longrightarrow> a = b"
  by (cases a; cases b) simp_all

instantiation component :: linorder
begin

definition less_eq_component :: "component \<Rightarrow> component \<Rightarrow> bool" where
  "less_eq_component a b \<longleftrightarrow> component_rank a < component_rank b \<or>
     component_rank a = component_rank b \<and> component_name a \<le> component_name b"

definition less_component :: "component \<Rightarrow> component \<Rightarrow> bool" where
  "less_component a b \<longleftrightarrow> component_rank a < component_rank b \<or>
     component_rank a = component_rank b \<and> component_name a < component_name b"

instance
  by standard (auto simp: less_eq_component_def less_component_def intro: component_eqI)

end

subsection \<open>The diff library\<close>

datatype change_tag = TagEqual | TagDelete | TagInsert

type_synonym change = "change_tag \<times> string"

record diff_op =
  op_old_start :: nat
  op_new_start :: nat
  op_changes :: "change list"

record diff_api =
  da_lines :: "string \<Rightarrow> string list"
  da_all_changes :: "string \<Rightarrow> string \<Rightarrow> change list"
  da_grouped_ops :: "string \<Rightarrow> string \<Rightarrow> nat \<Rightarrow> diff_op list list"

subsection \<open>Data\<close>

record file_change =
  fc_path :: path
  fc_before_content :: "string option"
  fc_after_content :: "string option"
  fc_is_binary :: bool
  fc_timestamp :: int

datatype diff_line = ContextLine string | AdditionLine string | RemovalLine string

record diff_hunk =
  dh_old_start :: nat
  dh_old_count :: nat
  dh_new_start :: nat
  dh_new_count :: nat
  dh_lines :: "diff_line list"

record unified_diff =
  ud_old_path :: path
  ud_new_path :: path
  ud_is_binary :: bool
  ud_hunks :: "diff_hunk list"
  ud_lines_added :: nat
  ud_lines_removed :: nat

fun diff_line_text :: "diff_line \<Rightarrow> string" where
  "diff_line_text (ContextLine l) = '' '' @ l"
| "diff_line_text (AdditionLine l) = ''+'' @ l"
| "diff_line_text (RemovalLine l) = ''-'' @ l"

definition hunk_text :: "diff_hunk \<Rightarrow> string" where
  "hunk_text h =
     ''@@ -'' @ show_nat (dh_old_start h) @ '','' @ show_nat (dh_old_count h) @ '' +'' @ show_nat (dh_new_start h) @ '','' @
       show_nat (dh_new_count h) @ '' @@'' @ [newline] @
     concat (map (\<lambda>l. diff_line_text l @ [newline]) (dh_lines h))"

definition unified_diff_text :: "unified_diff \<Rightarrow> string" where
  "unified_diff_text d =
     (if ud_is_binary d then ''Binary file '' @ path_display (ud_new_path d) @ '' changed'' @ [newline]
      else ''--- '' @ path_display (ud_old_path d) @ [newline] @ ''+++ '' @ path_display (ud_new_path d) @ [newline] @
        concat (map hunk_text (ud_hunks d)))"

record session_change_summary =
  cs_modified_files :: "path list"
  cs_total_lines_added :: nat
  cs_total_lines_removed :: nat

record file_state =
  fs_original_content :: "string option"
  fs_current_content :: "string option"
  fs_is_binary :: bool

record change_tracker =
  ct_file_states :: "(path, file_state) hashmap"
  ct_modifications :: "file_change list"
  ct_context_lines :: nat

definition with_context_lines :: "nat \<Rightarrow> change_tracker" where
  "with_context_lines n = \<lparr>ct_file_states = hm_empty, ct_modifications = [], ct_context_lines = n\<rparr>"

definition tracker_new :: change_tracker where
  "tracker_new = \<lparr>ct_file_states = hm_empty, ct_modifications = [], ct_context_lines = 3\<rparr>"

subsection \<open>Operations\<close>

definition BINARY_CHECK_SIZE :: nat where
  "BINARY_CHECK_SIZE = 8192"

definition is_binary_content :: "string \<Rightarrow> bool" where
  "is_binary_content content = (CHR 0x00 \<in> set (take (min (length content) BINARY_CHECK_SIZE) content))"

definition map_or_binary :: "string option \<Rightarrow> bool" where
  "map_or_binary c = (case c of None \<Rightarrow> False | Some s \<Rightarrow> is_binary_content s)"

definition record_change :: "int \<Rightarrow> path \<Rightarrow> string option \<Rightarrow> string option \<Rightarrow> change_tracker \<Rightarrow> change_tracker" where
  "record_change now p before_c after_c t =
     (let is_binary = map_or_binary before_c \<or> map_or_binary after_c;
          state = (case hm_get (ct_file_states t) p of
                     Some s \<Rightarrow> s
                   | None \<Rightarrow> \<lparr>fs_original_content = before_c, fs_current_content = None, fs_is_binary = is_binary\<rparr>);
          state' = state\<lparr>fs_current_content := after_c, fs_is_binary := fs_is_binary state \<or> is_binary\<rparr>
      in t\<lparr>ct_file_states := hm_insert p state' (ct_file_states t),
           ct_modifications := ct_modifications t @
             [\<lparr>fc_path = p, fc_before_content = before_c, fc_after_content = after_c, fc_is_binary = is_binary, fc_timestamp = now\<rparr>]\<rparr>)"

text \<open>The loops of \<open>generate_unified_diff\<close>: one change, one group, all groups with the totals.\<close>

record hunk_acc =
  ha_lines :: "diff_line list"
  ha_old_count :: nat
  ha_new_count :: nat
  ha_added :: nat
  ha_removed :: nat

fun push_change :: "change \<Rightarrow> hunk_acc \<Rightarrow> hunk_acc" where
  "push_change (TagEqual, v) a = a\<lparr>ha_lines := ha_lines a @ [ContextLine (trim_end_char newline v)],
     ha_old_count := ha_old_count a + 1, ha_new_count := ha_new_count a + 1\<rparr>"
| "push_change (TagInsert, v) a = a\<lparr>ha_lines := ha_lines a @ [AdditionLine (trim_end_char newline v)],
     ha_new_count := ha_new_count a + 1, ha_added := ha_added a + 1\<rparr>"
| "push_change (TagDelete, v) a = a\<lparr>ha_lines := ha_lines a @ [RemovalLine (trim_end_char newline v)],
     ha_old_count := ha_old_count a + 1, ha_removed := ha_removed a + 1\<rparr>"

definition hunk_of_group :: "string \<Rightarrow> string \<Rightarrow> diff_op list \<Rightarrow> nat \<Rightarrow> nat \<Rightarrow> diff_hunk \<times> nat \<times> nat" where
  "hunk_of_group old_content new_content g added removed =
     (let (old_start, new_start) = (case g of [] \<Rightarrow> (0, 0) | op # _ \<Rightarrow> (op_old_start op + 1, op_new_start op + 1));
          a = fold (\<lambda>op. fold push_change (op_changes op)) g
                \<lparr>ha_lines = [], ha_old_count = 0, ha_new_count = 0, ha_added = added, ha_removed = removed\<rparr>;
          (old_start, old_count) = (if old_content = [] \<and> old_start = 1 then (0, 0) else (old_start, ha_old_count a));
          (new_start, new_count) = (if new_content = [] \<and> new_start = 1 then (0, 0) else (new_start, ha_new_count a))
      in (\<lparr>dh_old_start = old_start, dh_old_count = old_count, dh_new_start = new_start, dh_new_count = new_count,
            dh_lines = ha_lines a\<rparr>, ha_added a, ha_removed a))"

fun hunks_of_groups :: "string \<Rightarrow> string \<Rightarrow> diff_op list list \<Rightarrow> nat \<Rightarrow> nat \<Rightarrow> diff_hunk list \<times> nat \<times> nat" where
  "hunks_of_groups old_content new_content [] added removed = ([], added, removed)"
| "hunks_of_groups old_content new_content (g # gs) added removed =
     (let (h, added1, removed1) = hunk_of_group old_content new_content g added removed;
          (hs, added2, removed2) = hunks_of_groups old_content new_content gs added1 removed1
      in (h # hs, added2, removed2))"

definition generate_unified_diff :: "diff_api \<Rightarrow> path \<Rightarrow> path \<Rightarrow> string \<Rightarrow> string \<Rightarrow> nat \<Rightarrow> unified_diff" where
  "generate_unified_diff api old_path new_path old_content new_content context_lines =
     (let (hunks, added, removed) =
            hunks_of_groups old_content new_content (da_grouped_ops api old_content new_content context_lines) 0 0
      in \<lparr>ud_old_path = old_path, ud_new_path = new_path, ud_is_binary = False, ud_hunks = hunks,
          ud_lines_added = added, ud_lines_removed = removed\<rparr>)"

definition content_or_empty :: "string option \<Rightarrow> string" where
  "content_or_empty c = (case c of Some s \<Rightarrow> s | None \<Rightarrow> [])"

definition get_cumulative_diff :: "diff_api \<Rightarrow> path \<Rightarrow> change_tracker \<Rightarrow> unified_diff option" where
  "get_cumulative_diff api p t =
     (case hm_get (ct_file_states t) p of
        None \<Rightarrow> None
      | Some state \<Rightarrow>
          if fs_is_binary state then
            Some \<lparr>ud_old_path = p, ud_new_path = p, ud_is_binary = True, ud_hunks = [], ud_lines_added = 0, ud_lines_removed = 0\<rparr>
          else Some (generate_unified_diff api p p (content_or_empty (fs_original_content state))
                 (content_or_empty (fs_current_content state)) (ct_context_lines t)))"

definition get_all_diffs :: "diff_api \<Rightarrow> change_tracker \<Rightarrow> unified_diff list" where
  "get_all_diffs api t = List.map_filter (\<lambda>p. get_cumulative_diff api p t) (map fst (ct_file_states t))"

text \<open>The loop of \<open>session_summary\<close>: paths, lines added, lines removed.\<close>

fun count_change :: "change \<Rightarrow> nat \<times> nat \<Rightarrow> nat \<times> nat" where
  "count_change (TagInsert, _) (added, removed) = (added + 1, removed)"
| "count_change (TagDelete, _) (added, removed) = (added, removed + 1)"
| "count_change (TagEqual, _) (added, removed) = (added, removed)"

fun summary_loop :: "diff_api \<Rightarrow> (path \<times> file_state) list \<Rightarrow> path list \<Rightarrow> nat \<times> nat \<Rightarrow> path list \<times> nat \<times> nat" where
  "summary_loop api [] files totals = (files, totals)"
| "summary_loop api ((p, state) # rest) files totals =
     (if fs_is_binary state then summary_loop api rest (files @ [p]) totals
      else summary_loop api rest (files @ [p])
             (fold count_change (da_all_changes api (content_or_empty (fs_original_content state))
                (content_or_empty (fs_current_content state))) totals))"

definition change_summary :: "diff_api \<Rightarrow> change_tracker \<Rightarrow> session_change_summary" where
  "change_summary api t =
     (let (files, added, removed) = summary_loop api (ct_file_states t) [] (0, 0)
      in \<lparr>cs_modified_files = sort files, cs_total_lines_added = added, cs_total_lines_removed = removed\<rparr>)"

definition tracker_clear :: "change_tracker \<Rightarrow> change_tracker" where
  "tracker_clear t = t\<lparr>ct_file_states := hm_empty, ct_modifications := []\<rparr>"

definition tracked_file_count :: "change_tracker \<Rightarrow> nat" where
  "tracked_file_count t = length (ct_file_states t)"

definition modification_count :: "change_tracker \<Rightarrow> nat" where
  "modification_count t = length (ct_modifications t)"

section \<open>Properties\<close>

subsection \<open>What the diff library promises\<close>

definition keeps_old :: "change \<Rightarrow> bool" where
  "keeps_old c \<longleftrightarrow> fst c \<noteq> TagInsert"

definition keeps_new :: "change \<Rightarrow> bool" where
  "keeps_new c \<longleftrightarrow> fst c \<noteq> TagDelete"

abbreviation group_changes :: "diff_op list \<Rightarrow> change list" where
  "group_changes g \<equiv> concat (map op_changes g)"

text \<open>The groups are the changes in their order with unchanged lines left out in between, and the
  first operation of a group says how many lines of either text are before it.\<close>

fun groups_cover :: "nat \<Rightarrow> nat \<Rightarrow> change list \<Rightarrow> diff_op list list \<Rightarrow> bool" where
  "groups_cover i j cs [] \<longleftrightarrow> list_all (\<lambda>c. fst c = TagEqual) cs"
| "groups_cover i j cs (g # gs) \<longleftrightarrow>
     (\<exists>skip rest. cs = skip @ group_changes g @ rest \<and> list_all (\<lambda>c. fst c = TagEqual) skip \<and> g \<noteq> [] \<and>
        op_old_start (hd g) = i + length skip \<and> op_new_start (hd g) = j + length skip \<and>
        groups_cover (i + length skip + length (filter keeps_old (group_changes g)))
          (j + length skip + length (filter keeps_new (group_changes g))) rest gs)"

definition diff_laws :: "diff_api \<Rightarrow> bool" where
  "diff_laws api \<longleftrightarrow>
     da_lines api [] = [] \<and>
     (\<forall>old_c new_c. map snd (filter keeps_old (da_all_changes api old_c new_c)) = da_lines api old_c \<and>
        map snd (filter keeps_new (da_all_changes api old_c new_c)) = da_lines api new_c \<and>
        (\<forall>n. groups_cover 0 0 (da_all_changes api old_c new_c) (da_grouped_ops api old_c new_c n)))"

subsection \<open>Hunks as patches\<close>

definition line_text :: "change \<Rightarrow> string" where
  "line_text c = trim_end_char newline (snd c)"

definition line_of :: "change \<Rightarrow> diff_line" where
  "line_of c = (case fst c of TagEqual \<Rightarrow> ContextLine (line_text c) | TagInsert \<Rightarrow> AdditionLine (line_text c)
     | TagDelete \<Rightarrow> RemovalLine (line_text c))"

text \<open>Applying a patch: the lines of a hunk consume lines of the text, and a hunk is found at its start.\<close>

fun apply_lines :: "diff_line list \<Rightarrow> string list \<Rightarrow> (string list \<times> string list) option" where
  "apply_lines [] old = Some ([], old)"
| "apply_lines (AdditionLine l # ds) old = map_option (\<lambda>(out, rest). (l # out, rest)) (apply_lines ds old)"
| "apply_lines (ContextLine l # ds) (x # old) =
     (if x = l then map_option (\<lambda>(out, rest). (l # out, rest)) (apply_lines ds old) else None)"
| "apply_lines (RemovalLine l # ds) (x # old) = (if x = l then apply_lines ds old else None)"
| "apply_lines _ [] = None"

fun apply_hunks :: "nat \<Rightarrow> diff_hunk list \<Rightarrow> string list \<Rightarrow> string list option" where
  "apply_hunks pos [] old = Some old"
| "apply_hunks pos (h # hs) old =
     (let start = dh_old_start h - 1; k = start - pos in
      if start < pos \<or> k > length old then None
      else (case apply_lines (dh_lines h) (drop k old) of
              None \<Rightarrow> None
            | Some (out, rest) \<Rightarrow>
                map_option (\<lambda>r. take k old @ out @ r) (apply_hunks (start + dh_old_count h) hs rest)))"

definition diff_lines :: "diff_api \<Rightarrow> string \<Rightarrow> string list" where
  "diff_lines api s = map (trim_end_char newline) (da_lines api s)"

lemma fold_push_change:
  "fold push_change cs a = a\<lparr>ha_lines := ha_lines a @ map line_of cs,
     ha_old_count := ha_old_count a + length (filter keeps_old cs), ha_new_count := ha_new_count a + length (filter keeps_new cs),
     ha_added := ha_added a + length (filter (\<lambda>c. fst c = TagInsert) cs),
     ha_removed := ha_removed a + length (filter (\<lambda>c. fst c = TagDelete) cs)\<rparr>"
proof (induction cs arbitrary: a)
  case (Cons c cs)
  obtain tag v where "c = (tag, v)" by (cases c)
  with Cons show ?case by (cases tag) (simp_all add: keeps_old_def keeps_new_def line_of_def line_text_def)
qed simp

lemma fold_groups: "fold (\<lambda>op. fold push_change (op_changes op)) g a = fold push_change (group_changes g) a"
  by (induction g arbitrary: a) simp_all

lemma hunk_of_group_exact:
  assumes "hunk_of_group old_c new_c g added removed = (h, added', removed')" and "g \<noteq> []"
    and "old_c = [] \<Longrightarrow> filter keeps_old (group_changes g) = []"
  shows "dh_lines h = map line_of (group_changes g) \<and> dh_old_start h - 1 = op_old_start (hd g) \<and>
    dh_old_count h = length (filter keeps_old (group_changes g)) \<and>
    added' = added + length (filter (\<lambda>c. fst c = TagInsert) (group_changes g)) \<and>
    removed' = removed + length (filter (\<lambda>c. fst c = TagDelete) (group_changes g))"
  using assms by (cases g) (auto simp: hunk_of_group_def fold_groups fold_push_change Let_def split: if_splits)

lemma apply_lines_exact:
  "apply_lines (map line_of cs) (map line_text (filter keeps_old cs) @ rest) = Some (map line_text (filter keeps_new cs), rest)"
proof (induction cs)
  case (Cons c cs)
  then show ?case by (cases "fst c") (simp_all add: line_of_def keeps_old_def keeps_new_def)
qed simp

lemma filter_equal:
  assumes "list_all (\<lambda>c. fst c = TagEqual) cs"
  shows "filter keeps_old cs = cs" "filter keeps_new cs = cs" "filter (\<lambda>c. fst c = TagInsert) cs = []" "filter (\<lambda>c. fst c = TagDelete) cs = []"
  using assms by (auto simp: list_all_iff keeps_old_def keeps_new_def filter_empty_conv filter_id_conv)

lemma hunks_patch:
  assumes "groups_cover i j cs gs" and "old_c = [] \<Longrightarrow> filter keeps_old cs = []"
    and "hunks_of_groups old_c new_c gs added removed = (hs, added', removed')"
  shows "apply_hunks i hs (map line_text (filter keeps_old cs)) = Some (map line_text (filter keeps_new cs)) \<and>
    added' = added + length (filter (\<lambda>c. fst c = TagInsert) cs) \<and> removed' = removed + length (filter (\<lambda>c. fst c = TagDelete) cs)"
  using assms
proof (induction gs arbitrary: i j cs hs added removed)
  case Nil
  then show ?case by (auto simp: filter_equal)
next
  case (Cons g gs)
  obtain skip rest where cs: "cs = skip @ group_changes g @ rest" and eq: "list_all (\<lambda>c. fst c = TagEqual) skip" and ne: "g \<noteq> []"
    and start: "op_old_start (hd g) = i + length skip"
    and cover: "groups_cover (i + length skip + length (filter keeps_old (group_changes g)))
          (j + length skip + length (filter keeps_new (group_changes g))) rest gs"
    using Cons.prems(1) by auto
  obtain h a1 r1 hs' where h: "hunk_of_group old_c new_c g added removed = (h, a1, r1)"
      and hs: "hunks_of_groups old_c new_c gs a1 r1 = (hs', added', removed')" "hs = h # hs'"
    using Cons.prems(3) by (auto split: prod.splits)
  have he: "dh_lines h = map line_of (group_changes g)" "dh_old_start h - 1 = i + length skip"
      "dh_old_count h = length (filter keeps_old (group_changes g))"
      "a1 = added + length (filter (\<lambda>c. fst c = TagInsert) (group_changes g))"
      "r1 = removed + length (filter (\<lambda>c. fst c = TagDelete) (group_changes g))"
    using hunk_of_group_exact [OF h ne] Cons.prems(2) start by (simp_all add: cs)
  note IH = Cons.IH [OF cover _ hs(1)]
  show ?case
    using IH Cons.prems(2) he filter_equal [OF eq] apply_lines_exact [of "group_changes g" "map line_text (filter keeps_old rest)"]
    by (simp add: cs hs(2) Let_def)
qed

subsection \<open>The history of a session\<close>

type_synonym edit = "int \<times> path \<times> string option \<times> string option"

definition run_changes :: "edit list \<Rightarrow> change_tracker \<Rightarrow> change_tracker" where
  "run_changes = fold (\<lambda>(now, p, before_c, after_c). record_change now p before_c after_c)"

definition edits_of :: "path \<Rightarrow> edit list \<Rightarrow> (string option \<times> string option) list" where
  "edits_of p es = map (snd \<circ> snd) (filter (\<lambda>e. fst (snd e) = p) es)"

definition edit_binary :: "string option \<times> string option \<Rightarrow> bool" where
  "edit_binary e \<longleftrightarrow> map_or_binary (fst e) \<or> map_or_binary (snd e)"

definition tracked_session :: "(string option \<times> string option) list \<Rightarrow> file_state option" where
  "tracked_session es = (if es = [] then None
     else Some \<lparr>fs_original_content = fst (hd es), fs_current_content = snd (last es), fs_is_binary = list_ex edit_binary es\<rparr>)"

lemma tracked_session_snoc:
  "tracked_session (es @ [(b, a)]) =
     Some ((case tracked_session es of Some s \<Rightarrow> s | None \<Rightarrow> \<lparr>fs_original_content = b, fs_current_content = None, fs_is_binary = edit_binary (b, a)\<rparr>)
       \<lparr>fs_current_content := a, fs_is_binary := (case tracked_session es of Some s \<Rightarrow> fs_is_binary s | None \<Rightarrow> False) \<or> edit_binary (b, a)\<rparr>)"
  by (auto simp: tracked_session_def)

lemma tracked_state:
  "hm_get (ct_file_states (run_changes es (with_context_lines n))) p = tracked_session (edits_of p es)"
proof (induction es rule: rev_induct)
  case Nil
  then show ?case by (simp add: run_changes_def with_context_lines_def tracked_session_def edits_of_def)
next
  case (snoc e es)
  obtain now q b a where e: "e = (now, q, b, a)" by (cases e) auto
  show ?case
  proof (cases "q = p")
    case True
    then have "edits_of p (es @ [e]) = edits_of p es @ [(b, a)]" by (simp add: edits_of_def e)
    then show ?thesis using snoc True
      by (auto simp: run_changes_def e record_change_def Let_def tracked_session_snoc edit_binary_def split: option.splits)
  next
    case False
    then have "edits_of p (es @ [e]) = edits_of p es" by (simp add: edits_of_def e)
    then show ?thesis using snoc False by (simp add: run_changes_def e record_change_def Let_def)
  qed
qed

lemma run_changes_frame:
  "ct_context_lines (run_changes es t) = ct_context_lines t"
  "hm_inv (ct_file_states t) \<Longrightarrow> hm_inv (ct_file_states (run_changes es t))"
  by (induction es arbitrary: t) (auto simp: run_changes_def record_change_def Let_def)

lemma diff_patches:
  assumes "diff_laws api"
  shows "apply_hunks 0 (ud_hunks (generate_unified_diff api p q old_c new_c n)) (diff_lines api old_c) = Some (diff_lines api new_c)
    \<and> ud_lines_added (generate_unified_diff api p q old_c new_c n) = length (filter (\<lambda>c. fst c = TagInsert) (da_all_changes api old_c new_c))
    \<and> ud_lines_removed (generate_unified_diff api p q old_c new_c n) = length (filter (\<lambda>c. fst c = TagDelete) (da_all_changes api old_c new_c))"
proof -
  let ?cs = "da_all_changes api old_c new_c"
  have snd_old: "map snd (filter keeps_old ?cs) = da_lines api old_c" and snd_new: "map snd (filter keeps_new ?cs) = da_lines api new_c"
    and cover: "groups_cover 0 0 ?cs (da_grouped_ops api old_c new_c n)" and empty: "da_lines api [] = []"
    using assms by (simp_all add: diff_laws_def)
  have lines: "map line_text (filter keeps_old ?cs) = diff_lines api old_c" "map line_text (filter keeps_new ?cs) = diff_lines api new_c"
    unfolding diff_lines_def snd_old [symmetric] snd_new [symmetric] by (simp_all add: line_text_def)
  obtain hs added removed where hs: "hunks_of_groups old_c new_c (da_grouped_ops api old_c new_c n) 0 0 = (hs, added, removed)"
    by (cases "hunks_of_groups old_c new_c (da_grouped_ops api old_c new_c n) 0 0") auto
  have none: "filter keeps_old ?cs = []" if "old_c = []" using snd_old empty that by (metis map_is_Nil_conv)
  show ?thesis using hunks_patch [OF cover none hs] by (simp add: generate_unified_diff_def hs lines)
qed


subsection \<open>The summary of a session\<close>

lemma fold_count_change:
  "fold count_change cs (a, r) = (a + length (filter (\<lambda>c. fst c = TagInsert) cs), r + length (filter (\<lambda>c. fst c = TagDelete) cs))"
proof (induction cs arbitrary: a r)
  case (Cons c cs)
  obtain tag v where "c = (tag, v)" by (cases c)
  with Cons show ?case by (cases tag) simp_all
qed simp

definition diff_of_state :: "diff_api \<Rightarrow> nat \<Rightarrow> path \<Rightarrow> file_state \<Rightarrow> unified_diff" where
  "diff_of_state api n p state =
     the (get_cumulative_diff api p \<lparr>ct_file_states = [(p, state)], ct_modifications = [], ct_context_lines = n\<rparr>)"

lemma get_cumulative_diff_state:
  "get_cumulative_diff api p t = map_option (diff_of_state api (ct_context_lines t) p) (hm_get (ct_file_states t) p)"
  by (auto simp: get_cumulative_diff_def diff_of_state_def split: option.split)

lemma summary_loop_exact:
  assumes "diff_laws api"
  shows "summary_loop api m files (a, r) =
    (files @ map fst m, a + (\<Sum>(p, s) \<leftarrow> m. ud_lines_added (diff_of_state api n p s)),
     r + (\<Sum>(p, s) \<leftarrow> m. ud_lines_removed (diff_of_state api n p s)))"
proof (induction m arbitrary: files a r)
  case (Cons x m)
  obtain p s where x: "x = (p, s)" by (cases x)
  show ?case
  proof (cases "fs_is_binary s")
    case True
    then show ?thesis using Cons by (simp add: x diff_of_state_def get_cumulative_diff_def)
  next
    case False
    then show ?thesis using Cons diff_patches [OF assms] by (simp add: x diff_of_state_def get_cumulative_diff_def fold_count_change)
  qed
qed simp

lemma all_diffs_exact:
  assumes "hm_inv (ct_file_states t)"
  shows "get_all_diffs api t = map (\<lambda>(p, s). diff_of_state api (ct_context_lines t) p s) (ct_file_states t)"
proof -
  have "get_cumulative_diff api p t = Some (diff_of_state api (ct_context_lines t) p s)" if "(p, s) \<in> set (ct_file_states t)" for p s
    using that assms by (simp add: get_cumulative_diff_state hm_inv_def)
  then have "List.map_filter (\<lambda>p. get_cumulative_diff api p t) (map fst m) = map (\<lambda>(p, s). diff_of_state api (ct_context_lines t) p s) m"
    if "set m \<subseteq> set (ct_file_states t)" for m
    using that by (induction m) (auto simp: List.map_filter_simps)
  then show ?thesis by (simp add: get_all_diffs_def)
qed

text \<open>
  the summary of a session agrees with the diffs it summarises: its totals are the sums over the
  cumulative diffs of all files, and it lists every changed file once, in the order of paths.
\<close>

theorem change_summary_agrees:
  assumes "diff_laws api" and "t = run_changes es (with_context_lines n)"
  shows "cs_total_lines_added (change_summary api t) = (\<Sum>d \<leftarrow> get_all_diffs api t. ud_lines_added d) \<and>
    cs_total_lines_removed (change_summary api t) = (\<Sum>d \<leftarrow> get_all_diffs api t. ud_lines_removed d) \<and>
    set (cs_modified_files (change_summary api t)) = {p. edits_of p es \<noteq> []} \<and>
    sorted_wrt (<) (cs_modified_files (change_summary api t))"
proof -
  have inv: "hm_inv (ct_file_states t)"
    unfolding assms(2) by (rule run_changes_frame) (simp add: with_context_lines_def)
  have loop: "summary_loop api (ct_file_states t) [] (0, 0) =
      (map fst (ct_file_states t), (\<Sum>(p, s) \<leftarrow> ct_file_states t. ud_lines_added (diff_of_state api (ct_context_lines t) p s)),
       (\<Sum>(p, s) \<leftarrow> ct_file_states t. ud_lines_removed (diff_of_state api (ct_context_lines t) p s)))"
    using summary_loop_exact [OF assms(1), of "ct_file_states t" "[]" 0 0] by simp
  have "p \<in> fst ` set (ct_file_states t) \<longleftrightarrow> edits_of p es \<noteq> []" for p
    using tracked_state [of es n p] map_of_eq_None_iff [of "ct_file_states t" p] by (auto simp: assms(2) tracked_session_def split: if_splits)
  then have "set (cs_modified_files (change_summary api t)) = {p. edits_of p es \<noteq> []}"
    by (auto simp: change_summary_def loop)
  moreover have "sorted_wrt (<) (cs_modified_files (change_summary api t))"
    using inv by (simp add: change_summary_def loop hm_inv_def strict_sorted_iff)
  ultimately show ?thesis
    by (simp add: change_summary_def loop all_diffs_exact [OF inv] comp_def case_prod_unfold)
qed

subsection \<open>A concrete diff\<close>

text \<open>The coarsest diff that keeps the laws: a changed text is deleted and inserted as a whole.\<close>

fun split_inclusive :: "string \<Rightarrow> string list" where
  "split_inclusive [] = []"
| "split_inclusive (c # cs) =
     (if c = newline then [c] # split_inclusive cs
      else (case split_inclusive cs of [] \<Rightarrow> [[c]] | l # ls \<Rightarrow> (c # l) # ls))"

definition replace_changes :: "string \<Rightarrow> string \<Rightarrow> change list" where
  "replace_changes old_c new_c =
     (if old_c = new_c then map (Pair TagEqual) (split_inclusive old_c)
      else map (Pair TagDelete) (split_inclusive old_c) @ map (Pair TagInsert) (split_inclusive new_c))"

definition replace_diff :: diff_api where
  "replace_diff = \<lparr>da_lines = split_inclusive, da_all_changes = replace_changes,
     da_grouped_ops = (\<lambda>old_c new_c n. if old_c = new_c then []
       else [[\<lparr>op_old_start = 0, op_new_start = 0, op_changes = replace_changes old_c new_c\<rparr>]])\<rparr>"

lemma replace_diff_laws: "diff_laws replace_diff"
proof -
  have "filter keeps_old (map (Pair TagDelete) ls) = map (Pair TagDelete) ls" "filter keeps_new (map (Pair TagInsert) ls) = map (Pair TagInsert) ls"
    "filter keeps_old (map (Pair TagInsert) ls) = []" "filter keeps_new (map (Pair TagDelete) ls) = []"
    "filter keeps_old (map (Pair TagEqual) ls) = map (Pair TagEqual) ls" "filter keeps_new (map (Pair TagEqual) ls) = map (Pair TagEqual) ls" for ls
    by (simp_all add: keeps_old_def keeps_new_def filter_empty_conv filter_id_conv)
  then show ?thesis by (simp add: diff_laws_def replace_diff_def replace_changes_def comp_def list_all_iff)
qed

definition example_edits :: "edit list" where
  "example_edits = [(1, [Normal ''b''], Some ''x'', Some ''y''), (2, [Normal ''a''], None, Some ''p''), (3, [Normal ''b''], Some ''y'', Some ''z'')]"


theorem change_summary_agrees_witness:
  "set (cs_modified_files (change_summary replace_diff (run_changes example_edits (with_context_lines 3)))) = {[Normal ''a''], [Normal ''b'']}"
proof -
  have "{p. edits_of p example_edits \<noteq> []} = {[Normal ''a''], [Normal ''b'']}"
    by (auto simp: edits_of_def example_edits_def)
  then show ?thesis using change_summary_agrees [OF replace_diff_laws refl, of example_edits 3] by simp
qed

end
