(* ===== verification/Alerting.thy ===== *)
theory Alerting
  imports Rust_Strings Std_Collections Complex_Main
begin

text \<open>
  The alert engine (\<^verbatim>\<open>crates/common/src/alerting.rs\<close>): rules over the metrics, with a cooldown per
  rule name. The metrics are read at the time of an evaluation (\<open>metrics_view\<close>); their values are finite
  floating-point numbers, here reals, and \<open>f64_api\<close> holds the rounding of a result to the nearest float
  and the formatting of a float with a number of decimals, which no decision depends on.
\<close>

datatype alert_severity = SevInfo | SevWarning | SevCritical

datatype alert_condition =
    ErrorRateAbove real
  | CpuAbove real
  | MemoryAbove u64
  | AgentUnresponsive u64

record alert_rule =
  ar_name :: string
  ar_condition :: alert_condition
  ar_severity :: alert_severity
  ar_cooldown_seconds :: u64

record alert_config =
  al_rules :: "alert_rule list"
  al_notification_channel :: string

definition default_alert_config :: alert_config where
  "default_alert_config = \<lparr>al_rules = [], al_notification_channel = []\<rparr>"

record triggered_alert =
  ta_rule_name :: string
  ta_severity :: alert_severity
  ta_message :: string
  ta_current_value :: real
  ta_triggered_at :: string

record alert_engine =
  en_config :: alert_config
  en_last_fired :: "(string, int) hashmap"

definition engine_new :: "alert_config \<Rightarrow> alert_engine" where
  "engine_new config = \<lparr>en_config = config, en_last_fired = hm_empty\<rparr>"

definition update_alert_config :: "alert_config \<Rightarrow> alert_engine \<Rightarrow> alert_engine" where
  "update_alert_config config e = e\<lparr>en_config := config\<rparr>"

record http_metric =
  hm_labels :: "(string \<times> string) list"
  hm_counter :: real

record metrics_view =
  mv_http_requests :: "http_metric list list"
  mv_cpu_percent :: real
  mv_memory_bytes :: real
  mv_uptime_seconds :: real
  mv_rfc3339_now :: string

record f64_api =
  f64_round :: "real \<Rightarrow> real"
  f64_format :: "nat \<Rightarrow> real \<Rightarrow> string"

text \<open>\<^verbatim>\<open>as u64\<close> truncates and saturates.\<close>

definition f64_as_u64 :: "real \<Rightarrow> u64" where
  "f64_as_u64 v = of_int (min (max \<lfloor>v\<rfloor> 0) (2 ^ 64 - 1))"

definition count_metric :: "http_metric \<Rightarrow> u64 \<times> u64 \<Rightarrow> u64 \<times> u64" where
  "count_metric m = (\<lambda>(total_requests, error_requests).
     let n = f64_as_u64 (hm_counter m)
     in (total_requests + n,
         fold (\<lambda>(name, v) e. if name = ''status'' \<and> starts_with_str v ''5'' then e + n else e) (hm_labels m) error_requests))"

definition compute_error_rate :: "f64_api \<Rightarrow> metrics_view \<Rightarrow> real" where
  "compute_error_rate f mv =
     (let (total_requests, error_requests) = fold (\<lambda>mf. fold count_metric mf) (mv_http_requests mv) (0, 0)
      in if total_requests = 0 then 0
         else f64_round f (f64_round f (real (unat error_requests)) / f64_round f (real (unat total_requests))))"

definition evaluate_single_rule :: "f64_api \<Rightarrow> metrics_view \<Rightarrow> alert_rule \<Rightarrow> triggered_alert option" where
  "evaluate_single_rule f mv rule =
     (let alert = (\<lambda>message v. \<lparr>ta_rule_name = ar_name rule, ta_severity = ar_severity rule, ta_message = message,
                    ta_current_value = v, ta_triggered_at = mv_rfc3339_now mv\<rparr>)
      in case ar_condition rule of
        ErrorRateAbove threshold \<Rightarrow>
          let error_rate = compute_error_rate f mv in
          if error_rate > threshold then
            Some (alert (''Error rate '' @ f64_format f 2 (f64_round f (error_rate * 100)) @ ''% exceeds threshold '' @
                    f64_format f 2 (f64_round f (threshold * 100)) @ ''%'') error_rate)
          else None
      | CpuAbove threshold \<Rightarrow>
          let cpu = mv_cpu_percent mv in
          if cpu > threshold then
            Some (alert (''CPU usage '' @ f64_format f 1 cpu @ ''% exceeds threshold '' @ f64_format f 1 threshold @ ''%'') cpu)
          else None
      | MemoryAbove threshold \<Rightarrow>
          let mem = mv_memory_bytes mv in
          if mem > f64_round f (real (unat threshold)) then
            Some (alert (''Memory usage '' @ show_nat (unat (f64_as_u64 mem)) @ '' bytes exceeds threshold '' @
                    show_nat (unat threshold) @ '' bytes'') mem)
          else None
      | AgentUnresponsive max_seconds \<Rightarrow>
          if mv_uptime_seconds mv = 0 then
            Some (alert (''Agent appears unresponsive (uptime gauge is 0, threshold: '' @ show_nat (unat max_seconds) @ ''s)'') 0)
          else None)"

text \<open>Times are nanoseconds of the monotonic clock; \<open>duration_since\<close> is not negative.\<close>

definition cooling_down :: "int \<Rightarrow> alert_rule \<Rightarrow> (string, int) hashmap \<Rightarrow> bool" where
  "cooling_down now rule fired =
     (case hm_get fired (ar_name rule) of
        None \<Rightarrow> False
      | Some t \<Rightarrow> max (now - t) 0 < uint (ar_cooldown_seconds rule) * 10 ^ 9)"

fun evaluate_loop :: "f64_api \<Rightarrow> metrics_view \<Rightarrow> int \<Rightarrow> alert_rule list \<Rightarrow> (string, int) hashmap \<Rightarrow>
    triggered_alert list \<times> (string, int) hashmap" where
  "evaluate_loop f mv now [] fired = ([], fired)"
| "evaluate_loop f mv now (rule # rules) fired =
     (if cooling_down now rule fired then evaluate_loop f mv now rules fired
      else (case evaluate_single_rule f mv rule of
              None \<Rightarrow> evaluate_loop f mv now rules fired
            | Some alert \<Rightarrow>
                let (alerts, fired') = evaluate_loop f mv now rules (hm_insert (ar_name rule) now fired)
                in (alert # alerts, fired')))"

definition evaluate_rules :: "f64_api \<Rightarrow> metrics_view \<Rightarrow> int \<Rightarrow> alert_engine \<Rightarrow> triggered_alert list \<times> alert_engine" where
  "evaluate_rules f mv now e =
     (let (alerts, fired) = evaluate_loop f mv now (al_rules (en_config e)) (en_last_fired e)
      in (alerts, e\<lparr>en_last_fired := fired\<rparr>))"

text \<open>The delivery of an alert is a request whose outcome is only logged.\<close>

definition evaluate_and_notify ::
  "(string \<Rightarrow> triggered_alert \<Rightarrow> 'w \<Rightarrow> 'w) \<Rightarrow> f64_api \<Rightarrow> metrics_view \<Rightarrow> int \<Rightarrow> alert_engine \<Rightarrow> 'w \<Rightarrow>
     triggered_alert list \<times> alert_engine \<times> 'w" where
  "evaluate_and_notify post f mv now e w =
     (let (alerts, e') = evaluate_rules f mv now e in
      if alerts = [] \<or> al_notification_channel (en_config e') = [] then (alerts, e', w)
      else (alerts, e', fold (post (al_notification_channel (en_config e'))) alerts w))"

section \<open>Properties\<close>

text \<open>A rule fires exactly when its condition holds and no alert of its name was raised within
  its cooldown; the messages and severities are the rule's.\<close>

lemma evaluate_single_rule_name: "evaluate_single_rule f mv rule = Some a \<Longrightarrow> ta_rule_name a = ar_name rule \<and> ta_severity a = ar_severity rule"
  by (auto simp: evaluate_single_rule_def Let_def split: alert_condition.splits if_splits)

lemma map_filter_cong: "(\<And>x. x \<in> set xs \<Longrightarrow> f x = g x) \<Longrightarrow> List.map_filter f xs = List.map_filter g xs"
  by (induction xs) (simp_all add: List.map_filter_simps split: option.split)

lemma evaluate_loop_exact:
  "distinct (map ar_name rules) \<Longrightarrow>
     fst (evaluate_loop f mv now rules fired) =
       List.map_filter (\<lambda>r. if cooling_down now r fired then None else evaluate_single_rule f mv r) rules"
proof (induction rules arbitrary: fired)
  case (Cons r rules)
  have same: "List.map_filter (\<lambda>x. if cooling_down now x (hm_insert (ar_name r) now fired) then None else evaluate_single_rule f mv x) rules =
      List.map_filter (\<lambda>x. if cooling_down now x fired then None else evaluate_single_rule f mv x) rules"
  proof -
    have "cooling_down now x (hm_insert (ar_name r) now fired) = cooling_down now x fired" if "x \<in> set rules" for x
    proof -
      have "ar_name x \<noteq> ar_name r" using Cons.prems that by (metis distinct.simps(2) imageI list.set_map list.simps(9))
      then show ?thesis by (simp add: cooling_down_def)
    qed
    then show ?thesis by (intro map_filter_cong) simp
  qed
  show ?case using Cons same
    by (auto simp: List.map_filter_simps split: option.splits prod.splits) (metis fst_conv)+
qed (simp add: List.map_filter_simps)

text \<open>The threshold of \<open>AgentUnresponsive\<close> only appears in the message: the alert is raised when the
  gauge is zero, however long the agent has been silent.\<close>

lemma unresponsive_ignores_threshold:
  "(evaluate_single_rule f mv (rule\<lparr>ar_condition := AgentUnresponsive s\<rparr>) = None) =
   (evaluate_single_rule f mv (rule\<lparr>ar_condition := AgentUnresponsive s'\<rparr>) = None)"
  by (simp add: evaluate_single_rule_def)

subsection \<open>Cooldown over time\<close>

datatype alert_call = Evaluate metrics_view int | Configure alert_config

fun alert_run :: "f64_api \<Rightarrow> alert_call list \<Rightarrow> alert_engine \<Rightarrow> (string \<times> int) list" where
  "alert_run f [] e = []"
| "alert_run f (Evaluate mv now # cs) e =
     (let (alerts, e') = evaluate_rules f mv now e in map (\<lambda>a. (ta_rule_name a, now)) alerts @ alert_run f cs e')"
| "alert_run f (Configure config # cs) e = alert_run f cs (update_alert_config config e)"

definition times_of :: "alert_call list \<Rightarrow> int list" where
  "times_of cs = List.map_filter (\<lambda>c. case c of Evaluate _ t \<Rightarrow> Some t | Configure _ \<Rightarrow> None) cs"

definition firings :: "string \<Rightarrow> (string \<times> int) list \<Rightarrow> int list" where
  "firings k fired = map snd (filter (\<lambda>x. fst x = k) fired)"

definition cooldown_at_least :: "int \<Rightarrow> string \<Rightarrow> alert_config \<Rightarrow> bool" where
  "cooldown_at_least C k config \<longleftrightarrow>
     (\<forall>r \<in> set (al_rules config). ar_name r = k \<longrightarrow> C \<le> uint (ar_cooldown_seconds r) * 10 ^ 9)"

definition calls_cool :: "int \<Rightarrow> string \<Rightarrow> alert_call list \<Rightarrow> bool" where
  "calls_cool C k cs \<longleftrightarrow> (\<forall>c \<in> set cs. case c of Configure config \<Rightarrow> cooldown_at_least C k config | Evaluate _ _ \<Rightarrow> True)"

lemma loop_cooldown:
  assumes "0 < C" and "\<forall>r \<in> set rules. ar_name r = k \<longrightarrow> C \<le> uint (ar_cooldown_seconds r) * 10 ^ 9"
    and "\<forall>t. hm_get fired k = Some t \<longrightarrow> t \<le> now" and "evaluate_loop f mv now rules fired = (alerts, fired')"
  shows "filter (\<lambda>a. ta_rule_name a = k) alerts = [] \<and> hm_get fired' k = hm_get fired k \<or>
    length (filter (\<lambda>a. ta_rule_name a = k) alerts) = 1 \<and> hm_get fired' k = Some now \<and> (\<forall>t. hm_get fired k = Some t \<longrightarrow> t + C \<le> now)"
  using assms(2-4)
proof (induction rules arbitrary: fired alerts)
  case Nil
  then show ?case by simp
next
  case (Cons r rules)
  show ?case
  proof (cases "cooling_down now r fired \<or> evaluate_single_rule f mv r = None")
    case True
    then have "evaluate_loop f mv now rules fired = (alerts, fired')" using Cons.prems(3) by (auto split: if_splits)
    then show ?thesis using Cons.IH Cons.prems(1,2) by simp
  next
    case False
    then obtain a as where a: "evaluate_single_rule f mv r = Some a"
        and loop: "evaluate_loop f mv now rules (hm_insert (ar_name r) now fired) = (as, fired')" and alerts: "alerts = a # as"
      using Cons.prems(3) by (auto split: prod.splits)
    have name: "ta_rule_name a = ar_name r" using evaluate_single_rule_name [OF a] by simp
    have IH: "filter (\<lambda>a. ta_rule_name a = k) as = [] \<and> hm_get fired' k = hm_get (hm_insert (ar_name r) now fired) k \<or>
        length (filter (\<lambda>a. ta_rule_name a = k) as) = 1 \<and> hm_get fired' k = Some now \<and>
        (\<forall>t. hm_get (hm_insert (ar_name r) now fired) k = Some t \<longrightarrow> t + C \<le> now)"
      using Cons.prems(1,2) by (intro Cons.IH [OF _ _ loop]) auto
    show ?thesis
    proof (cases "ar_name r = k")
      case True
      then have "\<forall>t. hm_get fired k = Some t \<longrightarrow> t + C \<le> now"
        using False Cons.prems(1,2) by (auto simp: cooling_down_def)
      then show ?thesis using IH True name assms(1) by (auto simp: alerts)
    next
      case False
      then show ?thesis using IH name by (auto simp: alerts)
    qed
  qed
qed

lemma run_cooldown:
  assumes "0 < C" and "sorted (times_of cs)" and "calls_cool C k cs" and "cooldown_at_least C k (en_config e)"
    and "\<forall>t. hm_get (en_last_fired e) k = Some t \<longrightarrow> (\<forall>u \<in> set (times_of cs). t \<le> u)"
  shows "sorted_wrt (\<lambda>t u. t + C \<le> u) ((case hm_get (en_last_fired e) k of None \<Rightarrow> [] | Some t \<Rightarrow> [t]) @ firings k (alert_run f cs e))"
  using assms(2-5)
proof (induction f cs e rule: alert_run.induct)
  case (1 f e)
  then show ?case by (simp add: firings_def split: option.split)
next
  case (2 f mv now cs e)
  obtain alerts fired' where loop: "evaluate_loop f mv now (al_rules (en_config e)) (en_last_fired e) = (alerts, fired')"
    by (cases "evaluate_loop f mv now (al_rules (en_config e)) (en_last_fired e)")
  have eval: "evaluate_rules f mv now e = (alerts, e\<lparr>en_last_fired := fired'\<rparr>)" by (simp add: evaluate_rules_def loop)
  have le: "\<forall>t. hm_get (en_last_fired e) k = Some t \<longrightarrow> t \<le> now" and times: "sorted (times_of cs)" "\<forall>u \<in> set (times_of cs). now \<le> u"
    and cool: "calls_cool C k cs"
    using 2(2,3,5) by (simp_all add: times_of_def List.map_filter_simps calls_cool_def)
  have fir: "firings k (alert_run f (Evaluate mv now # cs) e) =
      replicate (length (filter (\<lambda>a. ta_rule_name a = k) alerts)) now @ firings k (alert_run f cs (e\<lparr>en_last_fired := fired'\<rparr>))"
    by (simp add: eval firings_def filter_map comp_def map_replicate_const)
  have step: "filter (\<lambda>a. ta_rule_name a = k) alerts = [] \<and> hm_get fired' k = hm_get (en_last_fired e) k \<or>
    length (filter (\<lambda>a. ta_rule_name a = k) alerts) = 1 \<and> hm_get fired' k = Some now \<and>
    (\<forall>t. hm_get (en_last_fired e) k = Some t \<longrightarrow> t + C \<le> now)"
    using loop_cooldown [OF assms(1) _ le loop] 2(4) by (simp add: cooldown_at_least_def)
  have IH: "sorted_wrt (\<lambda>t u. t + C \<le> u) ((case hm_get fired' k of None \<Rightarrow> [] | Some t \<Rightarrow> [t]) @ firings k (alert_run f cs (e\<lparr>en_last_fired := fired'\<rparr>)))"
    using 2(1) [OF eval [symmetric] refl times(1) cool] 2(4,5) step times(2)
    by (fastforce simp: times_of_def List.map_filter_simps)
  show ?case using step
  proof
    assume "filter (\<lambda>a. ta_rule_name a = k) alerts = [] \<and> hm_get fired' k = hm_get (en_last_fired e) k"
    then show ?thesis using IH unfolding fir by simp
  next
    assume "length (filter (\<lambda>a. ta_rule_name a = k) alerts) = 1 \<and> hm_get fired' k = Some now \<and>
      (\<forall>t. hm_get (en_last_fired e) k = Some t \<longrightarrow> t + C \<le> now)"
    then show ?thesis using IH assms(1) unfolding fir by (fastforce split: option.split)
  qed
next
  case (3 f config cs e)
  then show ?case by (simp add: update_alert_config_def times_of_def List.map_filter_simps calls_cool_def)
qed


definition busy_cpu :: metrics_view where
  "busy_cpu = \<lparr>mv_http_requests = [], mv_cpu_percent = 95, mv_memory_bytes = 0, mv_uptime_seconds = 1, mv_rfc3339_now = []\<rparr>"

definition cpu_rule :: alert_config where
  "cpu_rule = \<lparr>al_rules = [\<lparr>ar_name = ''cpu'', ar_condition = CpuAbove 90, ar_severity = SevWarning, ar_cooldown_seconds = 60\<rparr>],
     al_notification_channel = []\<rparr>"

definition plain_f64 :: f64_api where
  "plain_f64 = \<lparr>f64_round = (\<lambda>x. x), f64_format = (\<lambda>_ _. [])\<rparr>"

lemma cpu_firings:
  "firings ''cpu'' (alert_run plain_f64 [Evaluate busy_cpu 0, Evaluate busy_cpu 30000000000, Evaluate busy_cpu 60000000000] (engine_new cpu_rule)) =
     [0, 60000000000]"
  by (simp add: firings_def engine_new_def evaluate_rules_def cpu_rule_def busy_cpu_def cooling_down_def evaluate_single_rule_def hm_empty_def hm_insert_def)


end
