(* ===== verification/Tui_App.thy ===== *)
theory Tui_App
  imports Rust_Text Json Complex_Main
begin

text \<open>
  The state of the terminal client and its keys (\<^verbatim>\<open>crates/tui/src/app.rs\<close>, \<^verbatim>\<open>slash.rs\<close>, \<^verbatim>\<open>input.rs\<close>,
  the key handler of \<^verbatim>\<open>inline.rs\<close>, and \<^verbatim>\<open>handle_server_event\<close> of \<^verbatim>\<open>lib.rs\<close>). A Rust \<^verbatim>\<open>String\<close> is
  its UTF-8 bytes, and here a text is the list of these bytes: positions are byte positions, and
  \<open>insert\<close>, \<open>remove\<close> and \<open>drain\<close> panic at a position that is not a character boundary. A panic is
  \<open>None\<close>. Trimming and lower case are those of ASCII text. Gauges are reals, and \<open>fmt\<close> formats one with
  a number of decimals.
\<close>

section \<open>Texts as bytes\<close>

definition continuation :: "char \<Rightarrow> bool" where
  "continuation c \<longleftrightarrow> 128 \<le> (of_char c :: nat) \<and> (of_char c :: nat) < 192"

definition is_char_boundary :: "string \<Rightarrow> nat \<Rightarrow> bool" where
  "is_char_boundary s i \<longleftrightarrow> i = 0 \<or> i = length s \<or> i < length s \<and> \<not> continuation (s ! i)"

definition string_insert :: "string \<Rightarrow> nat \<Rightarrow> string \<Rightarrow> string option" where
  "string_insert s i c = (if is_char_boundary s i then Some (take i s @ c @ drop i s) else None)"

definition string_remove :: "string \<Rightarrow> nat \<Rightarrow> string option" where
  "string_remove s i =
     (if i < length s \<and> is_char_boundary s i
      then Some (take i s @ dropWhile continuation (drop (Suc i) s)) else None)"

definition string_drain :: "string \<Rightarrow> nat \<Rightarrow> nat \<Rightarrow> string option" where
  "string_drain s i j =
     (if i \<le> j \<and> j \<le> length s \<and> is_char_boundary s i \<and> is_char_boundary s j then Some (take i s @ drop j s) else None)"

section \<open>State\<close>

definition TUI_DEFAULT_MAX_HISTORY :: nat where
  "TUI_DEFAULT_MAX_HISTORY = 200"

datatype task_progress = Percentage u8 | Steps u32 u32 string

datatype tui_status = TuiIdle | TuiWorking string "task_progress option" | TuiError string

fun task_progress_text :: "task_progress \<Rightarrow> string" where
  "task_progress_text (Percentage p) = show_nat (unat p) @ ''%''"
| "task_progress_text (Steps cur tot label) = show_nat (unat cur) @ ''/'' @ show_nat (unat tot) @ '' '' @ label"

fun tui_status_text :: "tui_status \<Rightarrow> string" where
  "tui_status_text TuiIdle = ''Idle''"
| "tui_status_text (TuiWorking task progress) =
     ''Working: '' @ task @ (case progress of None \<Rightarrow> [] | Some p \<Rightarrow> '' ('' @ task_progress_text p @ '')'')"
| "tui_status_text (TuiError m) = ''Error: '' @ m"

datatype connection_state = Connected | Disconnected int u8 | Reconnecting u8

datatype chat_role = RoleYou | RoleAgent | RoleSystem

record tui_message =
  tm_role :: chat_role
  tm_content :: string
  tm_timestamp :: int

datatype interaction_mode = GeneralMode | CodingMode

fun interaction_mode_text :: "interaction_mode \<Rightarrow> string" where
  "interaction_mode_text GeneralMode = ''General''"
| "interaction_mode_text CodingMode = ''Coding''"

record tui_config =
  uc_status_refresh_interval :: int
  uc_reconnect_interval :: int
  uc_max_reconnect_attempts :: u8
  uc_max_history_size :: nat

definition default_tui_config :: tui_config where
  "default_tui_config = \<lparr>uc_status_refresh_interval = 2 * 10 ^ 9, uc_reconnect_interval = 5 * 10 ^ 9,
     uc_max_reconnect_attempts = 6, uc_max_history_size = 200\<rparr>"

record tui_app =
  ta_should_quit :: bool
  ta_messages :: "tui_message list"
  ta_max_history_size :: nat
  ta_input :: string
  ta_input_cursor :: nat
  ta_agent_status :: tui_status
  ta_cpu_percent :: real
  ta_memory_mb :: real
  ta_connection_state :: connection_state
  ta_mode :: interaction_mode
  ta_show_help :: bool
  ta_scroll_offset :: nat
  ta_input_history :: "string list"
  ta_history_index :: "nat option"
  ta_saved_input :: string
  ta_terminal_size :: "16 word \<times> 16 word"
  ta_last_status_refresh :: int
  ta_status_refresh_interval :: int
  ta_reconnect_interval :: int
  ta_max_reconnect_attempts :: u8
  ta_last_reconnect_attempt :: "int option"
  ta_tick_count :: u64

definition app_new :: "int \<Rightarrow> tui_config \<Rightarrow> tui_app" where
  "app_new now config = \<lparr>ta_should_quit = False, ta_messages = [],
     ta_max_history_size = max (uc_max_history_size config) TUI_DEFAULT_MAX_HISTORY, ta_input = [], ta_input_cursor = 0,
     ta_agent_status = TuiIdle, ta_cpu_percent = 0, ta_memory_mb = 0, ta_connection_state = Connected, ta_mode = GeneralMode,
     ta_show_help = False, ta_scroll_offset = 0, ta_input_history = [], ta_history_index = None, ta_saved_input = [],
     ta_terminal_size = (80, 24), ta_last_status_refresh = now, ta_status_refresh_interval = uc_status_refresh_interval config,
     ta_reconnect_interval = uc_reconnect_interval config, ta_max_reconnect_attempts = uc_max_reconnect_attempts config,
     ta_last_reconnect_attempt = None, ta_tick_count = 0\<rparr>"

section \<open>Operations of the state\<close>

definition on_tick :: "int \<Rightarrow> tui_app \<Rightarrow> tui_app" where
  "on_tick now app =
     (let app1 = app\<lparr>ta_tick_count := ta_tick_count app + 1\<rparr>
      in if max (now - ta_last_status_refresh app1) 0 \<ge> ta_status_refresh_interval app1
         then app1\<lparr>ta_last_status_refresh := now\<rparr> else app1)"

definition on_resize :: "16 word \<Rightarrow> 16 word \<Rightarrow> tui_app \<Rightarrow> tui_app" where
  "on_resize width height app = app\<lparr>ta_terminal_size := (width, height)\<rparr>"

text \<open>Pushing a message and popping from the front while there are too many.\<close>

definition push_message :: "tui_message \<Rightarrow> tui_app \<Rightarrow> tui_app" where
  "push_message m app =
     (let ms = ta_messages app @ [m]
      in app\<lparr>ta_messages := drop (length ms - ta_max_history_size app) ms, ta_scroll_offset := 0\<rparr>)"

definition app_add_message :: "int \<Rightarrow> chat_role \<Rightarrow> string \<Rightarrow> tui_app \<Rightarrow> tui_app" where
  "app_add_message now r content app = push_message \<lparr>tm_role = r, tm_content = content, tm_timestamp = now\<rparr> app"

definition submit_input :: "int \<Rightarrow> tui_app \<Rightarrow> tui_app" where
  "submit_input now app =
     (let input = str_trim (ta_input app) in
      if input = [] then app
      else (app_add_message now RoleYou input
              (app\<lparr>ta_input_history := ta_input_history app @ [input], ta_history_index := None, ta_saved_input := []\<rparr>))
             \<lparr>ta_input := [], ta_input_cursor := 0\<rparr>)"

definition cancel_task :: "int \<Rightarrow> tui_app \<Rightarrow> tui_app" where
  "cancel_task now app =
     (case ta_agent_status app of
        TuiWorking _ _ \<Rightarrow> (app_add_message now RoleSystem ''Task cancellation requested...'' app)\<lparr>ta_agent_status := TuiIdle\<rparr>
      | _ \<Rightarrow> app)"

definition clear_screen :: "int \<Rightarrow> tui_app \<Rightarrow> tui_app" where
  "clear_screen now app = app_add_message now RoleSystem ''Screen cleared.'' (app\<lparr>ta_messages := []\<rparr>)"

definition show_status :: "(nat \<Rightarrow> real \<Rightarrow> string) \<Rightarrow> int \<Rightarrow> tui_app \<Rightarrow> tui_app" where
  "show_status fmt now app = app_add_message now RoleSystem
     (''Agent: '' @ tui_status_text (ta_agent_status app) @ '' | CPU: '' @ fmt 1 (ta_cpu_percent app) @ ''% | Mem: '' @
      fmt 0 (ta_memory_mb app) @ ''MB | Mode: '' @ interaction_mode_text (ta_mode app)) app"

definition toggle_mode :: "int \<Rightarrow> tui_app \<Rightarrow> tui_app" where
  "toggle_mode now app =
     (let app1 = app\<lparr>ta_mode := (case ta_mode app of GeneralMode \<Rightarrow> CodingMode | CodingMode \<Rightarrow> GeneralMode)\<rparr>
      in app_add_message now RoleSystem (''Switched to '' @ interaction_mode_text (ta_mode app1) @ '' mode'') app1)"

definition set_input :: "string \<Rightarrow> tui_app \<Rightarrow> tui_app" where
  "set_input s app = app\<lparr>ta_input := s, ta_input_cursor := length s\<rparr>"

definition index_history :: "nat \<Rightarrow> tui_app \<Rightarrow> string option" where
  "index_history i app = (if i < length (ta_input_history app) then Some (ta_input_history app ! i) else None)"

definition history_up :: "tui_app \<Rightarrow> tui_app option" where
  "history_up app =
     (if ta_input_history app = [] then Some app
      else (case ta_history_index app of
              None \<Rightarrow>
                let idx = length (ta_input_history app) - 1
                in map_option (\<lambda>s. set_input s (app\<lparr>ta_saved_input := ta_input app, ta_history_index := Some idx\<rparr>)) (index_history idx app)
            | Some idx \<Rightarrow>
                if idx > 0
                then map_option (\<lambda>s. set_input s (app\<lparr>ta_history_index := Some (idx - 1)\<rparr>)) (index_history (idx - 1) app)
                else Some app))"

definition history_down :: "tui_app \<Rightarrow> tui_app option" where
  "history_down app =
     (case ta_history_index app of
        None \<Rightarrow> Some app
      | Some idx \<Rightarrow>
          if idx + 1 < length (ta_input_history app)
          then map_option (\<lambda>s. set_input s (app\<lparr>ta_history_index := Some (idx + 1)\<rparr>)) (index_history (idx + 1) app)
          else Some (set_input (ta_saved_input app) (app\<lparr>ta_history_index := None\<rparr>)))"

definition scroll_up :: "tui_app \<Rightarrow> tui_app" where
  "scroll_up app = app\<lparr>ta_scroll_offset := min (ta_scroll_offset app + 1) (length (ta_messages app) - 1)\<rparr>"

definition scroll_down :: "tui_app \<Rightarrow> tui_app" where
  "scroll_down app = app\<lparr>ta_scroll_offset := ta_scroll_offset app - 1\<rparr>"

definition set_disconnected :: "int \<Rightarrow> tui_app \<Rightarrow> tui_app" where
  "set_disconnected now app = app\<lparr>ta_connection_state := Disconnected now 0, ta_last_reconnect_attempt := None\<rparr>"

definition set_connected :: "tui_app \<Rightarrow> tui_app" where
  "set_connected app = app\<lparr>ta_connection_state := Connected, ta_last_reconnect_attempt := None\<rparr>"

definition append_assistant_token :: "int \<Rightarrow> string \<Rightarrow> tui_app \<Rightarrow> tui_app" where
  "append_assistant_token now content app =
     (if ta_messages app \<noteq> [] \<and> tm_role (last (ta_messages app)) = RoleAgent
      then (let m = last (ta_messages app)
            in app\<lparr>ta_messages := butlast (ta_messages app) @ [m\<lparr>tm_content := tm_content m @ content\<rparr>], ta_scroll_offset := 0\<rparr>)
      else push_message \<lparr>tm_role = RoleAgent, tm_content = content, tm_timestamp = now\<rparr> app)"

text \<open>The variants for inline mode, where the input is a variable of the loop.\<close>

definition submit_input_inline :: "string \<Rightarrow> tui_app \<Rightarrow> tui_app" where
  "submit_input_inline input app =
     app\<lparr>ta_input_history := ta_input_history app @ [input], ta_history_index := None, ta_saved_input := []\<rparr>"

definition history_up_inline :: "string \<Rightarrow> tui_app \<Rightarrow> (string \<times> tui_app) option" where
  "history_up_inline input app =
     (if ta_input_history app = [] then Some (input, app)
      else (case ta_history_index app of
              None \<Rightarrow>
                let idx = length (ta_input_history app) - 1
                in map_option (\<lambda>s. (s, app\<lparr>ta_saved_input := input, ta_history_index := Some idx\<rparr>)) (index_history idx app)
            | Some idx \<Rightarrow>
                if idx > 0 then map_option (\<lambda>s. (s, app\<lparr>ta_history_index := Some (idx - 1)\<rparr>)) (index_history (idx - 1) app)
                else Some (input, app)))"

definition history_down_inline :: "string \<Rightarrow> tui_app \<Rightarrow> (string \<times> tui_app) option" where
  "history_down_inline input app =
     (case ta_history_index app of
        None \<Rightarrow> Some (input, app)
      | Some idx \<Rightarrow>
          if idx + 1 < length (ta_input_history app)
          then map_option (\<lambda>s. (s, app\<lparr>ta_history_index := Some (idx + 1)\<rparr>)) (index_history (idx + 1) app)
          else Some (ta_saved_input app, app\<lparr>ta_history_index := None\<rparr>))"

section \<open>Slash commands\<close>

datatype slash_command = SlashExit | SlashClear | SlashStatus | SlashHelp | SlashReconnect | SlashMode | SlashUnknown string

definition slash_parse :: "string \<Rightarrow> slash_command option" where
  "slash_parse input =
     (case str_trim input of
        [] \<Rightarrow> None
      | c # rest \<Rightarrow>
          if c \<noteq> CHR ''/'' then None
          else
            (let cmd = first_token (to_lowercase (str_trim rest)) in
             if cmd = ''exit'' \<or> cmd = ''quit'' \<or> cmd = ''q'' then Some SlashExit
             else if cmd = ''clear'' \<or> cmd = ''cls'' then Some SlashClear
             else if cmd = ''status'' \<or> cmd = ''st'' then Some SlashStatus
             else if cmd = ''help'' \<or> cmd = ''h'' \<or> cmd = ''?'' then Some SlashHelp
             else if cmd = ''reconnect'' \<or> cmd = ''recon'' then Some SlashReconnect
             else if cmd = ''mode'' \<or> cmd = ''m'' then Some SlashMode
             else Some (SlashUnknown cmd)))"

text \<open>The channel to the client task; \<open>try_send\<close> fails when it is full or closed, and the callers drop the
  result.\<close>

datatype client_command = SendMessage string | CancelGeneration | ReconnectNow | ShutdownClient

record command_channel =
  ch_queue :: "client_command list"
  ch_capacity :: nat
  ch_closed :: bool

definition try_send :: "client_command \<Rightarrow> command_channel \<Rightarrow> command_channel" where
  "try_send c ch = (if ch_closed ch \<or> length (ch_queue ch) \<ge> ch_capacity ch then ch else ch\<lparr>ch_queue := ch_queue ch @ [c]\<rparr>)"

fun slash_execute :: "(nat \<Rightarrow> real \<Rightarrow> string) \<Rightarrow> int \<Rightarrow> slash_command \<Rightarrow> tui_app \<Rightarrow> command_channel \<Rightarrow> tui_app \<times> command_channel" where
  "slash_execute fmt now SlashExit app ch = (app\<lparr>ta_should_quit := True\<rparr>, ch)"
| "slash_execute fmt now SlashClear app ch = (clear_screen now app, ch)"
| "slash_execute fmt now SlashStatus app ch = (show_status fmt now app, ch)"
| "slash_execute fmt now SlashHelp app ch = (app\<lparr>ta_show_help := True\<rparr>, ch)"
| "slash_execute fmt now SlashReconnect app ch = (app_add_message now RoleSystem ''Reconnecting...'' app, try_send ReconnectNow ch)"
| "slash_execute fmt now SlashMode app ch = (toggle_mode now app, ch)"
| "slash_execute fmt now (SlashUnknown name) app ch =
     (app_add_message now RoleSystem (''Unknown command: /'' @ name @ ''. Type /help for available commands.'') app, ch)"

section \<open>Keys\<close>

text \<open>A character key carries the UTF-8 bytes of its character. Sets of modifiers other than none,
  shift alone and control alone are \<open>ModOther\<close>.\<close>

datatype key_mods = ModNone | ModShift | ModControl | ModOther
datatype key_code =
    KeyChar string | KeyEnter | KeyUp | KeyDown | KeyPageUp | KeyPageDown | KeyHome | KeyEnd | KeyBackspace | KeyDelete
  | KeyLeft | KeyRight | KeyF nat | KeyOther

fun skip_back_spaces :: "string \<Rightarrow> nat \<Rightarrow> nat" where
  "skip_back_spaces bytes 0 = 0"
| "skip_back_spaces bytes (Suc i) = (if bytes ! Suc i = CHR '' '' then skip_back_spaces bytes i else Suc i)"

fun skip_back_word :: "string \<Rightarrow> nat \<Rightarrow> nat" where
  "skip_back_word bytes 0 = 0"
| "skip_back_word bytes (Suc i) = (if bytes ! i \<noteq> CHR '' '' then skip_back_word bytes i else Suc i)"

text \<open>Indexing past the end panics.\<close>

definition find_prev_word_boundary :: "string \<Rightarrow> nat \<Rightarrow> nat option" where
  "find_prev_word_boundary bytes pos =
     (if pos = 0 then Some 0
      else if pos - 1 > 0 \<and> pos - 1 \<ge> length bytes then None
      else Some (skip_back_word bytes (skip_back_spaces bytes (pos - 1))))"

definition find_next_word_boundary :: "string \<Rightarrow> nat \<Rightarrow> nat" where
  "find_next_word_boundary bytes pos =
     (if pos \<ge> length bytes then length bytes
      else (let i = pos + length (takeWhile (\<lambda>c. c \<noteq> CHR '' '') (drop pos bytes))
            in i + length (takeWhile (\<lambda>c. c = CHR '' '') (drop i bytes))))"

definition handle_enter :: "(nat \<Rightarrow> real \<Rightarrow> string) \<Rightarrow> int \<Rightarrow> tui_app \<Rightarrow> command_channel option \<Rightarrow> tui_app \<times> command_channel option" where
  "handle_enter fmt now app cmd_tx =
     (let content = str_trim (ta_input app) in
      if content = [] then (app, cmd_tx)
      else (case slash_parse content of
              Some cmd \<Rightarrow>
                (let app1 = app\<lparr>ta_input := [], ta_input_cursor := 0\<rparr> in
                 case cmd_tx of
                   Some tx \<Rightarrow> (let (app2, tx') = slash_execute fmt now cmd app1 tx in (app2, Some tx'))
                 | None \<Rightarrow>
                     ((case cmd of
                         SlashExit \<Rightarrow> app1\<lparr>ta_should_quit := True\<rparr>
                       | SlashClear \<Rightarrow> clear_screen now app1
                       | SlashStatus \<Rightarrow> show_status fmt now app1
                       | SlashHelp \<Rightarrow> app1\<lparr>ta_show_help := True\<rparr>
                       | SlashMode \<Rightarrow> toggle_mode now app1
                       | _ \<Rightarrow> app_add_message now RoleSystem ''This command requires a live connection.'' app1), None))
            | None \<Rightarrow> (submit_input now app, map_option (try_send (SendMessage content)) cmd_tx)))"

definition handle_text_key :: "key_mods \<Rightarrow> key_code \<Rightarrow> tui_app \<Rightarrow> tui_app option" where
  "handle_text_key m k app =
     (let input = ta_input app; cursor = ta_input_cursor app in
      case (m, k) of
        (ModControl, KeyChar c) \<Rightarrow>
          (if c = ''u'' then Some (app\<lparr>ta_input := [], ta_input_cursor := 0\<rparr>)
           else if c = ''w'' then
             Option.bind (find_prev_word_boundary input cursor) (\<lambda>new_pos.
               map_option (\<lambda>s. app\<lparr>ta_input := s, ta_input_cursor := new_pos\<rparr>) (string_drain input new_pos cursor))
           else Some app)
      | (ModOther, KeyChar c) \<Rightarrow> Some app
      | (_, KeyChar c) \<Rightarrow> map_option (\<lambda>s. app\<lparr>ta_input := s, ta_input_cursor := cursor + 1\<rparr>) (string_insert input cursor c)
      | (_, KeyBackspace) \<Rightarrow>
          (if cursor > 0 then map_option (\<lambda>s. app\<lparr>ta_input := s, ta_input_cursor := cursor - 1\<rparr>) (string_remove input (cursor - 1))
           else Some app)
      | (_, KeyDelete) \<Rightarrow>
          (if cursor < length input then map_option (\<lambda>s. app\<lparr>ta_input := s\<rparr>) (string_remove input cursor) else Some app)
      | (ModNone, KeyLeft) \<Rightarrow> Some (app\<lparr>ta_input_cursor := cursor - 1\<rparr>)
      | (ModNone, KeyRight) \<Rightarrow> Some (if cursor < length input then app\<lparr>ta_input_cursor := cursor + 1\<rparr> else app)
      | (ModControl, KeyLeft) \<Rightarrow>
          map_option (\<lambda>i. app\<lparr>ta_input_cursor := i\<rparr>) (find_prev_word_boundary input cursor)
      | (ModControl, KeyRight) \<Rightarrow> Some (app\<lparr>ta_input_cursor := find_next_word_boundary input cursor\<rparr>)
      | (ModNone, KeyHome) \<Rightarrow> Some (app\<lparr>ta_input_cursor := 0\<rparr>)
      | (ModNone, KeyEnd) \<Rightarrow> Some (app\<lparr>ta_input_cursor := length input\<rparr>)
      | _ \<Rightarrow> Some app)"

definition handle_key_event ::
  "(nat \<Rightarrow> real \<Rightarrow> string) \<Rightarrow> int \<Rightarrow> key_mods \<Rightarrow> key_code \<Rightarrow> tui_app \<Rightarrow> command_channel option \<Rightarrow> (tui_app \<times> command_channel option) option" where
  "handle_key_event fmt now m k app cmd_tx =
     (if ta_show_help app then Some (app\<lparr>ta_show_help := False\<rparr>, cmd_tx)
      else if m = ModControl \<and> (k = KeyChar ''c'' \<or> k = KeyChar ''q'') then Some (app\<lparr>ta_should_quit := True\<rparr>, cmd_tx)
      else if m = ModControl \<and> k = KeyChar ''k'' then Some (cancel_task now app, cmd_tx)
      else if m = ModControl \<and> k = KeyChar ''m'' then Some (toggle_mode now app, cmd_tx)
      else if k = KeyF 1 then Some (app\<lparr>ta_show_help := True\<rparr>, cmd_tx)
      else if (m = ModNone \<or> m = ModShift) \<and> k = KeyEnter then Some (handle_enter fmt now app cmd_tx)
      else if m = ModNone \<and> k = KeyUp then
        map_option (\<lambda>a. (a, cmd_tx)) (if ta_input app = [] \<or> ta_history_index app \<noteq> None then history_up app else Some (scroll_up app))
      else if m = ModNone \<and> k = KeyDown then
        map_option (\<lambda>a. (a, cmd_tx)) (if ta_history_index app \<noteq> None then history_down app else Some (scroll_down app))
      else if k = KeyPageUp then Some ((scroll_up ^^ 5) app, cmd_tx)
      else if k = KeyPageDown then Some ((scroll_down ^^ 5) app, cmd_tx)
      else if m = ModControl \<and> k = KeyHome then Some (app\<lparr>ta_scroll_offset := length (ta_messages app) - 1\<rparr>, cmd_tx)
      else if m = ModControl \<and> k = KeyEnd then Some (app\<lparr>ta_scroll_offset := 0\<rparr>, cmd_tx)
      else if (m = ModNone \<or> m = ModShift) \<and> k = KeyChar ''?'' \<and> ta_input app = [] then Some (app\<lparr>ta_show_help := True\<rparr>, cmd_tx)
      else map_option (\<lambda>a. (a, cmd_tx)) (handle_text_key m k app))"

section \<open>Server events\<close>

datatype server_event =
    AssistantToken string
  | AssistantDone
  | ToolCallEvent string string
  | ToolResultEvent string bool string
  | StatusEvent tui_status real real
  | ConnectionEvent connection_state
  | ErrorEvent string

fun handle_server_event :: "int \<Rightarrow> server_event \<Rightarrow> tui_app \<Rightarrow> tui_app" where
  "handle_server_event now (AssistantToken content) app = append_assistant_token now content app"
| "handle_server_event now AssistantDone app = app"
| "handle_server_event now (ToolCallEvent name args) app = app_add_message now RoleSystem (''> '' @ name @ ''('' @ args @ '')'') app"
| "handle_server_event now (ToolResultEvent name success summary) app =
     app_add_message now RoleSystem (''  '' @ (if success then ''v'' else ''x'') @ '' '' @ name @ '': '' @ summary) app"
| "handle_server_event now (StatusEvent status cpu mem) app =
     app\<lparr>ta_agent_status := status, ta_cpu_percent := cpu, ta_memory_mb := mem\<rparr>"
| "handle_server_event now (ConnectionEvent st) app = app\<lparr>ta_connection_state := st\<rparr>"
| "handle_server_event now (ErrorEvent m) app = app_add_message now RoleSystem (''! '' @ m) app"

text \<open>One turn of the main loop after drawing.\<close>

datatype app_event = TickEvent int | KeyEvent int key_mods key_code | ResizeEvent "16 word" "16 word" | ServerEvent int server_event

fun app_turn :: "(nat \<Rightarrow> real \<Rightarrow> string) \<Rightarrow> app_event \<Rightarrow> tui_app \<times> command_channel option \<Rightarrow> (tui_app \<times> command_channel option) option" where
  "app_turn fmt (TickEvent now) (app, ch) = Some (on_tick now app, ch)"
| "app_turn fmt (KeyEvent now m k) (app, ch) = handle_key_event fmt now m k app ch"
| "app_turn fmt (ResizeEvent w h) (app, ch) = Some (on_resize w h app, ch)"
| "app_turn fmt (ServerEvent now ev) (app, ch) = Some (handle_server_event now ev app, ch)"

fun run_app :: "(nat \<Rightarrow> real \<Rightarrow> string) \<Rightarrow> app_event list \<Rightarrow> tui_app \<times> command_channel option \<Rightarrow> (tui_app \<times> command_channel option) option" where
  "run_app fmt [] s = Some s"
| "run_app fmt (e # es) s =
     Option.bind (app_turn fmt e s) (\<lambda>s'. if ta_should_quit (fst s') then Some s' else run_app fmt es s')"

section \<open>Properties\<close>

definition ascii :: "string \<Rightarrow> bool" where
  "ascii s \<longleftrightarrow> list_all (\<lambda>c. (of_char c :: nat) < 128) s"

definition app_inv :: "tui_app \<Rightarrow> bool" where
  "app_inv app \<longleftrightarrow> ascii (ta_input app) \<and> ascii (ta_saved_input app) \<and> list_all ascii (ta_input_history app) \<and>
     ta_input_cursor app \<le> length (ta_input app) \<and>
     (\<forall>i. ta_history_index app = Some i \<longrightarrow> i < length (ta_input_history app)) \<and>
     length (ta_messages app) \<le> ta_max_history_size app \<and> TUI_DEFAULT_MAX_HISTORY \<le> ta_max_history_size app \<and>
     ta_scroll_offset app \<le> length (ta_messages app) - 1"

fun ascii_event :: "app_event \<Rightarrow> bool" where
  "ascii_event (KeyEvent now m (KeyChar c)) \<longleftrightarrow> length c = 1 \<and> ascii c"
| "ascii_event _ \<longleftrightarrow> True"

lemma ascii_simps [simp]: "ascii []" "ascii (s @ t) \<longleftrightarrow> ascii s \<and> ascii t"
  by (simp_all add: ascii_def)

lemma ascii_sub: "ascii s \<Longrightarrow> set t \<subseteq> set s \<Longrightarrow> ascii t"
  by (auto simp: ascii_def list_all_iff)

lemma ascii_parts [simp]:
  "ascii s \<Longrightarrow> ascii (take i s)" "ascii s \<Longrightarrow> ascii (drop i s)" "ascii s \<Longrightarrow> ascii (dropWhile P s)" "ascii s \<Longrightarrow> ascii (str_trim s)"
proof -
  assume s: "ascii s"
  show "ascii (take i s)" "ascii (drop i s)" "ascii (dropWhile P s)"
    by (rule ascii_sub [OF s], auto dest: in_set_takeD in_set_dropD set_dropWhileD)+
  show "ascii (str_trim s)" by (rule ascii_sub [OF s]) (auto simp: str_trim_def dest!: set_dropWhileD)
qed

text \<open>In ASCII text every position is a boundary.\<close>

lemma ascii_boundary:
  assumes "ascii s" and "i \<le> length s"
  shows "is_char_boundary s i"
proof (cases "i < length s")
  case True
  then have "(of_char (s ! i) :: nat) < 128" using assms(1) by (simp add: ascii_def list_all_length)
  then show ?thesis using True by (simp add: is_char_boundary_def continuation_def)
qed (use assms(2) in \<open>simp add: is_char_boundary_def\<close>)

lemma skip_back_le: "skip_back_spaces bytes i \<le> i" "skip_back_word bytes i \<le> i"
  by (induction i) auto

lemma find_prev_Some: "pos \<le> length bytes \<Longrightarrow> \<exists>i \<le> pos. find_prev_word_boundary bytes pos = Some i"
  using skip_back_le(1) [of bytes "pos - 1"] skip_back_le(2) [of bytes "skip_back_spaces bytes (pos - 1)"]
  by (auto simp: find_prev_word_boundary_def)

lemma find_next_le: "find_next_word_boundary bytes pos \<le> length bytes"
proof (cases "pos < length bytes")
  case True
  let ?i = "pos + length (takeWhile (\<lambda>c. c \<noteq> CHR '' '') (drop pos bytes))"
  have "?i \<le> length bytes" using length_takeWhile_le [of "\<lambda>c. c \<noteq> CHR '' ''" "drop pos bytes"] True by simp
  moreover have "length (takeWhile (\<lambda>c. c = CHR '' '') (drop ?i bytes)) \<le> length bytes - ?i"
    using length_takeWhile_le [of "\<lambda>c. c = CHR '' ''" "drop ?i bytes"] by simp
  ultimately show ?thesis using True by (simp add: find_next_word_boundary_def Let_def)
qed (simp add: find_next_word_boundary_def)

text \<open>The operations of the state keep the invariant.\<close>

lemma push_message_inv: "app_inv app \<Longrightarrow> app_inv (push_message m app)"
  by (auto simp: app_inv_def push_message_def Let_def)

lemma clear_inv: "app_inv app \<Longrightarrow> app_inv (app\<lparr>ta_messages := [], ta_scroll_offset := 0\<rparr>)"
  by (simp add: app_inv_def)

lemma flags_inv [simp]:
  "app_inv (app\<lparr>ta_should_quit := b\<rparr>) = app_inv app" "app_inv (app\<lparr>ta_show_help := b\<rparr>) = app_inv app"
  "app_inv (app\<lparr>ta_agent_status := st\<rparr>) = app_inv app" "app_inv (app\<lparr>ta_mode := md\<rparr>) = app_inv app"
  "app_inv (app\<lparr>ta_connection_state := cs\<rparr>) = app_inv app" "app_inv (app\<lparr>ta_cpu_percent := x\<rparr>) = app_inv app"
  "app_inv (app\<lparr>ta_memory_mb := x\<rparr>) = app_inv app" "app_inv (app\<lparr>ta_tick_count := n\<rparr>) = app_inv app"
  "app_inv (app\<lparr>ta_last_status_refresh := t\<rparr>) = app_inv app" "app_inv (app\<lparr>ta_terminal_size := sz\<rparr>) = app_inv app"
  by (simp_all add: app_inv_def)

lemma clear_screen_inv: "app_inv app \<Longrightarrow> app_inv (clear_screen now app)"
  by (auto simp: app_inv_def clear_screen_def app_add_message_def push_message_def Let_def TUI_DEFAULT_MAX_HISTORY_def)

lemma message_ops_inv:
  assumes "app_inv app"
  shows "app_inv (app_add_message now r content app)" "app_inv (cancel_task now app)" "app_inv (show_status fmt now app)"
    "app_inv (toggle_mode now app)" "app_inv (clear_screen now app)"
  using assms clear_screen_inv [OF assms]
  by (auto simp: app_add_message_def cancel_task_def show_status_def toggle_mode_def Let_def push_message_inv split: tui_status.split)

lemma clear_input_inv: "app_inv app \<Longrightarrow> app_inv (app\<lparr>ta_input := [], ta_input_cursor := 0\<rparr>)"
  by (simp add: app_inv_def)

lemma submit_input_inv:
  assumes "app_inv app"
  shows "app_inv (submit_input now app)"
proof -
  have "app_inv (app\<lparr>ta_input_history := ta_input_history app @ [str_trim (ta_input app)], ta_history_index := None, ta_saved_input := []\<rparr>)"
    using assms by (simp add: app_inv_def)
  then show ?thesis using assms by (simp add: submit_input_def Let_def clear_input_inv message_ops_inv(1))
qed

lemma history_inv:
  assumes "app_inv app"
  shows "\<exists>a. history_up app = Some a \<and> app_inv a" "\<exists>a. history_down app = Some a \<and> app_inv a"
proof -
  have h: "ascii (ta_input_history app ! i)" if "i < length (ta_input_history app)" for i
    using assms that by (simp add: app_inv_def list_all_length)
  show "\<exists>a. history_up app = Some a \<and> app_inv a"
  proof (cases "ta_history_index app")
    case None
    then show ?thesis using assms h by (auto simp: history_up_def index_history_def set_input_def app_inv_def Let_def)
  next
    case (Some i)
    then have "i < length (ta_input_history app)" using assms by (simp add: app_inv_def)
    then show ?thesis using assms h Some by (auto simp: history_up_def index_history_def set_input_def app_inv_def)
  qed
  show "\<exists>a. history_down app = Some a \<and> app_inv a"
    using assms h by (auto simp: history_down_def index_history_def set_input_def app_inv_def split: option.split)
qed

lemma scroll_inv: "app_inv app \<Longrightarrow> app_inv (scroll_up app)" "app_inv app \<Longrightarrow> app_inv (scroll_down app)"
  by (auto simp: app_inv_def scroll_up_def scroll_down_def)

lemma scroll_page_inv: "app_inv app \<Longrightarrow> app_inv ((scroll_up ^^ n) app)" "app_inv app \<Longrightarrow> app_inv ((scroll_down ^^ n) app)"
  by (induction n) (auto intro: scroll_inv)

lemma slash_execute_inv: "app_inv app \<Longrightarrow> app_inv (fst (slash_execute fmt now cmd app ch))"
  by (cases cmd) (auto intro: message_ops_inv)

lemma handle_enter_inv:
  assumes "app_inv app"
  shows "app_inv (fst (handle_enter fmt now app tx))"
proof -
  note inv = clear_input_inv [OF assms]
  show ?thesis
    using assms inv submit_input_inv [OF assms] slash_execute_inv [OF inv] message_ops_inv [OF inv]
    by (auto simp: handle_enter_def Let_def split: option.split slash_command.split prod.split)
qed

lemma string_edit_ascii:
  assumes "ascii s" and "i \<le> length s"
  shows "ascii c \<Longrightarrow> length c = 1 \<Longrightarrow> \<exists>t. string_insert s i c = Some t \<and> ascii t \<and> i + 1 \<le> length t"
    and "i < length s \<Longrightarrow> \<exists>t. string_remove s i = Some t \<and> ascii t \<and> i \<le> length t"
    and "j \<le> i \<Longrightarrow> \<exists>t. string_drain s j i = Some t \<and> ascii t \<and> j \<le> length t"
  using assms ascii_boundary [OF assms] ascii_boundary [OF assms(1), of j]
  by (auto simp: string_insert_def string_remove_def string_drain_def)

lemma handle_text_key_inv:
  assumes "app_inv app" and "ascii_event (KeyEvent now m k)"
  shows "\<exists>a. handle_text_key m k app = Some a \<and> app_inv a"
proof -
  have a: "ascii (ta_input app)" and c: "ta_input_cursor app \<le> length (ta_input app)" using assms(1) by (simp_all add: app_inv_def)
  have edit: "app_inv (app\<lparr>ta_input := s, ta_input_cursor := i\<rparr>)" if "ascii s" "i \<le> length s" for s i
    using assms(1) that by (simp add: app_inv_def)
  have move: "app_inv (app\<lparr>ta_input_cursor := i\<rparr>)" if "i \<le> length (ta_input app)" for i
    using assms(1) that by (simp add: app_inv_def)
  obtain i where i: "find_prev_word_boundary (ta_input app) (ta_input_cursor app) = Some i" "i \<le> ta_input_cursor app"
    using find_prev_Some [OF c] by blast
  show ?thesis
  proof (cases k)
    case (KeyChar x)
    then obtain t where t: "string_insert (ta_input app) (ta_input_cursor app) x = Some t" "app_inv (app\<lparr>ta_input := t, ta_input_cursor := ta_input_cursor app + 1\<rparr>)"
      using assms(2) string_edit_ascii(1) [OF a c, of x] edit by auto
    obtain u where u: "string_drain (ta_input app) i (ta_input_cursor app) = Some u" "app_inv (app\<lparr>ta_input := u, ta_input_cursor := i\<rparr>)"
      using string_edit_ascii(3) [OF a c i(2)] edit by auto
    show ?thesis using KeyChar assms(1) t u i(1) clear_input_inv [OF assms(1)]
      by (cases m) (auto simp: handle_text_key_def Let_def)
  next
    case KeyBackspace
    show ?thesis
    proof (cases "ta_input_cursor app")
      case 0
      then show ?thesis using KeyBackspace assms(1) by (cases m) (simp_all add: handle_text_key_def)
    next
      case (Suc n)
      then obtain t where "string_remove (ta_input app) n = Some t" "ascii t" "n \<le> length t"
        using c string_edit_ascii(2) [OF a, of n] by auto
      then show ?thesis using KeyBackspace Suc edit by (cases m) (simp_all add: handle_text_key_def)
    qed
  next
    case KeyDelete
    have "app_inv (app\<lparr>ta_input := s\<rparr>)" if "ascii s" "ta_input_cursor app \<le> length s" for s
      using assms(1) that by (simp add: app_inv_def)
    then have remove: "\<exists>t. string_remove (ta_input app) (ta_input_cursor app) = Some t \<and> app_inv (app\<lparr>ta_input := t\<rparr>)"
      if "ta_input_cursor app < length (ta_input app)"
      using string_edit_ascii(2) [OF a c that] by blast
    show ?thesis using KeyDelete assms(1) remove
      by (cases "ta_input_cursor app < length (ta_input app)"; cases m) (auto simp: handle_text_key_def)
  next
    case KeyLeft
    then show ?thesis using assms(1) c i move by (cases m) (auto simp: handle_text_key_def)
  next
    case KeyRight
    then show ?thesis using assms(1) c move find_next_le by (cases m) (auto simp: handle_text_key_def Let_def)
  qed (use assms(1) move in \<open>cases m; simp add: handle_text_key_def\<close>)+
qed

definition ok_result :: "(tui_app \<times> 'c) option \<Rightarrow> bool" where
  "ok_result r \<longleftrightarrow> (\<exists>a c. r = Some (a, c) \<and> app_inv a)"

lemma ok_result_simps [simp]: "ok_result (Some x) \<longleftrightarrow> app_inv (fst x)" "ok_result (map_option (\<lambda>a. (a, c)) r) \<longleftrightarrow> (\<exists>a. r = Some a \<and> app_inv a)"
  by (cases x) (auto simp: ok_result_def)

lemma handle_key_event_inv:
  assumes "app_inv app" and "ascii_event (KeyEvent now m k)"
  shows "ok_result (handle_key_event fmt now m k app ch)"
proof -
  have "app_inv (app\<lparr>ta_scroll_offset := length (ta_messages app) - Suc 0\<rparr>)" "app_inv (app\<lparr>ta_scroll_offset := 0\<rparr>)"
    using assms(1) by (simp_all add: app_inv_def)
  then show ?thesis
    using assms(1) message_ops_inv [OF assms(1)] scroll_inv [OF assms(1)] scroll_page_inv [OF assms(1)]
      history_inv [OF assms(1)] handle_text_key_inv [OF assms] handle_enter_inv [OF assms(1)]
    by (simp add: handle_key_event_def)
qed

lemma append_token_inv: "app_inv app \<Longrightarrow> app_inv (append_assistant_token now content app)"
  by (auto simp: append_assistant_token_def push_message_inv Let_def) (auto simp: app_inv_def)

lemma app_turn_inv:
  assumes "app_inv (fst s)" and "ascii_event e"
  shows "\<exists>s'. app_turn fmt e s = Some s' \<and> app_inv (fst s')"
proof (cases s)
  case (Pair app ch)
  then have inv: "app_inv app" using assms(1) by simp
  show ?thesis
  proof (cases e)
    case (KeyEvent now m k)
    then show ?thesis using handle_key_event_inv [OF inv, of now m k fmt ch] assms(2) Pair by (auto simp: ok_result_def)
  next
    case (ServerEvent now ev)
    then show ?thesis using inv Pair by (cases ev) (auto simp: append_token_inv message_ops_inv)
  qed (use inv Pair in \<open>auto simp: on_tick_def on_resize_def Let_def\<close>)
qed

lemma tui_ascii_never_panics_run:
  assumes "list_all ascii_event es"
  shows "\<exists>app ch'. run_app fmt es (app_new now config, ch) = Some (app, ch') \<and> app_inv app"
proof -
  have "\<exists>s'. run_app fmt es s = Some s' \<and> app_inv (fst s')" if "app_inv (fst s)" for s
    using that assms
  proof (induction es arbitrary: s)
    case (Cons e es)
    then obtain s1 where "app_turn fmt e s = Some s1" "app_inv (fst s1)" using app_turn_inv [of s e fmt] by auto
    then show ?case using Cons by (cases s1) auto
  qed simp
  moreover have "app_inv (app_new now config)" by (simp add: app_inv_def app_new_def)
  ultimately show ?thesis by (metis fst_conv surj_pair)
qed


text \<open>The restriction is needed: the cursor counts characters and the text is indexed by bytes, so after
  a character of two or more bytes in an empty input every further character panics.\<close>

lemma non_ascii_typing_panics:
  assumes "ta_input app = []" and "ta_input_cursor app = 0" and "\<not> ta_show_help app" and "continuation b"
    and "a \<noteq> CHR ''?''" and "x \<noteq> CHR ''?''"
  shows "Option.bind (handle_key_event fmt now ModNone (KeyChar (a # b # cs)) app ch)
    (\<lambda>(app', ch'). handle_key_event fmt now' ModNone (KeyChar [x]) app' ch') = None"
  using assms by (simp add: handle_key_event_def handle_text_key_def string_insert_def is_char_boundary_def)

text \<open>
  what is typed is what is sent: from a client with an empty input, typing ASCII text that does not
  start with a question mark and pressing Enter puts exactly the trimmed text into the channel
  (as long as it has room), shows it as the user's message, and clears the input. A text that starts with
  a slash is never sent.
\<close>

definition type_text :: "string \<Rightarrow> app_event list" where
  "type_text cs = map (\<lambda>c. KeyEvent 0 ModNone (KeyChar [c])) cs @ [KeyEvent 0 ModNone KeyEnter]"

lemma typing_prefix:
  assumes "\<not> ta_show_help app" and "\<not> ta_should_quit app" and "ta_input_cursor app = length (ta_input app)"
    and "ta_input app = [] \<Longrightarrow> cs \<noteq> [] \<Longrightarrow> hd cs \<noteq> CHR ''?''"
  shows "run_app fmt (map (\<lambda>c. KeyEvent 0 ModNone (KeyChar [c])) cs @ es) (app, ch) =
     run_app fmt es (app\<lparr>ta_input := ta_input app @ cs, ta_input_cursor := length (ta_input app @ cs)\<rparr>, ch)"
  using assms
proof (induction cs arbitrary: app)
  case Nil
  then show ?case by (cases app) simp
next
  case (Cons c cs)
  let ?app = "app\<lparr>ta_input := ta_input app @ [c], ta_input_cursor := Suc (length (ta_input app))\<rparr>"
  have "handle_key_event fmt 0 ModNone (KeyChar [c]) app ch = Some (?app, ch)"
    using Cons.prems by (auto simp: handle_key_event_def handle_text_key_def string_insert_def is_char_boundary_def Let_def)
  then show ?case using Cons.prems Cons.IH [of ?app] by simp
qed

lemma slash_parse_iff: "slash_parse (str_trim cs) = None \<longleftrightarrow> str_trim (str_trim cs) = [] \<or> hd (str_trim (str_trim cs)) \<noteq> CHR ''/''"
  by (auto simp: slash_parse_def Let_def split: list.split)

lemma str_trim_idem: "str_trim (str_trim s) = str_trim s"
proof (cases "str_trim s = []")
  case False
  let ?t = "dropWhile is_ws s"
  have trim: "str_trim s = rev (dropWhile is_ws (rev ?t))" by (simp add: str_trim_def)
  have split: "?t = str_trim s @ rev (takeWhile is_ws (rev ?t))"
    unfolding trim by (metis rev_append rev_rev_ident takeWhile_dropWhile_id)
  then have "?t \<noteq> []" "hd (str_trim s) = hd ?t" using False by (metis append_is_Nil_conv, metis hd_append2)
  then have "\<not> is_ws (hd (str_trim s))" using hd_dropWhile by metis
  moreover have "\<not> is_ws (last (str_trim s))"
    using False unfolding trim last_rev by (metis hd_dropWhile rev_is_Nil_conv)
  ultimately show ?thesis using False by (intro str_trim_id)
next
  case True
  then show ?thesis by (simp only: True) (simp add: str_trim_def)
qed

theorem typed_text_is_sent:
  assumes "ta_input app = []" and "ta_input_cursor app = 0" and "\<not> ta_show_help app" and "\<not> ta_should_quit app"
    and "hd cs \<noteq> CHR ''?''" and "str_trim cs \<noteq> []" and "\<not> ch_closed ch" and "length (ch_queue ch) < ch_capacity ch"
    and "run_app fmt (type_text cs) (app, Some ch) = Some (app', ch')" and "0 < ta_max_history_size app"
  shows "if hd (str_trim cs) = CHR ''/'' then (\<forall>m. ch' \<noteq> Some (ch\<lparr>ch_queue := ch_queue ch @ [SendMessage m]\<rparr>))
     else ch' = Some (ch\<lparr>ch_queue := ch_queue ch @ [SendMessage (str_trim cs)]\<rparr>) \<and> ta_input app' = [] \<and>
       tm_content (last (ta_messages app')) = str_trim cs \<and> ta_input_history app' = ta_input_history app @ [str_trim cs]"
proof -
  let ?app = "app\<lparr>ta_input := cs, ta_input_cursor := length cs\<rparr>"
  have "run_app fmt [KeyEvent 0 ModNone KeyEnter] (?app, Some ch) = Some (app', ch')"
    using assms(9) typing_prefix [of app cs fmt "[KeyEvent 0 ModNone KeyEnter]" "Some ch"] assms(1-5) by (simp add: type_text_def)
  then have enter: "handle_enter fmt 0 ?app (Some ch) = (app', ch')"
    using assms(3) by (auto simp: handle_key_event_def split: if_splits)
  show ?thesis
  proof (cases "slash_parse (str_trim cs)")
    case None
    then have "hd (str_trim cs) \<noteq> CHR ''/''" using assms(6) by (simp add: slash_parse_iff str_trim_idem)
    then show ?thesis using enter None assms
      by (auto simp: handle_enter_def submit_input_def try_send_def app_add_message_def push_message_def Let_def last_drop)
  next
    case (Some cmd)
    then have "hd (str_trim cs) = CHR ''/''" using slash_parse_iff [of cs] by (auto simp: str_trim_idem)
    moreover have "ch' \<noteq> Some (ch\<lparr>ch_queue := ch_queue ch @ [SendMessage m]\<rparr>)" for m
    proof -
      have "ch' = Some ch \<or> ch' = Some (try_send ReconnectNow ch)"
        using enter Some assms(6) by (cases cmd) (auto simp: handle_enter_def Let_def)
      moreover have "ch_queue ch \<noteq> ch_queue ch @ [SendMessage m]" "ch_queue (try_send ReconnectNow ch) \<noteq> ch_queue ch @ [SendMessage m]"
        by (simp_all add: try_send_def)
      ultimately show ?thesis by (metis command_channel.select_convs(1) command_channel.surjective command_channel.update_convs(1) option.inject)
    qed
    ultimately show ?thesis by simp
  qed
qed

definition open_channel :: command_channel where
  "open_channel = \<lparr>ch_queue = [], ch_capacity = 64, ch_closed = False\<rparr>"


theorem typed_text_is_sent_witness:
  "\<exists>app' ch'. run_app (\<lambda>_ _. []) (type_text ''hi'') (app_new 0 default_tui_config, Some open_channel) = Some (app', ch') \<and>
     ch' = Some (open_channel\<lparr>ch_queue := [SendMessage ''hi'']\<rparr>)"
proof -
  obtain app' ch' where run: "run_app (\<lambda>_ _. []) (type_text ''hi'') (app_new 0 default_tui_config, Some open_channel) = Some (app', ch')"
  proof -
    have "list_all ascii_event (type_text ''hi'')" by (simp add: type_text_def ascii_def)
    then show ?thesis using tui_ascii_never_panics_run that by blast
  qed
  have trim: "str_trim ''hi'' = ''hi''" by (simp add: str_trim_def is_ws_def)
  show ?thesis
    using typed_text_is_sent [OF _ _ _ _ _ _ _ _ run] run
    by (simp add: trim open_channel_def app_new_def TUI_DEFAULT_MAX_HISTORY_def)
qed

end
