(* ===== verification/Tui_Client.thy ===== *)
theory Tui_Client
  imports Tui_App
begin

text \<open>
  The background tasks of the terminal client (\<^verbatim>\<open>crates/tui/src/client/ws.rs\<close>) and the keys of inline mode
  (\<^verbatim>\<open>inline.rs\<close>). The WebSocket task is a state machine over what it waits for: a connection attempt, frames and
  commands while connected, the delay before the next attempt, or the user. Every input it receives is
  one step, which gives the next phase, the events for the user interface and the frames it sends.
  The parser of JSON and the conversion of numbers are parameters.
\<close>

section \<open>The WebSocket task\<close>

definition BASE_RECONNECT_DELAY :: nat where
  "BASE_RECONNECT_DELAY = 5"

definition MAX_RECONNECT_DELAY :: nat where
  "MAX_RECONNECT_DELAY = 30"

definition MAX_RECONNECT_ATTEMPTS :: u8 where
  "MAX_RECONNECT_ATTEMPTS = 6"

datatype client_phase = Connecting u8 | Reading | Backoff u8 nat | AwaitUser | StoppedClient

datatype client_input =
    ConnectOk
  | ConnectFailed string
  | WsText string
  | WsControl
  | WsClosed
  | WsError
  | Heartbeat bool
  | Command client_command bool
  | CommandsClosed
  | DelayOver

definition handle_ws_text :: "(string \<Rightarrow> string + json) \<Rightarrow> string \<Rightarrow> server_event list" where
  "handle_ws_text parse t =
     (case parse t of
        Inl e \<Rightarrow> [ErrorEvent (''Failed to parse server message: '' @ e)]
      | Inr v \<Rightarrow>
          (let msg_type = (case get_str v ''type'' of Some s \<Rightarrow> s | None \<Rightarrow> []) in
           if msg_type = ''token'' then [AssistantToken (case get_str v ''content'' of Some s \<Rightarrow> s | None \<Rightarrow> [])]
           else if msg_type = ''done'' then [AssistantDone]
           else if msg_type = ''error'' then [ErrorEvent (case get_str v ''message'' of Some s \<Rightarrow> s | None \<Rightarrow> ''unknown error'')]
           else []))"

definition message_frame :: "string \<Rightarrow> string \<Rightarrow> json" where
  "message_frame session_id content =
     JObject [(''type'', JString ''message''), (''session_id'', JString session_id), (''content'', JString content)]"

text \<open>After a connection ended or could not be opened.\<close>

definition next_attempt :: "u8 \<Rightarrow> client_phase \<times> server_event list" where
  "next_attempt reconnect_attempts =
     (let n = reconnect_attempts + 1 in
      if n > MAX_RECONNECT_ATTEMPTS
      then (AwaitUser, [ErrorEvent ''Max reconnect attempts reached. Use /reconnect to try again.''])
      else (Backoff n (min (BASE_RECONNECT_DELAY * unat n) MAX_RECONNECT_DELAY), [ConnectionEvent (Reconnecting n)]))"

definition connection_lost :: "int \<Rightarrow> client_phase \<times> server_event list \<times> json list" where
  "connection_lost now =
     (let (ph, evs) = next_attempt 0 in (ph, ConnectionEvent (Disconnected now 0) # evs, []))"

text \<open>One event of the read loop while connected: it returns (on the left), or goes on after sending events and
  frames. The Boolean of a command tells whether the socket took the frame.\<close>

fun reading_step :: "(string \<Rightarrow> string + json) \<Rightarrow> string \<Rightarrow> client_input \<Rightarrow> (unit + server_event list \<times> json list) option" where
  "reading_step parse sid (WsText t) = Some (Inr (handle_ws_text parse t, []))"
| "reading_step parse sid WsControl = Some (Inr ([], []))"
| "reading_step parse sid WsClosed = Some (Inl ())"
| "reading_step parse sid WsError = Some (Inl ())"
| "reading_step parse sid (Heartbeat ok) = Some (if ok then Inr ([], []) else Inl ())"
| "reading_step parse sid (Command (SendMessage content) ok) = Some (if ok then Inr ([], [message_frame sid content]) else Inl ())"
| "reading_step parse sid (Command CancelGeneration ok) = Some (Inr ([ErrorEvent ''Cancellation not supported by server.''], []))"
| "reading_step parse sid (Command ReconnectNow ok) = Some (Inl ())"
| "reading_step parse sid (Command ShutdownClient ok) = Some (Inl ())"
| "reading_step parse sid CommandsClosed = Some (Inl ())"
| "reading_step parse sid i = None"

fun client_step :: "(string \<Rightarrow> string + json) \<Rightarrow> string \<Rightarrow> int \<Rightarrow> client_phase \<Rightarrow> client_input \<Rightarrow>
    (client_phase \<times> server_event list \<times> json list) option" where
  "client_step parse sid now (Connecting n) ConnectOk = Some (Reading, [ConnectionEvent Connected], [])"
| "client_step parse sid now (Connecting n) (ConnectFailed e) =
     (let (ph, evs) = next_attempt n in Some (ph, ErrorEvent (''WebSocket connection failed: '' @ e) # evs, []))"
| "client_step parse sid now Reading i =
     map_option (\<lambda>r. case r of Inl _ \<Rightarrow> connection_lost now | Inr (evs, fs) \<Rightarrow> (Reading, evs, fs)) (reading_step parse sid i)"
| "client_step parse sid now (Backoff n d) DelayOver = Some (Connecting n, [], [])"
| "client_step parse sid now (Backoff n d) (Command ShutdownClient ok) = Some (StoppedClient, [], [])"
| "client_step parse sid now (Backoff n d) CommandsClosed = Some (StoppedClient, [], [])"
| "client_step parse sid now (Backoff n d) (Command c ok) = Some (Connecting n, [], [])"
| "client_step parse sid now AwaitUser (Command ReconnectNow ok) = Some (Connecting 0, [], [])"
| "client_step parse sid now AwaitUser (Command ShutdownClient ok) = Some (Connecting 0, [], [])"
| "client_step parse sid now AwaitUser CommandsClosed = Some (Connecting 0, [], [])"
| "client_step parse sid now AwaitUser (Command c ok) = Some (AwaitUser, [], [])"
| "client_step parse sid now ph i = None"

fun client_run :: "(string \<Rightarrow> string + json) \<Rightarrow> string \<Rightarrow> (int \<times> client_input) list \<Rightarrow> client_phase \<Rightarrow>
    (client_phase \<times> server_event list \<times> json list) option" where
  "client_run parse sid [] ph = Some (ph, [], [])"
| "client_run parse sid ((now, i) # is) ph =
     Option.bind (client_step parse sid now ph i) (\<lambda>(ph1, evs1, fs1).
       map_option (\<lambda>(ph2, evs2, fs2). (ph2, evs1 @ evs2, fs1 @ fs2)) (client_run parse sid is ph1))"

section \<open>The status poll\<close>

definition polled_status :: "json \<Rightarrow> tui_status" where
  "polled_status v =
     (let status_str = (case get_str v ''status'' of Some s \<Rightarrow> s | None \<Rightarrow> ''idle'');
          task = get_str v ''current_task''
      in if status_str = ''working'' \<or> status_str = ''busy'' then TuiWorking (case task of Some t \<Rightarrow> t | None \<Rightarrow> ''unknown'') None
         else if status_str = ''error'' then TuiError (case task of Some t \<Rightarrow> t | None \<Rightarrow> ''unknown error'')
         else TuiIdle)"

definition poll_events :: "(json \<Rightarrow> real option) \<Rightarrow> (real \<Rightarrow> real) \<Rightarrow> string + json \<Rightarrow> string + 't list \<Rightarrow> server_event list" where
  "poll_events as_f64 to_f32 status tasks =
     (case status of
        Inr v \<Rightarrow> [StatusEvent (polled_status v)
                   (to_f32 (case Option.bind (json_get v ''cpu'') as_f64 of Some x \<Rightarrow> x | None \<Rightarrow> 0))
                   (to_f32 (case Option.bind (json_get v ''memory_mb'') as_f64 of Some x \<Rightarrow> x | None \<Rightarrow> 0))]
      | Inl _ \<Rightarrow> []) @
     (case tasks of Inr ts \<Rightarrow> if ts = [] then [] else [StatusEvent TuiIdle 0 0] | Inl _ \<Rightarrow> [])"

section \<open>Keys of inline mode\<close>

datatype inline_key_result = InlineContinue | InlineSubmitted | InlineExit

record inline_state =
  is_app :: tui_app
  is_input :: string
  is_cursor :: nat
  is_channel :: command_channel

definition inline_enter :: "(nat \<Rightarrow> real \<Rightarrow> string) \<Rightarrow> int \<Rightarrow> inline_state \<Rightarrow> inline_key_result \<times> inline_state" where
  "inline_enter fmt now s =
     (let trimmed = str_trim (is_input s) in
      if trimmed = [] then (InlineContinue, s)
      else (case slash_parse trimmed of
              Some cmd \<Rightarrow>
                (let (app, ch) = slash_execute fmt now cmd (is_app s) (is_channel s)
                 in (if ta_should_quit app then InlineExit else InlineContinue,
                     \<lparr>is_app = app, is_input = [], is_cursor = 0, is_channel = ch\<rparr>))
            | None \<Rightarrow>
                (InlineSubmitted, \<lparr>is_app = submit_input_inline trimmed (is_app s), is_input = [], is_cursor = 0,
                   is_channel = try_send (SendMessage trimmed) (is_channel s)\<rparr>)))"

definition inline_edit :: "key_mods \<Rightarrow> key_code \<Rightarrow> inline_state \<Rightarrow> inline_state option" where
  "inline_edit m k s =
     (let input = is_input s; cursor = is_cursor s; app = is_app s in
      case (m, k) of
        (ModNone, KeyBackspace) \<Rightarrow>
          (if cursor > 0 then map_option (\<lambda>t. s\<lparr>is_input := t, is_cursor := cursor - 1\<rparr>) (string_remove input (cursor - 1)) else Some s)
      | (ModNone, KeyDelete) \<Rightarrow>
          (if cursor < length input then map_option (\<lambda>t. s\<lparr>is_input := t\<rparr>) (string_remove input cursor) else Some s)
      | (ModNone, KeyLeft) \<Rightarrow> Some (s\<lparr>is_cursor := cursor - 1\<rparr>)
      | (ModNone, KeyRight) \<Rightarrow> Some (if cursor < length input then s\<lparr>is_cursor := cursor + 1\<rparr> else s)
      | (ModNone, KeyHome) \<Rightarrow> Some (s\<lparr>is_cursor := 0\<rparr>)
      | (ModNone, KeyEnd) \<Rightarrow> Some (s\<lparr>is_cursor := length input\<rparr>)
      | (ModControl, KeyChar c) \<Rightarrow>
          (if c = ''u'' then Some (s\<lparr>is_input := [], is_cursor := 0\<rparr>)
           else if c = ''w'' then
             Option.bind (find_prev_word_boundary input cursor) (\<lambda>new_pos.
               map_option (\<lambda>t. s\<lparr>is_input := t, is_cursor := new_pos\<rparr>) (string_drain input new_pos cursor))
           else Some s)
      | (ModNone, KeyUp) \<Rightarrow>
          (if input = [] \<or> ta_history_index app \<noteq> None
           then map_option (\<lambda>(t, a). s\<lparr>is_app := a, is_input := t, is_cursor := length t\<rparr>) (history_up_inline input app) else Some s)
      | (ModNone, KeyDown) \<Rightarrow>
          (if ta_history_index app \<noteq> None
           then map_option (\<lambda>(t, a). s\<lparr>is_app := a, is_input := t, is_cursor := length t\<rparr>) (history_down_inline input app) else Some s)
      | (ModOther, KeyChar c) \<Rightarrow> Some s
      | (_, KeyChar c) \<Rightarrow> map_option (\<lambda>t. s\<lparr>is_input := t, is_cursor := cursor + 1\<rparr>) (string_insert input cursor c)
      | _ \<Rightarrow> Some s)"

definition inline_handle_key ::
  "(nat \<Rightarrow> real \<Rightarrow> string) \<Rightarrow> int \<Rightarrow> key_mods \<Rightarrow> key_code \<Rightarrow> inline_state \<Rightarrow> (inline_key_result \<times> inline_state) option" where
  "inline_handle_key fmt now m k s =
     (if m = ModControl \<and> k = KeyChar ''c'' then
        (case ta_agent_status (is_app s) of
           TuiWorking _ _ \<Rightarrow> Some (InlineContinue, s\<lparr>is_app := cancel_task now (is_app s), is_channel := try_send CancelGeneration (is_channel s)\<rparr>)
         | _ \<Rightarrow> Some (InlineExit, s\<lparr>is_app := (is_app s)\<lparr>ta_should_quit := True\<rparr>\<rparr>))
      else if m = ModControl \<and> k = KeyChar ''d'' then
        (if is_input s = [] then Some (InlineExit, s\<lparr>is_app := (is_app s)\<lparr>ta_should_quit := True\<rparr>\<rparr>) else Some (InlineContinue, s))
      else if m = ModNone \<and> k = KeyEnter then Some (inline_enter fmt now s)
      else map_option (Pair InlineContinue) (inline_edit m k s))"

section \<open>Properties\<close>

text \<open>A poll that reports work and running tasks leaves the display idle: the second event, which carries the
  tasks, resets the status that the first one set.\<close>

lemma poll_hides_work:
  "ts \<noteq> [] \<Longrightarrow> ta_agent_status (fold (handle_server_event now) (poll_events as_f64 to_f32 status (Inr ts)) app) = TuiIdle"
  by (simp add: poll_events_def split: sum.split)

text \<open>A message the task receives while it is not connected is dropped: no frame is sent for it.\<close>

lemma message_dropped_when_disconnected:
  assumes "client_step parse sid now ph (Command (SendMessage c) ok) = Some (ph', evs, fs)" and "ph \<noteq> Reading"
  shows "fs = [] \<and> evs = []"
  using assms by (cases ph) auto

text \<open>A shutdown command stops the task only between two attempts: it opens another connection
  after it when it was connected or waiting for the user.\<close>

lemma shutdown_reconnects:
  "client_run parse sid [(t0, Command ShutdownClient ok), (t1, DelayOver), (t2, ConnectOk)] Reading =
     Some (Reading, [ConnectionEvent (Disconnected t0 0), ConnectionEvent (Reconnecting 1), ConnectionEvent Connected], [])"
  "client_run parse sid [(t0, Command ShutdownClient ok), (t1, ConnectOk)] AwaitUser = Some (Reading, [ConnectionEvent Connected], [])"
  by (simp_all add: connection_lost_def next_attempt_def MAX_RECONNECT_ATTEMPTS_def)

subsection \<open>The schedule of attempts\<close>

fun phase_ok :: "client_phase \<Rightarrow> bool" where
  "phase_ok (Connecting n) \<longleftrightarrow> n \<le> 6"
| "phase_ok (Backoff n d) \<longleftrightarrow> 1 \<le> n \<and> n \<le> 6 \<and> d = 5 * unat n"
| "phase_ok _ \<longleftrightarrow> True"

text \<open>The failed attempts that are left before the task waits for the user.\<close>

fun attempts_left :: "client_phase \<Rightarrow> nat" where
  "attempts_left (Connecting n) = 7 - unat n"
| "attempts_left (Backoff n d) = 7 - unat n"
| "attempts_left _ = 0"

fun idle_input :: "client_input \<Rightarrow> bool" where
  "idle_input (ConnectFailed e) \<longleftrightarrow> True"
| "idle_input DelayOver \<longleftrightarrow> True"
| "idle_input _ \<longleftrightarrow> False"

definition failures :: "(int \<times> client_input) list \<Rightarrow> nat" where
  "failures is = length (filter (\<lambda>(_, i). i \<noteq> DelayOver) is)"

lemma next_attempt_ok:
  assumes "n \<le> 6"
  shows "phase_ok (fst (next_attempt n))" "attempts_left (fst (next_attempt n)) + 1 = 7 - unat n"
    "fst (next_attempt n) \<noteq> Reading" "fst (next_attempt n) \<noteq> StoppedClient"
proof -
  have n: "unat n \<le> 6" using assms by (simp add: word_le_nat_alt)
  then have "unat (n + 1) = unat n + 1" by (simp add: unat_word_ariths)
  then show "phase_ok (fst (next_attempt n))" "attempts_left (fst (next_attempt n)) + 1 = 7 - unat n"
    "fst (next_attempt n) \<noteq> Reading" "fst (next_attempt n) \<noteq> StoppedClient"
    using n by (auto simp: next_attempt_def MAX_RECONNECT_ATTEMPTS_def BASE_RECONNECT_DELAY_def MAX_RECONNECT_DELAY_def
        Let_def word_le_nat_alt word_less_nat_alt)
qed

lemma next_attempt_pair:
  "next_attempt n = (ph, evs) \<Longrightarrow> n \<le> 6 \<Longrightarrow>
     phase_ok ph \<and> attempts_left ph + 1 = 7 - unat n \<and> ph \<noteq> Reading \<and> ph \<noteq> StoppedClient"
  using next_attempt_ok [of n] by simp

lemma connection_lost_ok: "connection_lost now = (ph, evs, fs) \<Longrightarrow> phase_ok ph"
  by (auto simp: connection_lost_def Let_def dest: next_attempt_pair split: prod.splits)

lemma reading_ok:
  assumes "client_step parse sid now Reading i = Some (ph, evs, fs)"
  shows "phase_ok ph"
proof -
  obtain r where "reading_step parse sid i = Some r" "(case r of Inl _ \<Rightarrow> connection_lost now | Inr x \<Rightarrow> (Reading, x)) = (ph, evs, fs)"
    using assms by auto
  then show ?thesis by (cases r) (auto dest: connection_lost_ok)
qed

lemma client_step_ok: "client_step parse sid now ph i = Some (ph', evs, fs) \<Longrightarrow> phase_ok ph \<Longrightarrow> phase_ok ph'"
  using reading_ok
  by (induction parse sid now ph i rule: client_step.induct)
    (auto simp: Let_def simp del: client_step.simps(3) dest: next_attempt_pair split: prod.splits)

lemma client_run_ok: "client_run parse sid is ph = Some (ph', evs, fs) \<Longrightarrow> phase_ok ph \<Longrightarrow> phase_ok ph'"
proof (induction "is" arbitrary: ph evs fs)
  case (Cons x "is")
  then show ?case by (cases x) (auto simp: bind_eq_Some_conv dest: client_step_ok)
qed simp

lemma passive_step:
  assumes "client_step parse sid now ph i = Some (ph', evs, fs)" and "idle_input i" and "phase_ok ph"
    and "ph \<noteq> Reading" and "ph \<noteq> StoppedClient"
  shows "attempts_left ph' + (if i = DelayOver then 0 else 1) = attempts_left ph" "ph' \<noteq> Reading" "ph' \<noteq> StoppedClient" "fs = []"
  using assms by (cases ph; cases i; auto simp: Let_def dest: next_attempt_pair split: prod.splits)+

lemma passive_run:
  assumes "client_run parse sid is ph = Some (ph', evs, fs)" and "list_all (\<lambda>(_, i). idle_input i) is" and "phase_ok ph"
    and "ph \<noteq> Reading" and "ph \<noteq> StoppedClient"
  shows "attempts_left ph' + failures is = attempts_left ph \<and> ph' \<noteq> Reading \<and> ph' \<noteq> StoppedClient"
  using assms
proof (induction "is" arbitrary: ph evs fs)
  case (Cons x "is")
  obtain now i where x: "x = (now, i)" by (cases x)
  obtain ph1 evs1 fs1 evs2 fs2 where s: "client_step parse sid now ph i = Some (ph1, evs1, fs1)" "client_run parse sid is ph1 = Some (ph', evs2, fs2)"
    using Cons.prems(1) by (auto simp: bind_eq_Some_conv x)
  have p: "idle_input i" using Cons.prems(2) by (simp add: x)
  note st = passive_step [OF s(1) p Cons.prems(3-5)]
  have "attempts_left ph' + failures is = attempts_left ph1 \<and> ph' \<noteq> Reading \<and> ph' \<noteq> StoppedClient"
    using Cons.IH [OF s(2)] Cons.prems(2) client_step_ok [OF s(1) Cons.prems(3)] st by simp
  then show ?case using st(1) by (auto simp: failures_def x)
qed (simp add: failures_def)

text \<open>
  C36: reconnecting is bounded: while nothing but failing attempts and delays happen, the task
  makes at most seven attempts, and it waits for the user exactly after the seventh; the
  \<open>n\<close>-th delay is five seconds times \<open>n\<close> and at most thirty seconds, in every reachable phase.
\<close>

theorem reconnect_schedule:
  assumes "client_run parse sid is (Connecting 0) = Some (ph, evs, fs)"
  shows "(\<forall>n d. ph = Backoff n d \<longrightarrow> d = 5 * unat n \<and> 5 \<le> d \<and> d \<le> 30) \<and>
    (list_all (\<lambda>(_, i). idle_input i) is \<longrightarrow> failures is \<le> 7 \<and> (ph = AwaitUser \<longleftrightarrow> failures is = 7))"
proof -
  have ok: "phase_ok ph" using client_run_ok [OF assms] by simp
  have "failures is \<le> 7 \<and> (ph = AwaitUser \<longleftrightarrow> failures is = 7)" if "list_all (\<lambda>(_, i). idle_input i) is"
    using passive_run [OF assms that] ok by (cases ph) (auto simp: word_le_nat_alt)
  moreover have "d = 5 * unat n \<and> 5 \<le> d \<and> d \<le> 30" if "ph = Backoff n d" for n d
    using ok that by (auto simp: word_le_nat_alt)
  ultimately show ?thesis by blast
qed

definition failing_inputs :: "(int \<times> client_input) list" where
  "failing_inputs = concat (replicate 6 [(0, ConnectFailed []), (0, DelayOver)]) @ [(0, ConnectFailed [])]"

lemma failing_run: "client_run Inl [] failing_inputs (Connecting 0) \<noteq> None" "failures failing_inputs = 7"
    "list_all (\<lambda>(_, i). idle_input i) failing_inputs"
  by code_simp+

theorem reconnect_schedule_witness:
  "\<exists>evs fs. client_run Inl [] failing_inputs (Connecting 0) = Some (AwaitUser, evs, fs)"
proof -
  obtain ph evs fs where run: "client_run Inl [] failing_inputs (Connecting 0) = Some (ph, evs, fs)"
    using failing_run(1) by auto
  then show ?thesis using reconnect_schedule [OF run] failing_run(2,3) by blast
qed

end
