(* ===== verification/Memory_Store.thy ===== *)
theory Memory_Store
  imports Session_State Rust_Text "HOL-Library.List_Lexorder" "HOL-Library.Char_ord" "HOL-Library.Product_Lexorder" "HOL-Library.Multiset"
begin

text \<open>
  Conversations and knowledge in the database (\<^verbatim>\<open>crates/memory-store/src/conversation.rs\<close> and
  \<^verbatim>\<open>knowledge.rs\<close>, with the tables of \<^verbatim>\<open>db.rs\<close>). The statements are run by SQLite: \<open>sql_api\<close> holds what each
  of them answers, and the locale \<open>sql_tables\<close> what the statements mean for the rows, as SQL says it: a
  \<open>SELECT\<close> may order rows with equal keys in any way. The tables \<open>tables\<close> with their keys
  interpret it. The texts of identifiers, times and JSON columns are parameters (\<open>column_texts\<close>).
\<close>

section \<open>Rows and statements\<close>

record message_row =
  mr_id :: string
  mr_session_id :: string
  mr_role :: string
  mr_content :: string
  mr_tool_calls :: "string option"
  mr_tool_results :: "string option"
  mr_timestamp :: string
  mr_token_count :: int

record knowledge_row =
  kr_id :: string
  kr_title :: string
  kr_content :: string
  kr_tags :: "string option"
  kr_metadata :: "string option"
  kr_created_at :: string
  kr_updated_at :: string

record 'd sql_api =
  sq_insert_message :: "message_row \<Rightarrow> 'd \<Rightarrow> bool \<times> 'd"
  sq_select_messages :: "string \<Rightarrow> int \<Rightarrow> 'd \<Rightarrow> message_row list option"
  sq_insert_knowledge :: "knowledge_row \<Rightarrow> 'd \<Rightarrow> bool \<times> 'd"
  sq_delete_knowledge :: "string \<Rightarrow> 'd \<Rightarrow> nat option \<times> 'd"
  sq_count_knowledge :: "'d \<Rightarrow> int option"
  sq_search_knowledge :: "string \<Rightarrow> nat \<Rightarrow> 'd \<Rightarrow> (knowledge_row \<times> nat) list option"

record column_texts =
  tx_uuid :: "uuid \<Rightarrow> string"
  tx_parse_uuid :: "string \<Rightarrow> string + uuid"
  tx_time :: "timestamp \<Rightarrow> string"
  tx_parse_time :: "string \<Rightarrow> string + timestamp"
  tx_calls :: "tool_call list \<Rightarrow> string + string"
  tx_parse_calls :: "string \<Rightarrow> string + tool_call list"
  tx_results :: "tool_result list \<Rightarrow> string + string"
  tx_parse_results :: "string \<Rightarrow> string + tool_result list"

section \<open>Conversations\<close>

fun role_to_str :: "message_role \<Rightarrow> string" where
  "role_to_str User = ''user''"
| "role_to_str Assistant = ''assistant''"
| "role_to_str System = ''system''"
| "role_to_str ToolRole = ''tool''"

definition str_to_role :: "string \<Rightarrow> message_role option" where
  "str_to_role s =
     (if s = ''user'' then Some User else if s = ''assistant'' then Some Assistant
      else if s = ''system'' then Some System else if s = ''tool'' then Some ToolRole else None)"

text \<open>\<open>map(f).transpose()\<close> of an optional column.\<close>

definition transpose_map :: "('a \<Rightarrow> 'e + 'b) \<Rightarrow> 'a option \<Rightarrow> 'e + 'b option" where
  "transpose_map f x = (case x of None \<Rightarrow> Inr None | Some a \<Rightarrow> map_sum id Some (f a))"

definition message_to_row :: "column_texts \<Rightarrow> message \<Rightarrow> store_error + message_row" where
  "message_to_row tx m =
     (case transpose_map (tx_calls tx) (m_tool_calls m) of
        Inl e \<Rightarrow> Inl (CorruptedData (''Failed to serialize tool_calls: '' @ e))
      | Inr calls \<Rightarrow>
          (case transpose_map (tx_results tx) (m_tool_results m) of
             Inl e \<Rightarrow> Inl (CorruptedData (''Failed to serialize tool_results: '' @ e))
           | Inr results \<Rightarrow>
               Inr \<lparr>mr_id = tx_uuid tx (m_id m), mr_session_id = tx_uuid tx (m_session_id m), mr_role = role_to_str (m_role m),
                 mr_content = m_content m, mr_tool_calls = calls, mr_tool_results = results,
                 mr_timestamp = tx_time tx (m_timestamp m), mr_token_count = uint (m_token_count m)\<rparr>))"

definition store_message :: "column_texts \<Rightarrow> 'd sql_api \<Rightarrow> message \<Rightarrow> 'd \<Rightarrow> (store_error + message_id) \<times> 'd" where
  "store_message tx sql m d =
     (case message_to_row tx m of
        Inl e \<Rightarrow> (Inl e, d)
      | Inr row \<Rightarrow> (let (ok, d') = sq_insert_message sql row d in (if ok then Inr (m_id m) else Inl Unavailable, d')))"

definition row_to_message :: "column_texts \<Rightarrow> session_id \<Rightarrow> message_row \<Rightarrow> store_error + message" where
  "row_to_message tx sid row =
     (case tx_parse_uuid tx (mr_id row) of
        Inl e \<Rightarrow> Inl (CorruptedData (''Invalid message UUID: '' @ e))
      | Inr mid \<Rightarrow>
          (case str_to_role (mr_role row) of
             None \<Rightarrow> Inl (CorruptedData (''Invalid role: '' @ mr_role row))
           | Some r \<Rightarrow>
               (case transpose_map (tx_parse_calls tx) (mr_tool_calls row) of
                  Inl e \<Rightarrow> Inl (CorruptedData (''Failed to deserialize tool_calls: '' @ e))
                | Inr calls \<Rightarrow>
                    (case transpose_map (tx_parse_results tx) (mr_tool_results row) of
                       Inl e \<Rightarrow> Inl (CorruptedData (''Failed to deserialize tool_results: '' @ e))
                     | Inr results \<Rightarrow>
                         (case tx_parse_time tx (mr_timestamp row) of
                            Inl e \<Rightarrow> Inl (CorruptedData (''Invalid timestamp: '' @ e))
                          | Inr t \<Rightarrow>
                              Inr \<lparr>m_id = mid, m_session_id = sid, m_role = r, m_content = mr_content row, m_tool_calls = calls,
                                m_tool_results = results, m_timestamp = t, m_token_count = of_int (mr_token_count row)\<rparr>)))))"

fun rows_to_messages :: "column_texts \<Rightarrow> session_id \<Rightarrow> message_row list \<Rightarrow> store_error + message list" where
  "rows_to_messages tx sid [] = Inr []"
| "rows_to_messages tx sid (row # rows) =
     (case row_to_message tx sid row of
        Inl e \<Rightarrow> Inl e
      | Inr m \<Rightarrow> map_sum id (Cons m) (rows_to_messages tx sid rows))"

text \<open>\<^verbatim>\<open>limit as i64\<close>: a limit of \<open>2\<^sup>6\<^sup>3\<close> or more becomes negative, which SQLite reads as no limit.\<close>

definition usize_as_i64 :: "u64 \<Rightarrow> int" where
  "usize_as_i64 n = sint n"

definition conv_get_history :: "column_texts \<Rightarrow> 'd sql_api \<Rightarrow> session_id \<Rightarrow> u64 \<Rightarrow> 'd \<Rightarrow> store_error + message list" where
  "conv_get_history tx sql sid limit d =
     (case sq_select_messages sql (tx_uuid tx sid) (usize_as_i64 limit) d of
        None \<Rightarrow> Inl Unavailable
      | Some rows \<Rightarrow> map_sum id rev (rows_to_messages tx sid rows))"

section \<open>Knowledge\<close>

definition MAX_CONTENT_SIZE :: nat where
  "MAX_CONTENT_SIZE = 10000"

definition DEFAULT_MAX_ENTRIES :: u64 where
  "DEFAULT_MAX_ENTRIES = 100000"

record knowledge_texts =
  kx_tags :: "string list \<Rightarrow> string option"
  kx_parse_tags :: "string \<Rightarrow> string list option"
  kx_metadata :: "(string \<times> string) list \<Rightarrow> string option"
  kx_parse_metadata :: "string \<Rightarrow> (string \<times> string) list option"

record search_result =
  sr_id :: uuid
  sr_title :: string
  sr_content :: string
  sr_tags :: "string list"
  sr_metadata :: "(string \<times> string) list"
  sr_relevance_tenths :: nat

definition entry_count :: "'d sql_api \<Rightarrow> 'd \<Rightarrow> store_error + u64" where
  "entry_count sql d = (case sq_count_knowledge sql d of None \<Rightarrow> Inl Unavailable | Some n \<Rightarrow> Inr (of_int n))"

definition store_knowledge :: "column_texts \<Rightarrow> knowledge_texts \<Rightarrow> 'd sql_api \<Rightarrow> u64 \<Rightarrow> uuid \<Rightarrow> timestamp \<Rightarrow>
    string \<Rightarrow> string \<Rightarrow> string list \<Rightarrow> (string \<times> string) list \<Rightarrow> 'd \<Rightarrow> (store_error + uuid) \<times> 'd" where
  "store_knowledge tx kx sql max_entries fresh now title content tags metadata d =
     (if length content > MAX_CONTENT_SIZE then (Inl (ContentTooLarge MAX_CONTENT_SIZE (length content)), d)
      else (case entry_count sql d of
              Inl e \<Rightarrow> (Inl e, d)
            | Inr n \<Rightarrow>
                if n \<ge> max_entries then (Inl CapacityFull, d)
                else
                  (let row = \<lparr>kr_id = tx_uuid tx fresh, kr_title = title, kr_content = content,
                              kr_tags = Some (case kx_tags kx tags of Some j \<Rightarrow> j | None \<Rightarrow> ''[]''),
                              kr_metadata = Some (case kx_metadata kx metadata of Some j \<Rightarrow> j | None \<Rightarrow> ''{}''),
                              kr_created_at = tx_time tx now, kr_updated_at = tx_time tx now\<rparr>;
                       (ok, d') = sq_insert_knowledge sql row d
                   in (if ok then Inr fresh else Inl Unavailable, d'))))"

definition delete_knowledge :: "column_texts \<Rightarrow> 'd sql_api \<Rightarrow> uuid \<Rightarrow> 'd \<Rightarrow> (store_error + unit) \<times> 'd" where
  "delete_knowledge tx sql i d =
     (case sq_delete_knowledge sql (tx_uuid tx i) d of
        (None, d') \<Rightarrow> (Inl Unavailable, d')
      | (Some n, d') \<Rightarrow> (if n = 0 then Inl (EntryNotFound (tx_uuid tx i)) else Inr (), d'))"

definition row_to_result :: "column_texts \<Rightarrow> knowledge_texts \<Rightarrow> uuid \<Rightarrow> knowledge_row \<times> nat \<Rightarrow> search_result" where
  "row_to_result tx kx nil_uuid = (\<lambda>(row, relevance).
     \<lparr>sr_id = (case tx_parse_uuid tx (kr_id row) of Inr u \<Rightarrow> u | Inl _ \<Rightarrow> nil_uuid), sr_title = kr_title row, sr_content = kr_content row,
      sr_tags = (case Option.bind (kr_tags row) (kx_parse_tags kx) of Some ts \<Rightarrow> ts | None \<Rightarrow> []),
      sr_metadata = (case Option.bind (kr_metadata row) (kx_parse_metadata kx) of Some m \<Rightarrow> m | None \<Rightarrow> []),
      sr_relevance_tenths = relevance\<rparr>)"

definition search_knowledge :: "column_texts \<Rightarrow> knowledge_texts \<Rightarrow> 'd sql_api \<Rightarrow> uuid \<Rightarrow> string \<Rightarrow> u32 \<Rightarrow> 'd \<Rightarrow> store_error + search_result list" where
  "search_knowledge tx kx sql nil_uuid query limit d =
     (if str_trim query = [] then Inr []
      else (case sq_search_knowledge sql (''%'' @ query @ ''%'') (unat limit) d of
              None \<Rightarrow> Inl Unavailable
            | Some rows \<Rightarrow> Inr (map (row_to_result tx kx nil_uuid) rows)))"

section \<open>What the statements mean\<close>

text \<open>\<open>LIKE\<close>: a per cent sign stands for any text, an underscore for one character, letters match in
  either case.\<close>

fun sql_like :: "string \<Rightarrow> string \<Rightarrow> bool" where
  "sql_like [] s \<longleftrightarrow> s = []"
| "sql_like (p # ps) s \<longleftrightarrow>
     (if p = CHR ''%'' then sql_like ps s \<or> (case s of [] \<Rightarrow> False | _ # s' \<Rightarrow> sql_like (p # ps) s')
      else (case s of [] \<Rightarrow> False | c # s' \<Rightarrow> (p = CHR ''_'' \<or> lower_char p = lower_char c) \<and> sql_like ps s'))"

declare sql_like.simps [simp del]

definition like_column :: "string \<Rightarrow> string option \<Rightarrow> bool" where
  "like_column pat col = (case col of None \<Rightarrow> False | Some s \<Rightarrow> sql_like pat s)"

definition row_matches :: "string \<Rightarrow> knowledge_row \<Rightarrow> bool" where
  "row_matches pat r \<longleftrightarrow> sql_like pat (kr_title r) \<or> sql_like pat (kr_content r) \<or> like_column pat (kr_tags r)"

definition row_relevance :: "string \<Rightarrow> knowledge_row \<Rightarrow> nat" where
  "row_relevance pat r =
     (if sql_like pat (kr_title r) \<and> sql_like pat (kr_content r) then 10
      else if sql_like pat (kr_title r) then 9 else if like_column pat (kr_tags r) then 7 else 5)"

definition sql_limit :: "int \<Rightarrow> 'a list \<Rightarrow> 'a list" where
  "sql_limit n xs = (if n < 0 then xs else take (nat n) xs)"

definition recent_rows :: "string \<Rightarrow> int \<Rightarrow> message_row list \<Rightarrow> message_row list \<Rightarrow> bool" where
  "recent_rows sid n table out \<longleftrightarrow>
     (\<exists>ys. mset ys = mset (filter (\<lambda>r. mr_session_id r = sid) table) \<and>
        sorted_wrt (\<lambda>a b. mr_timestamp a \<ge> mr_timestamp b) ys \<and> out = sql_limit n ys)"

definition ranked_rows :: "string \<Rightarrow> nat \<Rightarrow> knowledge_row list \<Rightarrow> (knowledge_row \<times> nat) list \<Rightarrow> bool" where
  "ranked_rows pat n table out \<longleftrightarrow>
     (\<exists>ys. mset ys = mset (map (\<lambda>r. (r, row_relevance pat r)) (filter (row_matches pat) table)) \<and>
        sorted_wrt (\<lambda>a b. snd a > snd b \<or> snd a = snd b \<and> kr_created_at (fst a) \<ge> kr_created_at (fst b)) ys \<and> out = take n ys)"

locale sql_tables =
  fixes sql :: "'d sql_api"
    and messages_of :: "'d \<Rightarrow> message_row list"
    and knowledge_of :: "'d \<Rightarrow> knowledge_row list"
  assumes insert_message: "sq_insert_message sql r d = (ok, d') \<Longrightarrow>
      messages_of d' = (if ok then messages_of d @ [r] else messages_of d) \<and> knowledge_of d' = knowledge_of d"
    and select_messages: "sq_select_messages sql sid n d = Some rows \<Longrightarrow> recent_rows sid n (messages_of d) rows"
    and insert_knowledge: "sq_insert_knowledge sql k d = (ok, d') \<Longrightarrow>
      knowledge_of d' = (if ok then knowledge_of d @ [k] else knowledge_of d) \<and> messages_of d' = messages_of d"
    and delete_rows: "sq_delete_knowledge sql i d = (gone, d') \<Longrightarrow>
      messages_of d' = messages_of d \<and>
      (case gone of None \<Rightarrow> knowledge_of d' = knowledge_of d
       | Some g \<Rightarrow> knowledge_of d' = filter (\<lambda>r. kr_id r \<noteq> i) (knowledge_of d) \<and> g = length (filter (\<lambda>r. kr_id r = i) (knowledge_of d)))"
    and count_rows: "sq_count_knowledge sql d = Some c \<Longrightarrow> c = int (length (knowledge_of d))"
    and search_rows: "sq_search_knowledge sql pat m d = Some found \<Longrightarrow> ranked_rows pat m (knowledge_of d) found"

text \<open>What the code relies on in the texts of the columns: parsing inverts writing, and the texts of times are
  ordered as the times, from 1970 to the end of the year 9999.\<close>

definition four_digit_year :: "timestamp \<Rightarrow> bool" where
  "four_digit_year t \<longleftrightarrow> 0 \<le> t \<and> t < 253402300800 * 10 ^ 9"

definition text_laws :: "column_texts \<Rightarrow> bool" where
  "text_laws tx \<longleftrightarrow>
     (\<forall>u. tx_parse_uuid tx (tx_uuid tx u) = Inr u) \<and> (\<forall>t. tx_parse_time tx (tx_time tx t) = Inr t) \<and>
     (\<forall>cs j. tx_calls tx cs = Inr j \<longrightarrow> tx_parse_calls tx j = Inr cs) \<and>
     (\<forall>rs j. tx_results tx rs = Inr j \<longrightarrow> tx_parse_results tx j = Inr rs) \<and>
     (\<forall>t u. four_digit_year t \<longrightarrow> four_digit_year u \<longrightarrow> t < u \<longrightarrow> tx_time tx t < tx_time tx u)"

section \<open>Properties\<close>

lemma str_to_role_role: "str_to_role (role_to_str r) = Some r"
  by (cases r) (simp_all add: str_to_role_def)

lemma transpose_map_parse:
  assumes "transpose_map f x = Inr y" and "\<And>a b. f a = Inr b \<Longrightarrow> g b = Inr a"
  shows "transpose_map g y = Inr x"
  using assms by (cases x; cases "f (the x)") (auto simp: transpose_map_def)

text \<open>A row reads back as the message it was written for.\<close>

lemma row_round_trip:
  assumes "text_laws tx" and "message_to_row tx m = Inr row" and "m_session_id m = sid"
  shows "row_to_message tx sid row = Inr m"
proof -
  obtain calls results where c: "transpose_map (tx_calls tx) (m_tool_calls m) = Inr calls"
      and r: "transpose_map (tx_results tx) (m_tool_results m) = Inr results"
      and row: "row = \<lparr>mr_id = tx_uuid tx (m_id m), mr_session_id = tx_uuid tx (m_session_id m), mr_role = role_to_str (m_role m),
                 mr_content = m_content m, mr_tool_calls = calls, mr_tool_results = results,
                 mr_timestamp = tx_time tx (m_timestamp m), mr_token_count = uint (m_token_count m)\<rparr>"
    using assms(2) by (auto simp: message_to_row_def split: sum.splits)
  have "transpose_map (tx_parse_calls tx) calls = Inr (m_tool_calls m)"
    using assms(1) by (intro transpose_map_parse [OF c]) (simp add: text_laws_def)
  moreover have "transpose_map (tx_parse_results tx) results = Inr (m_tool_results m)"
    using assms(1) by (intro transpose_map_parse [OF r]) (simp add: text_laws_def)
  ultimately show ?thesis
    using assms(1,3) by (simp add: row_to_message_def row text_laws_def str_to_role_role)
qed

lemma rows_round_trip:
  assumes "text_laws tx" and "list_all2 (\<lambda>m row. message_to_row tx m = Inr row) ms rows" and "\<forall>m \<in> set ms. m_session_id m = sid"
  shows "rows_to_messages tx sid rows = Inr ms"
  using assms(2,3) by (induction rule: list_all2_induct) (simp_all add: row_round_trip [OF assms(1)])

lemma distinct_sorted_rows:
  assumes "mset ys = mset xs" and "sorted_wrt (\<lambda>a b. f a \<ge> f b) ys" and "sorted_wrt (\<lambda>a b. f a < (f b :: 'b :: linorder)) xs"
  shows "ys = rev xs"
proof -
  have inj: "inj_on f (set xs)" using assms(3) by (metis distinct_map sorted_wrt_map strict_sorted_iff)
  have asc: "sorted (map f xs)" using assms(3) by (metis sorted_wrt_map strict_sorted_iff)
  have desc: "sorted (map f (rev ys))" using assms(2) by (simp add: sorted_wrt_map sorted_wrt_rev)
  have same: "mset xs = mset (rev ys)" using assms(1) by simp
  have "sort_key f xs = xs" by (rule sort_key_inj_key_eq [OF refl inj asc])
  moreover have "sort_key f xs = rev ys" by (rule sort_key_inj_key_eq [OF same inj desc])
  ultimately show ?thesis by (metis rev_swap)
qed

fun store_run :: "column_texts \<Rightarrow> 'd sql_api \<Rightarrow> message list \<Rightarrow> 'd \<Rightarrow> 'd option" where
  "store_run tx sql [] d = Some d"
| "store_run tx sql (m # ms) d = (case store_message tx sql m d of (Inr _, d') \<Rightarrow> store_run tx sql ms d' | _ \<Rightarrow> None)"

definition in_session :: "session_id \<Rightarrow> message list \<Rightarrow> message list" where
  "in_session sid ms = filter (\<lambda>m. m_session_id m = sid) ms"

lemma row_fields:
  assumes "message_to_row tx m = Inr row"
  shows "mr_session_id row = tx_uuid tx (m_session_id m)" "mr_timestamp row = tx_time tx (m_timestamp m)"
  using assms by (auto simp: message_to_row_def split: sum.splits)

lemma nat_sint_unat:
  assumes "\<not> sint (n :: u64) < 0"
  shows "nat (sint n) = unat n"
proof -
  have lt: "uint n < 2 ^ 64" using uint_bounded [of n] by simp
  have "sint n = take_bit 64 (uint n) - 2 ^ 64 * of_bool (bit (uint n) 63)"
    by (simp add: sint_uint signed_take_bit_eq_take_bit_minus)
  moreover have "take_bit 64 (uint n) = uint n" using lt by (simp add: take_bit_int_eq_self_iff)
  ultimately have "sint n = uint n" using assms lt by (cases "bit (uint n) 63") simp_all
  then show ?thesis by simp
qed

lemma filter_rows:
  assumes "text_laws tx" and "list_all2 (\<lambda>m row. message_to_row tx m = Inr row) ms rows"
  shows "list_all2 (\<lambda>m row. message_to_row tx m = Inr row) (in_session sid ms) (filter (\<lambda>r. mr_session_id r = tx_uuid tx sid) rows)"
  using assms(2)
proof (induction rule: list_all2_induct)
  case (Cons m ms row rows)
  have "mr_session_id row = tx_uuid tx (m_session_id m)" using Cons(1) by (rule row_fields)
  moreover have "tx_uuid tx a = tx_uuid tx b \<longleftrightarrow> a = b" for a b
    using assms(1) unfolding text_laws_def by (metis sum.inject(2))
  ultimately show ?case using Cons by (simp add: in_session_def)
qed (simp add: in_session_def)

lemma row_times:
  assumes "text_laws tx" and "list_all2 (\<lambda>m row. message_to_row tx m = Inr row) ms rows" and "sorted_wrt (\<lambda>a b. m_timestamp a < m_timestamp b) ms"
    and "\<forall>m \<in> set ms. four_digit_year (m_timestamp m)"
  shows "sorted_wrt (\<lambda>a b. mr_timestamp a < mr_timestamp b) rows"
proof -
  have t: "mr_timestamp (rows ! i) = tx_time tx (m_timestamp (ms ! i))" if "i < length ms" for i
    using list_all2_nthD [OF assms(2) that] by (rule row_fields)
  have len: "length rows = length ms" using assms(2) by (simp add: list_all2_lengthD)
  show ?thesis using assms(1,3,4) t unfolding sorted_wrt_iff_nth_less len text_laws_def by (auto simp: all_set_conv_all_nth)
qed

context sql_tables
begin

lemma stored_rows:
  "store_run tx sql ms d = Some d' \<Longrightarrow>
     \<exists>rows. messages_of d' = messages_of d @ rows \<and> list_all2 (\<lambda>m row. message_to_row tx m = Inr row) ms rows"
proof (induction ms arbitrary: d)
  case (Cons m ms)
  obtain row d1 where row: "message_to_row tx m = Inr row" "sq_insert_message sql row d = (True, d1)" "store_run tx sql ms d1 = Some d'"
    using Cons.prems by (auto simp: store_message_def Let_def split: sum.splits prod.splits if_splits)
  obtain rows where "messages_of d' = messages_of d1 @ rows" "list_all2 (\<lambda>m row. message_to_row tx m = Inr row) ms rows"
    using Cons.IH [OF row(3)] by blast
  then show ?case using insert_message [OF row(2)] row(1) by (intro exI [of _ "row # rows"]) simp
qed simp

lemma history_recent:
  assumes laws: "text_laws tx" and empty: "messages_of d0 = []" and run: "store_run tx sql ms d0 = Some d"
    and times: "sorted_wrt (\<lambda>a b. m_timestamp a < m_timestamp b) (in_session sid ms)"
    and years: "\<forall>m \<in> set (in_session sid ms). four_digit_year (m_timestamp m)"
  shows "conv_get_history tx sql sid limit d \<in>
    {Inl Unavailable, Inr (if sint limit < 0 then in_session sid ms
       else drop (length (in_session sid ms) - unat limit) (in_session sid ms))}"
proof (cases "sq_select_messages sql (tx_uuid tx sid) (usize_as_i64 limit) d")
  case None
  then show ?thesis by (simp add: conv_get_history_def)
next
  case (Some out)
  obtain rows where rows: "messages_of d = rows" "list_all2 (\<lambda>m row. message_to_row tx m = Inr row) ms rows"
    using stored_rows [OF run] empty by auto
  let ?rs = "filter (\<lambda>r. mr_session_id r = tx_uuid tx sid) rows" and ?ms = "in_session sid ms"
  note rs = filter_rows [OF laws rows(2), of sid]
  obtain ys where ys: "mset ys = mset ?rs" "sorted_wrt (\<lambda>a b. mr_timestamp a \<ge> mr_timestamp b) ys" "out = sql_limit (usize_as_i64 limit) ys"
    using select_messages [OF Some] rows(1) by (auto simp: recent_rows_def)
  have "ys = rev ?rs" using distinct_sorted_rows [OF ys(1,2) row_times [OF laws rs times years]] .
  then have out: "out = (if sint limit < 0 then rev ?rs else take (unat limit) (rev ?rs))"
    using ys(3) by (auto simp: sql_limit_def usize_as_i64_def nat_sint_unat)
  have rev_rs: "list_all2 (\<lambda>m row. message_to_row tx m = Inr row) (rev ?ms) (rev ?rs)" using rs by simp
  have "list_all2 (\<lambda>m row. message_to_row tx m = Inr row) (if sint limit < 0 then rev ?ms else take (unat limit) (rev ?ms)) out"
    using rev_rs unfolding out by (simp add: list_all2_takeI)
  moreover have "\<forall>m \<in> set (if sint limit < 0 then rev ?ms else take (unat limit) (rev ?ms)). m_session_id m = sid"
    by (auto simp: in_session_def dest: in_set_takeD)
  ultimately have "rows_to_messages tx sid out = Inr (if sint limit < 0 then rev ?ms else take (unat limit) (rev ?ms))"
    by (rule rows_round_trip [OF laws])
  then show ?thesis using Some by (simp add: conv_get_history_def rev_take)
qed

end

section \<open>The tables\<close>

text \<open>The two tables with their primary keys and the reference from messages to sessions; \<open>tb_up\<close> says
  whether the database answers.\<close>

record tables =
  tb_up :: bool
  tb_sessions :: "string list"
  tb_messages :: "message_row list"
  tb_knowledge :: "knowledge_row list"

definition tables_sql :: "tables sql_api" where
  "tables_sql = \<lparr>
     sq_insert_message = (\<lambda>r d. if tb_up d \<and> mr_session_id r \<in> set (tb_sessions d) \<and> mr_id r \<notin> mr_id ` set (tb_messages d)
       then (True, d\<lparr>tb_messages := tb_messages d @ [r]\<rparr>) else (False, d)),
     sq_select_messages = (\<lambda>sid n d. if tb_up d
       then Some (sql_limit n (rev (sort_key mr_timestamp (filter (\<lambda>r. mr_session_id r = sid) (tb_messages d))))) else None),
     sq_insert_knowledge = (\<lambda>k d. if tb_up d \<and> kr_id k \<notin> kr_id ` set (tb_knowledge d)
       then (True, d\<lparr>tb_knowledge := tb_knowledge d @ [k]\<rparr>) else (False, d)),
     sq_delete_knowledge = (\<lambda>i d. if tb_up d
       then (Some (length (filter (\<lambda>r. kr_id r = i) (tb_knowledge d))), d\<lparr>tb_knowledge := filter (\<lambda>r. kr_id r \<noteq> i) (tb_knowledge d)\<rparr>)
       else (None, d)),
     sq_count_knowledge = (\<lambda>d. if tb_up d then Some (int (length (tb_knowledge d))) else None),
     sq_search_knowledge = (\<lambda>pat n d. if tb_up d
       then Some (take n (rev (sort_key (\<lambda>(r, v). (v, kr_created_at r))
              (map (\<lambda>r. (r, row_relevance pat r)) (filter (row_matches pat) (tb_knowledge d)))))) else None)\<rparr>"

lemma sorted_rev_key: "sorted_wrt (\<lambda>a b. f a \<ge> (f b :: 'b :: linorder)) (rev (sort_key f xs))"
  using sorted_sort_key [of f xs] by (simp add: sorted_wrt_rev sorted_wrt_map)

interpretation tb: sql_tables tables_sql tb_messages tb_knowledge
proof
  fix sid n d rows
  assume "sq_select_messages tables_sql sid n d = Some rows"
  then show "recent_rows sid n (tb_messages d) rows"
    unfolding recent_rows_def
    by (intro exI [of _ "rev (sort_key mr_timestamp (filter (\<lambda>r. mr_session_id r = sid) (tb_messages d)))"])
      (auto simp: tables_sql_def sorted_rev_key split: if_splits)
next
  fix pat m d found
  assume found: "sq_search_knowledge tables_sql pat m d = Some found"
  let ?ys = "rev (sort_key (\<lambda>(r, v). (v, kr_created_at r)) (map (\<lambda>r. (r, row_relevance pat r)) (filter (row_matches pat) (tb_knowledge d))))"
  have "sorted_wrt (\<lambda>a b. snd a > snd b \<or> snd a = snd b \<and> kr_created_at (fst a) \<ge> kr_created_at (fst b)) ?ys"
    by (rule sorted_wrt_mono_rel [OF _ sorted_rev_key]) (auto simp: case_prod_unfold)
  then show "ranked_rows pat m (tb_knowledge d) found"
    using found unfolding ranked_rows_def by (intro exI [of _ ?ys]) (auto simp: tables_sql_def split: if_splits)
qed (auto simp: tables_sql_def split: if_splits)


text \<open>Texts that keep the laws: identifiers and times in unary.\<close>

definition unary_texts :: column_texts where
  "unary_texts = \<lparr>tx_uuid = (\<lambda>u. replicate u CHR ''u''), tx_parse_uuid = (\<lambda>s. Inr (length s)),
     tx_time = (\<lambda>t. if t < 0 then replicate (nat (- t)) CHR ''-'' else replicate (nat t) CHR ''t''),
     tx_parse_time = (\<lambda>s. Inr (if s \<noteq> [] \<and> hd s = CHR ''-'' then - int (length s) else int (length s))),
     tx_calls = (\<lambda>cs. if cs = [] then Inr ''[]'' else Inl ''unsupported''), tx_parse_calls = (\<lambda>_. Inr []),
     tx_results = (\<lambda>rs. if rs = [] then Inr ''[]'' else Inl ''unsupported''), tx_parse_results = (\<lambda>_. Inr [])\<rparr>"

lemma replicate_less: "m < n \<Longrightarrow> replicate m (c :: char) < replicate n c"
proof (induction m arbitrary: n)
  case 0
  then show ?case by (cases n) simp_all
next
  case (Suc m)
  then show ?case by (cases n) simp_all
qed

lemma unary_text_laws: "text_laws unary_texts"
proof -
  have "tx_parse_time unary_texts (tx_time unary_texts t) = Inr t" for t
    by (cases "t = 0") (simp_all add: unary_texts_def hd_replicate)
  moreover have "tx_time unary_texts t < tx_time unary_texts u" if "four_digit_year t" "four_digit_year u" "t < u" for t u
    using that by (simp add: unary_texts_def four_digit_year_def replicate_less)
  ultimately show ?thesis by (auto simp: text_laws_def) (auto simp: unary_texts_def split: if_splits)
qed

definition chat_line :: "nat \<Rightarrow> nat \<Rightarrow> message" where
  "chat_line sid t = \<lparr>m_id = t, m_session_id = sid, m_role = User, m_content = ''hi'', m_tool_calls = None, m_tool_results = Some [],
     m_timestamp = int t, m_token_count = 1\<rparr>"

definition two_sessions :: tables where
  "two_sessions = \<lparr>tb_up = True, tb_sessions = [''u'', ''uu''], tb_messages = [], tb_knowledge = []\<rparr>"

definition two_chats :: "message list" where
  "two_chats = [chat_line 1 1, chat_line 2 2, chat_line 1 3, chat_line 2 4, chat_line 1 5]"

lemma rows_not_unavailable: "rows_to_messages tx sid rows \<noteq> Inl Unavailable"
proof (induction rows)
  case (Cons row rows)
  have "row_to_message tx sid row \<noteq> Inl Unavailable" by (auto simp: row_to_message_def split: sum.splits option.splits)
  then show ?case using Cons by (cases "rows_to_messages tx sid rows") (auto split: sum.splits)
qed simp

lemma up_answers: "tb_up d \<Longrightarrow> conv_get_history tx tables_sql sid n d \<noteq> Inl Unavailable"
  using rows_not_unavailable [of tx sid] by (auto simp: conv_get_history_def tables_sql_def map_sum_def split: sum.splits)

lemma two_chats_stored: "\<exists>d. store_run unary_texts tables_sql two_chats two_sessions = Some d \<and> tb_up d"
  by (simp add: two_chats_def two_sessions_def chat_line_def store_message_def message_to_row_def transpose_map_def unary_texts_def tables_sql_def numeral_eq_Suc)


section \<open>Knowledge: capacity and search\<close>

datatype knowledge_call = StoreEntry uuid timestamp string string "string list" "(string \<times> string) list" | DeleteEntry uuid

fun knowledge_apply :: "column_texts \<Rightarrow> knowledge_texts \<Rightarrow> 'd sql_api \<Rightarrow> u64 \<Rightarrow> knowledge_call \<Rightarrow> 'd \<Rightarrow> 'd" where
  "knowledge_apply tx kx sql mx (StoreEntry fresh now title content tags metadata) d =
     snd (store_knowledge tx kx sql mx fresh now title content tags metadata d)"
| "knowledge_apply tx kx sql mx (DeleteEntry i) d = snd (delete_knowledge tx sql i d)"

definition plain_query :: "string \<Rightarrow> bool" where
  "plain_query q \<longleftrightarrow> CHR ''%'' \<notin> set q \<and> CHR ''_'' \<notin> set q"

definition contains_text :: "string \<Rightarrow> string \<Rightarrow> bool" where
  "contains_text q s \<longleftrightarrow> (\<exists>a b c. s = a @ b @ c \<and> map lower_char b = map lower_char q)"

lemma like_percent: "sql_like [CHR ''%''] s"
  by (induction s) (simp_all add: sql_like.simps)

lemma like_prefix:
  "plain_query q \<Longrightarrow> sql_like (q @ ''%'') s \<longleftrightarrow> (\<exists>b c. s = b @ c \<and> map lower_char b = map lower_char q)"
proof (induction q arbitrary: s)
  case Nil
  then show ?case using like_percent [of s] by auto
next
  case (Cons p q)
  then have "p \<noteq> CHR ''%''" "p \<noteq> CHR ''_''" "plain_query q" by (auto simp: plain_query_def)
  note p = this and IH = Cons.IH
  show ?case
  proof (cases s)
    case Nil
    then show ?thesis using p by (simp add: sql_like.simps)
  next
    case (Cons x xs)
    have "sql_like ((p # q) @ ''%'') s \<longleftrightarrow> lower_char p = lower_char x \<and> (\<exists>b c. xs = b @ c \<and> map lower_char b = map lower_char q)"
      using p IH [OF p(3)] by (simp add: Cons sql_like.simps(2) [of p])
    also have "\<dots> \<longleftrightarrow> (\<exists>b c. s = b @ c \<and> map lower_char b = map lower_char (p # q))"
    proof
      assume "lower_char p = lower_char x \<and> (\<exists>b c. xs = b @ c \<and> map lower_char b = map lower_char q)"
      then show "\<exists>b c. s = b @ c \<and> map lower_char b = map lower_char (p # q)"
        unfolding Cons by (metis append_Cons list.simps(9))
    next
      assume "\<exists>b c. s = b @ c \<and> map lower_char b = map lower_char (p # q)"
      then obtain y b c where "s = (y # b) @ c" "lower_char y = lower_char p" "map lower_char b = map lower_char q"
        by (metis list.distinct(1) list.exhaust list.inject list.map_disc_iff list.simps(9))
      then show "lower_char p = lower_char x \<and> (\<exists>b c. xs = b @ c \<and> map lower_char b = map lower_char q)"
        unfolding Cons by auto
    qed
    finally show ?thesis .
  qed
qed

lemma like_any: "sql_like (CHR ''%'' # ps) s \<longleftrightarrow> (\<exists>a s'. s = a @ s' \<and> sql_like ps s')"
proof (induction s)
  case Nil
  then show ?case by (simp add: sql_like.simps)
next
  case (Cons c s)
  have "sql_like (CHR ''%'' # ps) (c # s) \<longleftrightarrow> sql_like ps (c # s) \<or> sql_like (CHR ''%'' # ps) s"
    by (subst sql_like.simps) simp
  then show ?case unfolding Cons by (metis append_Cons append_Nil append_eq_Cons_conv)
qed

lemma like_contains: "plain_query q \<Longrightarrow> sql_like (''%'' @ q @ ''%'') s \<longleftrightarrow> contains_text q s"
  by (auto simp: like_any like_prefix contains_text_def)

context sql_tables
begin

lemma capacity_step:
  assumes "length (knowledge_of d) \<le> unat mx"
  shows "length (knowledge_of (knowledge_apply tx kx sql mx c d)) \<le> unat mx"
proof (cases c)
  case (StoreEntry fresh now title content tags metadata)
  show ?thesis
  proof (cases "snd (store_knowledge tx kx sql mx fresh now title content tags metadata d) = d")
    case False
    then obtain n row ok d' where n: "entry_count sql d = Inr n" "n < mx" and ins: "sq_insert_knowledge sql row d = (ok, d')"
        and d': "snd (store_knowledge tx kx sql mx fresh now title content tags metadata d) = d'"
      by (auto simp: store_knowledge_def Let_def not_le split: sum.splits if_splits prod.splits)
    have "unat mx < 2 ^ LENGTH(64)" by (rule unsigned_less)
    then have "length (knowledge_of d) < 2 ^ 64" using assms by simp
    moreover have "n = of_nat (length (knowledge_of d))"
      using n(1) count_rows [of d] by (auto simp: entry_count_def split: option.splits)
    ultimately have "unat n = length (knowledge_of d)" by (simp add: unat_of_nat_small)
    then show ?thesis using insert_knowledge [OF ins] n(2) assms d' StoreEntry by (auto simp: word_less_nat_alt)
  qed (simp add: StoreEntry assms)
next
  case (DeleteEntry i)
  obtain g d' where g: "sq_delete_knowledge sql (tx_uuid tx i) d = (g, d')" by fastforce
  have "length (knowledge_of d') \<le> length (knowledge_of d)"
    using delete_rows [OF g] by (cases g) auto
  then show ?thesis using assms g DeleteEntry by (cases g) (auto simp: delete_knowledge_def)
qed

lemma search_sound:
  assumes found: "search_knowledge tx kx sql nil_uuid query limit d = Inr rs" and plain: "plain_query query"
  shows "length rs \<le> unat limit \<and> sorted_wrt (\<lambda>a b. sr_relevance_tenths a \<ge> sr_relevance_tenths b) rs \<and>
    (\<forall>r \<in> set rs. \<exists>row \<in> set (knowledge_of d). sr_title r = kr_title row \<and> sr_content r = kr_content row \<and>
       (contains_text query (kr_title row) \<or> contains_text query (kr_content row) \<or> (\<exists>t. kr_tags row = Some t \<and> contains_text query t)))"
proof (cases "str_trim query = []")
  case True
  then show ?thesis using found by (simp add: search_knowledge_def)
next
  case False
  let ?pat = "''%'' @ query @ ''%''"
  obtain rows where rows: "sq_search_knowledge sql ?pat (unat limit) d = Some rows" "rs = map (row_to_result tx kx nil_uuid) rows"
    using found False by (auto simp: search_knowledge_def split: option.splits)
  obtain ys where ys: "mset ys = mset (map (\<lambda>r. (r, row_relevance ?pat r)) (filter (row_matches ?pat) (knowledge_of d)))"
      "sorted_wrt (\<lambda>a b. snd a > snd b \<or> snd a = snd b \<and> kr_created_at (fst a) \<ge> kr_created_at (fst b)) ys" "rows = take (unat limit) ys"
    using search_rows [OF rows(1)] by (auto simp: ranked_rows_def)
  have "sorted_wrt (\<lambda>a b. snd a \<ge> snd b) rows"
    unfolding ys(3) by (rule sorted_wrt_take, rule sorted_wrt_mono_rel [OF _ ys(2)]) auto
  then have sorted: "sorted_wrt (\<lambda>a b. sr_relevance_tenths a \<ge> sr_relevance_tenths b) rs"
    unfolding rows(2) sorted_wrt_map by (rule sorted_wrt_mono_rel [rotated]) (auto simp: row_to_result_def split: prod.splits)
  have "row \<in> set (knowledge_of d) \<and> row_matches ?pat row" if "(row, v) \<in> set rows" for row v
  proof -
    have "(row, v) \<in> set ys" using that unfolding ys(3) by (rule in_set_takeD)
    then show ?thesis using mset_eq_setD [OF ys(1)] by auto
  qed
  then have "\<exists>row \<in> set (knowledge_of d). sr_title r = kr_title row \<and> sr_content r = kr_content row \<and> row_matches ?pat row" if "r \<in> set rs" for r
    using that unfolding rows(2) by (fastforce simp: row_to_result_def)
  then show ?thesis
    using sorted rows(2) ys(3) unfolding row_matches_def like_column_def
    by (fastforce simp: like_contains [OF plain, simplified] split: option.splits)
qed

end

text \<open>
  the knowledge table never holds more entries than the store is configured for, over any sequence of
  stores and deletions made one after the other.
\<close>

theorem knowledge_capacity:
  assumes "sql_tables sql messages_of knowledge_of" and "knowledge_of d = []"
  shows "length (knowledge_of (fold (knowledge_apply tx kx sql mx) calls d)) \<le> unat mx"
proof -
  have "length (knowledge_of (fold (knowledge_apply tx kx sql mx) calls d)) \<le> unat mx" if "length (knowledge_of d) \<le> unat mx" for d
    using that by (induction calls arbitrary: d) (simp_all add: sql_tables.capacity_step [OF assms(1)])
  then show ?thesis using assms(2) by simp
qed

text \<open>
  a search answers at most \<^verbatim>\<open>limit\<close> entries by falling relevance, and for a query without the wildcards
  of \<open>LIKE\<close> every answer is a stored entry whose title, content or tags contain the query in
  either case of letters.
\<close>

theorem knowledge_search_sound:
  assumes "sql_tables sql messages_of knowledge_of" and "search_knowledge tx kx sql nil_uuid query limit d = Inr rs"
    and "plain_query query"
  shows "length rs \<le> unat limit \<and> sorted_wrt (\<lambda>a b. sr_relevance_tenths a \<ge> sr_relevance_tenths b) rs \<and>
    (\<forall>r \<in> set rs. \<exists>row \<in> set (knowledge_of d). sr_title r = kr_title row \<and> sr_content r = kr_content row \<and>
       (contains_text query (kr_title row) \<or> contains_text query (kr_content row) \<or> (\<exists>t. kr_tags row = Some t \<and> contains_text query t)))"
  using assms by (rule sql_tables.search_sound)

text \<open>A query with a wildcard matches more: an underscore alone finds every entry that has a title.\<close>

lemma underscore_matches_all: "kr_title r \<noteq> [] \<Longrightarrow> row_matches (''%'' @ ''_'' @ ''%'') r"
proof -
  assume "kr_title r \<noteq> []"
  then obtain c s where "kr_title r = c # s" by (cases "kr_title r") auto
  moreover have "sql_like (''_'' @ ''%'') (c # s)" using like_percent by (simp add: sql_like.simps(2) [of "CHR ''_''"])
  ultimately show ?thesis by (auto simp: row_matches_def like_any intro: exI [of _ "[]"])
qed

definition plain_knowledge_texts :: knowledge_texts where
  "plain_knowledge_texts = \<lparr>kx_tags = (\<lambda>ts. Some (concat ts)), kx_parse_tags = (\<lambda>s. Some [s]), kx_metadata = (\<lambda>_. None), kx_parse_metadata = (\<lambda>_. None)\<rparr>"

definition stored_knowledge :: tables where
  "stored_knowledge = fold (knowledge_apply unary_texts plain_knowledge_texts tables_sql 1)
     [StoreEntry 1 1 ''Rust'' ''a language'' [] [], StoreEntry 2 2 ''more'' ''text'' [] []] two_sessions"

theorem knowledge_capacity_witness: "length (tb_knowledge stored_knowledge) \<le> 1"
proof -
  have "tb_knowledge two_sessions = []" by (simp add: two_sessions_def)
  from knowledge_capacity [OF tb.sql_tables_axioms this, where mx = 1] show ?thesis unfolding stored_knowledge_def unat_1 .
qed

theorem knowledge_search_sound_witness:
  "\<exists>rs. search_knowledge unary_texts plain_knowledge_texts tables_sql 0 ''rust'' 5 stored_knowledge = Inr rs \<and> length rs \<le> 5"
proof -
  have up: "tb_up (fold (knowledge_apply tx kx tables_sql mx) cs d) = tb_up d" for cs tx kx mx and d :: tables
  proof (induction cs arbitrary: d)
    case (Cons c cs)
    have "tb_up (knowledge_apply tx kx tables_sql mx c d) = tb_up d"
      by (cases c) (auto simp: store_knowledge_def delete_knowledge_def entry_count_def tables_sql_def Let_def split: option.splits)
    then show ?case using Cons by simp
  qed simp
  have "tb_up stored_knowledge" unfolding stored_knowledge_def up by (simp add: two_sessions_def)
  then obtain rs where rs: "search_knowledge unary_texts plain_knowledge_texts tables_sql 0 ''rust'' 5 stored_knowledge = Inr rs"
    by (auto simp: search_knowledge_def tables_sql_def str_trim_def is_ws_def split: option.splits if_splits)
  have "plain_query ''rust''" by (simp add: plain_query_def)
  then have "length rs \<le> 5" using knowledge_search_sound [OF tb.sql_tables_axioms rs] by simp
  then show ?thesis using rs by blast
qed

end
