(* ===== verification/Spec2Isabelle.thy ===== *)
theory Spec2Isabelle
  imports Dependency_Props Retry Time_Condition_Props Scheduler_Triggers Brute_Force Session_Tokens Rbac
    Config_Props Agent_Core Session_Context Supervisor Undo_History Messaging Skill_Curator Plugin_Manager Audit_Log Api_Routes Shell_Executor Diff_Tracker Alerting Tui_Client Memory_Store
begin

text \<open>
  \<^bold>\<open>A verification development for XenoClaw\<close>, a self-hosted AI agent platform written in Rust
  (\<^verbatim>\<open>crates/\<close>). File names below are relative to that directory.

  \<^bold>\<open>The program.\<close> A request of a user, from the web server, the terminal or a messaging
  platform, is authenticated, authorised and rate limited (\<^verbatim>\<open>security-layer\<close>), mapped to a session
  (\<^verbatim>\<open>messaging-integration\<close>, \<^verbatim>\<open>agent-core/session_manager.rs\<close>) and handed to the agent runtime
  (\<^verbatim>\<open>agent-core/runtime.rs\<close>), which asks a language model through the router (\<^verbatim>\<open>llm-router\<close>) and
  executes the tools the model calls (\<^verbatim>\<open>agent-core/tool_registry.rs\<close>), among them the file tools
  of \<^verbatim>\<open>coding-module\<close>, inside the sandbox of \<^verbatim>\<open>security-layer/sandbox.rs\<close>. Independently a
  scheduler (\<^verbatim>\<open>task-scheduler\<close>) runs tasks by cron expressions, time conditions, webhooks, file
  changes and dependencies, a supervisor (\<^verbatim>\<open>process-supervisor\<close>) restarts the agent, and the
  session state is written to a database with an in-memory fallback (\<^verbatim>\<open>memory-store\<close>). Plugins
  (\<^verbatim>\<open>plugin-system\<close>) and skills (\<^verbatim>\<open>skills\<close>) extend what the agent can do. The web server is
  \<^verbatim>\<open>api-server\<close>, the terminal client \<^verbatim>\<open>tui\<close>. All settings come from one configuration
  (\<^verbatim>\<open>common/config\<close>).

  \<^bold>\<open>How code is modelled.\<close> A struct is a \<open>record\<close>, an enum a \<open>datatype\<close>, a \<open>Result\<close> a sum with
  the error on the left, an \<open>Option\<close> an \<open>option\<close>; a panic is an outer \<open>None\<close>. Integers whose width
  matters are words; \<^verbatim>\<open>usize\<close> lengths are \<open>nat\<close>. Text is \<open>string\<close>; a \<^verbatim>\<open>HashMap\<close> is the association
  list of \<open>Std_Collections\<close>, whose iteration order is its list order or, where a result could
  depend on it, an argument. Clocks, random bytes, new identifiers and the answers of external
  code are arguments or a world that is threaded through. Each operation of a type behind a lock
  is one step; where the code releases the lock in between, the operation is split into its
  steps and the theorems quantify over the interleavings.

  \<^bold>\<open>Shared theories.\<close> \<open>Prelude\<close> (words, time, lists), \<open>Rust_Strings\<close>, \<open>Rust_Text\<close>, \<open>Rust_Path\<close>
  and \<open>Rust_Fs\<close> (what the code uses of \<^verbatim>\<open>std\<close>: text, paths, file operations), \<open>Std_Collections\<close> (hash
  maps, bounded queues), \<open>Json\<close>, \<open>Models\<close> (\<^verbatim>\<open>common/models.rs\<close> and \<^verbatim>\<open>errors.rs\<close>).

  \<^bold>\<open>Interfaces.\<close> Locales state what one part relies on in another: \<open>keyed_store\<close> (lookup after
  insert and remove; interpreted by the hash map), \<open>completion_graph\<close> (what completing a task
  reports, interpreted by the dependency graph and used by the scheduler), \<open>expiring_store\<close> (a
  clean-up cannot be observed; interpreted by the rate limiter, the brute-force detector and the
  session tokens), \<open>file_system\<close> (what a write, a removal and a path resolution do to the files;
  interpreted by the link-free part of the concrete file system \<open>vfs\<close> with symbolic links, and
  used by the file operations, the undo history and the uploads), \<open>skill_files\<close> (the directory
  operations under the skill store, interpreted by a flat directory), \<open>sql_tables\<close> (what the SQL
  statements mean for the rows, interpreted by tables with their keys).

  \<^bold>\<open>Components.\<close>
  \<^item> \<^verbatim>\<open>task-scheduler\<close>: \<open>Dependency_Graph\<close> holds the operations of \<^verbatim>\<open>dependency.rs\<close>;
    \<open>Dependency_Search\<close>, \<open>Dependency_Invariant\<close>, \<open>Dependency_Topo\<close> and \<open>Dependency_Props\<close> show cycle
    detection, the depth bound, the graph invariant with rollback, and the topological order to
    be right. \<open>Retry\<close>, \<open>Time_Condition\<close> with \<open>Time_Condition_Props\<close>, \<open>Cron_Schedule\<close>, \<open>Webhook\<close>
    and \<open>File_Watcher\<close> model the files of those names. \<open>Scheduler\<close> composes them
    (\<^verbatim>\<open>scheduler.rs\<close>); \<open>Scheduler_Run\<close> shows that cascades return and respect dependencies,
    \<open>Scheduler_Invariant\<close> and \<open>Scheduler_Props\<close> the invariant of all reachable states, and
    \<open>Scheduler_Triggers\<close> what the cron, time and webhook triggers do over time.
  \<^item> \<^verbatim>\<open>security-layer\<close>: \<open>Expiring_Store\<close>, \<open>Rate_Limit\<close>, \<open>Brute_Force\<close>, \<open>Session_Tokens\<close>, \<open>Rbac\<close>
    and \<open>Sandbox\<close>: the limit in every sliding window, blocking, session life time as an abstract
    specification, authorisation monotone in the role, and what the path check accepts;
    \<open>Resource_Enforcer\<close> (tracked processes and their limits), \<open>Credentials\<close> (API keys and passwords over
    a cryptographic parameter) and \<open>Audit_Log\<close>.
  \<^item> \<^verbatim>\<open>common/config\<close>: \<open>Config\<close> (data and defaults), \<open>Config_Validation\<close> (every rule with its
    message, against a declarative predicate), \<open>Config_Load\<close> (overrides, load, reload) and
    \<open>Config_Props\<close>.
  \<^item> \<^verbatim>\<open>llm-router\<close>: \<open>Llm_Types\<close> and \<open>Router\<close> (failover in the order of priorities).
  \<^item> \<^verbatim>\<open>agent-core\<close>: \<open>Event_Bus\<close>, \<open>Tool_Registry\<close>, \<open>Agent_Loop\<close> (the loop of model answers and
    tool calls), \<open>Agent_Core\<close> (start, requests, shutdown as a step relation) and
    \<open>Session_Context\<close> (contexts, token counts, summaries).
  \<^item> \<^verbatim>\<open>memory-store\<close>: \<open>Session_State\<close> (the fallback store and its retry loops) and \<open>Memory_Store\<close>
    (conversations and knowledge: the history of a session is its last messages as stored, the capacity, and
    what a search finds).
  \<^item> \<^verbatim>\<open>process-supervisor\<close>: \<open>Supervisor\<close> (health, statistics, start, stop, restart, loops).
  \<^item> \<^verbatim>\<open>coding-module\<close>: \<open>File_Ops\<close> and \<open>Undo_History\<close> (file tools in the sandbox, and undo as a
    rollback on any file system that keeps the contract), \<open>Shell_Executor\<close> (the slots of concurrent
    commands as a step relation around a compare-and-exchange loop, captured and streamed output) and
    \<open>Diff_Tracker\<close> (unified diffs as correct patches, session summaries).
  \<^item> \<^verbatim>\<open>messaging-integration\<close>: \<open>Messaging\<close> (commands, the session router, identities, delivery).
  \<^item> \<^verbatim>\<open>skills\<close>: \<open>Skill_Doc\<close> (documents with front matter, printed and parsed back), \<open>Skill_Store\<close> (save, look
    up, archive) and \<open>Skill_Curator\<close> (the actions of the curator touch only what they name).
  \<^item> \<^verbatim>\<open>plugin-system\<close>: \<open>Plugins\<close> (manifests, the plugin interface, handlers) and \<open>Plugin_Manager\<close> (load, unload,
    reload and the watcher; unloading leaves nothing behind).
  \<^item> \<^verbatim>\<open>api-server\<close>: \<open>Api_Auth\<close> (errors, authentication middleware, login: which requests are
    admitted), \<open>Uploads\<close> (multipart uploads stay in their directory), \<open>Web_Socket\<close> (replay after a reconnect,
    the chat connection) and \<open>Api_Routes\<close> (all other routes; sessions refine a map).
  \<^item> \<^verbatim>\<open>common/alerting.rs\<close>: \<open>Alerting\<close> (rules and their cooldown over time).
  \<^item> \<^verbatim>\<open>tui\<close>: \<open>Tui_App\<close> (the state, keys on UTF-8 bytes, slash commands, server events) and \<open>Tui_Client\<close> (the
    WebSocket task as a state machine, the status poll, the keys of inline mode).

  \<^bold>\<open>Bounds and fuel.\<close> The depth-first searches of the dependency graph take as fuel the number of
  nodes plus one, shown to be enough on every graph; the cascade of completions in the scheduler
  takes fuel from the graph and is shown to return in every reachable state, since a chain of
  dependencies has at most \<open>MAX_DEPENDENCY_DEPTH\<close> (10) tasks; the message loop counts down
  \<^verbatim>\<open>max_tool_iterations\<close>; path resolution in \<open>vfs\<close> follows at most 40 links, as Linux does. The
  loops that may run forever in the code (monitoring, retrying the database, serving triggers)
  are step relations.

  \<^bold>\<open>Not modelled\<close>, and why: the transport of the HTTP server (axum, towards which the routes are functions
  from requests to responses), drawing on the terminal, the start-up binary, interactive set-up, the
  tools and the MCP client and server of \<^verbatim>\<open>xenoclaw\<close>, git, language servers and the diff
  renderer of \<^verbatim>\<open>coding-module\<close>, the HTTP clients of model providers and messaging platforms, the set-up of
  the database file and the WebAssembly runtime: they are input and output or third-party code, and where
  modelled code calls them they are parameters with their documented behaviour as named hypotheses.
  Logging and metrics are left out of the modelled operations.
\<close>

section \<open>Properties that span components\<close>


definition blocked_bf :: "nat brute_force" where
  "blocked_bf = \<lparr>bf_config = default_brute_force_config,
     bf_records = [(1, \<lparr>attempts = [2], blocked_until = Some 20\<rparr>), (2, \<lparr>attempts = [1], blocked_until = Some 5\<rparr>)]\<rparr>"


lemma route_loop_attempts:
  "fst (route_loop clock call es failed entries w) = Inl (AllProvidersFailed as) \<Longrightarrow>
     map pa_provider as = map pa_provider failed @ map pe_name es"
  by (induction es arbitrary: failed entries w) (auto simp: Let_def split: prod.splits sum.splits)



end
